(* ===== verification/T0_Prelude.thy ===== *)
theory T0_Prelude
  imports Main "HOL-Library.Word" "HOL-Library.AList"
begin

text \<open>
  Shared vocabulary of the development: machine integers, the decimal and debug texts the
  Rust standard library prints and parses, hash maps, and message channels.

  Conventions.
  \<^item> A Rust \<open>String\<close> or \<open>&str\<close> is a HOL \<open>string\<close> (a list of bytes of its UTF-8 text).
  \<^item> A \<open>HashMap\<close> is an association list with distinct keys.  Rust leaves the iteration
    order of a \<open>HashMap\<close> open; here the order is the list's, and every statement about
    an iteration is made for an arbitrary list, so for every order.
  \<^item> An \<open>mpsc\<close> channel is the list of the messages not yet received together with the
    flag that tells whether its receiver still exists (\<open>send\<close> fails exactly when it does not).
\<close>

named_theorems hm_simps \<open>rewrite rules of the hash map operations\<close>
named_theorems res_simps \<open>rewrite rules of the result type\<close>
named_theorems t0_inv \<open>invariant preservation, one rule per operation\<close>

type_synonym u8 = "8 word"
type_synonym u16 = "16 word"
type_synonym u64 = "64 word"
type_synonym bytes = "u8 list"

section \<open>Decimal and debug texts of the standard library\<close>

definition digit_char :: "nat \<Rightarrow> char" where
  "digit_char d = char_of (48 + d)"

fun show_nat :: "nat \<Rightarrow> string" where
  "show_nat n = (if n < 10 then [digit_char n] else show_nat (n div 10) @ [digit_char (n mod 10)])"

declare show_nat.simps [simp del]

definition is_digit :: "char \<Rightarrow> bool" where
  "is_digit c \<longleftrightarrow> 48 \<le> (of_char c :: nat) \<and> (of_char c :: nat) \<le> 57"

definition digit_val :: "char \<Rightarrow> nat" where
  "digit_val c = of_char c - 48"

definition digits_val :: "string \<Rightarrow> nat" where
  "digits_val ds = foldl (\<lambda>n c. 10 * n + digit_val c) 0 ds"

text \<open>\<open>str::parse\<close> at an unsigned type of \<open>w\<close> bits: an optional plus sign, digits only, no overflow.\<close>

definition parse_uint :: "nat \<Rightarrow> string \<Rightarrow> nat option" where
  "parse_uint w s =
     (case s of [] \<Rightarrow> None
      | c # r \<Rightarrow>
          (let ds = (if c = CHR ''+'' \<and> r \<noteq> [] then r else s)
           in if list_all is_digit ds \<and> digits_val ds < 2 ^ w then Some (digits_val ds) else None))"

definition show_u16 :: "u16 \<Rightarrow> string" where
  "show_u16 n = show_nat (unat n)"

definition show_u64 :: "u64 \<Rightarrow> string" where
  "show_u64 n = show_nat (unat n)"

definition parse_u16 :: "string \<Rightarrow> u16 option" where
  "parse_u16 s = map_option of_nat (parse_uint 16 s)"

definition parse_u64 :: "string \<Rightarrow> u64 option" where
  "parse_u64 s = map_option of_nat (parse_uint 64 s)"

text \<open>\<open>{:?}\<close> of a string: quoted, with the escapes of \<open>str::escape_debug\<close> on ASCII text.\<close>

definition hex_char :: "nat \<Rightarrow> char" where
  "hex_char d = (if d < 10 then char_of (48 + d) else char_of (87 + d))"

definition escape_char :: "char \<Rightarrow> string" where
  "escape_char c =
     (let n = (of_char c :: nat) in
      if n = 0 then [CHR 0x5C, CHR ''0'']
      else if n = 9 then [CHR 0x5C, CHR ''t'']
      else if n = 10 then [CHR 0x5C, CHR ''n'']
      else if n = 13 then [CHR 0x5C, CHR ''r'']
      else if n = 34 then [CHR 0x5C, CHR 0x22]
      else if n = 92 then [CHR 0x5C, CHR 0x5C]
      else if n < 16 then [CHR 0x5C, CHR ''u'', CHR ''{'', hex_char n, CHR ''}'']
      else if n < 32 \<or> n = 127 then
        [CHR 0x5C, CHR ''u'', CHR ''{'', hex_char (n div 16), hex_char (n mod 16), CHR ''}'']
      else [c])"

definition debug_str :: "string \<Rightarrow> string" where
  "debug_str s = CHR 0x22 # concat (map escape_char s) @ [CHR 0x22]"

definition debug_opt :: "('a \<Rightarrow> string) \<Rightarrow> 'a option \<Rightarrow> string" where
  "debug_opt f v = (case v of None \<Rightarrow> ''None'' | Some x \<Rightarrow> ''Some('' @ f x @ '')'')"

text \<open>\<open>Vec<String>::join\<close>.\<close>

fun join_strs :: "string \<Rightarrow> string list \<Rightarrow> string" where
  "join_strs sep [] = []"
| "join_strs sep [s] = s"
| "join_strs sep (s # t # ss) = s @ sep @ join_strs sep (t # ss)"

text \<open>\<open>str::split(c)\<close> for one character: always at least one part.\<close>

fun split_on :: "char \<Rightarrow> string \<Rightarrow> string list" where
  "split_on c [] = [[]]"
| "split_on c (x # xs) =
     (if x = c then [] # split_on c xs
      else (case split_on c xs of [] \<Rightarrow> [[x]] | p # ps \<Rightarrow> (x # p) # ps))"

section \<open>Hash maps\<close>

type_synonym ('k, 'v) hashmap = "('k \<times> 'v) list"

definition hm_get :: "('k, 'v) hashmap \<Rightarrow> 'k \<Rightarrow> 'v option" where
  "hm_get m k = map_of m k"

definition hm_insert :: "'k \<Rightarrow> 'v \<Rightarrow> ('k, 'v) hashmap \<Rightarrow> ('k, 'v) hashmap" where
  "hm_insert k v m = AList.update k v m"

definition hm_remove :: "'k \<Rightarrow> ('k, 'v) hashmap \<Rightarrow> ('k, 'v) hashmap" where
  "hm_remove k m = AList.delete k m"

definition hm_inv :: "('k, 'v) hashmap \<Rightarrow> bool" where
  "hm_inv m \<longleftrightarrow> distinct (map fst m)"

definition hm_values :: "('k, 'v) hashmap \<Rightarrow> 'v list" where
  "hm_values m = map snd m"

text \<open>\<open>collect()\<close> of key/value pairs: a later pair replaces an earlier one with the same key.\<close>

definition hm_collect :: "('k \<times> 'v) list \<Rightarrow> ('k, 'v) hashmap" where
  "hm_collect kvs = foldl (\<lambda>m kv. hm_insert (fst kv) (snd kv) m) [] kvs"

section \<open>Channels\<close>

record 'a chan =
  queue :: "'a list"
  receiver_alive :: bool

definition new_chan :: "'a chan" where
  "new_chan = \<lparr>queue = [], receiver_alive = True\<rparr>"

definition chan_send :: "'a \<Rightarrow> 'a chan \<Rightarrow> 'a chan option" where
  "chan_send x c = (if receiver_alive c then Some (c\<lparr>queue := queue c @ [x]\<rparr>) else None)"

section \<open>Lemmas: decimal texts\<close>

lemma of_char_digit_char: "d < 10 \<Longrightarrow> (of_char (digit_char d) :: nat) = 48 + d"
  by (simp add: digit_char_def)

lemma is_digit_digit_char [simp]: "d < 10 \<Longrightarrow> is_digit (digit_char d)"
  by (simp add: is_digit_def of_char_digit_char)

lemma digit_val_digit_char [simp]: "d < 10 \<Longrightarrow> digit_val (digit_char d) = d"
  by (simp add: digit_val_def of_char_digit_char)

lemma show_nat_nonempty [simp]: "show_nat n \<noteq> []"
  by (subst show_nat.simps) simp

lemma show_nat_digits: "list_all is_digit (show_nat n)"
proof (induction n rule: show_nat.induct)
  case (1 n)
  then show ?case by (subst show_nat.simps) auto
qed

lemma show_u64_digits: "list_all is_digit (show_u64 n)" "show_u64 n \<noteq> []"
  by (simp_all add: show_u64_def show_nat_digits)

lemma digits_val_snoc: "digits_val (ds @ [c]) = 10 * digits_val ds + digit_val c"
  by (simp add: digits_val_def)

lemma digits_val_show_nat [simp]: "digits_val (show_nat n) = n"
proof (induction n rule: show_nat.induct)
  case (1 n)
  show ?case
  proof (cases "n < 10")
    case True
    then show ?thesis by (subst show_nat.simps) (simp add: digits_val_def)
  next
    case False
    with 1 have "digits_val (show_nat (n div 10)) = n div 10" by simp
    with False show ?thesis by (subst show_nat.simps) (simp add: digits_val_snoc)
  qed
qed

lemma show_nat_inj: "show_nat m = show_nat n \<longleftrightarrow> m = n"
  by (metis digits_val_show_nat)

lemma plus_not_digit: "\<not> is_digit (CHR ''+'')"
  by (simp add: is_digit_def)

lemma parse_uint_digits:
  assumes "ds \<noteq> []" and "list_all is_digit ds"
  shows "parse_uint w ds = (if digits_val ds < 2 ^ w then Some (digits_val ds) else None)"
  using assms plus_not_digit by (cases ds) (auto simp: parse_uint_def Let_def)

lemma parse_uint_show_nat: "parse_uint w (show_nat n) = (if n < 2 ^ w then Some n else None)"
  by (simp add: parse_uint_digits show_nat_digits)

lemma parse_u16_show [simp]: "parse_u16 (show_u16 n) = Some n"
  using unsigned_less[of n, where 'a = nat] by (simp add: parse_u16_def show_u16_def parse_uint_show_nat)

lemma parse_u64_show [simp]: "parse_u64 (show_u64 n) = Some n"
  using unsigned_less[of n, where 'a = nat] by (simp add: parse_u64_def show_u64_def parse_uint_show_nat)

lemma digit_not_colon: "is_digit c \<Longrightarrow> c \<noteq> CHR '':''"
  by (auto simp: is_digit_def)

section \<open>Lemmas: splitting\<close>

lemma split_on_notin: "c \<notin> set s \<Longrightarrow> split_on c s = [s]"
  by (induction s) auto

lemma split_on_append: "c \<notin> set a \<Longrightarrow> split_on c (a @ c # b) = a # split_on c b"
  by (induction a) auto

lemma length_split_on: "length (split_on c s) = Suc (length (filter ((=) c) s))"
  by (induction s) (auto split: list.splits)

lemma find_append: "find P (xs @ ys) = (case find P xs of Some x \<Rightarrow> Some x | None \<Rightarrow> find P ys)"
  by (induction xs) auto

section \<open>Lemmas: debug texts\<close>

definition plain_char :: "char \<Rightarrow> bool" where
  "plain_char c \<longleftrightarrow> escape_char c = [c] \<and> c \<noteq> CHR 0x22"

lemma debug_str_plain: "list_all plain_char s \<Longrightarrow> debug_str s = CHR 0x22 # s @ [CHR 0x22]"
proof -
  assume "list_all plain_char s"
  then have "concat (map escape_char s) = s" by (induction s) (auto simp: plain_char_def)
  then show ?thesis by (simp add: debug_str_def)
qed

lemma append_quote_inject:
  assumes "list_all plain_char a" and "list_all plain_char b"
  shows "a @ CHR 0x22 # r = b @ CHR 0x22 # t \<longleftrightarrow> a = b \<and> r = t"
  using assms
proof (induction a arbitrary: b)
  case Nil
  then show ?case by (cases b) (auto simp: plain_char_def)
next
  case (Cons x a)
  then show ?case by (cases b) (auto simp: plain_char_def)
qed

section \<open>The hash map interface and its implementation\<close>

text \<open>
  What the program relies on when it uses \<open>std::collections::HashMap\<close>, whatever the
  iteration order of \<open>entries\<close> is.
\<close>

locale hash_map =
  fixes empty :: "'m"
    and get :: "'m \<Rightarrow> 'k \<Rightarrow> 'v option"
    and insert :: "'k \<Rightarrow> 'v \<Rightarrow> 'm \<Rightarrow> 'm"
    and remove :: "'k \<Rightarrow> 'm \<Rightarrow> 'm"
    and entries :: "'m \<Rightarrow> ('k \<times> 'v) list"
    and inv :: "'m \<Rightarrow> bool"
  assumes inv_empty: "inv empty"
    and inv_insert: "inv m \<Longrightarrow> inv (insert k v m)"
    and inv_remove: "inv m \<Longrightarrow> inv (remove k m)"
    and get_empty: "get empty j = None"
    and get_insert: "get (insert k v m) j = (if j = k then Some v else get m j)"
    and get_remove: "get (remove k m) j = (if j = k then None else get m j)"
    and entries_get: "inv m \<Longrightarrow> (k, v) \<in> set (entries m) \<longleftrightarrow> get m k = Some v"
    and entries_distinct: "inv m \<Longrightarrow> distinct (map fst (entries m))"
begin

definition collect :: "('k \<times> 'v) list \<Rightarrow> 'm" where
  "collect kvs = foldl (\<lambda>m kv. insert (fst kv) (snd kv) m) empty kvs"

lemma get_foldl_insert:
  "get (foldl (\<lambda>m kv. insert (fst kv) (snd kv) m) m kvs) k =
     (case map_of (rev kvs) k of Some v \<Rightarrow> Some v | None \<Rightarrow> get m k)"
  by (induction kvs arbitrary: m) (auto simp: get_insert map_add_def split: option.splits)

lemma collect_last_wins: "get (collect kvs) k = map_of (rev kvs) k"
  by (simp add: collect_def get_foldl_insert get_empty split: option.splits)

lemma inv_collect: "inv (collect kvs)"
proof -
  have "inv m \<Longrightarrow> inv (foldl (\<lambda>m kv. insert (fst kv) (snd kv) m) m kvs)" for m
    by (induction kvs arbitrary: m) (auto intro: inv_insert)
  then show ?thesis by (simp add: collect_def inv_empty)
qed

lemma values_get: "inv m \<Longrightarrow> v \<in> set (map snd (entries m)) \<longleftrightarrow> (\<exists>k. get m k = Some v)"
  by (force simp: entries_get[symmetric])

lemma absent_key: "inv m \<Longrightarrow> get m k = None \<longleftrightarrow> k \<notin> fst ` set (entries m)"
proof (cases "get m k")
  case None
  assume "inv m"
  with None show ?thesis by (auto simp: entries_get)
next
  case (Some v)
  assume "inv m"
  with Some have "(k, v) \<in> set (entries m)" by (simp add: entries_get)
  with Some show ?thesis by force
qed

end

interpretation hm: hash_map "[]" hm_get hm_insert hm_remove "\<lambda>m. m" hm_inv
proof
  fix m :: "('k, 'v) hashmap" and k j :: 'k and v :: 'v
  show "hm_inv []" by (simp add: hm_inv_def)
  show "hm_inv m \<Longrightarrow> hm_inv (hm_insert k v m)"
    by (simp only: hm_inv_def hm_insert_def) (rule distinct_update)
  show "hm_inv m \<Longrightarrow> hm_inv (hm_remove k m)"
    by (simp only: hm_inv_def hm_remove_def) (rule distinct_delete)
  show "hm_get [] j = None" by (simp add: hm_get_def)
  show "hm_get (hm_insert k v m) j = (if j = k then Some v else hm_get m j)"
    by (simp add: hm_get_def hm_insert_def update_conv')
  show "hm_get (hm_remove k m) j = (if j = k then None else hm_get m j)"
    by (simp add: hm_get_def hm_remove_def delete_conv')
  show "hm_inv m \<Longrightarrow> (k, v) \<in> set m \<longleftrightarrow> hm_get m k = Some v"
    by (simp add: hm_inv_def hm_get_def)
  show "hm_inv m \<Longrightarrow> distinct (map fst m)" by (simp add: hm_inv_def)
qed

lemma hm_collect_eq: "hm_collect = hm.collect"
  by (simp add: hm_collect_def hm.collect_def fun_eq_iff)

lemmas [simp, hm_simps] = hm.inv_empty hm.inv_insert hm.inv_remove hm.get_empty
  hm.get_insert hm.get_remove

lemma hm_collect_get: "hm_get (hm_collect kvs) k = map_of (rev kvs) k"
  by (simp add: hm_collect_eq hm.collect_last_wins)

lemma hm_collect_inv [simp]: "hm_inv (hm_collect kvs)"
  by (simp add: hm_collect_eq hm.inv_collect)

lemma hm_get_in_set: "hm_inv m \<Longrightarrow> (k, v) \<in> set m \<longleftrightarrow> hm_get m k = Some v"
  by (rule hm.entries_get)

lemma hm_values_get: "hm_inv m \<Longrightarrow> v \<in> set (hm_values m) \<longleftrightarrow> (\<exists>k. hm_get m k = Some v)"
  using hm.values_get by (simp add: hm_values_def)

lemma hm_get_set: "hm_get m k = Some v \<Longrightarrow> (k, v) \<in> set m"
  by (simp add: hm_get_def map_of_SomeD)

section \<open>Lemmas: channels\<close>

lemma chan_send_Some: "chan_send x c = Some c' \<longleftrightarrow> receiver_alive c \<and> c' = c\<lparr>queue := queue c @ [x]\<rparr>"
  by (auto simp: chan_send_def)

lemma chan_send_None: "chan_send x c = None \<longleftrightarrow> \<not> receiver_alive c"
  by (simp add: chan_send_def)

end
