(* ===== verification/T0_Error.thy ===== *)
theory T0_Error
  imports T0_Prelude
begin

text \<open>
  \<open>crates/common/src/error.rs\<close>: the application error \<open>AppError\<close>, its code, its two
  textual forms and its conversions; and the result type of every fallible operation of the
  model.  An operation ends with a value, with an \<open>AppError\<close>, or with a Rust panic
  (\<open>unwrap\<close> on \<open>None\<close>, \<open>unreachable!\<close>, \<open>unimplemented!\<close>, checked arithmetic).
\<close>

text \<open>A boxed error, or an error of the standard library: only its two texts are observable.\<close>

record dyn_error =
  display_of :: string
  debug_of :: string

datatype app_error =
    AddrParse dyn_error
  | General string
  | GenWithCode u16
  | GenWithCodeAndErr u16 dyn_error
  | GenWithCodeAndMsg u16 string
  | GenWithCodeAndMsgAndErr u16 string dyn_error
  | GenWithErr dyn_error
  | GenWithMsgAndErr string dyn_error
  | Io dyn_error
  | IoWithMsg string dyn_error
  | Tls dyn_error
  | WouldBlock
  | StreamEOF

fun get_code :: "app_error \<Rightarrow> u16 option" where
  "get_code (GenWithCode code) = Some code"
| "get_code (GenWithCodeAndErr code _) = Some code"
| "get_code (GenWithCodeAndMsg code _) = Some code"
| "get_code (GenWithCodeAndMsgAndErr code _ _) = Some code"
| "get_code _ = None"

text \<open>\<open>Display\<close>.\<close>

fun err_to_string :: "app_error \<Rightarrow> string" where
  "err_to_string (AddrParse err) = display_of err"
| "err_to_string (General msg) = msg"
| "err_to_string (GenWithCode code) = ''Response: code='' @ show_u16 code"
| "err_to_string (GenWithCodeAndErr code err) =
     ''Response: code='' @ show_u16 code @ '', err='' @ debug_of err"
| "err_to_string (GenWithCodeAndMsg code msg) =
     ''Response: code='' @ show_u16 code @ '', msg='' @ msg"
| "err_to_string (GenWithCodeAndMsgAndErr code msg err) =
     ''Response: code='' @ show_u16 code @ '', msg='' @ msg @ '', err='' @ debug_of err"
| "err_to_string (GenWithErr err) = display_of err"
| "err_to_string (GenWithMsgAndErr msg err) = ''Error: msg='' @ msg @ '', err='' @ debug_of err"
| "err_to_string (Io err) = display_of err"
| "err_to_string (IoWithMsg msg err) = ''IO Error: msg='' @ msg @ '', err='' @ debug_of err"
| "err_to_string (Tls err) = display_of err"
| "err_to_string WouldBlock = ''WouldBlock Error''"
| "err_to_string StreamEOF = ''StreamEOF Error''"

text \<open>The derived \<open>Debug\<close>.\<close>

fun err_debug :: "app_error \<Rightarrow> string" where
  "err_debug (AddrParse err) = ''AddrParse('' @ debug_of err @ '')''"
| "err_debug (General msg) = ''General('' @ debug_str msg @ '')''"
| "err_debug (GenWithCode code) = ''GenWithCode('' @ show_u16 code @ '')''"
| "err_debug (GenWithCodeAndErr code err) =
     ''GenWithCodeAndErr('' @ show_u16 code @ '', '' @ debug_of err @ '')''"
| "err_debug (GenWithCodeAndMsg code msg) =
     ''GenWithCodeAndMsg('' @ show_u16 code @ '', '' @ debug_str msg @ '')''"
| "err_debug (GenWithCodeAndMsgAndErr code msg err) =
     ''GenWithCodeAndMsgAndErr('' @ show_u16 code @ '', '' @ debug_str msg @ '', '' @ debug_of err @ '')''"
| "err_debug (GenWithErr err) = ''GenWithErr('' @ debug_of err @ '')''"
| "err_debug (GenWithMsgAndErr msg err) =
     ''GenWithMsgAndErr('' @ debug_str msg @ '', '' @ debug_of err @ '')''"
| "err_debug (Io err) = ''Io('' @ debug_of err @ '')''"
| "err_debug (IoWithMsg msg err) = ''IoWithMsg('' @ debug_str msg @ '', '' @ debug_of err @ '')''"
| "err_debug (Tls err) = ''Tls('' @ debug_of err @ '')''"
| "err_debug WouldBlock = ''WouldBlock''"
| "err_debug StreamEOF = ''StreamEOF''"

text \<open>\<open>Box::new(err)\<close> of an \<open>AppError\<close> and the errors of the standard channels.\<close>

definition box_err :: "app_error \<Rightarrow> dyn_error" where
  "box_err e = \<lparr>display_of = err_to_string e, debug_of = err_debug e\<rparr>"

definition send_error :: dyn_error where
  "send_error = \<lparr>display_of = ''sending on a closed channel'', debug_of = ''SendError { .. }''\<rparr>"

definition recv_error :: dyn_error where
  "recv_error = \<lparr>display_of = ''receiving on a closed channel'', debug_of = ''RecvError''\<rparr>"

text \<open>The \<open>From\<close> conversions the \<open>?\<close> operator uses.\<close>

definition from_boxed :: "dyn_error \<Rightarrow> app_error" where
  "from_boxed err = GenWithErr err"

definition from_io :: "dyn_error \<Rightarrow> app_error" where
  "from_io err = Io err"

definition from_tls :: "dyn_error \<Rightarrow> app_error" where
  "from_tls err = Tls err"

definition from_addr_parse :: "dyn_error \<Rightarrow> app_error" where
  "from_addr_parse err = AddrParse err"

section \<open>Results\<close>

datatype 'a res = Ok 'a | Err app_error | Panic string

text \<open>\<open>r?\<close> followed by the rest of the function, without and with a state.\<close>

fun and_then :: "'a res \<Rightarrow> ('a \<Rightarrow> 'b res) \<Rightarrow> 'b res" where
  "and_then (Ok x) f = f x"
| "and_then (Err e) f = Err e"
| "and_then (Panic m) f = Panic m"

text \<open>\<open>map_err\<close> with a boxed error, on a call of the standard library or a third-party one.\<close>

definition map_err :: "('e \<Rightarrow> app_error) \<Rightarrow> 'e + 'a \<Rightarrow> 'a res" where
  "map_err f r = (case r of Inl e \<Rightarrow> Err (f e) | Inr x \<Rightarrow> Ok x)"

definition ok_or :: "app_error \<Rightarrow> 'a option \<Rightarrow> 'a res" where
  "ok_or e v = (case v of None \<Rightarrow> Err e | Some x \<Rightarrow> Ok x)"

definition unwrap_opt :: "'a option \<Rightarrow> 'a res" where
  "unwrap_opt v = (case v of None \<Rightarrow> Panic ''called `Option::unwrap()` on a `None` value'' | Some x \<Rightarrow> Ok x)"

text \<open>\<open>collect::<Result<Vec<_>, _>>()\<close>: the first error wins, later elements are not evaluated.\<close>

fun collect_res :: "'a res list \<Rightarrow> 'a list res" where
  "collect_res [] = Ok []"
| "collect_res (r # rs) = and_then r (\<lambda>x. and_then (collect_res rs) (\<lambda>xs. Ok (x # xs)))"

text \<open>A stateful operation returns its result and the state it leaves, on every path.\<close>

type_synonym ('s, 'a) sop = "'s \<Rightarrow> 'a res \<times> 's"

definition sop_bind :: "('s, 'a) sop \<Rightarrow> ('a \<Rightarrow> ('s, 'b) sop) \<Rightarrow> ('s, 'b) sop" where
  "sop_bind m f s =
     (case m s of (Ok x, s') \<Rightarrow> f x s' | (Err e, s') \<Rightarrow> (Err e, s') | (Panic p, s') \<Rightarrow> (Panic p, s'))"

definition sop_lift :: "'a res \<Rightarrow> ('s, 'a) sop" where
  "sop_lift r s = (r, s)"

section \<open>Lemmas\<close>

lemma and_then_Ok [res_simps]: "and_then r f = Ok y \<longleftrightarrow> (\<exists>x. r = Ok x \<and> f x = Ok y)"
  by (cases r) auto

lemma and_then_Err [res_simps]:
  "and_then r f = Err e \<longleftrightarrow> r = Err e \<or> (\<exists>x. r = Ok x \<and> f x = Err e)"
  by (cases r) auto

lemma and_then_Panic [res_simps]:
  "and_then r f = Panic m \<longleftrightarrow> r = Panic m \<or> (\<exists>x. r = Ok x \<and> f x = Panic m)"
  by (cases r) auto

lemma map_err_simps [simp]: "map_err f (Inl e) = Err (f e)" "map_err f (Inr x) = Ok x"
  by (simp_all add: map_err_def)

lemma map_err_Ok [res_simps]: "map_err f r = Ok x \<longleftrightarrow> r = Inr x"
  by (cases r) auto

lemma map_err_no_panic [simp]: "map_err f r \<noteq> Panic m"
  by (cases r) auto

lemma ok_or_simps [simp]: "ok_or e None = Err e" "ok_or e (Some x) = Ok x"
  by (simp_all add: ok_or_def)

lemma ok_or_Ok [res_simps]: "ok_or e v = Ok x \<longleftrightarrow> v = Some x"
  by (cases v) auto

lemma ok_or_no_panic [simp]: "ok_or e v \<noteq> Panic m"
  by (cases v) auto

lemma unwrap_opt_simps [simp]: "unwrap_opt (Some x) = Ok x"
  by (simp add: unwrap_opt_def)

lemma unwrap_opt_Ok [res_simps]: "unwrap_opt v = Ok x \<longleftrightarrow> v = Some x"
  by (cases v) (auto simp: unwrap_opt_def)

lemma unwrap_opt_not_Err [simp]: "unwrap_opt v \<noteq> Err e"
  by (cases v) (auto simp: unwrap_opt_def)

lemma collect_res_map_Ok [simp]: "collect_res (map (\<lambda>x. Ok (f x)) xs) = Ok (map f xs)"
  by (induction xs) auto

lemma collect_res_Ok_iff: "collect_res rs = Ok xs \<longleftrightarrow> rs = map Ok xs"
  by (induction rs arbitrary: xs) (auto simp: and_then_Ok)

lemma sop_bind_Ok:
  "sop_bind m f s = (Ok y, t) \<longleftrightarrow> (\<exists>x s'. m s = (Ok x, s') \<and> f x s' = (Ok y, t))"
  by (auto simp: sop_bind_def split: prod.splits res.splits)

end
