(* ===== verification/T0_Model.thy ===== *)
theory T0_Model
  imports T0_Error
begin

text \<open>
  \<open>crates/common/src/model\<close>: users, services and service accesses, the three tables of the
  authorization data base.
\<close>

datatype user_status = Active | Inactive

record user =
  u_user_id :: u64
  u_name :: string
  u_status :: user_status

definition new_user :: "u64 \<Rightarrow> string \<Rightarrow> user_status \<Rightarrow> user" where
  "new_user uid name st = \<lparr>u_user_id = uid, u_name = name, u_status = st\<rparr>"

text \<open>\<open>User::default()\<close>.\<close>

definition default_user :: user where
  "default_user = \<lparr>u_user_id = 0, u_name = [], u_status = Active\<rparr>"

fun status_debug :: "user_status \<Rightarrow> string" where
  "status_debug Active = ''Active''"
| "status_debug Inactive = ''Inactive''"

datatype transport = TCP | UDP

record service =
  sv_service_id :: u64
  sv_name :: string
  sv_transport :: transport
  sv_host :: string
  sv_port :: u16

definition new_service :: "u64 \<Rightarrow> string \<Rightarrow> transport \<Rightarrow> string \<Rightarrow> u16 \<Rightarrow> service" where
  "new_service sid name tr host port =
     \<lparr>sv_service_id = sid, sv_name = name, sv_transport = tr, sv_host = host, sv_port = port\<rparr>"

record service_access =
  ac_user_id :: u64
  ac_service_id :: u64

definition new_access :: "u64 \<Rightarrow> u64 \<Rightarrow> service_access" where
  "new_access uid sid = \<lparr>ac_user_id = uid, ac_service_id = sid\<rparr>"

fun transport_debug :: "transport \<Rightarrow> string" where
  "transport_debug TCP = ''TCP''"
| "transport_debug UDP = ''UDP''"

text \<open>The derived \<open>Debug\<close> of \<open>Service\<close>.\<close>

definition service_debug :: "service \<Rightarrow> string" where
  "service_debug s =
     ''Service { service_id: '' @ show_u64 (sv_service_id s) @ '', name: '' @ debug_str (sv_name s) @
     '', transport: '' @ transport_debug (sv_transport s) @ '', host: '' @ debug_str (sv_host s) @
     '', port: '' @ show_u16 (sv_port s) @ '' }''"

end
