(* ===== verification/T0_Repository.thy ===== *)
theory T0_Repository
  imports T0_Model
begin

text \<open>
  \<open>crates/gateway/src/repository\<close>: the user, service and access repositories and their
  in-memory implementations.  Each holds an \<open>RwLock<HashMap<_, _>>\<close>; acquiring the lock fails
  when it is poisoned.  The repository traits are the locale \<open>repository\<close>, which the three
  implementations instantiate.  Reading the JSON file (\<open>fs::read_to_string\<close> on a file outside
  the program, \<open>serde_json::from_str\<close>) are arguments of \<open>connect_to_datasource\<close>.
\<close>

record ('k, 'e) rwmap =
  rw_data :: "('k, 'e) hashmap"
  rw_poisoned :: bool

definition poison_text :: string where
  "poison_text = ''poisoned lock: another task failed inside''"

definition access_data_for_write :: "('k, 'e) rwmap \<Rightarrow> ('k, 'e) hashmap res" where
  "access_data_for_write r =
     (if rw_poisoned r then Err (General (''Failed to access write lock to DB: err='' @ poison_text))
      else Ok (rw_data r))"

definition access_data_for_read :: "('k, 'e) rwmap \<Rightarrow> ('k, 'e) hashmap res" where
  "access_data_for_read r =
     (if rw_poisoned r then Err (General (''Failed to access read lock to DB: err='' @ poison_text))
      else Ok (rw_data r))"

text \<open>The loop of \<open>connect_to_datasource\<close>: put every entity, stop at the first error.\<close>

fun put_all :: "('e \<Rightarrow> ('r, 'o) sop) \<Rightarrow> 'e list \<Rightarrow> ('r, unit) sop" where
  "put_all put [] r = (Ok (), r)"
| "put_all put (e # es) r =
     (case put e r of
        (Ok _, r') \<Rightarrow> put_all put es r'
      | (Err err, r') \<Rightarrow> (Err err, r')
      | (Panic m, r') \<Rightarrow> (Panic m, r'))"

text \<open>The body shared by the three \<open>connect_to_datasource\<close> functions.\<close>

definition load_datasource ::
  "(string \<Rightarrow> dyn_error + string) \<Rightarrow> (string \<Rightarrow> dyn_error + 'e list) \<Rightarrow> ('e \<Rightarrow> ('r, 'o) sop) \<Rightarrow>
   string \<Rightarrow> ('r, unit) sop" where
  "load_datasource read_file from_json put connect_spec r =
     (case map_err (GenWithMsgAndErr (''Failed to read file: path='' @ connect_spec)) (read_file connect_spec) of
        Err e \<Rightarrow> (Err e, r)
      | Panic m \<Rightarrow> (Panic m, r)
      | Ok data \<Rightarrow>
          (case map_err (GenWithMsgAndErr (''Failed to parse JSON: path='' @ connect_spec)) (from_json data) of
             Err e \<Rightarrow> (Err e, r)
           | Panic m \<Rightarrow> (Panic m, r)
           | Ok entities \<Rightarrow> put_all put entities r))"

section \<open>The user repository\<close>

type_synonym user_repo = "(u64, user) rwmap"

definition new_user_repo :: user_repo where
  "new_user_repo = \<lparr>rw_data = [], rw_poisoned = False\<rparr>"

definition user_put :: "user \<Rightarrow> (user_repo, user option) sop" where
  "user_put e r =
     (case access_data_for_write r of
        Err err \<Rightarrow> (Err err, r)
      | Panic m \<Rightarrow> (Panic m, r)
      | Ok data \<Rightarrow> (Ok (hm_get data (u_user_id e)), r\<lparr>rw_data := hm_insert (u_user_id e) e data\<rparr>))"

definition user_get :: "user_repo \<Rightarrow> u64 \<Rightarrow> user option res" where
  "user_get r uid = and_then (access_data_for_read r) (\<lambda>data. Ok (hm_get data uid))"

definition user_get_all :: "user_repo \<Rightarrow> user list res" where
  "user_get_all r = and_then (access_data_for_read r) (\<lambda>data. Ok (hm_values data))"

definition user_delete :: "u64 \<Rightarrow> (user_repo, user option) sop" where
  "user_delete uid r =
     (case access_data_for_write r of
        Err err \<Rightarrow> (Err err, r)
      | Panic m \<Rightarrow> (Panic m, r)
      | Ok data \<Rightarrow> (Ok (hm_get data uid), r\<lparr>rw_data := hm_remove uid data\<rparr>))"

definition user_connect :: "(string \<Rightarrow> dyn_error + string) \<Rightarrow> (string \<Rightarrow> dyn_error + user list) \<Rightarrow>
    string \<Rightarrow> (user_repo, unit) sop" where
  "user_connect read_file from_json = load_datasource read_file from_json user_put"

section \<open>The service repository\<close>

type_synonym service_repo = "(u64, service) rwmap"

definition new_service_repo :: service_repo where
  "new_service_repo = \<lparr>rw_data = [], rw_poisoned = False\<rparr>"

definition service_put :: "service \<Rightarrow> (service_repo, service option) sop" where
  "service_put e r =
     (case access_data_for_write r of
        Err err \<Rightarrow> (Err err, r)
      | Panic m \<Rightarrow> (Panic m, r)
      | Ok data \<Rightarrow> (Ok (hm_get data (sv_service_id e)), r\<lparr>rw_data := hm_insert (sv_service_id e) e data\<rparr>))"

definition service_get :: "service_repo \<Rightarrow> u64 \<Rightarrow> service option res" where
  "service_get r sid = and_then (access_data_for_read r) (\<lambda>data. Ok (hm_get data sid))"

definition service_get_all :: "service_repo \<Rightarrow> service list res" where
  "service_get_all r = and_then (access_data_for_read r) (\<lambda>data. Ok (hm_values data))"

definition service_delete :: "u64 \<Rightarrow> (service_repo, service option) sop" where
  "service_delete sid r =
     (case access_data_for_write r of
        Err err \<Rightarrow> (Err err, r)
      | Panic m \<Rightarrow> (Panic m, r)
      | Ok data \<Rightarrow> (Ok (hm_get data sid), r\<lparr>rw_data := hm_remove sid data\<rparr>))"

definition service_connect :: "(string \<Rightarrow> dyn_error + string) \<Rightarrow> (string \<Rightarrow> dyn_error + service list) \<Rightarrow>
    string \<Rightarrow> (service_repo, unit) sop" where
  "service_connect read_file from_json = load_datasource read_file from_json service_put"

section \<open>The access repository\<close>

type_synonym access_repo = "(u64 \<times> u64, service_access) rwmap"

definition new_access_repo :: access_repo where
  "new_access_repo = \<lparr>rw_data = [], rw_poisoned = False\<rparr>"

definition access_put :: "service_access \<Rightarrow> (access_repo, service_access option) sop" where
  "access_put e r =
     (case access_data_for_write r of
        Err err \<Rightarrow> (Err err, r)
      | Panic m \<Rightarrow> (Panic m, r)
      | Ok data \<Rightarrow> (Ok (hm_get data (ac_user_id e, ac_service_id e)),
           r\<lparr>rw_data := hm_insert (ac_user_id e, ac_service_id e) e data\<rparr>))"

definition access_get :: "access_repo \<Rightarrow> u64 \<Rightarrow> u64 \<Rightarrow> service_access option res" where
  "access_get r uid sid = and_then (access_data_for_read r) (\<lambda>data. Ok (hm_get data (uid, sid)))"

definition access_get_all_for_user :: "access_repo \<Rightarrow> u64 \<Rightarrow> service_access list res" where
  "access_get_all_for_user r uid =
     and_then (access_data_for_read r)
       (\<lambda>data. Ok (map snd (filter (\<lambda>entry. fst (fst entry) = uid) data)))"

definition access_delete :: "u64 \<Rightarrow> u64 \<Rightarrow> (access_repo, service_access option) sop" where
  "access_delete uid sid r =
     (case access_data_for_write r of
        Err err \<Rightarrow> (Err err, r)
      | Panic m \<Rightarrow> (Panic m, r)
      | Ok data \<Rightarrow> (Ok (hm_get data (uid, sid)), r\<lparr>rw_data := hm_remove (uid, sid) data\<rparr>))"

definition access_connect :: "(string \<Rightarrow> dyn_error + string) \<Rightarrow> (string \<Rightarrow> dyn_error + service_access list) \<Rightarrow>
    string \<Rightarrow> (access_repo, unit) sop" where
  "access_connect read_file from_json = load_datasource read_file from_json access_put"

section \<open>The repository traits\<close>

text \<open>
  \<open>avail\<close>: the store is reachable (its lock is not poisoned).  \<open>key\<close>: the primary key of an
  entity.
\<close>

locale repository =
  fixes put :: "'e \<Rightarrow> ('r, 'e option) sop"
    and get :: "'r \<Rightarrow> 'k \<Rightarrow> 'e option res"
    and delete :: "'k \<Rightarrow> ('r, 'e option) sop"
    and key :: "'e \<Rightarrow> 'k"
    and avail :: "'r \<Rightarrow> bool"
  assumes get_avail: "avail r \<Longrightarrow> \<exists>v. get r k = Ok v"
    and put_returns: "avail r \<Longrightarrow> fst (put e r) = get r (key e)"
    and put_avail: "avail r \<Longrightarrow> avail (snd (put e r))"
    and get_put: "avail r \<Longrightarrow> get (snd (put e r)) k = (if k = key e then Ok (Some e) else get r k)"
    and delete_returns: "avail r \<Longrightarrow> fst (delete k r) = get r k"
    and delete_avail: "avail r \<Longrightarrow> avail (snd (delete k r))"
    and get_delete: "avail r \<Longrightarrow> get (snd (delete k r)) j = (if j = k then Ok None else get r j)"
begin

lemma put_ok: "avail r \<Longrightarrow> \<exists>v. put e r = (Ok v, snd (put e r))"
  by (metis get_avail prod.collapse put_returns)

lemma put_all_get:
  assumes "avail r"
  shows "fst (put_all put es r) = Ok () \<and> avail (snd (put_all put es r)) \<and>
    get (snd (put_all put es r)) k =
      (case find (\<lambda>e. key e = k) (rev es) of Some e \<Rightarrow> Ok (Some e) | None \<Rightarrow> get r k)"
  using assms
proof (induction es arbitrary: r)
  case Nil
  then show ?case by simp
next
  case (Cons e es)
  obtain v where v: "put e r = (Ok v, snd (put e r))" using put_ok[OF Cons.prems] by blast
  have "put_all put (e # es) r = put_all put es (snd (put e r))"
    by (subst put_all.simps, subst v) simp
  with Cons.IH[OF put_avail[OF Cons.prems]] show ?case
    by (auto simp: get_put[OF Cons.prems] find_append split: option.splits)
qed

lemma put_delete: "avail r \<Longrightarrow> get (snd (delete (key e) (snd (put e r)))) (key e) = Ok None"
  by (simp add: get_delete put_avail)

lemma load_get:
  assumes "avail r" and "read_file spec = Inr data" and "from_json data = Inr es"
  shows "fst (load_datasource read_file from_json put spec r) = Ok () \<and>
    get (snd (load_datasource read_file from_json put spec r)) k =
      (case find (\<lambda>e. key e = k) (rev es) of Some e \<Rightarrow> Ok (Some e) | None \<Rightarrow> get r k)"
  using assms put_all_get[OF assms(1)] by (simp add: load_datasource_def)

end

lemmas repo_defs = access_data_for_read_def access_data_for_write_def

definition rw_avail :: "('k, 'e) rwmap \<Rightarrow> bool" where
  "rw_avail r \<longleftrightarrow> \<not> rw_poisoned r"

lemma new_repos_avail [simp]:
  "rw_avail new_user_repo" "rw_avail new_service_repo" "rw_avail new_access_repo"
  by (simp_all add: rw_avail_def new_user_repo_def new_service_repo_def new_access_repo_def)

interpretation user_rep: repository user_put user_get user_delete u_user_id rw_avail
  by unfold_locales (auto simp: rw_avail_def user_put_def user_get_def user_delete_def repo_defs)

interpretation service_rep: repository service_put service_get service_delete sv_service_id rw_avail
  by unfold_locales (auto simp: rw_avail_def service_put_def service_get_def service_delete_def repo_defs)

interpretation access_rep: repository access_put "\<lambda>r k. access_get r (fst k) (snd k)"
    "\<lambda>k. access_delete (fst k) (snd k)" "\<lambda>e. (ac_user_id e, ac_service_id e)" rw_avail
  by unfold_locales (auto simp: rw_avail_def access_put_def access_get_def access_delete_def repo_defs)

section \<open>Properties\<close>

text \<open>The entries of the access repository are filed under their own ids.\<close>

definition access_inv :: "access_repo \<Rightarrow> bool" where
  "access_inv r \<longleftrightarrow> hm_inv (rw_data r) \<and>
     (\<forall>k e. hm_get (rw_data r) k = Some e \<longrightarrow> k = (ac_user_id e, ac_service_id e))"

lemma access_inv_new [t0_inv]: "access_inv new_access_repo"
  by (simp add: access_inv_def new_access_repo_def)

lemma access_inv_put [t0_inv]: "access_inv r \<Longrightarrow> access_inv (snd (access_put e r))"
  by (auto simp: access_inv_def access_put_def repo_defs)

lemma access_inv_delete [t0_inv]: "access_inv r \<Longrightarrow> access_inv (snd (access_delete uid sid r))"
  by (auto simp: access_inv_def access_delete_def repo_defs)

text \<open>What every \<open>put\<close> keeps, loading a data source keeps, whether it succeeds or not.\<close>

lemma put_all_inv:
  assumes "\<And>e r. P r \<Longrightarrow> P (snd (put e r))" and "P r"
  shows "P (snd (put_all put es r))"
  using assms(2)
proof (induction es arbitrary: r)
  case (Cons e es)
  have "P (snd (put e r))" using Cons.prems by (rule assms(1))
  with Cons.IH show ?case by (auto split: prod.splits res.splits)
qed simp

lemma load_inv:
  assumes "\<And>e r. P r \<Longrightarrow> P (snd (put e r))" and "P r"
  shows "P (snd (load_datasource read_file from_json put spec r))"
  using assms put_all_inv[of P put r] by (auto simp: load_datasource_def split: res.splits)

lemma access_inv_connect [t0_inv]:
  "access_inv r \<Longrightarrow> access_inv (snd (access_connect read_file from_json spec r))"
  unfolding access_connect_def by (rule load_inv[of access_inv, OF access_inv_put])

lemma access_get_entry:
  "access_inv r \<Longrightarrow> access_get r uid sid = Ok (Some e) \<Longrightarrow> ac_user_id e = uid \<and> ac_service_id e = sid"
  by (auto simp: access_inv_def access_get_def repo_defs split: if_splits)

text \<open>
  C34: the accesses listed for a user are exactly those the point lookup grants: an access of
  this user is in the list if and only if \<open>get\<close> finds it under the same user and service id.
\<close>

theorem access_list_matches_get:
  assumes "access_inv r" and "rw_avail r"
  shows "\<exists>es. access_get_all_for_user r uid = Ok es \<and>
    (\<forall>e. e \<in> set es \<longleftrightarrow> ac_user_id e = uid \<and> access_get r uid (ac_service_id e) = Ok (Some e))"
proof -
  let ?es = "map snd (filter (\<lambda>entry. fst (fst entry) = uid) (rw_data r))"
  have inv: "hm_inv (rw_data r)" and k: "\<And>k e. hm_get (rw_data r) k = Some e \<Longrightarrow> k = (ac_user_id e, ac_service_id e)"
    using assms(1) by (auto simp: access_inv_def)
  have "e \<in> set ?es \<longleftrightarrow> ac_user_id e = uid \<and> hm_get (rw_data r) (uid, ac_service_id e) = Some e" for e
  proof
    assume "e \<in> set ?es"
    then obtain k' where "(k', e) \<in> set (rw_data r)" "fst k' = uid" by auto
    then have "hm_get (rw_data r) k' = Some e" by (simp add: hm_get_in_set[OF inv])
    with k \<open>fst k' = uid\<close> show "ac_user_id e = uid \<and> hm_get (rw_data r) (uid, ac_service_id e) = Some e"
      by fastforce
  next
    assume "ac_user_id e = uid \<and> hm_get (rw_data r) (uid, ac_service_id e) = Some e"
    then have "((uid, ac_service_id e), e) \<in> set (rw_data r)" by (simp add: hm_get_in_set[OF inv])
    then show "e \<in> set ?es" by force
  qed
  with assms(2) show ?thesis
    by (auto simp: access_get_all_for_user_def access_get_def repo_defs rw_avail_def)
qed

theorem access_list_matches_get_witness:
  "let r = snd (access_put (new_access 100 203) new_access_repo) in
   access_inv r \<and> rw_avail r \<and>
   (\<exists>es. access_get_all_for_user r 100 = Ok es \<and>
    (\<forall>e. e \<in> set es \<longleftrightarrow> ac_user_id e = 100 \<and> access_get r 100 (ac_service_id e) = Ok (Some e)))"
proof -
  have i: "access_inv (snd (access_put (new_access 100 203) new_access_repo))"
    by (intro t0_inv)
  have a: "rw_avail (snd (access_put (new_access 100 203) new_access_repo))"
    by (simp add: access_rep.put_avail)
  from access_list_matches_get[OF i a, of 100] i a show ?thesis by (simp add: Let_def)
qed

text \<open>
  Loading the user table from a JSON file that can be read and parsed succeeds, and the
  repository then answers a lookup with the last record the file holds for that user id, or with
  what it held before when the file has none.
\<close>

theorem user_connect_loads:
  assumes "rw_avail r" and "read_file spec = Inr data" and "from_json data = Inr users"
  shows "fst (user_connect read_file from_json spec r) = Ok () \<and>
    user_get (snd (user_connect read_file from_json spec r)) uid =
      (case find (\<lambda>e. u_user_id e = uid) (rev users) of Some e \<Rightarrow> Ok (Some e) | None \<Rightarrow> user_get r uid)"
  unfolding user_connect_def using assms by (rule user_rep.load_get)

theorem user_connect_loads_witness:
  "let users = [new_user 100 ''ann'' Active, new_user 100 ''ann'' Inactive];
       r = snd (user_connect (\<lambda>_. Inr ''json'') (\<lambda>_. Inr users) ''db-user.json'' new_user_repo) in
   user_get r 100 = Ok (Some (new_user 100 ''ann'' Inactive))"
  using user_connect_loads[of new_user_repo "\<lambda>_. Inr ''json''" "''db-user.json''" "''json''"
      "\<lambda>_. Inr [new_user 100 ''ann'' Active, new_user 100 ''ann'' Inactive]"
      "[new_user 100 ''ann'' Active, new_user 100 ''ann'' Inactive]" 100]
  by (simp add: Let_def new_user_def)

text \<open>
  Deleting an access withdraws it and only it: afterwards the lookup of that user and service
  finds nothing and every other lookup is unchanged.
\<close>

theorem access_delete_withdraws:
  assumes "rw_avail r"
  shows "access_get (snd (access_delete uid sid r)) u s =
    (if u = uid \<and> s = sid then Ok None else access_get r u s)"
  using access_rep.get_delete[OF assms, of "(uid, sid)" "(u, s)"] by simp

theorem access_delete_withdraws_witness:
  "let r = snd (access_put (new_access 100 203) new_access_repo) in
   rw_avail r \<and> access_get r 100 203 = Ok (Some (new_access 100 203)) \<and>
   access_get (snd (access_delete 100 203 r)) 100 203 = Ok None"
proof -
  have a: "rw_avail (snd (access_put (new_access 100 203) new_access_repo))"
    by (simp add: access_rep.put_avail)
  from access_delete_withdraws[OF a, of 100 203 100 203] a show ?thesis
    by (simp add: Let_def access_put_def access_get_def new_access_repo_def new_access_def repo_defs
        hm_insert_def hm_get_def)
qed

end
