(* ===== verification/T0_Alpn.thy ===== *)
theory T0_Alpn
  imports T0_Error
begin

text \<open>
  \<open>crates/common/src/crypto/alpn.rs\<close>: the TLS application protocol name that tells a control
  plane connection from a service proxy connection.

  The \<open>regex\<close> crate is not part of the repository.  Its pattern class \<open>\d\<close> is Unicode aware,
  so the model takes the predicate \<open>nd\<close> ("the whole text matches \<open>\d+\<close>") as a parameter;
  \<open>regex_digits\<close> is the part of the crate's documentation the development uses: on ASCII text
  \<open>\d\<close> is \<open>[0-9]\<close>.
\<close>

definition PROTOCOL_CONTROL_PLANE :: string where
  "PROTOCOL_CONTROL_PLANE = ''T0CP''"

definition PROTOCOL_SERVICE :: string where
  "PROTOCOL_SERVICE = ''T0SRV''"

datatype protocol = ControlPlane | Service u64

definition is_ascii :: "string \<Rightarrow> bool" where
  "is_ascii s \<longleftrightarrow> list_all (\<lambda>c. (of_char c :: nat) < 128) s"

definition regex_digits :: "(string \<Rightarrow> bool) \<Rightarrow> bool" where
  "regex_digits nd \<longleftrightarrow> (\<forall>s. is_ascii s \<longrightarrow> nd s = (s \<noteq> [] \<and> list_all is_digit s))"

text \<open>A match of \<open>^T0SRV(\d+)$\<close>: the captured group, if the text matches.\<close>

definition service_regex :: "(string \<Rightarrow> bool) \<Rightarrow> string \<Rightarrow> string option" where
  "service_regex nd s =
     (if take 5 s = PROTOCOL_SERVICE \<and> nd (drop 5 s) then Some (drop 5 s) else None)"

definition parse_protocol :: "(string \<Rightarrow> bool) \<Rightarrow> string \<Rightarrow> protocol option res" where
  "parse_protocol nd alpn_str =
     (if alpn_str = PROTOCOL_CONTROL_PLANE then Ok (Some ControlPlane)
      else case service_regex nd alpn_str of
             Some group1 \<Rightarrow>
               (case parse_u64 group1 of
                  Some service_id \<Rightarrow> Ok (Some (Service service_id))
                | None \<Rightarrow> Panic ''called `Result::unwrap()` on an `Err` value'')
           | None \<Rightarrow> Ok None)"

definition create_service_protocol :: "u64 \<Rightarrow> string" where
  "create_service_protocol service_id = PROTOCOL_SERVICE @ show_u64 service_id"

fun protocol_to_string :: "protocol \<Rightarrow> string" where
  "protocol_to_string ControlPlane = PROTOCOL_CONTROL_PLANE"
| "protocol_to_string (Service service_id) = create_service_protocol service_id"

text \<open>The derived \<open>Debug\<close>.\<close>

fun protocol_debug :: "protocol \<Rightarrow> string" where
  "protocol_debug ControlPlane = ''ControlPlane''"
| "protocol_debug (Service service_id) = ''Service('' @ show_u64 service_id @ '')''"

text \<open>An instance of the parameter, for evaluation on ASCII inputs.\<close>

definition ascii_nd :: "string \<Rightarrow> bool" where
  "ascii_nd s \<longleftrightarrow> s \<noteq> [] \<and> list_all is_digit s"

section \<open>Properties\<close>

lemma digits_ascii: "list_all is_digit s \<Longrightarrow> is_ascii s"
  by (induction s) (auto simp: is_ascii_def is_digit_def)

lemma ascii_nd_ok: "regex_digits ascii_nd"
  by (simp add: regex_digits_def ascii_nd_def)

lemma regex_digits_digits:
  "regex_digits nd \<Longrightarrow> list_all is_digit s \<Longrightarrow> s \<noteq> [] \<Longrightarrow> nd s"
  by (simp add: regex_digits_def digits_ascii)

lemma service_regex_digits:
  assumes "regex_digits nd" and "list_all is_digit ds" and "ds \<noteq> []"
  shows "service_regex nd (PROTOCOL_SERVICE @ ds) = Some ds"
  using assms by (simp add: service_regex_def PROTOCOL_SERVICE_def regex_digits_digits)

lemma parse_protocol_service_text:
  assumes "regex_digits nd" and "list_all is_digit ds" and "ds \<noteq> []"
  shows "parse_protocol nd (PROTOCOL_SERVICE @ ds) =
    (case parse_u64 ds of Some n \<Rightarrow> Ok (Some (Service n))
     | None \<Rightarrow> Panic ''called `Result::unwrap()` on an `Err` value'')"
  using service_regex_digits[OF assms]
  by (auto simp: parse_protocol_def PROTOCOL_SERVICE_def PROTOCOL_CONTROL_PLANE_def split: option.splits)

lemma parse_protocol_Service_inv:
  assumes "parse_protocol nd s = Ok (Some (Service n))"
  shows "take 5 s = PROTOCOL_SERVICE \<and> nd (drop 5 s) \<and> parse_u64 (drop 5 s) = Some n"
  using assms by (auto simp: parse_protocol_def service_regex_def split: if_splits option.splits)

lemma parse_protocol_ControlPlane_iff:
  "parse_protocol nd s = Ok (Some ControlPlane) \<longleftrightarrow> s = PROTOCOL_CONTROL_PLANE"
  by (auto simp: parse_protocol_def split: option.splits)

lemma parse_service_protocol:
  assumes "regex_digits nd"
  shows "parse_protocol nd (create_service_protocol n) = Ok (Some (Service n))"
  unfolding create_service_protocol_def
  by (subst parse_protocol_service_text[OF assms])
    (simp_all add: show_u64_def show_nat_digits parse_u64_show[unfolded show_u64_def])

text \<open>
  C32: parsing the printed name of a connection type gives that connection type back, for the
  control plane and for every 64-bit service id.
\<close>

theorem protocol_roundtrip:
  assumes "regex_digits nd"
  shows "parse_protocol nd (protocol_to_string p) = Ok (Some p)"
proof (cases p)
  case ControlPlane
  then show ?thesis by (simp add: parse_protocol_def)
next
  case (Service n)
  with parse_service_protocol[OF assms] show ?thesis by simp
qed

theorem protocol_roundtrip_witness:
  "regex_digits ascii_nd \<and>
   parse_protocol ascii_nd (protocol_to_string (Service 203)) = Ok (Some (Service 203))"
  using ascii_nd_ok protocol_roundtrip[OF ascii_nd_ok, of "Service 203"] by simp

text \<open>
  C38: on ASCII input the parser panics in exactly one situation: the name is the service prefix
  followed by decimal digits whose value does not fit in 64 bits.
\<close>

theorem parse_protocol_panics_iff:
  assumes "regex_digits nd" and "is_ascii s"
  shows "(\<exists>m. parse_protocol nd s = Panic m) \<longleftrightarrow>
    (\<exists>ds. s = PROTOCOL_SERVICE @ ds \<and> ds \<noteq> [] \<and> list_all is_digit ds \<and> 2 ^ 64 \<le> digits_val ds)"
    (is "?L \<longleftrightarrow> ?R")
proof
  assume ?L
  then have t: "take 5 s = PROTOCOL_SERVICE" and nd: "nd (drop 5 s)"
    and none: "parse_u64 (drop 5 s) = None"
    by (auto simp: parse_protocol_def service_regex_def split: if_splits option.splits)
  have "is_ascii (drop 5 s)"
    using assms(2) by (auto simp: is_ascii_def list_all_iff dest: in_set_dropD)
  with assms(1) nd have d: "drop 5 s \<noteq> []" "list_all is_digit (drop 5 s)"
    by (auto simp: regex_digits_def)
  from none have "2 ^ 64 \<le> digits_val (drop 5 s)"
    using parse_uint_digits[OF d, of 64] by (auto simp: parse_u64_def split: if_splits)
  with t d show ?R by (metis append_take_drop_id)
next
  assume ?R
  then obtain ds where ds: "s = PROTOCOL_SERVICE @ ds" "ds \<noteq> []" "list_all is_digit ds"
    and big: "2 ^ 64 \<le> digits_val ds" by blast
  then have "parse_u64 ds = None"
    using parse_uint_digits[OF ds(2,3), of 64] by (simp add: parse_u64_def)
  with parse_protocol_service_text[OF assms(1) ds(3,2)] ds(1) show ?L by simp
qed

theorem parse_protocol_panics_iff_witness:
  "regex_digits ascii_nd \<and> is_ascii ''T0SRV18446744073709551616'' \<and>
   (\<exists>m. parse_protocol ascii_nd ''T0SRV18446744073709551616'' = Panic m)"
proof -
  have a: "is_ascii ''T0SRV18446744073709551616''" by (simp add: is_ascii_def)
  have "(\<exists>ds. ''T0SRV18446744073709551616'' = PROTOCOL_SERVICE @ ds \<and> ds \<noteq> [] \<and>
      list_all is_digit ds \<and> 2 ^ 64 \<le> digits_val ds)"
    by (rule exI[of _ "''18446744073709551616''"])
      (simp add: PROTOCOL_SERVICE_def is_digit_def digits_val_def digit_val_def)
  with a ascii_nd_ok show ?thesis using parse_protocol_panics_iff[OF ascii_nd_ok a] by blast
qed

end
