(* ===== verification/T0_Text.thy ===== *)
theory T0_Text
  imports T0_Error
begin

text \<open>
  The text functions of the standard library at the network boundary: bytes and texts
  (\<open>String::from_utf8\<close>, \<open>String::from_utf8_lossy\<close>, \<open>into_bytes\<close>) and \<open>str::lines\<close>.
\<close>

definition text_of_bytes :: "bytes \<Rightarrow> string" where
  "text_of_bytes bs = map (\<lambda>b. char_of (unat b)) bs"

definition bytes_of_text :: "string \<Rightarrow> bytes" where
  "bytes_of_text s = map (\<lambda>c. of_nat (of_char c)) s"

section \<open>UTF-8\<close>

text \<open>The length a leading byte announces; 0 for a byte that cannot lead.\<close>

definition utf8_len :: "u8 \<Rightarrow> nat" where
  "utf8_len b =
     (if b < 0x80 then 1
      else if 0xC2 \<le> b \<and> b \<le> 0xDF then 2
      else if 0xE0 \<le> b \<and> b \<le> 0xEF then 3
      else if 0xF0 \<le> b \<and> b \<le> 0xF4 then 4
      else 0)"

definition utf8_second :: "u8 \<Rightarrow> u8 \<Rightarrow> bool" where
  "utf8_second b0 b1 =
     (if b0 = 0xE0 then 0xA0 \<le> b1 \<and> b1 \<le> 0xBF
      else if b0 = 0xED then 0x80 \<le> b1 \<and> b1 \<le> 0x9F
      else if b0 = 0xF0 then 0x90 \<le> b1 \<and> b1 \<le> 0xBF
      else if b0 = 0xF4 then 0x80 \<le> b1 \<and> b1 \<le> 0x8F
      else 0x80 \<le> b1 \<and> b1 \<le> 0xBF)"

definition utf8_cont :: "u8 \<Rightarrow> bool" where
  "utf8_cont b \<longleftrightarrow> 0x80 \<le> b \<and> b \<le> 0xBF"

text \<open>How many of the bytes after the leading one continue the character properly.\<close>

fun utf8_good :: "u8 \<Rightarrow> bytes \<Rightarrow> nat" where
  "utf8_good b0 [] = 0"
| "utf8_good b0 (b1 # bs) = (if utf8_second b0 b1 then Suc (length (takeWhile utf8_cont bs)) else 0)"

text \<open>
  The first character of a byte list: whether it is well formed, and how many bytes it or the
  ill-formed piece takes.
\<close>

definition utf8_step :: "u8 \<Rightarrow> bytes \<Rightarrow> bool \<times> nat" where
  "utf8_step b0 bs =
     (let n = utf8_len b0 in
      if n = 0 then (False, 1)
      else if n = 1 then (True, 1)
      else let k = utf8_good b0 (take (n - 1) bs) in (Suc k = n, Suc k))"

lemma utf8_step_pos: "0 < snd (utf8_step b0 bs)"
  by (simp add: utf8_step_def Let_def)

text \<open>\<open>String::from_utf8_lossy\<close>: each ill-formed piece becomes one U+FFFD.\<close>

function utf8_lossy :: "bytes \<Rightarrow> bytes" where
  "utf8_lossy [] = []"
| "utf8_lossy (b # bs) =
     (let (ok, n) = utf8_step b bs
      in (if ok then take n (b # bs) else [0xEF, 0xBF, 0xBD]) @ utf8_lossy (drop n (b # bs)))"
  by pat_completeness auto
termination
proof (relation "measure length")
  fix b :: u8 and bs :: bytes and x ok n
  assume "x = utf8_step b bs" and "(ok, n) = x"
  then have "0 < n" using utf8_step_pos[of b bs] by (metis snd_conv)
  then show "(drop n (b # bs), b # bs) \<in> measure length" by simp
qed simp

definition from_utf8_lossy :: "bytes \<Rightarrow> string" where
  "from_utf8_lossy bs = text_of_bytes (utf8_lossy bs)"

text \<open>The position of the first ill-formed piece and its length, if there is one.\<close>

function utf8_error_at :: "nat \<Rightarrow> bytes \<Rightarrow> (nat \<times> nat option) option" where
  "utf8_error_at i [] = None"
| "utf8_error_at i (b # bs) =
     (let (ok, n) = utf8_step b bs
      in if ok then utf8_error_at (i + n) (drop n (b # bs))
         else Some (i, if utf8_len b \<noteq> 0 \<and> drop n (b # bs) = [] then None else Some n))"
  by pat_completeness auto
termination
proof (relation "measure (length \<circ> snd)")
  fix i :: nat and b :: u8 and bs :: bytes and x ok n
  assume "x = utf8_step b bs" and "(ok, n) = x"
  then have "0 < n" using utf8_step_pos[of b bs] by (metis snd_conv)
  then show "((i + n, drop n (b # bs)), (i, b # bs)) \<in> measure (length \<circ> snd)" by simp
qed simp

definition bytes_debug :: "bytes \<Rightarrow> string" where
  "bytes_debug bs = ''['' @ join_strs '', '' (map (\<lambda>b. show_nat (unat b)) bs) @ '']''"

definition from_utf8_error :: "bytes \<Rightarrow> nat \<times> nat option \<Rightarrow> dyn_error" where
  "from_utf8_error bs e =
     \<lparr>display_of =
        (case snd e of
           Some n \<Rightarrow> ''invalid utf-8 sequence of '' @ show_nat n @ '' bytes from index '' @ show_nat (fst e)
         | None \<Rightarrow> ''incomplete utf-8 byte sequence from index '' @ show_nat (fst e)),
      debug_of =
        ''FromUtf8Error { bytes: '' @ bytes_debug bs @ '', error: Utf8Error { valid_up_to: '' @
        show_nat (fst e) @ '', error_len: '' @ debug_opt show_nat (snd e) @ '' } }''\<rparr>"

definition from_utf8 :: "bytes \<Rightarrow> dyn_error + string" where
  "from_utf8 bs =
     (case utf8_error_at 0 bs of None \<Rightarrow> Inr (text_of_bytes bs) | Some e \<Rightarrow> Inl (from_utf8_error bs e))"

section \<open>Lines\<close>

definition strip_cr :: "string \<Rightarrow> string" where
  "strip_cr s = (if s \<noteq> [] \<and> last s = CHR 0x0D then butlast s else s)"

definition lines_of :: "string \<Rightarrow> string list" where
  "lines_of s =
     (let parts = split_on (CHR 0x0A) s in
      map strip_cr (butlast parts) @ (if last parts = [] then [] else [last parts]))"

section \<open>Lemmas\<close>

definition ascii_bytes :: "bytes \<Rightarrow> bool" where
  "ascii_bytes bs \<longleftrightarrow> list_all (\<lambda>b. b < 0x80) bs"

lemma bytes_text [simp]: "text_of_bytes (bytes_of_text s) = s"
proof -
  have "char_of (unat (of_nat (of_char c) :: u8)) = c" for c :: char
  proof -
    have "(of_char c :: nat) < 256" by simp
    then have "unat (of_nat (of_char c) :: u8) = of_char c"
      by (simp add: unsigned_of_nat take_bit_nat_eq_self)
    then show ?thesis by simp
  qed
  then show ?thesis by (simp add: text_of_bytes_def bytes_of_text_def comp_def)
qed

lemma utf8_step_ascii: "b < 0x80 \<Longrightarrow> utf8_step b bs = (True, 1)"
  by (simp add: utf8_step_def utf8_len_def)

lemma utf8_lossy_ascii: "ascii_bytes bs \<Longrightarrow> utf8_lossy bs = bs"
  by (induction bs) (auto simp: ascii_bytes_def utf8_step_ascii)

lemma utf8_error_at_ascii: "ascii_bytes bs \<Longrightarrow> utf8_error_at i bs = None"
  by (induction bs arbitrary: i) (auto simp: ascii_bytes_def utf8_step_ascii)

lemma from_utf8_lossy_ascii: "ascii_bytes bs \<Longrightarrow> from_utf8_lossy bs = text_of_bytes bs"
  by (simp add: from_utf8_lossy_def utf8_lossy_ascii)

lemma from_utf8_ascii: "ascii_bytes bs \<Longrightarrow> from_utf8 bs = Inr (text_of_bytes bs)"
  by (simp add: from_utf8_def utf8_error_at_ascii)

lemma lines_of_one: "CHR 0x0A \<notin> set s \<Longrightarrow> CHR 0x0D \<notin> set s \<Longrightarrow> lines_of (s @ [CHR 0x0A]) = [s]"
proof -
  assume n: "CHR 0x0A \<notin> set s" "CHR 0x0D \<notin> set s"
  then have "split_on (CHR 0x0A) (s @ [CHR 0x0A]) = [s, []]"
    using split_on_append[of "CHR 0x0A" s "[]"] by simp
  moreover have "strip_cr s = s" using n(2) last_in_set by (fastforce simp: strip_cr_def)
  ultimately show ?thesis by (simp add: lines_of_def)
qed

lemma ascii_bytes_of_text:
  "list_all (\<lambda>c. (of_char c :: nat) < 128) s \<Longrightarrow> ascii_bytes (bytes_of_text s)"
proof (induction s)
  case (Cons c s)
  then have "(of_char c :: nat) < 128" by simp
  then have "(of_nat (of_char c) :: u8) < 0x80"
    by (simp add: word_less_nat_alt unsigned_of_nat take_bit_nat_eq_self)
  with Cons show ?case by (simp add: ascii_bytes_def bytes_of_text_def)
qed (simp add: ascii_bytes_def bytes_of_text_def)

end
