(* ===== verification/T0_Config.thy ===== *)
theory T0_Config
  imports T0_Repository T0_Alpn T0_Text
begin

text \<open>
  \<open>crates/gateway/src/config.rs\<close>: response codes and their messages, the server mode, the data
  source and the repositories built from it, the ALPN names the TLS server offers, the service
  port range, and the assembled \<open>AppConfig\<close>.  The command line itself is parsed by \<open>clap\<close> and the
  TLS material is handed to \<open>rustls\<close>; both stay outside.
\<close>

section \<open>Response codes\<close>

definition RESPCODE_0403_FORBIDDEN :: u16 where "RESPCODE_0403_FORBIDDEN = 403"
definition RESPCODE_0420_INVALID_CLIENT_CERTIFICATE :: u16 where "RESPCODE_0420_INVALID_CLIENT_CERTIFICATE = 420"
definition RESPCODE_0421_UNKNOWN_USER :: u16 where "RESPCODE_0421_UNKNOWN_USER = 421"
definition RESPCODE_0422_INACTIVE_USER :: u16 where "RESPCODE_0422_INACTIVE_USER = 422"
definition RESPCODE_0423_INVALID_REQUEST :: u16 where "RESPCODE_0423_INVALID_REQUEST = 423"
definition RESPCODE_0424_INVALID_ALPN_PROTOCOL :: u16 where "RESPCODE_0424_INVALID_ALPN_PROTOCOL = 424"
definition RESPCODE_0425_INACTIVE_SERVICE_PROXY :: u16 where "RESPCODE_0425_INACTIVE_SERVICE_PROXY = 425"
definition RESPCODE_0500_SYSTEM_ERROR :: u16 where "RESPCODE_0500_SYSTEM_ERROR = 500"
definition RESPCODE_0520_UNKNOWN_CODE :: u16 where "RESPCODE_0520_UNKNOWN_CODE = 520"

lemmas respcode_defs = RESPCODE_0403_FORBIDDEN_def RESPCODE_0420_INVALID_CLIENT_CERTIFICATE_def
  RESPCODE_0421_UNKNOWN_USER_def RESPCODE_0422_INACTIVE_USER_def RESPCODE_0423_INVALID_REQUEST_def
  RESPCODE_0424_INVALID_ALPN_PROTOCOL_def RESPCODE_0425_INACTIVE_SERVICE_PROXY_def
  RESPCODE_0500_SYSTEM_ERROR_def RESPCODE_0520_UNKNOWN_CODE_def

definition RESPONSE_MSGS :: "(u16, string) hashmap" where
  "RESPONSE_MSGS = hm_collect
    [(RESPCODE_0403_FORBIDDEN, ''[E0403] Access is forbidden''),
     (RESPCODE_0420_INVALID_CLIENT_CERTIFICATE, ''[E0420] Invalid client certificate''),
     (RESPCODE_0421_UNKNOWN_USER, ''[E0421] Unknown user is inactive''),
     (RESPCODE_0422_INACTIVE_USER, ''[E0422] User account is inactive''),
     (RESPCODE_0423_INVALID_REQUEST, ''[E0423] Invalid request''),
     (RESPCODE_0424_INVALID_ALPN_PROTOCOL, ''[E0424] Invalid ALPN protocol''),
     (RESPCODE_0425_INACTIVE_SERVICE_PROXY, ''[E0425] Inactive service proxy''),
     (RESPCODE_0500_SYSTEM_ERROR, ''[E0500] System error occurred''),
     (RESPCODE_0520_UNKNOWN_CODE, ''[E0520] System error occurred'')]"

section \<open>Data source\<close>

text \<open>\<open>ServerMode\<close> and \<open>DataSource\<close> with its \<open>InMemoryDb\<close> arguments (access, service and user file).\<close>

datatype server_mode = ModeControlPlane | ModeProxy

datatype data_source = NoDB | InMemoryDb string string string

text \<open>The file system and the JSON decoder of the three tables.\<close>

record db_env =
  read_db_file :: "string \<Rightarrow> dyn_error + string"
  accesses_from_json :: "string \<Rightarrow> dyn_error + service_access list"
  services_from_json :: "string \<Rightarrow> dyn_error + service list"
  users_from_json :: "string \<Rightarrow> dyn_error + user list"

definition repository_factories :: "access_repo \<times> service_repo \<times> user_repo" where
  "repository_factories = (new_access_repo, new_service_repo, new_user_repo)"

definition create_datasource_repositories ::
  "db_env \<Rightarrow> data_source \<Rightarrow> access_repo \<times> service_repo \<times> user_repo \<Rightarrow>
   (access_repo \<times> service_repo \<times> user_repo) res" where
  "create_datasource_repositories E datasource repos =
     (case repos of (ar, sr, ur) \<Rightarrow>
      case datasource of
        NoDB \<Rightarrow> Ok (ar, sr, ur)
      | InMemoryDb access_file service_file user_file \<Rightarrow>
          (case access_connect (read_db_file E) (accesses_from_json E) access_file ar of (ra, ar') \<Rightarrow>
           and_then ra (\<lambda>_.
           case service_connect (read_db_file E) (services_from_json E) service_file sr of (rs, sr') \<Rightarrow>
           and_then rs (\<lambda>_.
           case user_connect (read_db_file E) (users_from_json E) user_file ur of (ru, ur') \<Rightarrow>
           and_then ru (\<lambda>_. Ok (ar', sr', ur'))))))"

text \<open>The ALPN names given to the TLS server: the control plane and one per known service.\<close>

definition server_alpn_protocols :: "service_repo \<Rightarrow> bytes list res" where
  "server_alpn_protocols sr =
     and_then (service_get_all sr) (\<lambda>services.
       Ok (bytes_of_text (protocol_to_string ControlPlane) #
           map (\<lambda>s. bytes_of_text (create_service_protocol (sv_service_id s))) services))"

section \<open>Service port range\<close>

text \<open>
  The leftmost match of the regular expression \<open>(\d+)-(\d+)\<close>.  \<open>run\<close> stands for the \<open>regex\<close>
  crate's \<open>\d+\<close>: the number of bytes of the longest prefix made of decimal digits.  Greedy
  matching takes the whole run on both sides, since a dash is not a digit.
\<close>

fun range_regex :: "(string \<Rightarrow> nat) \<Rightarrow> string \<Rightarrow> (string \<times> string) option" where
  "range_regex run [] = None"
| "range_regex run (c # s) =
     (let n = run (c # s); rest = drop n (c # s) in
      if 0 < n \<and> rest \<noteq> [] \<and> hd rest = CHR ''-'' \<and> 0 < run (tl rest)
      then Some (take n (c # s), take (run (tl rest)) (tl rest))
      else range_regex run s)"

definition regex_digit_run :: "(string \<Rightarrow> nat) \<Rightarrow> bool" where
  "regex_digit_run run \<longleftrightarrow> (\<forall>s. is_ascii s \<longrightarrow> run s = length (takeWhile is_digit s))"

definition parse_gateway_service_ports :: "(string \<Rightarrow> nat) \<Rightarrow> string \<Rightarrow> (u16 \<times> u16) res" where
  "parse_gateway_service_ports run ports_str =
     and_then (ok_or (General (''Invalid gateway service port range: val='' @ ports_str))
                (range_regex run ports_str)) (\<lambda>(g1, g2).
       let port_start = (case parse_u16 g1 of Some p \<Rightarrow> p | None \<Rightarrow> 0);
           port_end = (case parse_u16 g2 of Some p \<Rightarrow> p | None \<Rightarrow> 0) in
       if port_start = 0 \<or> port_end = 0
       then Err (General (''Invalid gateway service port range (u16 vals required): val='' @ ports_str))
       else Ok (port_start, port_end))"

definition ascii_digit_run :: "string \<Rightarrow> nat" where
  "ascii_digit_run s = length (takeWhile is_digit s)"

section \<open>The application configuration\<close>

text \<open>The command line values the configuration is assembled from.\<close>

record config_args =
  ca_port :: u16
  ca_mode :: "server_mode option"
  ca_gateway_service_host :: "string option"
  ca_gateway_service_ports :: "(u16 \<times> u16) option"
  ca_gateway_service_reply_host :: "string option"
  ca_verbose :: bool
  ca_no_mask_addresses :: bool
  ca_datasource :: data_source

record app_config =
  cfg_server_mode :: server_mode
  cfg_server_port :: u16
  cfg_alpn_protocols :: "bytes list"
  cfg_verbose_logging :: bool
  cfg_access_repo :: access_repo
  cfg_service_repo :: service_repo
  cfg_user_repo :: user_repo
  cfg_gateway_service_host :: "string option"
  cfg_gateway_service_ports :: "(u16 \<times> u16) option"
  cfg_gateway_service_reply_host :: string
  cfg_mask_addresses :: bool

text \<open>
  \<open>AppConfig::new\<close> without the TLS material and the DNS handle, which \<open>T0_Tls_Config\<close> adds: the values it
  assembles, and the steps that lead to them.
\<close>

definition assemble_app_config :: "config_args \<Rightarrow> access_repo \<times> service_repo \<times> user_repo \<Rightarrow> bytes list \<Rightarrow> app_config" where
  [simp]: "assemble_app_config args repos alpns =
     (case repos of (ar, sr, ur) \<Rightarrow>
       \<lparr>cfg_server_mode = (case ca_mode args of Some m \<Rightarrow> m | None \<Rightarrow> ModeControlPlane),
        cfg_server_port = ca_port args,
        cfg_alpn_protocols = alpns,
        cfg_verbose_logging = ca_verbose args,
        cfg_access_repo = ar, cfg_service_repo = sr, cfg_user_repo = ur,
        cfg_gateway_service_host = ca_gateway_service_host args,
        cfg_gateway_service_ports = ca_gateway_service_ports args,
        cfg_gateway_service_reply_host =
          (case ca_gateway_service_reply_host args of Some h \<Rightarrow> h | None \<Rightarrow> ''127.0.0.1''),
        cfg_mask_addresses = (\<not> ca_no_mask_addresses args)\<rparr>)"

definition new_app_config :: "db_env \<Rightarrow> config_args \<Rightarrow> app_config res" where
  "new_app_config E args =
     and_then (create_datasource_repositories E (ca_datasource args) repository_factories) (\<lambda>repos.
     and_then (server_alpn_protocols (fst (snd repos))) (\<lambda>alpns.
       Ok (assemble_app_config args repos alpns)))"

section \<open>Properties of the port range\<close>

lemma ascii_digit_run_ok: "regex_digit_run ascii_digit_run"
  by (simp add: regex_digit_run_def ascii_digit_run_def)

lemma range_regex_skip:
  assumes "regex_digit_run run" and "is_ascii (pre @ s)" and "list_all (\<lambda>c. \<not> is_digit c) pre"
  shows "range_regex run (pre @ s) = range_regex run s"
  using assms(2,3)
proof (induction pre)
  case (Cons c pre)
  then have "run (c # pre @ s) = 0" using assms(1) by (simp add: regex_digit_run_def)
  with Cons show ?case by (simp add: is_ascii_def Let_def)
qed simp

lemma takeWhile_digit_app:
  assumes "list_all is_digit ds" and "s = [] \<or> \<not> is_digit (hd s)"
  shows "takeWhile is_digit (ds @ s) = ds"
  using assms by (cases s) (auto simp: list_all_iff takeWhile_append)

lemma range_regex_here:
  assumes "regex_digit_run run" and "list_all is_digit a" and "list_all is_digit b" and "a \<noteq> []" "b \<noteq> []"
    and "is_ascii post" and "post = [] \<or> \<not> is_digit (hd post)"
  shows "range_regex run (a @ CHR ''-'' # b @ post) = Some (a, b)"
proof -
  have asc: "is_ascii (a @ CHR ''-'' # b @ post)" "is_ascii (b @ post)"
    using digits_ascii[OF assms(2)] digits_ascii[OF assms(3)] assms(6) by (auto simp: is_ascii_def)
  have ra: "run (a @ CHR ''-'' # b @ post) = length a"
    using assms(1) asc(1) takeWhile_digit_app[OF assms(2), of "CHR ''-'' # b @ post"]
    by (simp add: regex_digit_run_def is_digit_def)
  have rb: "run (b @ post) = length b"
    using assms(1) asc(2) takeWhile_digit_app[OF assms(3,7)] by (simp add: regex_digit_run_def)
  obtain c a' where "a = c # a'" using assms(4) by (cases a) auto
  with ra rb assms(4,5) show ?thesis by (simp add: Let_def)
qed

text \<open>
  A service port range is accepted wherever it stands in the text: two non-zero ports joined
  by a dash are found behind any text without digits and before any text that does not continue
  the second number, and no order between the two ports is required.
\<close>

theorem service_ports_accepts:
  assumes "regex_digit_run run" and "is_ascii pre" "is_ascii post"
    and "list_all (\<lambda>c. \<not> is_digit c) pre" and "post = [] \<or> \<not> is_digit (hd post)"
    and "a \<noteq> 0" "b \<noteq> 0"
  shows "parse_gateway_service_ports run (pre @ show_u16 a @ ''-'' @ show_u16 b @ post) = Ok (a, b)"
proof -
  have d: "list_all is_digit (show_u16 n)" "show_u16 n \<noteq> []" for n
    by (simp_all add: show_u16_def show_nat_digits)
  have "is_ascii (show_u16 a @ CHR ''-'' # show_u16 b @ post)"
    using digits_ascii[OF d(1)] assms(3) by (simp add: is_ascii_def)
  then have "is_ascii (pre @ show_u16 a @ CHR ''-'' # show_u16 b @ post)"
    using assms(2) by (simp add: is_ascii_def)
  from range_regex_skip[OF assms(1) this assms(4)] range_regex_here[OF assms(1) d(1) d(1) d(2) d(2) assms(3,5)]
  have "range_regex run (pre @ show_u16 a @ CHR ''-'' # show_u16 b @ post) = Some (show_u16 a, show_u16 b)"
    by simp
  with assms(6,7) show ?thesis by (simp add: parse_gateway_service_ports_def)
qed

theorem service_ports_accepts_witness:
  "parse_gateway_service_ports ascii_digit_run (''x:'' @ show_u16 9000 @ ''-'' @ show_u16 80 @ ''!'') = Ok (9000, 80)"
  by (rule service_ports_accepts) (simp_all add: ascii_digit_run_ok is_ascii_def is_digit_def)

text \<open>
  An accepted port range never contains port 0, whatever the digits were: a number too large
  for 16 bits is an error, as is a text without two numbers joined by a dash.
\<close>

theorem service_ports_nonzero:
  "parse_gateway_service_ports run s \<noteq> Ok (0, b) \<and> parse_gateway_service_ports run s \<noteq> Ok (a, 0) \<and>
   (range_regex run s = None \<longrightarrow> (\<exists>e. parse_gateway_service_ports run s = Err e)) \<and>
   parse_gateway_service_ports run s \<noteq> Panic m"
  by (auto simp: parse_gateway_service_ports_def Let_def res_simps)

theorem service_ports_nonzero_witness:
  "range_regex ascii_digit_run ''8400'' = None \<and>
   (\<exists>e. parse_gateway_service_ports ascii_digit_run ''8400'' = Err e)"
proof -
  have r: "range_regex ascii_digit_run ''8400'' = None" by code_simp
  with service_ports_nonzero[of ascii_digit_run "''8400''"] show ?thesis by blast
qed

section \<open>Properties of the assembled configuration\<close>

definition service_inv :: "service_repo \<Rightarrow> bool" where
  "service_inv r \<longleftrightarrow> hm_inv (rw_data r) \<and> (\<forall>k e. hm_get (rw_data r) k = Some e \<longrightarrow> k = sv_service_id e)"

lemma service_inv_new [t0_inv]: "service_inv new_service_repo"
  by (simp add: service_inv_def new_service_repo_def)

lemma service_inv_put [t0_inv]: "service_inv r \<Longrightarrow> service_inv (snd (service_put e r))"
  by (auto simp: service_inv_def service_put_def repo_defs)

lemma service_inv_connect [t0_inv]:
  "service_inv r \<Longrightarrow> service_inv (snd (service_connect read_file from_json spec r))"
  unfolding service_connect_def by (rule load_inv[of service_inv, OF service_inv_put])

definition user_inv :: "user_repo \<Rightarrow> bool" where
  "user_inv r \<longleftrightarrow> (\<forall>k e. hm_get (rw_data r) k = Some e \<longrightarrow> u_user_id e = k)"

lemma user_inv_new [t0_inv]: "user_inv new_user_repo"
  by (simp add: user_inv_def new_user_repo_def)

lemma user_inv_put [t0_inv]: "user_inv r \<Longrightarrow> user_inv (snd (user_put e r))"
  by (auto simp: user_inv_def user_put_def repo_defs)

lemma user_inv_connect [t0_inv]:
  "user_inv r \<Longrightarrow> user_inv (snd (user_connect read_file from_json spec r))"
  unfolding user_connect_def by (rule load_inv[of user_inv, OF user_inv_put])

lemma rw_avail_connect:
  "rw_avail r1 \<Longrightarrow> rw_avail (snd (access_connect rf aj spec r1))"
  "rw_avail r2 \<Longrightarrow> rw_avail (snd (service_connect rf sj spec r2))"
  "rw_avail r3 \<Longrightarrow> rw_avail (snd (user_connect rf uj spec r3))"
  unfolding access_connect_def service_connect_def user_connect_def
  by (rule load_inv[of rw_avail], erule access_rep.put_avail service_rep.put_avail user_rep.put_avail, assumption)+

definition repos_inv :: "access_repo \<times> service_repo \<times> user_repo \<Rightarrow> bool" where
  "repos_inv repos \<longleftrightarrow> (case repos of (ar, sr, ur) \<Rightarrow> access_inv ar \<and> service_inv sr \<and> user_inv ur \<and> rw_avail ar \<and> rw_avail sr \<and> rw_avail ur)"

lemma repos_inv_create:
  assumes "repos_inv repos" and "create_datasource_repositories E d repos = Ok repos'"
  shows "repos_inv repos'"
proof (cases d)
  case NoDB
  with assms show ?thesis by (cases repos) (simp add: create_datasource_repositories_def)
next
  case (InMemoryDb af sf uf)
  obtain ar sr ur where r: "repos = (ar, sr, ur)" by (cases repos)
  let ?a = "access_connect (read_db_file E) (accesses_from_json E) af ar"
    and ?s = "service_connect (read_db_file E) (services_from_json E) sf sr"
    and ?u = "user_connect (read_db_file E) (users_from_json E) uf ur"
  have "repos' = (snd ?a, snd ?s, snd ?u)"
    using assms(2) InMemoryDb r by (auto simp: create_datasource_repositories_def res_simps split: prod.splits)
  with assms(1) r show ?thesis
    by (simp add: repos_inv_def access_inv_connect service_inv_connect user_inv_connect rw_avail_connect)
qed

lemma new_app_config_repos:
  assumes "new_app_config E args = Ok cfg"
  shows "repos_inv (cfg_access_repo cfg, cfg_service_repo cfg, cfg_user_repo cfg)"
proof -
  have "repos_inv repository_factories" by (simp add: repos_inv_def repository_factories_def access_inv_new service_inv_new user_inv_new)
  from repos_inv_create[OF this] assms show ?thesis by (auto simp: new_app_config_def res_simps)
qed

lemma new_app_config_service_inv: "new_app_config E args = Ok cfg \<Longrightarrow> service_inv (cfg_service_repo cfg)"
  using new_app_config_repos by (fastforce simp: repos_inv_def)

text \<open>
  C26: every configuration the gateway starts with is well formed, whatever the data files hold: the
  three tables can be read, and each entry that a lookup finds carries the ids it is filed under, so that
  duplicated records in a file cannot make an identity answer for another.
\<close>

theorem config_well_formed:
  assumes "new_app_config E args = Ok cfg"
  shows "(\<exists>u. user_get (cfg_user_repo cfg) uid = Ok u \<and> (\<forall>e. u = Some e \<longrightarrow> u_user_id e = uid)) \<and>
    (\<exists>s. service_get (cfg_service_repo cfg) sid = Ok s \<and> (\<forall>e. s = Some e \<longrightarrow> sv_service_id e = sid)) \<and>
    (\<exists>a. access_get (cfg_access_repo cfg) uid sid = Ok a \<and> (\<forall>e. a = Some e \<longrightarrow> ac_user_id e = uid \<and> ac_service_id e = sid))"
proof -
  from new_app_config_repos[OF assms] have
    inv: "access_inv (cfg_access_repo cfg)" "service_inv (cfg_service_repo cfg)" "user_inv (cfg_user_repo cfg)"
      "rw_avail (cfg_access_repo cfg)" "rw_avail (cfg_service_repo cfg)" "rw_avail (cfg_user_repo cfg)"
    by (auto simp: repos_inv_def)
  have "\<exists>a. access_get (cfg_access_repo cfg) uid sid = Ok a \<and> (\<forall>e. a = Some e \<longrightarrow> ac_user_id e = uid \<and> ac_service_id e = sid)"
    using access_rep.get_avail[OF inv(4), of "(uid, sid)"] access_get_entry[OF inv(1), of uid sid] by auto
  moreover have "\<exists>s. service_get (cfg_service_repo cfg) sid = Ok s \<and> (\<forall>e. s = Some e \<longrightarrow> sv_service_id e = sid)"
    using inv(2,5) by (auto simp: service_get_def service_inv_def repo_defs rw_avail_def)
  moreover have "\<exists>u. user_get (cfg_user_repo cfg) uid = Ok u \<and> (\<forall>e. u = Some e \<longrightarrow> u_user_id e = uid)"
    using inv(3,6) by (auto simp: user_get_def user_inv_def repo_defs rw_avail_def)
  ultimately show ?thesis by blast
qed

lemma text_protocol [simp]: "text_of_bytes (bytes_of_text s) = s"
  by (simp add: bytes_text)

text \<open>
  every ALPN name the TLS server offers is one the gateway understands: its text parses,
  without panic, to the control plane or to a service that the service repository knows.
\<close>

theorem server_alpn_parses:
  assumes "regex_digits nd" and "new_app_config E args = Ok cfg" and "name \<in> set (cfg_alpn_protocols cfg)"
  shows "\<exists>p. parse_protocol nd (text_of_bytes name) = Ok (Some p) \<and>
    (\<forall>sid. p = Service sid \<longrightarrow> (\<exists>s. service_get (cfg_service_repo cfg) sid = Ok (Some s)))"
proof -
  let ?sr = "cfg_service_repo cfg"
  from assms(2) have alpn: "server_alpn_protocols ?sr = Ok (cfg_alpn_protocols cfg)"
    by (auto simp: new_app_config_def res_simps)
  then obtain services where sv: "service_get_all ?sr = Ok services"
    and names: "cfg_alpn_protocols cfg = bytes_of_text (protocol_to_string ControlPlane) #
           map (\<lambda>s. bytes_of_text (create_service_protocol (sv_service_id s))) services"
    by (auto simp: server_alpn_protocols_def res_simps)
  from sv have data: "services = hm_values (rw_data ?sr)" "\<not> rw_poisoned ?sr"
    by (auto simp: service_get_all_def repo_defs split: if_splits)
  from assms(3) names consider "text_of_bytes name = PROTOCOL_CONTROL_PLANE"
    | s where "s \<in> set services" "text_of_bytes name = PROTOCOL_SERVICE @ show_u64 (sv_service_id s)"
    by (auto simp: create_service_protocol_def)
  then show ?thesis
  proof cases
    case 1
    then show ?thesis by (simp add: parse_protocol_def)
  next
    case 2
    have "list_all is_digit (show_u64 (sv_service_id s))" "show_u64 (sv_service_id s) \<noteq> []"
      by (simp_all add: show_u64_def show_nat_digits)
    with assms(1) 2 have p: "parse_protocol nd (text_of_bytes name) = Ok (Some (Service (sv_service_id s)))"
      by (simp add: parse_protocol_service_text)
    from new_app_config_service_inv[OF assms(2)] 2(1) data have "hm_get (rw_data ?sr) (sv_service_id s) = Some s"
      by (auto simp: service_inv_def hm_values_get)
    with p data show ?thesis by (auto simp: service_get_def repo_defs)
  qed
qed

definition demo_db :: db_env where
  "demo_db = \<lparr>read_db_file = (\<lambda>_. Inr ''json''), accesses_from_json = (\<lambda>_. Inr [new_access 100 203]),
     services_from_json = (\<lambda>_. Inr [new_service 203 ''echo'' TCP ''host'' 8203]),
     users_from_json = (\<lambda>_. Inr [new_user 100 ''ann'' Active, new_user 101 ''bob'' Inactive])\<rparr>"

definition demo_args :: config_args where
  "demo_args = \<lparr>ca_port = 8400, ca_mode = None, ca_gateway_service_host = Some ''gw'',
     ca_gateway_service_ports = Some (8500, 8501), ca_gateway_service_reply_host = None, ca_verbose = False,
     ca_no_mask_addresses = False, ca_datasource = InMemoryDb ''a.json'' ''s.json'' ''u.json''\<rparr>"

definition demo_config :: app_config where
  "demo_config = \<lparr>cfg_server_mode = ModeControlPlane, cfg_server_port = 8400,
     cfg_alpn_protocols = [bytes_of_text ''T0CP'', bytes_of_text ''T0SRV203''], cfg_verbose_logging = False,
     cfg_access_repo = \<lparr>rw_data = [((100, 203), new_access 100 203)], rw_poisoned = False\<rparr>,
     cfg_service_repo = \<lparr>rw_data = [(203, new_service 203 ''echo'' TCP ''host'' 8203)], rw_poisoned = False\<rparr>,
     cfg_user_repo = \<lparr>rw_data = [(100, new_user 100 ''ann'' Active), (101, new_user 101 ''bob'' Inactive)],
       rw_poisoned = False\<rparr>,
     cfg_gateway_service_host = Some ''gw'', cfg_gateway_service_ports = Some (8500, 8501),
     cfg_gateway_service_reply_host = ''127.0.0.1'', cfg_mask_addresses = True\<rparr>"

lemma show_u64_203: "show_u64 203 = ''203''"
  by code_simp

lemma demo_config_new: "new_app_config demo_db demo_args = Ok demo_config"
  by (simp add: new_app_config_def demo_args_def demo_db_def create_datasource_repositories_def
      repository_factories_def access_connect_def service_connect_def user_connect_def load_datasource_def
      access_put_def service_put_def user_put_def repo_defs new_access_repo_def new_service_repo_def
      new_user_repo_def new_access_def new_service_def new_user_def hm_insert_def server_alpn_protocols_def
      service_get_all_def hm_values_def create_service_protocol_def PROTOCOL_SERVICE_def
      PROTOCOL_CONTROL_PLANE_def show_u64_203 demo_config_def)

theorem config_well_formed_witness:
  "\<exists>u. user_get (cfg_user_repo demo_config) 100 = Ok u \<and> (\<forall>e. u = Some e \<longrightarrow> u_user_id e = 100)"
  using config_well_formed[OF demo_config_new, of 100 203] by blast

theorem server_alpn_parses_witness:
  "new_app_config demo_db demo_args = Ok demo_config \<and>
   bytes_of_text ''T0SRV203'' \<in> set (cfg_alpn_protocols demo_config) \<and>
   (\<exists>p. parse_protocol ascii_nd (text_of_bytes (bytes_of_text ''T0SRV203'')) = Ok (Some p))"
proof -
  have m: "bytes_of_text ''T0SRV203'' \<in> set (cfg_alpn_protocols demo_config)"
    by (simp add: demo_config_def)
  from server_alpn_parses[OF ascii_nd_ok demo_config_new m] demo_config_new m show ?thesis by blast
qed

end
