(* ===== verification/T0_Device.thy ===== *)
theory T0_Device
  imports T0_Model
begin

text \<open>
  \<open>crates/common/src/crypto/asn.rs\<close> and \<open>crates/gateway/src/client/device.rs\<close>: the client
  device, read from the end-entity certificate of its mTLS chain.  The certificate parser
  (\<open>x509_parser\<close>, \<open>asn1_rs\<close>, \<open>oid_registry\<close>), the grouping iterator (\<open>iter_group\<close>) and
  \<open>serde_json\<close> are not part of the repository: they are the fields of \<open>asn_lib\<close> and
  \<open>cert_lib\<close>, over the type \<open>'a\<close> of ASN.1 values.
\<close>

section \<open>Texts of ASN.1 values\<close>

datatype asn_tag =
    TagBoolean | TagEnumerated | TagGeneralizedTime | TagGeneralString | TagIa5String | TagInteger
  | TagOctetString | TagOid | TagPrintableString | TagRelativeOid | TagUtcTime | TagUtf8String
  | TagOther string

text \<open>\<open>as_integer\<close>: the integer value, if it fits an \<open>i64\<close> (\<open>as_i64\<close>); \<open>oid_text\<close>: \<open>format_oid\<close> of it.\<close>

record 'a asn_lib =
  tag_of :: "'a \<Rightarrow> asn_tag"
  as_bool :: "'a \<Rightarrow> dyn_error + bool"
  as_enumerated :: "'a \<Rightarrow> dyn_error + nat"
  as_generalizedtime :: "'a \<Rightarrow> dyn_error + string"
  as_generalstring :: "'a \<Rightarrow> dyn_error + string"
  as_ia5string :: "'a \<Rightarrow> dyn_error + string"
  as_integer :: "'a \<Rightarrow> dyn_error + int option"
  as_octetstring :: "'a \<Rightarrow> dyn_error + bytes"
  oid_text :: "'a \<Rightarrow> dyn_error + string"
  as_printablestring :: "'a \<Rightarrow> dyn_error + string"
  as_utctime :: "'a \<Rightarrow> dyn_error + string"
  as_utf8string :: "'a \<Rightarrow> dyn_error + string"

definition show_bool :: "bool \<Rightarrow> string" where
  "show_bool b = (if b then ''true'' else ''false'')"

definition show_int :: "int \<Rightarrow> string" where
  "show_int i = (if i < 0 then CHR ''-'' # show_nat (nat (- i)) else show_nat (nat i))"

definition upper_hex :: "nat \<Rightarrow> char" where
  "upper_hex d = (if d < 10 then char_of (48 + d) else char_of (55 + d))"

text \<open>\<open>{byteval:02X}\<close>.\<close>

definition byte_hex :: "u8 \<Rightarrow> string" where
  "byte_hex b = [upper_hex (unat b div 16), upper_hex (unat b mod 16)]"

definition convert_err :: "dyn_error \<Rightarrow> app_error" where
  "convert_err err = GenWithMsgAndErr ''Failed ASN value conversion'' err"

definition stringify_asn_value :: "'a asn_lib \<Rightarrow> 'a \<Rightarrow> string res" where
  "stringify_asn_value A v =
     (case tag_of A v of
        TagBoolean \<Rightarrow> map_err convert_err (map_sum id show_bool (as_bool A v))
      | TagEnumerated \<Rightarrow> map_err convert_err (map_sum id show_nat (as_enumerated A v))
      | TagGeneralizedTime \<Rightarrow> map_err convert_err (as_generalizedtime A v)
      | TagGeneralString \<Rightarrow> map_err convert_err (as_generalstring A v)
      | TagIa5String \<Rightarrow> map_err convert_err (as_ia5string A v)
      | TagInteger \<Rightarrow>
          (case as_integer A v of
             Inl err \<Rightarrow> Err (convert_err err)
           | Inr (Some i) \<Rightarrow> Ok (show_int i)
           | Inr None \<Rightarrow> Panic ''called `Result::unwrap()` on an `Err` value'')
      | TagOctetString \<Rightarrow>
          (case as_octetstring A v of
             Inr octets \<Rightarrow> Ok (foldl (\<lambda>out b. out @ byte_hex b) [] octets)
           | Inl err \<Rightarrow> Err (convert_err err))
      | TagOid \<Rightarrow> map_err convert_err (oid_text A v)
      | TagPrintableString \<Rightarrow> map_err convert_err (as_printablestring A v)
      | TagRelativeOid \<Rightarrow> map_err convert_err (oid_text A v)
      | TagUtcTime \<Rightarrow> map_err convert_err (as_utctime A v)
      | TagUtf8String \<Rightarrow> map_err convert_err (as_utf8string A v)
      | TagOther t \<Rightarrow> Err (General (''unsupported tag '' @ t)))"

section \<open>Devices\<close>

text \<open>\<open>crypto/x509.rs\<close>: a certificate and a private key in DER form are their bytes.\<close>

definition create_der_certificate :: "bytes \<Rightarrow> bytes" where
  [simp]: "create_der_certificate der_cert_bytes = der_cert_bytes"
definition create_der_pkcs8_private_key :: "bytes \<Rightarrow> bytes" where
  [simp]: "create_der_pkcs8_private_key der_key_bytes = der_key_bytes"

lemma map_der_certificates [simp]: "map create_der_certificate chain = chain"
  by (induction chain) simp_all

record cert_access_context =
  ctx_user_id :: u64
  ctx_platform :: string

definition default_context :: cert_access_context where
  "default_context = \<lparr>ctx_user_id = 0, ctx_platform = []\<rparr>"

record device =
  dv_cert_subj :: "(string, string list) hashmap"
  dv_cert_alt_subj :: "(string, string list) hashmap"
  dv_cert_access_context :: cert_access_context

definition default_device :: device where
  "default_device = \<lparr>dv_cert_subj = [], dv_cert_alt_subj = [], dv_cert_access_context = default_context\<rparr>"

datatype general_name = URI string | OtherGeneralName

text \<open>
  A parsed certificate: the subject's relative distinguished names (attribute type and value),
  and the subject alternative name extension (an error when it does not parse, \<open>None\<close> when absent).
\<close>

record 'a x509 =
  x_subject :: "(string \<times> 'a) list list"
  x_subject_alternative_name :: "dyn_error + general_name list option"

record 'a cert_lib =
  asn_of :: "'a asn_lib"
  parse_x509_certificate :: "bytes \<Rightarrow> dyn_error + 'a x509"
  group_pairs :: "(string \<times> string) list \<Rightarrow> (string, string list) hashmap"
  context_from_json :: "string \<Rightarrow> dyn_error + cert_access_context"

text \<open>What \<open>iter_group\<close> documents: the values of a key, in their order.\<close>

definition group_ok :: "'a cert_lib \<Rightarrow> bool" where
  "group_ok L \<longleftrightarrow>
     (\<forall>kvs k. hm_get (group_pairs L kvs) k =
        (let vs = map snd (filter (\<lambda>kv. fst kv = k) kvs) in if vs = [] then None else Some vs))"

definition device_cert :: "'a cert_lib \<Rightarrow> bytes list \<Rightarrow> 'a x509 res" where
  "device_cert L cert_chain =
     (case cert_chain of
        cert # _ \<Rightarrow> map_err (GenWithMsgAndErr ''Failed to parse client certificate'') (parse_x509_certificate L cert)
      | [] \<Rightarrow> Err (General ''Empty client certificate chain (1)''))"

definition cert_subj_attrs :: "'a cert_lib \<Rightarrow> 'a x509 \<Rightarrow> (string \<times> string) list res" where
  "cert_subj_attrs L x =
     collect_res (map (\<lambda>attr. and_then (stringify_asn_value (asn_of L) (snd attr)) (\<lambda>t. Ok (fst attr, t)))
       (concat (x_subject x)))"

fun uri_pair :: "general_name \<Rightarrow> (string \<times> string) option" where
  "uri_pair (URI val) = Some (''URI'', val)"
| "uri_pair OtherGeneralName = None"

definition cert_context :: "'a cert_lib \<Rightarrow> (string, string list) hashmap \<Rightarrow> cert_access_context res" where
  "cert_context L alt_subj =
     (case hm_get alt_subj ''URI'' of
        Some uri_value \<Rightarrow>
          (case uri_value of
             u # _ \<Rightarrow> map_err (GenWithMsgAndErr ''Invalid Certificate Context JSON'') (context_from_json L u)
           | [] \<Rightarrow> Panic ''called `Option::unwrap()` on a `None` value'')
      | None \<Rightarrow> Ok default_context)"

definition device_new :: "'a cert_lib \<Rightarrow> bytes list \<Rightarrow> device res" where
  "device_new L chain =
     and_then (device_cert L chain) (\<lambda>x.
     and_then (cert_subj_attrs L x) (\<lambda>subj.
     and_then (map_err (GenWithMsgAndErr ''Failed to parse subject alternative name'')
                (x_subject_alternative_name x)) (\<lambda>san.
     case san of
       None \<Rightarrow> Ok \<lparr>dv_cert_subj = group_pairs L subj, dv_cert_alt_subj = [],
                   dv_cert_access_context = default_context\<rparr>
     | Some names \<Rightarrow>
         let alt_subj = group_pairs L (List.map_filter uri_pair names) in
         and_then (cert_context L alt_subj) (\<lambda>ctx.
         Ok \<lparr>dv_cert_subj = group_pairs L subj, dv_cert_alt_subj = alt_subj,
             dv_cert_access_context = ctx\<rparr>))))"

text \<open>The derived \<open>Debug\<close> of the context and of the attribute maps.\<close>

definition context_debug :: "cert_access_context \<Rightarrow> string" where
  "context_debug c =
     ''CertAccessContext { user_id: '' @ show_u64 (ctx_user_id c) @ '', platform: '' @ debug_str (ctx_platform c) @ '' }''"

definition attrs_debug :: "(string, string list) hashmap \<Rightarrow> string" where
  "attrs_debug m =
     CHR ''{'' # join_strs '', '' (map (\<lambda>kv. debug_str (fst kv) @ '': ['' @ join_strs '', '' (map debug_str (snd kv)) @ '']'') m) @ ''}''"

text \<open>An instance of the certificate library: one attribute type, integers only.\<close>

definition demo_group :: "(string \<times> string) list \<Rightarrow> (string, string list) hashmap" where
  "demo_group kvs = map (\<lambda>k. (k, map snd (filter (\<lambda>kv. fst kv = k) kvs))) (remdups (map fst kvs))"

definition demo_asn :: "int asn_lib" where
  "demo_asn = \<lparr>tag_of = (\<lambda>_. TagInteger), as_bool = (\<lambda>_. Inl send_error), as_enumerated = (\<lambda>_. Inl send_error),
     as_generalizedtime = (\<lambda>_. Inl send_error), as_generalstring = (\<lambda>_. Inl send_error),
     as_ia5string = (\<lambda>_. Inl send_error),
     as_integer = (\<lambda>i. Inr (if - (2 ^ 63) \<le> i \<and> i < 2 ^ 63 then Some i else None)),
     as_octetstring = (\<lambda>_. Inl send_error), oid_text = (\<lambda>_. Inl send_error),
     as_printablestring = (\<lambda>_. Inl send_error), as_utctime = (\<lambda>_. Inl send_error),
     as_utf8string = (\<lambda>_. Inl send_error)\<rparr>"

text \<open>A certificate is one byte: the user id it carries; 255 has no alternative name.\<close>

definition demo_cert_lib :: "int cert_lib" where
  "demo_cert_lib = \<lparr>asn_of = demo_asn,
     parse_x509_certificate = (\<lambda>bs. case bs of
        [] \<Rightarrow> Inl send_error
      | b # _ \<Rightarrow> Inr \<lparr>x_subject = [[(''2.5.4.5'', 7)]],
           x_subject_alternative_name =
             Inr (if b = 255 then None else Some [OtherGeneralName, URI (show_nat (unat b))])\<rparr>),
     group_pairs = demo_group,
     context_from_json = (\<lambda>s. case parse_u64 s of
        Some n \<Rightarrow> Inr \<lparr>ctx_user_id = n, ctx_platform = ''Linux''\<rparr> | None \<Rightarrow> Inl send_error)\<rparr>"

section \<open>Properties\<close>

lemma map_of_map_pair: "map_of (map (\<lambda>k. (k, f k)) ks) k = (if k \<in> set ks then Some (f k) else None)"
  by (induction ks) auto

lemma demo_group_ok: "group_ok demo_cert_lib"
  by (auto simp: group_ok_def demo_cert_lib_def demo_group_def hm_get_def map_of_map_pair Let_def
      filter_empty_conv)

lemma uri_values:
  "map snd (filter (\<lambda>kv. fst kv = ''URI'') (List.map_filter uri_pair names)) =
     List.map_filter (\<lambda>g. case g of URI v \<Rightarrow> Some v | OtherGeneralName \<Rightarrow> None) names"
  by (induction names) (auto simp: List.map_filter_def split: general_name.splits option.splits)

lemma cert_context_first_uri:
  assumes "group_ok L"
  shows "cert_context L (group_pairs L (List.map_filter uri_pair names)) =
    (case List.map_filter (\<lambda>g. case g of URI v \<Rightarrow> Some v | OtherGeneralName \<Rightarrow> None) names of
       u # _ \<Rightarrow> map_err (GenWithMsgAndErr ''Invalid Certificate Context JSON'') (context_from_json L u)
     | [] \<Rightarrow> Ok default_context)"
proof -
  let ?vs = "List.map_filter (\<lambda>g. case g of URI v \<Rightarrow> Some v | OtherGeneralName \<Rightarrow> None) names"
  have "hm_get (group_pairs L (List.map_filter uri_pair names)) ''URI'' = (if ?vs = [] then None else Some ?vs)"
    using assms unfolding group_ok_def Let_def by (simp only: uri_values)
  then show ?thesis by (cases ?vs) (simp_all add: cert_context_def)
qed

text \<open>
  C31: the identity of a device is read from the first certificate of the chain alone: its access
  context is the JSON value of the first URI among that certificate's alternative names, and the
  default context (user id 0) when the certificate has none.
\<close>

theorem device_identity:
  assumes "group_ok L" and "device_new L chain = Ok d"
  shows "\<exists>cert rest x names. chain = cert # rest \<and> parse_x509_certificate L cert = Inr x \<and>
    names = (case x_subject_alternative_name x of Inr (Some ns) \<Rightarrow> ns | _ \<Rightarrow> []) \<and>
    (case List.map_filter (\<lambda>g. case g of URI v \<Rightarrow> Some v | OtherGeneralName \<Rightarrow> None) names of
       u # _ \<Rightarrow> context_from_json L u = Inr (dv_cert_access_context d)
     | [] \<Rightarrow> dv_cert_access_context d = default_context)"
proof -
  from assms(2) obtain x where x: "device_cert L chain = Ok x"
    by (auto simp: device_new_def res_simps)
  then obtain cert rest where chain: "chain = cert # rest" "parse_x509_certificate L cert = Inr x"
    by (auto simp: device_cert_def map_err_Ok split: list.splits)
  from assms(2) x obtain san where san: "x_subject_alternative_name x = Inr san"
    by (auto simp: device_new_def res_simps)
  show ?thesis
  proof (cases san)
    case None
    with assms(2) x san have "dv_cert_access_context d = default_context"
      by (auto simp: device_new_def res_simps)
    with chain san None show ?thesis by (auto simp: List.map_filter_def)
  next
    case (Some names)
    with assms(2) x san have
      "cert_context L (group_pairs L (List.map_filter uri_pair names)) = Ok (dv_cert_access_context d)"
      by (auto simp: device_new_def res_simps Let_def)
    then show ?thesis using chain san Some
      by (auto simp: cert_context_first_uri[OF assms(1)] map_err_Ok split: list.splits)
  qed
qed

theorem device_identity_witness:
  "group_ok demo_cert_lib \<and>
   (\<exists>d. device_new demo_cert_lib [[100], [7]] = Ok d \<and>
     context_from_json demo_cert_lib ''100'' = Inr (dv_cert_access_context d) \<and>
     (\<exists>cert rest x names. [[100], [7]] = cert # rest \<and> parse_x509_certificate demo_cert_lib cert = Inr x \<and>
       names = (case x_subject_alternative_name x of Inr (Some ns) \<Rightarrow> ns | _ \<Rightarrow> []) \<and>
       (case List.map_filter (\<lambda>g. case g of URI v \<Rightarrow> Some v | OtherGeneralName \<Rightarrow> None) names of
          u # _ \<Rightarrow> context_from_json demo_cert_lib u = Inr (dv_cert_access_context d)
        | [] \<Rightarrow> dv_cert_access_context d = default_context)))"
proof -
  have s: "show_nat 100 = ''100''" by code_simp
  define d where "d = \<lparr>dv_cert_subj = [(''2.5.4.5'', [show_int 7])], dv_cert_alt_subj = [(''URI'', [''100''])],
      dv_cert_access_context = \<lparr>ctx_user_id = 100, ctx_platform = ''Linux''\<rparr>\<rparr>"
  have d: "device_new demo_cert_lib [[100], [7]] = Ok d"
    "context_from_json demo_cert_lib ''100'' = Inr (dv_cert_access_context d)"
    by (simp_all add: d_def device_new_def device_cert_def cert_subj_attrs_def demo_cert_lib_def demo_asn_def
        stringify_asn_value_def List.map_filter_def demo_group_def cert_context_def hm_get_def s
        parse_u64_def parse_uint_def is_digit_def digits_val_def digit_val_def)
  show ?thesis using demo_group_ok d device_identity[OF demo_group_ok d(1)] by blast
qed

text \<open>
  Turning an ASN.1 value into text fails with an error for every unsupported tag and
  conversion error, and panics exactly for an integer that does not fit 64 bits.
\<close>

theorem stringify_panics_iff:
  "(\<exists>m. stringify_asn_value A v = Panic m) \<longleftrightarrow> tag_of A v = TagInteger \<and> as_integer A v = Inr None"
  by (auto simp: stringify_asn_value_def split: asn_tag.splits sum.splits option.splits)

end
