(* ===== verification/T0_Stream.thy ===== *)
theory T0_Stream
  imports T0_Error
begin

text \<open>
  Sockets as the operating system shows them to the program, and \<open>crates/common/src/net/stream_utils.rs\<close>.

  A stream carries the results its future system calls will have: the chunks and errors \<open>read\<close>
  will meet, in order (an empty chunk is the end of the stream, no entry means that nothing is
  there yet, so \<open>WouldBlock\<close>), and the outcome of each \<open>write_all\<close> (\<open>None\<close>: everything is written;
  an error together with the number of bytes that went out before it).  These lists are arbitrary:
  every statement holds for every behaviour of the peer and of the kernel.
\<close>

datatype io_kind = UnexpectedEof | KWouldBlock | BrokenPipe | NotConnected | KOther

record io_error =
  io_kind_of :: io_kind
  io_err_of :: dyn_error

record net_stream =
  st_peer_addr :: "string option"
  st_local_addr :: "string option"
  st_reads :: "(io_error + bytes) list"
  st_writes :: "(io_error \<times> nat) option list"
  st_sent :: bytes
  st_shutdowns :: "dyn_error option list"
  st_clone_err :: "dyn_error option"
  st_debug :: string

text \<open>A TLS connection: a stream with the negotiated certificate chain and protocol name.\<close>

record tls_stream = net_stream +
  tls_peer_certificates :: "bytes list option"
  tls_alpn_protocol :: "bytes option"

definition would_block_error :: io_error where
  "would_block_error = \<lparr>io_kind_of = KWouldBlock, io_err_of =
     \<lparr>display_of = ''Resource temporarily unavailable (os error 11)'',
      debug_of = ''Os { code: 11, kind: WouldBlock, message: \"Resource temporarily unavailable\" }''\<rparr>\<rparr>"

text \<open>\<open>Read::read\<close> into a buffer of \<open>n\<close> bytes and \<open>Write::write_all\<close>.\<close>

definition sock_read :: "nat \<Rightarrow> 'z net_stream_scheme \<Rightarrow> (io_error + bytes) \<times> 'z net_stream_scheme" where
  "sock_read n s =
     (case st_reads s of
        [] \<Rightarrow> (Inl would_block_error, s)
      | Inl e # r \<Rightarrow> (Inl e, s\<lparr>st_reads := r\<rparr>)
      | Inr bs # r \<Rightarrow>
          (Inr (take n bs), s\<lparr>st_reads := (if n < length bs then Inr (drop n bs) # r else r)\<rparr>))"

definition sock_write_all :: "bytes \<Rightarrow> 'z net_stream_scheme \<Rightarrow> (io_error + unit) \<times> 'z net_stream_scheme" where
  "sock_write_all buf s =
     (case st_writes s of
        Some (e, n) # r \<Rightarrow> (Inl e, s\<lparr>st_writes := r, st_sent := st_sent s @ take n buf\<rparr>)
      | None # r \<Rightarrow> (Inr (), s\<lparr>st_writes := r, st_sent := st_sent s @ buf\<rparr>)
      | [] \<Rightarrow> (Inr (), s\<lparr>st_sent := st_sent s @ buf\<rparr>))"

text \<open>\<open>TcpStream::shutdown(Shutdown::Both)\<close>.\<close>

definition sock_shutdown :: "'z net_stream_scheme \<Rightarrow> (dyn_error + unit) \<times> 'z net_stream_scheme" where
  "sock_shutdown s =
     (case st_shutdowns s of
        Some e # r \<Rightarrow> (Inl e, s\<lparr>st_shutdowns := r\<rparr>)
      | None # r \<Rightarrow> (Inr (), s\<lparr>st_shutdowns := r\<rparr>)
      | [] \<Rightarrow> (Inr (), s))"

section \<open>Stream functions\<close>

definition TCP_READ_BLOCK_SIZE :: nat where "TCP_READ_BLOCK_SIZE = 1024"

definition reads_weight :: "(io_error + bytes) list \<Rightarrow> nat" where
  "reads_weight rs = sum_list (map (\<lambda>r. case r of Inl _ \<Rightarrow> 1 | Inr bs \<Rightarrow> Suc (length bs)) rs)"

lemma sock_read_weight:
  assumes "sock_read n s = (Inr bs, s')" and "n \<le> length bs" and "0 < n"
  shows "reads_weight (st_reads s') < reads_weight (st_reads s)"
  using assms by (auto simp: sock_read_def reads_weight_def split: list.splits sum.splits if_splits)

text \<open>The error a failed read is turned into; \<open>None\<close> for \<open>WouldBlock\<close>, which ends the loop.\<close>

definition stream_read_error :: "io_error \<Rightarrow> app_error option" where
  "stream_read_error e =
     (case io_kind_of e of
        KWouldBlock \<Rightarrow> None
      | UnexpectedEof \<Rightarrow> Some StreamEOF
      | BrokenPipe \<Rightarrow> Some StreamEOF
      | NotConnected \<Rightarrow> Some StreamEOF
      | KOther \<Rightarrow> Some (GenWithMsgAndErr ''Error reading from stream'' (io_err_of e)))"

function read_tcp_loop :: "bytes \<Rightarrow> ('z net_stream_scheme, bytes) sop" where
  "read_tcp_loop buffer s =
     (case sock_read TCP_READ_BLOCK_SIZE s of
        (Inl e, s') \<Rightarrow> (case stream_read_error e of None \<Rightarrow> (Ok buffer, s') | Some err \<Rightarrow> (Err err, s'))
      | (Inr chunk, s') \<Rightarrow>
          if length chunk < TCP_READ_BLOCK_SIZE then (Ok (buffer @ chunk), s')
          else read_tcp_loop (buffer @ chunk) s')"
  by pat_completeness auto
termination
  by (relation "measure (\<lambda>(_, s). reads_weight (st_reads s))")
     (auto simp: TCP_READ_BLOCK_SIZE_def dest: sym intro!: sock_read_weight[where n = 1024])

declare read_tcp_loop.simps [simp del]

definition read_tcp_stream :: "('z net_stream_scheme, bytes) sop" where
  "read_tcp_stream s = read_tcp_loop [] s"

definition write_tcp_stream :: "bytes \<Rightarrow> ('z net_stream_scheme, unit) sop" where
  "write_tcp_stream buffer s =
     (case sock_write_all buffer s of
        (Inr _, s') \<Rightarrow> (Ok (), s')
      | (Inl e, s') \<Rightarrow>
          (Err (case io_kind_of e of
                  UnexpectedEof \<Rightarrow> StreamEOF
                | BrokenPipe \<Rightarrow> StreamEOF
                | NotConnected \<Rightarrow> StreamEOF
                | KWouldBlock \<Rightarrow> WouldBlock
                | KOther \<Rightarrow> GenWithMsgAndErr ''Error writing to stream'' (io_err_of e)), s'))"

definition clone_std_tcp_stream :: "'z net_stream_scheme \<Rightarrow> 'z net_stream_scheme res" where
  "clone_std_tcp_stream s =
     map_err (GenWithMsgAndErr (''Error trying to clone tcp stream: stream='' @ st_debug s))
       (case st_clone_err s of Some e \<Rightarrow> Inl e | None \<Rightarrow> Inr s)"

section \<open>Datagram sockets\<close>

record udp_sock =
  us_local_addr :: "string option"
  us_recvs :: "(io_error + string \<times> bytes) list"
  us_sends :: "io_error option list"
  us_sent :: "(string option \<times> bytes) list"
  us_clone_err :: "dyn_error option"
  us_debug :: string

definition UDP_RECV_BUFFER_SIZE :: nat where "UDP_RECV_BUFFER_SIZE = 64 * 1024"

definition udp_error :: "string \<Rightarrow> io_error \<Rightarrow> app_error" where
  "udp_error msg e =
     (case io_kind_of e of
        UnexpectedEof \<Rightarrow> StreamEOF
      | BrokenPipe \<Rightarrow> StreamEOF
      | NotConnected \<Rightarrow> StreamEOF
      | KWouldBlock \<Rightarrow> WouldBlock
      | KOther \<Rightarrow> GenWithMsgAndErr msg (io_err_of e))"

text \<open>\<open>recv_from\<close> drops what does not fit the buffer.\<close>

definition read_mio_udp_socket :: "(udp_sock, string \<times> bytes) sop" where
  "read_mio_udp_socket u =
     (case us_recvs u of
        [] \<Rightarrow> (Err WouldBlock, u)
      | Inl e # r \<Rightarrow> (Err (udp_error (''Error reading from udp socket: socket='' @ us_debug u) e), u\<lparr>us_recvs := r\<rparr>)
      | Inr (addr, data) # r \<Rightarrow> (Ok (addr, take UDP_RECV_BUFFER_SIZE data), u\<lparr>us_recvs := r\<rparr>))"

text \<open>\<open>send\<close> on a connected socket; the destination recorded is the connected peer (\<open>None\<close>).\<close>

definition write_mio_udp_socket :: "bytes \<Rightarrow> (udp_sock, unit) sop" where
  "write_mio_udp_socket buffer u =
     (case us_sends u of
        Some e # r \<Rightarrow> (Err (udp_error (''Error writing to udp socket: socket='' @ us_debug u) e), u\<lparr>us_sends := r\<rparr>)
      | None # r \<Rightarrow> (Ok (), u\<lparr>us_sends := r, us_sent := us_sent u @ [(None, buffer)]\<rparr>)
      | [] \<Rightarrow> (Ok (), u\<lparr>us_sent := us_sent u @ [(None, buffer)]\<rparr>))"

definition clone_std_udp_socket :: "udp_sock \<Rightarrow> udp_sock res" where
  "clone_std_udp_socket u =
     map_err (GenWithMsgAndErr (''Error trying to clone udp socket: socket='' @ us_debug u))
       (case us_clone_err u of Some e \<Rightarrow> Inl e | None \<Rightarrow> Inr u)"

section \<open>Properties\<close>

text \<open>The bytes that are still to come before the first error or end of stream.\<close>

fun pending :: "(io_error + bytes) list \<Rightarrow> bytes" where
  "pending [] = []"
| "pending (Inl _ # r) = pending r"
| "pending (Inr bs # r) = bs @ pending r"

lemma sock_read_pending:
  "sock_read n s = (Inr bs, s') \<Longrightarrow> pending (st_reads s) = bs @ pending (st_reads s')"
  "sock_read n s = (Inl e, s') \<Longrightarrow> pending (st_reads s) = pending (st_reads s')"
  by (auto simp: sock_read_def split: list.splits sum.splits if_splits)

lemma read_tcp_loop_conserves:
  "case read_tcp_loop buffer s of (r, s') \<Rightarrow>
     \<exists>got. pending (st_reads s) = got @ pending (st_reads s') \<and>
       (case r of Ok data \<Rightarrow> data = buffer @ got
        | Err _ \<Rightarrow> TCP_READ_BLOCK_SIZE dvd length got
        | Panic _ \<Rightarrow> False)"
proof (induction buffer s rule: read_tcp_loop.induct)
  case (1 buffer s)
  obtain r s1 where r: "sock_read TCP_READ_BLOCK_SIZE s = (r, s1)" by fastforce
  show ?case
  proof (cases r)
    case (Inl e)
    with r sock_read_pending(2) show ?thesis
      by (subst read_tcp_loop.simps) (auto split: option.splits)
  next
    case (Inr chunk)
    with r have p: "pending (st_reads s) = chunk @ pending (st_reads s1)" by (simp add: sock_read_pending)
    from r Inr have le: "length chunk \<le> TCP_READ_BLOCK_SIZE"
      by (auto simp: sock_read_def split: list.splits sum.splits)
    show ?thesis
    proof (cases "length chunk < TCP_READ_BLOCK_SIZE")
      case True
      with r Inr p show ?thesis by (subst read_tcp_loop.simps) auto
    next
      case False
      with le have len: "length chunk = TCP_READ_BLOCK_SIZE" by simp
      with False Inr r 1[OF r[symmetric] Inr False]
      obtain got where "case read_tcp_loop (buffer @ chunk) s1 of (r, s') \<Rightarrow>
          pending (st_reads s1) = got @ pending (st_reads s') \<and>
          (case r of Ok data \<Rightarrow> data = (buffer @ chunk) @ got
           | Err _ \<Rightarrow> TCP_READ_BLOCK_SIZE dvd length got | Panic _ \<Rightarrow> False)"
        by (auto split: prod.splits)
      then have "case read_tcp_loop (buffer @ chunk) s1 of (r, s') \<Rightarrow>
          pending (st_reads s) = (chunk @ got) @ pending (st_reads s') \<and>
          (case r of Ok data \<Rightarrow> data = buffer @ (chunk @ got)
           | Err _ \<Rightarrow> TCP_READ_BLOCK_SIZE dvd length (chunk @ got) | Panic _ \<Rightarrow> False)"
        using p len by (auto split: prod.splits res.splits)
      moreover have "read_tcp_loop buffer s = read_tcp_loop (buffer @ chunk) s1"
        using r Inr False by (subst read_tcp_loop.simps) simp
      ultimately show ?thesis by (auto split: prod.splits)
    qed
  qed
qed

text \<open>
  reading a stream neither loses, repeats nor reorders bytes when it succeeds: what it returns
  followed by what is still pending is what was pending before.  When it fails, the bytes consumed
  by this call are gone, and they are a whole number of full read blocks.
\<close>

theorem read_tcp_stream_conserves:
  "case read_tcp_stream s of (r, s') \<Rightarrow>
     \<exists>got. pending (st_reads s) = got @ pending (st_reads s') \<and>
       (case r of Ok data \<Rightarrow> data = got
        | Err _ \<Rightarrow> TCP_READ_BLOCK_SIZE dvd length got
        | Panic _ \<Rightarrow> False)"
  using read_tcp_loop_conserves[where buffer = "[]" and s = s] by (simp only: read_tcp_stream_def append_Nil)

lemma read_tcp_stream_short:
  assumes "st_reads s = Inr bs # r" and "length bs < TCP_READ_BLOCK_SIZE"
  shows "read_tcp_stream s = (Ok bs, s\<lparr>st_reads := r\<rparr>)"
  unfolding read_tcp_stream_def using assms
  by (subst read_tcp_loop.simps) (simp add: sock_read_def)

text \<open>
  An orderly close by the peer is not noticed by the reader: at the end of the stream the read
  succeeds with no data, exactly as it does when the peer is merely silent.
\<close>

theorem read_tcp_stream_eof_is_silence:
  assumes "st_reads s = Inr [] # r" and "st_reads t = []"
  shows "read_tcp_stream s = (Ok [], s\<lparr>st_reads := r\<rparr>) \<and> read_tcp_stream t = (Ok [], t)"
proof -
  have "read_tcp_stream t = (Ok [], t)"
    unfolding read_tcp_stream_def using assms(2)
    by (subst read_tcp_loop.simps) (simp add: sock_read_def would_block_error_def stream_read_error_def)
  with read_tcp_stream_short[OF assms(1)] show ?thesis by (simp add: TCP_READ_BLOCK_SIZE_def)
qed

definition demo_stream :: net_stream where
  "demo_stream = \<lparr>st_peer_addr = Some ''10.0.0.7:4000'', st_local_addr = Some ''10.0.0.1:8400'', st_reads = [],
     st_writes = [], st_sent = [], st_shutdowns = [], st_clone_err = None, st_debug = ''TcpStream''\<rparr>"

theorem read_tcp_stream_eof_is_silence_witness:
  "read_tcp_stream (demo_stream\<lparr>st_reads := [Inr [], Inr [1]]\<rparr>) = (Ok [], demo_stream\<lparr>st_reads := [Inr [1]]\<rparr>) \<and>
   read_tcp_stream demo_stream = (Ok [], demo_stream)"
  using read_tcp_stream_eof_is_silence[of "demo_stream\<lparr>st_reads := [Inr [], Inr [1]]\<rparr>" "[Inr [1]]" demo_stream]
  by (simp add: demo_stream_def)

end
