(* ===== verification/T0_Conn.thy ===== *)
theory T0_Conn
  imports T0_Stream T0_Alpn
begin

text \<open>
  The connection of \<open>crates/common/src/net\<close>: \<open>tls_server/conn_std.rs\<close>, \<open>tcp_server/conn_std.rs\<close> and
  \<open>tls_client/conn_std.rs\<close> hold the same code over different streams; one set of definitions, with the
  transport's name in the messages as an argument (\<open>TLS\<close> or \<open>TCP\<close>), models the three.

  A connection owns both ends of its event channel, a stream, and a visitor.  The visitor keeps a
  clone of the sender, so its handlers act on the visitor, on the channel and on the state \<open>'w\<close> it
  shares with the rest of the process.
\<close>

datatype conn_event = Closing | Closed | Write bytes

type_synonym ('v, 'w) vstate = "'v \<times> conn_event chan \<times> 'w"

text \<open>The trait \<open>ConnectionVisitor\<close>.\<close>

record ('v, 'w) conn_visitor =
  set_event_channel_sender :: "(('v, 'w) vstate, unit) sop"
  on_connected :: "(('v, 'w) vstate, unit) sop"
  on_connection_read :: "bytes \<Rightarrow> (('v, 'w) vstate, unit) sop"
  on_polling_cycle :: "(('v, 'w) vstate, unit) sop"
  on_shutdown :: "(('v, 'w) vstate, unit) sop"
  send_error_response :: "app_error \<Rightarrow> (('v, 'w) vstate, unit) sop"

text \<open>The trait's default method bodies.\<close>

definition default_handler :: "(('v, 'w) vstate, unit) sop" where
  "default_handler s = (Ok (), s)"

record ('v, 's) conn =
  cn_visitor :: 'v
  cn_stream :: 's
  cn_events :: "conn_event chan"
  cn_alpn :: "protocol option"
  cn_closed :: bool

type_synonym ('v, 'z, 'w) cstate = "('v, 'z net_stream_scheme) conn \<times> 'w"

definition send_event :: "string \<Rightarrow> conn_event \<Rightarrow> (conn_event chan, unit) sop" where
  "send_event what ev ch =
     (case chan_send ev ch of
        Some ch' \<Rightarrow> (Ok (), ch')
      | None \<Rightarrow> (Err (GenWithMsgAndErr (''Error sending '' @ what @ '' event'') send_error), ch))"

text \<open>\<open>Connection::new\<close>; the visitor's channel and state changes are lost when it fails.\<close>

definition conn_new :: "('v, 'w) conn_visitor \<Rightarrow> 'v \<Rightarrow> 's \<Rightarrow> protocol option \<Rightarrow> ('w, ('v, 's) conn) sop" where
  "conn_new V visitor stream alpn w =
     (case set_event_channel_sender V (visitor, new_chan, w) of
        (Ok _, st) \<Rightarrow>
          (case on_connected V st of
             (Ok _, v, ch, w') \<Rightarrow>
               (Ok \<lparr>cn_visitor = v, cn_stream = stream, cn_events = ch, cn_alpn = alpn, cn_closed = False\<rparr>, w')
           | (Err e, _, _, w') \<Rightarrow> (Err e, w')
           | (Panic m, _, _, w') \<Rightarrow> (Panic m, w'))
      | (Err e, _, _, w') \<Rightarrow> (Err e, w')
      | (Panic m, _, _, w') \<Rightarrow> (Panic m, w'))"

section \<open>Reading\<close>

definition READ_BLOCK_SIZE :: nat where "READ_BLOCK_SIZE = 1024"

function read_conn_loop :: "string \<Rightarrow> bytes \<Rightarrow> ('z net_stream_scheme \<times> conn_event chan, bytes) sop" where
  "read_conn_loop kind buffer (s, ch) =
     (case sock_read READ_BLOCK_SIZE s of
        (Inl e, s') \<Rightarrow>
          (if io_kind_of e = UnexpectedEof then
             (case send_event ''closing'' Closing ch of
                (Ok _, ch') \<Rightarrow> (Ok buffer, s', ch')
              | (Err err, ch') \<Rightarrow> (Err err, s', ch')
              | (Panic m, ch') \<Rightarrow> (Panic m, s', ch'))
           else if io_kind_of e = KWouldBlock then (Ok buffer, s', ch)
           else (Err (GenWithMsgAndErr (''Error reading from '' @ kind @ '' connection'') (io_err_of e)), s', ch))
      | (Inr chunk, s') \<Rightarrow>
          if length chunk < READ_BLOCK_SIZE then (Ok (buffer @ chunk), s', ch)
          else read_conn_loop kind (buffer @ chunk) (s', ch))"
  by pat_completeness auto
termination
  by (relation "measure (\<lambda>(_, _, s, _). reads_weight (st_reads s))")
     (auto simp: READ_BLOCK_SIZE_def dest: sym intro!: sock_read_weight[where n = 1024])

declare read_conn_loop.simps [simp del]

text \<open>The tail of \<open>read\<close> and \<open>write\<close>: an error queues \<open>Closing\<close> and is returned.\<close>

definition fail_conn :: "app_error \<Rightarrow> (('v, 'z, 'w) cstate, 'a) sop" where
  "fail_conn err cw =
     (case cw of (c, w) \<Rightarrow>
        (case send_event ''closing'' Closing (cn_events c) of
           (Ok _, ch) \<Rightarrow> (Err err, c\<lparr>cn_events := ch\<rparr>, w)
         | (Err e, ch) \<Rightarrow> (Err e, c\<lparr>cn_events := ch\<rparr>, w)
         | (Panic m, ch) \<Rightarrow> (Panic m, c\<lparr>cn_events := ch\<rparr>, w)))"

definition conn_read :: "('v, 'w) conn_visitor \<Rightarrow> string \<Rightarrow> (('v, 'z, 'w) cstate, bytes) sop" where
  "conn_read V kind cw =
     (case cw of (c, w) \<Rightarrow>
      case read_conn_loop kind [] (cn_stream c, cn_events c) of
        (Ok buffer, s, ch) \<Rightarrow>
          (let c1 = c\<lparr>cn_stream := s, cn_events := ch\<rparr> in
           if buffer = [] then (Ok [], c1, w)
           else case on_connection_read V buffer (cn_visitor c1, cn_events c1, w) of
                  (Ok _, v, ch', w') \<Rightarrow> (Ok buffer, c1\<lparr>cn_visitor := v, cn_events := ch'\<rparr>, w')
                | (Err err, v, ch', w') \<Rightarrow> fail_conn err (c1\<lparr>cn_visitor := v, cn_events := ch'\<rparr>, w')
                | (Panic m, v, ch', w') \<Rightarrow> (Panic m, c1\<lparr>cn_visitor := v, cn_events := ch'\<rparr>, w'))
      | (Err err, s, ch) \<Rightarrow> fail_conn err (c\<lparr>cn_stream := s, cn_events := ch\<rparr>, w)
      | (Panic m, s, ch) \<Rightarrow> (Panic m, c\<lparr>cn_stream := s, cn_events := ch\<rparr>, w))"

section \<open>Writing\<close>

definition write_conn_stream :: "string \<Rightarrow> bytes \<Rightarrow> ('z net_stream_scheme \<times> conn_event chan, unit) sop" where
  "write_conn_stream kind buffer sc =
     (case sc of (s, ch) \<Rightarrow>
      case sock_write_all buffer s of
        (Inr _, s') \<Rightarrow> (Ok (), s', ch)
      | (Inl e, s') \<Rightarrow>
          if io_kind_of e = UnexpectedEof then
            (case send_event ''closing'' Closing ch of (r, ch') \<Rightarrow> (r, s', ch'))
          else if io_kind_of e = KWouldBlock then
            (case send_event ''write'' (Write buffer) ch of (r, ch') \<Rightarrow> (r, s', ch'))
          else (Err (GenWithMsgAndErr (''Error writing to '' @ kind @ '' connection'') (io_err_of e)), s', ch))"

definition conn_write :: "string \<Rightarrow> bytes \<Rightarrow> (('v, 'z, 'w) cstate, unit) sop" where
  "conn_write kind buffer cw =
     (case cw of (c, w) \<Rightarrow>
      case write_conn_stream kind buffer (cn_stream c, cn_events c) of
        (Ok _, s, ch) \<Rightarrow> (Ok (), c\<lparr>cn_stream := s, cn_events := ch\<rparr>, w)
      | (Err err, s, ch) \<Rightarrow> fail_conn err (c\<lparr>cn_stream := s, cn_events := ch\<rparr>, w)
      | (Panic m, s, ch) \<Rightarrow> (Panic m, c\<lparr>cn_stream := s, cn_events := ch\<rparr>, w))"

section \<open>Shutting down\<close>

definition conn_shutdown :: "('v, 'w) conn_visitor \<Rightarrow> string \<Rightarrow> (('v, 'z, 'w) cstate, unit) sop" where
  "conn_shutdown V kind cw =
     (case cw of (c, w) \<Rightarrow>
      if cn_closed c then (Ok (), c, w)
      else case sock_shutdown (cn_stream c) of
        (Inl e, s) \<Rightarrow>
          (Err (GenWithMsgAndErr (''Error shutting down '' @ kind @ '' connection'') e), c\<lparr>cn_stream := s\<rparr>, w)
      | (Inr _, s) \<Rightarrow>
          (let ch = snd (send_event ''closed'' Closed (cn_events c));
               c1 = c\<lparr>cn_stream := s, cn_closed := True, cn_events := ch\<rparr> in
           case on_shutdown V (cn_visitor c1, cn_events c1, w) of
             (r, v, ch', w') \<Rightarrow> (r, c1\<lparr>cn_visitor := v, cn_events := ch'\<rparr>, w')))"

section \<open>The polling loop\<close>

text \<open>An error is written to the log and the loop goes on; a panic ends the thread.\<close>

definition logged :: "'a res \<times> 's \<Rightarrow> unit res \<times> 's" where
  "logged rs = (case rs of (Panic m, s) \<Rightarrow> (Panic m, s) | (_, s) \<Rightarrow> (Ok (), s))"

text \<open>
  One round of the event loop: \<open>None\<close> when the loop is left (no event, or \<open>Closed\<close>), otherwise the
  outcome of the handler.  The connection owns a sender, so \<open>Disconnected\<close> cannot occur.
\<close>

definition conn_event_step ::
  "('v, 'w) conn_visitor \<Rightarrow> string \<Rightarrow> ('v, 'z, 'w) cstate \<Rightarrow> (unit res \<times> ('v, 'z, 'w) cstate) + ('v, 'z, 'w) cstate" where
  "conn_event_step V kind cw =
     (case cw of (c, w) \<Rightarrow>
      case queue (cn_events c) of
        [] \<Rightarrow> Inr (c, w)
      | ev # rest \<Rightarrow>
          (let c1 = c\<lparr>cn_events := (cn_events c)\<lparr>queue := rest\<rparr>\<rparr> in
           case ev of
             Write data \<Rightarrow> Inl (logged (conn_write kind data (c1, w)))
           | Closing \<Rightarrow> Inl (logged (conn_shutdown V kind (c1, w)))
           | Closed \<Rightarrow> Inr (c1, w)))"

text \<open>The event loop with fuel; \<open>None\<close> when the fuel does not last.\<close>

fun conn_drain ::
  "('v, 'w) conn_visitor \<Rightarrow> string \<Rightarrow> nat \<Rightarrow> ('v, 'z, 'w) cstate \<Rightarrow> (unit res \<times> ('v, 'z, 'w) cstate) option" where
  "conn_drain V kind 0 cw = None"
| "conn_drain V kind (Suc n) cw =
     (case conn_event_step V kind cw of
        Inr cw' \<Rightarrow> Some (Ok (), cw')
      | Inl (Panic m, cw') \<Rightarrow> Some (Panic m, cw')
      | Inl (_, cw') \<Rightarrow> conn_drain V kind n cw')"

text \<open>One cycle of \<open>poll_connection\<close>: read, the visitor's tick, and the events.\<close>

definition conn_poll_cycle ::
  "('v, 'w) conn_visitor \<Rightarrow> string \<Rightarrow> nat \<Rightarrow> ('v, 'z, 'w) cstate \<Rightarrow> (unit res \<times> ('v, 'z, 'w) cstate) option" where
  "conn_poll_cycle V kind fuel cw =
     (case logged (conn_read V kind cw) of
        (Panic m, cw') \<Rightarrow> Some (Panic m, cw')
      | (_, c, w) \<Rightarrow>
          (case on_polling_cycle V (cn_visitor c, cn_events c, w) of
             (Panic m, v, ch, w') \<Rightarrow> Some (Panic m, c\<lparr>cn_visitor := v, cn_events := ch\<rparr>, w')
           | (_, v, ch, w') \<Rightarrow> conn_drain V kind fuel (c\<lparr>cn_visitor := v, cn_events := ch\<rparr>, w')))"

text \<open>\<open>poll_connection\<close>: cycles until the connection is closed.\<close>

fun poll_connection ::
  "('v, 'w) conn_visitor \<Rightarrow> string \<Rightarrow> nat \<Rightarrow> nat \<Rightarrow> ('v, 'z, 'w) cstate \<Rightarrow> (unit res \<times> ('v, 'z, 'w) cstate) option" where
  "poll_connection V kind fuel 0 cw = None"
| "poll_connection V kind fuel (Suc n) cw =
     (case conn_poll_cycle V kind fuel cw of
        None \<Rightarrow> None
      | Some (Panic m, cw') \<Rightarrow> Some (Panic m, cw')
      | Some (_, c, w) \<Rightarrow> if cn_closed c then Some (Ok (), c, w) else poll_connection V kind fuel n (c, w))"

section \<open>The three connections of the code\<close>

definition tls_server_read where "tls_server_read V = conn_read V ''TLS''"
definition tls_server_write :: "bytes \<Rightarrow> (('v, 'z, 'w) cstate, unit) sop" where
  "tls_server_write = conn_write ''TLS''"
definition tls_server_shutdown where "tls_server_shutdown V = conn_shutdown V ''TLS''"
definition tls_server_poll where "tls_server_poll V = poll_connection V ''TLS''"

definition tls_client_read where "tls_client_read V = conn_read V ''TLS''"
definition tls_client_write :: "bytes \<Rightarrow> (('v, 'z, 'w) cstate, unit) sop" where
  "tls_client_write = conn_write ''TLS''"
definition tls_client_shutdown where "tls_client_shutdown V = conn_shutdown V ''TLS''"
definition tls_client_poll where "tls_client_poll V = poll_connection V ''TLS''"

definition tcp_server_read where "tcp_server_read V = conn_read V ''TCP''"
definition tcp_server_write :: "bytes \<Rightarrow> (('v, 'z, 'w) cstate, unit) sop" where
  "tcp_server_write = conn_write ''TCP''"
definition tcp_server_shutdown where "tcp_server_shutdown V = conn_shutdown V ''TCP''"
definition tcp_server_poll where "tcp_server_poll V = poll_connection V ''TCP''"

text \<open>The reading and writing functions of the two other connections.\<close>

definition tcp_read_stream :: "('z net_stream_scheme \<times> conn_event chan, bytes) sop" where
  "tcp_read_stream = read_conn_loop ''TCP'' []"
definition tcp_write_stream :: "bytes \<Rightarrow> ('z net_stream_scheme \<times> conn_event chan, unit) sop" where
  "tcp_write_stream = write_conn_stream ''TCP''"
definition tls_client_read_conn :: "('z net_stream_scheme \<times> conn_event chan, bytes) sop" where
  "tls_client_read_conn = read_conn_loop ''TLS'' []"
definition tls_client_write_conn :: "bytes \<Rightarrow> ('z net_stream_scheme \<times> conn_event chan, unit) sop" where
  "tls_client_write_conn = write_conn_stream ''TLS''"

text \<open>In the TLS client's trait \<open>set_event_channel_sender\<close> has no result to look at.\<close>

definition tls_client_conn_new :: "('v, 'w) conn_visitor \<Rightarrow> 'v \<Rightarrow> 's \<Rightarrow> ('w, ('v, 's) conn) sop" where
  "tls_client_conn_new V visitor stream w =
     (case set_event_channel_sender V (visitor, new_chan, w) of
        (Panic m, _, _, w') \<Rightarrow> (Panic m, w')
      | (_, st) \<Rightarrow>
          (case on_connected V st of
             (Ok _, v, ch, w') \<Rightarrow>
               (Ok \<lparr>cn_visitor = v, cn_stream = stream, cn_events = ch, cn_alpn = None, cn_closed = False\<rparr>, w')
           | (Err e, _, _, w') \<Rightarrow> (Err e, w')
           | (Panic m, _, _, w') \<Rightarrow> (Panic m, w')))"

text \<open>
  The constructor of the TCP server connection also clones the stream for its reader and writer.
\<close>

definition tcp_conn_new ::
  "('v, 'w) conn_visitor \<Rightarrow> 'v \<Rightarrow> 'z net_stream_scheme \<Rightarrow> ('w, ('v, 'z net_stream_scheme) conn) sop" where
  "tcp_conn_new V visitor stream w =
     (case conn_new V visitor stream None w of
        (Ok c, w') \<Rightarrow>
          (case clone_std_tcp_stream stream of
             Ok _ \<Rightarrow> (Ok c, w')
           | Err e \<Rightarrow> (Err e, w')
           | Panic m \<Rightarrow> (Panic m, w'))
      | (Err e, w') \<Rightarrow> (Err e, w')
      | (Panic m, w') \<Rightarrow> (Panic m, w'))"


section \<open>Properties\<close>

lemma send_event_alive [simp]: "receiver_alive ch \<Longrightarrow> send_event what ev ch = (Ok (), ch\<lparr>queue := queue ch @ [ev]\<rparr>)"
  by (simp add: send_event_def chan_send_def)

text \<open>How many rounds the events still queued can take at most.\<close>

fun event_weight :: "conn_event \<Rightarrow> nat" where
  "event_weight Closing = 2"
| "event_weight Closed = 1"
| "event_weight (Write _) = 1"

definition conn_weight :: "('v, 'z net_stream_scheme) conn \<Rightarrow> nat" where
  "conn_weight c = sum_list (map event_weight (queue (cn_events c))) + 3 * length (st_writes (cn_stream c))"

lemma write_weight:
  assumes "receiver_alive (cn_events c)" and "conn_write kind data (c, w) = (r, c', w')"
  shows "conn_weight c' \<le> conn_weight c \<and> receiver_alive (cn_events c') \<and> cn_closed c' = cn_closed c \<and>
    (\<forall>m. r \<noteq> Panic m)"
  using assms
  by (auto simp: conn_write_def write_conn_stream_def sock_write_all_def fail_conn_def conn_weight_def
      split: list.splits option.splits if_splits)

definition winding_down :: "('v, 'z net_stream_scheme) conn \<Rightarrow> bool" where
  "winding_down c \<longleftrightarrow> st_shutdowns (cn_stream c) = [] \<and>
     (cn_closed c \<or> Closing \<in> set (queue (cn_events c)) \<and> Closed \<notin> set (queue (cn_events c)))"

lemma write_winding_down:
  assumes "receiver_alive (cn_events c)" and "winding_down c" and "conn_write kind data (c, w) = (r, c', w')"
  shows "winding_down c'"
  using assms
  by (auto simp: winding_down_def conn_write_def write_conn_stream_def sock_write_all_def fail_conn_def
      split: list.splits option.splits if_splits)

text \<open>
  What a connection needs of its visitor to wind down: handling the shutdown neither writes to the
  channel nor panics.
\<close>

locale quiet_visitor =
  fixes V :: "('v, 'w) conn_visitor"
    and okv :: "'v \<Rightarrow> 'w \<Rightarrow> bool"
  assumes shutdown_quiet: "okv v w \<Longrightarrow> \<exists>r v' w'. on_shutdown V (v, ch, w) = (r, v', ch, w') \<and> okv v' w' \<and> (\<forall>m. r \<noteq> Panic m)"
begin

lemma shutdown_result:
  assumes "okv (cn_visitor c) w" and "receiver_alive (cn_events c)" and "conn_shutdown V kind (c, w) = (r, c', w')"
  shows "(\<forall>m. r \<noteq> Panic m) \<and>
    ((cn_closed c \<and> c' = c \<and> w' = w) \<or>
     (\<exists>e t. w' = w \<and> st_shutdowns (cn_stream c) = Some e # t \<and> c' = c\<lparr>cn_stream := (cn_stream c)\<lparr>st_shutdowns := t\<rparr>\<rparr>) \<or>
     (\<exists>v t. okv v w' \<and> (st_shutdowns (cn_stream c) = [] \<longrightarrow> t = []) \<and> c' = c\<lparr>cn_stream := (cn_stream c)\<lparr>st_shutdowns := t\<rparr>, cn_closed := True, cn_visitor := v,
        cn_events := (cn_events c)\<lparr>queue := queue (cn_events c) @ [Closed]\<rparr>\<rparr>))"
proof -
  obtain r1 v1 w1 where sd: "on_shutdown V (cn_visitor c, (cn_events c)\<lparr>queue := queue (cn_events c) @ [Closed]\<rparr>, w) =
      (r1, v1, (cn_events c)\<lparr>queue := queue (cn_events c) @ [Closed]\<rparr>, w1)" "okv v1 w1" "\<forall>m. r1 \<noteq> Panic m"
    using shutdown_quiet[OF assms(1)] by blast
  consider "cn_closed c" | e t where "\<not> cn_closed c" "st_shutdowns (cn_stream c) = Some e # t"
    | t where "\<not> cn_closed c" "st_shutdowns (cn_stream c) = None # t" | "\<not> cn_closed c" "st_shutdowns (cn_stream c) = []"
    by (metis list.exhaust option.exhaust)
  then show ?thesis
    using assms(2,3) sd by cases (auto simp: conn_shutdown_def sock_shutdown_def)
qed

lemma shutdown_weight:
  assumes "okv (cn_visitor c) w" and "receiver_alive (cn_events c)" and "conn_shutdown V kind (c, w) = (r, c', w')"
  shows "conn_weight c' \<le> Suc (conn_weight c) \<and> receiver_alive (cn_events c') \<and> okv (cn_visitor c') w' \<and>
    (\<forall>m. r \<noteq> Panic m)"
  using shutdown_result[OF assms] assms(1,2) by (auto simp: conn_weight_def)

lemma event_step_weight:
  assumes "okv (cn_visitor c) w" and "receiver_alive (cn_events c)"
    and "conn_event_step V kind (c, w) = Inl (r, c', w')"
  shows "conn_weight c' < conn_weight c \<and> receiver_alive (cn_events c') \<and> okv (cn_visitor c') w' \<and> (\<forall>m. r \<noteq> Panic m)"
proof -
  from assms(3) obtain ev rest where q: "queue (cn_events c) = ev # rest"
    by (cases "queue (cn_events c)") (auto simp: conn_event_step_def)
  define c1 where "c1 = c\<lparr>cn_events := (cn_events c)\<lparr>queue := rest\<rparr>\<rparr>"
  have w: "conn_weight c = event_weight ev + conn_weight c1" "receiver_alive (cn_events c1)" "okv (cn_visitor c1) w"
    using q assms(1,2) by (simp_all add: c1_def conn_weight_def)
  show ?thesis
  proof (cases ev)
    case Closing
    with assms(3) q obtain r0 where s: "conn_shutdown V kind (c1, w) = (r0, c', w')" "logged (r0, c', w') = (r, c', w')"
      by (auto simp: conn_event_step_def c1_def Let_def logged_def split: prod.splits res.splits)
    from shutdown_weight[OF w(3,2) s(1)] s(2) w Closing show ?thesis
      by (auto simp: logged_def split: res.splits)
  next
    case Closed
    with assms(3) q show ?thesis by (simp add: conn_event_step_def Let_def)
  next
    case (Write data)
    with assms(3) q obtain r0 where s: "conn_write kind data (c1, w) = (r0, c', w')" "logged (r0, c', w') = (r, c', w')"
      by (auto simp: conn_event_step_def c1_def Let_def logged_def split: prod.splits res.splits)
    have "cn_visitor c' = cn_visitor c1" "w' = w"
      using s(1) by (auto simp: conn_write_def fail_conn_def split: prod.splits res.splits)
    with write_weight[OF w(2) s(1)] s(2) w Write show ?thesis
      by (auto simp: logged_def split: res.splits)
  qed
qed

lemma drain_returns:
  "okv (cn_visitor c) w \<Longrightarrow> receiver_alive (cn_events c) \<Longrightarrow> conn_weight c < n \<Longrightarrow>
     \<exists>c' w'. conn_drain V kind n (c, w) = Some (Ok (), c', w')"
proof (induction n arbitrary: c w)
  case (Suc n)
  show ?case
  proof (cases "conn_event_step V kind (c, w)")
    case (Inr cw)
    then show ?thesis by (cases cw) simp
  next
    case (Inl out)
    obtain r c' w' where out: "out = (r, c', w')" by (metis prod.exhaust)
    from event_step_weight[OF Suc.prems(1,2) Inl[unfolded out]] Suc.prems(3)
    have s: "conn_weight c' < n" "receiver_alive (cn_events c')" "okv (cn_visitor c') w'" "\<And>m. r \<noteq> Panic m"
      by auto
    from Suc.IH[OF s(3,2,1)] Inl out s(4) show ?thesis by (cases r) auto
  qed
qed simp

lemma event_step_winding_down:
  assumes "okv (cn_visitor c) w" and "receiver_alive (cn_events c)" and "winding_down c"
  shows "(\<forall>r c' w'. conn_event_step V kind (c, w) = Inl (r, c', w') \<longrightarrow> winding_down c') \<and>
    (\<forall>c' w'. conn_event_step V kind (c, w) = Inr (c', w') \<longrightarrow> cn_closed c')"
proof (cases "queue (cn_events c)")
  case Nil
  with assms(3) show ?thesis by (simp add: conn_event_step_def winding_down_def)
next
  case (Cons ev rest)
  define c1 where "c1 = c\<lparr>cn_events := (cn_events c)\<lparr>queue := rest\<rparr>\<rparr>"
  have c1: "receiver_alive (cn_events c1)" "okv (cn_visitor c1) w" "st_shutdowns (cn_stream c1) = []"
    using assms by (simp_all add: c1_def winding_down_def)
  show ?thesis
  proof (cases ev)
    case Closing
    have "winding_down c'" if "conn_shutdown V kind (c1, w) = (r, c', w')" for r c' w'
      using shutdown_result[OF c1(2,1) that] c1(3) by (auto simp: winding_down_def)
    with Cons Closing show ?thesis
      by (auto simp: conn_event_step_def logged_def Let_def c1_def split: prod.splits res.splits)
  next
    case Closed
    with Cons assms(3) show ?thesis by (auto simp: conn_event_step_def Let_def winding_down_def)
  next
    case (Write data)
    with Cons assms(3) have "winding_down c1" by (auto simp: winding_down_def c1_def)
    with write_winding_down[OF c1(1)] Cons Write show ?thesis
      by (auto simp: conn_event_step_def logged_def Let_def c1_def split: prod.splits res.splits)
  qed
qed

lemma drain_closes:
  "okv (cn_visitor c) w \<Longrightarrow> receiver_alive (cn_events c) \<Longrightarrow> conn_weight c < n \<Longrightarrow> winding_down c \<Longrightarrow>
     \<exists>c' w'. conn_drain V kind n (c, w) = Some (Ok (), c', w') \<and> cn_closed c'"
proof (induction n arbitrary: c w)
  case (Suc n)
  show ?case
  proof (cases "conn_event_step V kind (c, w)")
    case (Inr cw)
    with event_step_winding_down[OF Suc.prems(1,2,4), where kind = kind] show ?thesis by (cases cw) auto
  next
    case (Inl out)
    obtain r c' w' where out: "out = (r, c', w')" by (metis prod.exhaust)
    from event_step_weight[OF Suc.prems(1,2) Inl[unfolded out]] Suc.prems(3)
    have s: "conn_weight c' < n" "receiver_alive (cn_events c')" "okv (cn_visitor c') w'" "\<And>m. r \<noteq> Panic m"
      by auto
    have k: "winding_down c'" using event_step_winding_down[OF Suc.prems(1,2,4)] Inl out by blast
    from Suc.IH[OF s(3,2,1) k] Inl out s(4) show ?thesis by (cases r) auto
  qed
qed simp

end

lemma drain_write_step:
  assumes "queue (cn_events c) = Write data # rest" and "st_writes (cn_stream c) = []"
  shows "conn_drain V kind (Suc n) (c, w) = conn_drain V kind n
    (c\<lparr>cn_stream := (cn_stream c)\<lparr>st_sent := st_sent (cn_stream c) @ data\<rparr>, cn_events := (cn_events c)\<lparr>queue := rest\<rparr>\<rparr>, w)"
  using assms
  by (simp add: conn_event_step_def conn_write_def write_conn_stream_def sock_write_all_def logged_def)

lemma drain_all_written:
  assumes "queue (cn_events c) = map Write ds" and "st_writes (cn_stream c) = []"
  shows "conn_drain V kind (Suc (length ds)) (c, w) = Some (Ok (),
    c\<lparr>cn_stream := (cn_stream c)\<lparr>st_sent := st_sent (cn_stream c) @ concat ds\<rparr>, cn_events := (cn_events c)\<lparr>queue := []\<rparr>\<rparr>, w)"
  using assms
proof (induction ds arbitrary: c)
  case Nil
  then show ?case by (simp add: conn_event_step_def)
next
  case (Cons d ds)
  then have "conn_drain V kind (Suc (Suc (length ds))) (c, w) = conn_drain V kind (Suc (length ds))
    (c\<lparr>cn_stream := (cn_stream c)\<lparr>st_sent := st_sent (cn_stream c) @ d\<rparr>, cn_events := (cn_events c)\<lparr>queue := map Write ds\<rparr>\<rparr>, w)"
    by (intro drain_write_step) auto
  also have "\<dots> = Some (Ok (), c\<lparr>cn_stream := (cn_stream c)\<lparr>st_sent := st_sent (cn_stream c) @ concat (d # ds)\<rparr>,
      cn_events := (cn_events c)\<lparr>queue := []\<rparr>\<rparr>, w)"
    by (subst Cons.IH) (simp_all add: Cons.prems)
  finally show ?case by simp
qed

text \<open>
  C28: on a socket that never refuses data, the event loop of a connection sends every queued
  message once, whole and in the order in which it was queued, and leaves the queue empty.
\<close>

theorem tls_server_sends_in_order:
  assumes "queue (cn_events c) = map Write ds" and "st_writes (cn_stream c) = []"
  shows "\<exists>c'. conn_drain V ''TLS'' (Suc (length ds)) (c, w) = Some (Ok (), c', w) \<and>
    st_sent (cn_stream c') = st_sent (cn_stream c) @ concat ds \<and> queue (cn_events c') = []"
  using drain_all_written[OF assms, of V "''TLS''" w] by (auto simp del: conn_drain.simps)

definition demo_conn :: "(nat, net_stream) conn" where
  "demo_conn = \<lparr>cn_visitor = 0, cn_stream = demo_stream, cn_events = new_chan, cn_alpn = None, cn_closed = False\<rparr>"

definition demo_visitor :: "(nat, nat) conn_visitor" where
  "demo_visitor = \<lparr>set_event_channel_sender = default_handler, on_connected = default_handler,
     on_connection_read = (\<lambda>_. default_handler), on_polling_cycle = default_handler,
     on_shutdown = default_handler, send_error_response = (\<lambda>_. default_handler)\<rparr>"

theorem tls_server_sends_in_order_witness:
  "\<exists>c'. conn_drain demo_visitor ''TLS'' 3
      (demo_conn\<lparr>cn_events := new_chan\<lparr>queue := [Write [1, 2], Write [3]]\<rparr>\<rparr>, 0) = Some (Ok (), c', 0) \<and>
    st_sent (cn_stream c') = [1, 2, 3]"
  using tls_server_sends_in_order[of "demo_conn\<lparr>cn_events := new_chan\<lparr>queue := [Write [1, 2], Write [3]]\<rparr>\<rparr>"
      "[[1, 2], [3]]" demo_visitor 0]
  by (auto simp: demo_conn_def demo_stream_def new_chan_def numeral_3_eq_3 simp del: conn_drain.simps)

text \<open>
  when the socket refuses a write after taking \<open>n\<close> bytes of it, the whole message is queued
  again behind the later ones: the peer receives those \<open>n\<close> bytes, then the next message, and then
  the first message a second time from its beginning.
\<close>

theorem tls_server_blocked_write_reorders:
  assumes "queue (cn_events c) = [Write a, Write b]"
    and "st_writes (cn_stream c) = [Some (would_block_error, n)]" and "receiver_alive (cn_events c)"
  shows "\<exists>c'. conn_drain V ''TLS'' 4 (c, w) = Some (Ok (), c', w) \<and>
    st_sent (cn_stream c') = st_sent (cn_stream c) @ take n a @ b @ a \<and> queue (cn_events c') = []"
  using assms
  by (simp add: numeral_nat conn_event_step_def conn_write_def write_conn_stream_def sock_write_all_def
      logged_def would_block_error_def)

theorem tls_server_blocked_write_reorders_witness:
  "\<exists>c'. conn_drain demo_visitor ''TLS'' 4
      (demo_conn\<lparr>cn_events := new_chan\<lparr>queue := [Write [1, 2], Write [3]]\<rparr>,
        cn_stream := demo_stream\<lparr>st_writes := [Some (would_block_error, 1)]\<rparr>\<rparr>, 0) = Some (Ok (), c', 0) \<and>
    st_sent (cn_stream c') = [1, 3, 1, 2]"
  using tls_server_blocked_write_reorders[of "demo_conn\<lparr>cn_events := new_chan\<lparr>queue := [Write [1, 2], Write [3]]\<rparr>,
        cn_stream := demo_stream\<lparr>st_writes := [Some (would_block_error, 1)]\<rparr>\<rparr>" "[1, 2]" "[3]" 1 demo_visitor 0]
  by (auto simp: demo_conn_def demo_stream_def new_chan_def simp del: conn_drain.simps)

end
