(* ===== verification/T0_Auth.thy ===== *)
theory T0_Auth
  imports T0_Config T0_Device T0_Conn
begin

text \<open>
  \<open>crates/gateway/src/client/connection.rs\<close>, authorization: how the gateway decides, from the TLS
  session of a new connection, who the peer is and whether it may have the service it asks for.
  The control plane object that the visitor keeps is in \<open>client/controller.rs\<close>; its constructor is here,
  its commands are in a later theory.
\<close>

text \<open>The third-party parsers the gateway calls: certificates, and the regular expression engine.\<close>

record 'a gw_lib =
  gl_cert :: "'a cert_lib"
  gl_digits :: "string \<Rightarrow> bool"

section \<open>The control plane object\<close>

record control_plane =
  cp_device :: device
  cp_user :: user
  cp_services_by_id :: "(u64, service) hashmap"
  cp_services_by_name :: "(string, service) hashmap"

definition setup_services_maps :: "service_repo \<Rightarrow> ((u64, service) hashmap \<times> (string, service) hashmap) res" where
  "setup_services_maps sr =
     and_then (service_get_all sr) (\<lambda>services.
       Ok (hm_collect (map (\<lambda>s. (sv_service_id s, s)) services), hm_collect (map (\<lambda>s. (sv_name s, s)) services)))"

definition control_plane_new :: "app_config \<Rightarrow> device \<Rightarrow> user \<Rightarrow> control_plane res" where
  "control_plane_new cfg dev usr =
     and_then (setup_services_maps (cfg_service_repo cfg)) (\<lambda>(by_id, by_name).
       Ok \<lparr>cp_device = dev, cp_user = usr, cp_services_by_id = by_id, cp_services_by_name = by_name\<rparr>)"

section \<open>The connection visitor\<close>

record client_visitor =
  cv_server_mode :: server_mode
  cv_event_channel_sender :: bool
  cv_request_processor :: "control_plane option"
  cv_device :: "device option"
  cv_user :: "user option"

definition client_visitor_new :: "app_config \<Rightarrow> client_visitor" where
  "client_visitor_new cfg = \<lparr>cv_server_mode = cfg_server_mode cfg, cv_event_channel_sender = False,
     cv_request_processor = None, cv_device = None, cv_user = None\<rparr>"

definition parse_alpn_protocol :: "(string \<Rightarrow> bool) \<Rightarrow> bytes option \<Rightarrow> protocol res" where
  "parse_alpn_protocol nd protocol_name =
     (case protocol_name of
        None \<Rightarrow> Err (GenWithCodeAndMsg RESPCODE_0424_INVALID_ALPN_PROTOCOL ''Missing ALPN protocol'')
      | Some protocol_name_bytes \<Rightarrow>
          (let name = from_utf8_lossy protocol_name_bytes in
           case parse_protocol nd name of
             Ok None \<Rightarrow> Err (GenWithCodeAndMsg RESPCODE_0424_INVALID_ALPN_PROTOCOL
                              (''Invalid ALPN protocol: proto='' @ name))
           | Ok (Some p) \<Rightarrow> Ok p
           | Err e \<Rightarrow> Err e
           | Panic m \<Rightarrow> Panic m))"

text \<open>The steps of \<open>process_authorization\<close>: the device, its user, and the right to the service.\<close>

definition authorize_device :: "'a gw_lib \<Rightarrow> 'z tls_stream_scheme \<Rightarrow> device res" where
  "authorize_device L t =
     and_then (ok_or (GenWithCodeAndMsg RESPCODE_0420_INVALID_CLIENT_CERTIFICATE ''Empty client certificate chain'')
                (tls_peer_certificates t)) (\<lambda>chain. device_new (gl_cert L) (map create_der_certificate chain))"

definition authorize_user :: "app_config \<Rightarrow> u64 \<Rightarrow> user res" where
  "authorize_user cfg user_id =
     (if user_id = 0 then
        Err (GenWithCodeAndMsg RESPCODE_0420_INVALID_CLIENT_CERTIFICATE ''Invalid certificate user identity'')
      else case user_get (cfg_user_repo cfg) user_id of
        Panic m \<Rightarrow> Panic m
      | Err err \<Rightarrow> Err (GenWithCodeAndMsg RESPCODE_0500_SYSTEM_ERROR
          (''Error retrieving user from user repo: uid='' @ show_u64 user_id @ '', err='' @ err_debug err))
      | Ok None \<Rightarrow> Err (GenWithCodeAndMsg RESPCODE_0421_UNKNOWN_USER
          (''User is not found in user repo: uid='' @ show_u64 user_id))
      | Ok (Some u) \<Rightarrow>
          if u_status u \<noteq> Active then Err (GenWithCodeAndMsg RESPCODE_0422_INACTIVE_USER
            (''User is not active: uid='' @ show_u64 user_id @ '', status='' @ status_debug (u_status u)))
          else Ok u)"

definition authorize_service :: "app_config \<Rightarrow> u64 \<Rightarrow> protocol \<Rightarrow> u64 option \<Rightarrow> unit res" where
  "authorize_service cfg user_id alpn service_id =
     (case service_id of
        None \<Rightarrow> Ok ()
      | Some sid \<Rightarrow>
          (let invalid_service = (case alpn of ControlPlane \<Rightarrow> True | Service alpn_svc_id \<Rightarrow> sid \<noteq> alpn_svc_id) in
           if invalid_service then Err (GenWithCodeAndMsg RESPCODE_0424_INVALID_ALPN_PROTOCOL
             (''ALPN has wrong service ID: alpn='' @ protocol_debug alpn @ '', svc_id='' @ show_u64 sid))
           else and_then (access_get (cfg_access_repo cfg) user_id sid) (\<lambda>access.
             if access = None then Err (GenWithCodeAndMsg RESPCODE_0403_FORBIDDEN
               (''User is not authorized for service: uid='' @ show_u64 user_id @ '', svc_id='' @ show_u64 sid))
             else Ok ())))"

definition process_authorization ::
  "'a gw_lib \<Rightarrow> app_config \<Rightarrow> 'z tls_stream_scheme \<Rightarrow> u64 option \<Rightarrow> (client_visitor, protocol) sop" where
  "process_authorization L cfg t service_id v =
     (let r = and_then (authorize_device L t) (\<lambda>dev.
          let user_id = ctx_user_id (dv_cert_access_context dev) in
          and_then (authorize_user cfg user_id) (\<lambda>u.
          and_then (parse_alpn_protocol (gl_digits L) (tls_alpn_protocol t)) (\<lambda>alpn.
          and_then (authorize_service cfg user_id alpn service_id) (\<lambda>_.
            Ok (dev, u, alpn)))))
      in case r of
           Ok (dev, u, alpn) \<Rightarrow> (Ok alpn, v\<lparr>cv_device := Some dev, cv_user := Some u\<rparr>)
         | Err e \<Rightarrow> (Err e, v)
         | Panic m \<Rightarrow> (Panic m, v))"

definition cv_set_event_channel_sender :: "app_config \<Rightarrow> (client_visitor, unit) sop" where
  "cv_set_event_channel_sender cfg v =
     (case control_plane_new cfg (case cv_device v of Some d \<Rightarrow> d | None \<Rightarrow> default_device)
             (case cv_user v of Some u \<Rightarrow> u | None \<Rightarrow> default_user) of
        Ok cp \<Rightarrow> (Ok (), v\<lparr>cv_request_processor := Some cp, cv_event_channel_sender := True\<rparr>)
      | Err e \<Rightarrow> (Err e, v)
      | Panic m \<Rightarrow> (Panic m, v))"

text \<open>The text sent to the peer for an error, and the handler that queues it.\<close>

definition error_response_msg :: "app_error \<Rightarrow> string" where
  "error_response_msg err =
     (let unknown_msg = (\<lambda>code. the (hm_get RESPONSE_MSGS RESPCODE_0520_UNKNOWN_CODE) @ '': ref='' @ show_u16 code) in
      case get_code err of
        Some code \<Rightarrow> (case hm_get RESPONSE_MSGS code of Some m \<Rightarrow> m | None \<Rightarrow> unknown_msg code)
      | None \<Rightarrow> the (hm_get RESPONSE_MSGS RESPCODE_0500_SYSTEM_ERROR))"

definition cv_send_error_response :: "app_error \<Rightarrow> (client_visitor \<times> conn_event chan, unit) sop" where
  "cv_send_error_response err vc =
     (case vc of (v, ch) \<Rightarrow>
      if \<not> cv_event_channel_sender v then (Panic ''called `Option::unwrap()` on a `None` value'', v, ch)
      else case chan_send (Write (bytes_of_text (error_response_msg err @ ''\<newline>''))) ch of
             Some ch' \<Rightarrow> (Ok (), v, ch')
           | None \<Rightarrow> (Ok (), v, (case chan_send Closing ch of Some ch' \<Rightarrow> ch' | None \<Rightarrow> ch)))"


text \<open>
  The visitor as \<open>Connection::new\<close> uses it; the handlers for data and for the shutdown, which act on
  the service manager, are added where that manager is modelled.
\<close>

definition client_conn_base :: "app_config \<Rightarrow> (client_visitor, 'w) conn_visitor" where
  "client_conn_base cfg =
     \<lparr>set_event_channel_sender = (\<lambda>(v, ch, w). case cv_set_event_channel_sender cfg v of (r, v') \<Rightarrow> (r, v', ch, w)),
      on_connected = default_handler,
      on_connection_read = (\<lambda>_. default_handler),
      on_polling_cycle = default_handler,
      on_shutdown = default_handler,
      send_error_response =
        (\<lambda>err (v, ch, w). case cv_send_error_response err (v, ch) of (r, v', ch') \<Rightarrow> (r, v', ch', w))\<rparr>"

section \<open>Properties\<close>

lemma conn_new_base:
  "conn_new (client_conn_base cfg) cv t a w =
     (case fst (cv_set_event_channel_sender cfg cv) of
        Ok _ \<Rightarrow> (Ok \<lparr>cn_visitor = snd (cv_set_event_channel_sender cfg cv), cn_stream = t, cn_events = new_chan,
                     cn_alpn = a, cn_closed = False\<rparr>, w)
      | Err e \<Rightarrow> (Err e, w)
      | Panic m \<Rightarrow> (Panic m, w))"
proof -
  obtain r v where "cv_set_event_channel_sender cfg cv = (r, v)" by fastforce
  then show ?thesis by (cases r) (simp_all add: conn_new_def client_conn_base_def default_handler_def)
qed

lemma cv_set_sender_user: "cv_user (snd (cv_set_event_channel_sender cfg v)) = cv_user v"
  by (simp add: cv_set_event_channel_sender_def split: res.splits)

lemma conn_new_user:
  assumes "conn_new (client_conn_base cfg) cv t a w = (Ok c, w')"
  shows "cv_user (cn_visitor c) = cv_user cv" "cn_stream c = t" "cn_alpn c = a"
  using assms by (auto simp: conn_new_base cv_set_sender_user split: res.splits)

lemma authorize_device_Ok:
  "authorize_device L t = Ok dev \<longleftrightarrow> (\<exists>chain. tls_peer_certificates t = Some chain \<and> device_new (gl_cert L) chain = Ok dev)"
  by (auto simp: authorize_device_def res_simps)

lemma authorize_user_Ok:
  "authorize_user cfg uid = Ok u \<longleftrightarrow> uid \<noteq> 0 \<and> user_get (cfg_user_repo cfg) uid = Ok (Some u) \<and> u_status u = Active"
  by (auto simp: authorize_user_def split: res.splits option.splits)

lemma authorize_service_Ok:
  "authorize_service cfg uid p (Some sid) = Ok x \<longleftrightarrow>
     p = Service sid \<and> (\<exists>a. access_get (cfg_access_repo cfg) uid sid = Ok (Some a))"
  by (auto simp: authorize_service_def res_simps split: protocol.splits if_splits)

lemma process_authorization_Ok:
  "process_authorization L cfg t sid v = (Ok p, v') \<longleftrightarrow>
     (\<exists>dev u. authorize_device L t = Ok dev \<and>
        authorize_user cfg (ctx_user_id (dv_cert_access_context dev)) = Ok u \<and>
        parse_alpn_protocol (gl_digits L) (tls_alpn_protocol t) = Ok p \<and>
        authorize_service cfg (ctx_user_id (dv_cert_access_context dev)) p sid = Ok () \<and>
        v' = v\<lparr>cv_device := Some dev, cv_user := Some u\<rparr>)"
proof -
  let ?r = "and_then (authorize_device L t) (\<lambda>dev.
          let user_id = ctx_user_id (dv_cert_access_context dev) in
          and_then (authorize_user cfg user_id) (\<lambda>u.
          and_then (parse_alpn_protocol (gl_digits L) (tls_alpn_protocol t)) (\<lambda>alpn.
          and_then (authorize_service cfg user_id alpn sid) (\<lambda>_. Ok (dev, u, alpn)))))"
  have "process_authorization L cfg t sid v = (Ok p, v') \<longleftrightarrow>
      (\<exists>dev u. ?r = Ok (dev, u, p) \<and> v' = v\<lparr>cv_device := Some dev, cv_user := Some u\<rparr>)"
    by (cases ?r) (auto simp: process_authorization_def split: prod.splits)
  also have "\<dots> \<longleftrightarrow> (\<exists>dev u. authorize_device L t = Ok dev \<and>
        authorize_user cfg (ctx_user_id (dv_cert_access_context dev)) = Ok u \<and>
        parse_alpn_protocol (gl_digits L) (tls_alpn_protocol t) = Ok p \<and>
        authorize_service cfg (ctx_user_id (dv_cert_access_context dev)) p sid = Ok () \<and>
        v' = v\<lparr>cv_device := Some dev, cv_user := Some u\<rparr>)"
    by (auto simp: res_simps Let_def)
  finally show ?thesis .
qed

text \<open>
  C4: a service connection is admitted exactly when the peer presents a certificate chain whose
  device identity names a user id other than 0, that user is known and active, the negotiated
  protocol is the one of this very service, and the user has an access record for it; the identity
  then kept for the connection is that device and that user.
\<close>

theorem authorization_sound_and_complete:
  "process_authorization L cfg t (Some sid) v = (Ok p, v') \<longleftrightarrow>
     (\<exists>chain dev u a. tls_peer_certificates t = Some chain \<and> device_new (gl_cert L) chain = Ok dev \<and>
        ctx_user_id (dv_cert_access_context dev) \<noteq> 0 \<and>
        user_get (cfg_user_repo cfg) (ctx_user_id (dv_cert_access_context dev)) = Ok (Some u) \<and> u_status u = Active \<and>
        parse_alpn_protocol (gl_digits L) (tls_alpn_protocol t) = Ok (Service sid) \<and> p = Service sid \<and>
        access_get (cfg_access_repo cfg) (ctx_user_id (dv_cert_access_context dev)) sid = Ok (Some a) \<and>
        v' = v\<lparr>cv_device := Some dev, cv_user := Some u\<rparr>)"
  unfolding process_authorization_Ok authorize_device_Ok authorize_user_Ok authorize_service_Ok by blast

lemma process_authorization_kept:
  "process_authorization L cfg t sid v = (r, v') \<Longrightarrow> (\<forall>p. r \<noteq> Ok p) \<Longrightarrow> v' = v"
  by (auto simp: process_authorization_def Let_def split: res.splits prod.splits)

text \<open>The code of a refusal, in the order in which the conditions are examined.\<close>

definition denial_code :: "'a gw_lib \<Rightarrow> app_config \<Rightarrow> 'z tls_stream_scheme \<Rightarrow> u64 \<Rightarrow> u64 \<Rightarrow> u16 option" where
  "denial_code L cfg t uid sid =
     (if uid = 0 then Some RESPCODE_0420_INVALID_CLIENT_CERTIFICATE
      else case hm_get (rw_data (cfg_user_repo cfg)) uid of
        None \<Rightarrow> Some RESPCODE_0421_UNKNOWN_USER
      | Some u \<Rightarrow>
          if u_status u = Inactive then Some RESPCODE_0422_INACTIVE_USER
          else if parse_alpn_protocol (gl_digits L) (tls_alpn_protocol t) \<noteq> Ok (Service sid)
          then Some RESPCODE_0424_INVALID_ALPN_PROTOCOL
          else if hm_get (rw_data (cfg_access_repo cfg)) (uid, sid) = None then Some RESPCODE_0403_FORBIDDEN
          else None)"

lemma parse_alpn_code:
  "parse_alpn_protocol nd name = Err e \<Longrightarrow> get_code e = Some RESPCODE_0424_INVALID_ALPN_PROTOCOL"
  by (auto simp: parse_alpn_protocol_def parse_protocol_def Let_def split: option.splits res.splits if_splits)

text \<open>The protocol name a client offers for a service is read as that service.\<close>

lemma parse_alpn_service:
  assumes "regex_digits nd"
  shows "parse_alpn_protocol nd (Some (bytes_of_text (create_service_protocol sid))) = Ok (Service sid)"
proof -
  have "list_all (\<lambda>c. of_char c < (128 :: nat)) (create_service_protocol sid)"
    using show_nat_digits[of "unat sid"] by (auto simp: create_service_protocol_def PROTOCOL_SERVICE_def show_u64_def list_all_iff is_digit_def)
  then have "from_utf8_lossy (bytes_of_text (create_service_protocol sid)) = create_service_protocol sid"
    by (simp add: from_utf8_lossy_ascii ascii_bytes_of_text)
  then show ?thesis by (simp add: parse_alpn_protocol_def parse_service_protocol[OF assms])
qed

text \<open>
  C13: for a peer whose device identity was read, with both tables reachable and a protocol name
  that parses without panic, every refusal carries the response code of the first condition that
  fails (420 no user id, 421 unknown, 422 inactive, 424 protocol, 403 access), no identity is kept,
  and there is no refusal when none fails.
\<close>

theorem authorization_denial_codes:
  assumes "authorize_device L t = Ok dev" and "uid = ctx_user_id (dv_cert_access_context dev)"
    and "rw_avail (cfg_user_repo cfg)" and "rw_avail (cfg_access_repo cfg)"
    and "\<forall>m. parse_alpn_protocol (gl_digits L) (tls_alpn_protocol t) \<noteq> Panic m"
  shows "case denial_code L cfg t uid sid of
      None \<Rightarrow> \<exists>v'. process_authorization L cfg t (Some sid) v = (Ok (Service sid), v')
    | Some code \<Rightarrow> \<exists>e. process_authorization L cfg t (Some sid) v = (Err e, v) \<and> get_code e = Some code"
proof -
  let ?alpn = "parse_alpn_protocol (gl_digits L) (tls_alpn_protocol t)"
  have ug: "user_get (cfg_user_repo cfg) uid = Ok (hm_get (rw_data (cfg_user_repo cfg)) uid)"
    and ag: "access_get (cfg_access_repo cfg) uid sid = Ok (hm_get (rw_data (cfg_access_repo cfg)) (uid, sid))"
    using assms(3,4) by (simp_all add: user_get_def access_get_def repo_defs rw_avail_def)
  note pa = process_authorization_def assms(1) Let_def assms(2)[symmetric]
  show ?thesis
  proof (cases "authorize_user cfg uid")
    case (Ok u)
    then have u: "uid \<noteq> 0" "hm_get (rw_data (cfg_user_repo cfg)) uid = Some u" "u_status u = Active"
      using ug by (auto simp: authorize_user_Ok)
    show ?thesis
    proof (cases ?alpn)
      case (Err e)
      with u Ok parse_alpn_code[OF Err] show ?thesis by (simp add: denial_code_def pa)
    next
      case (Panic m)
      with assms(5) show ?thesis by blast
    next
      case p: (Ok p)
      with u Ok ag show ?thesis
        by (auto simp: denial_code_def pa authorize_service_def split: protocol.splits option.splits)
    qed
  next
    case (Err e)
    then have "(\<exists>c. denial_code L cfg t uid sid = Some c \<and> get_code e = Some c)"
      using ug by (auto simp: authorize_user_def denial_code_def split: if_splits option.splits)
        (metis user_status.exhaust)+
    with Err show ?thesis by (auto simp: pa)
  next
    case (Panic m)
    then show ?thesis using ug by (simp add: authorize_user_def split: if_splits option.splits)
  qed
qed

definition demo_gw_lib :: "int gw_lib" where
  "demo_gw_lib = \<lparr>gl_cert = demo_cert_lib, gl_digits = ascii_nd\<rparr>"

definition demo_tls :: "u8 \<Rightarrow> tls_stream" where
  "demo_tls b = \<lparr>st_peer_addr = Some ''10.0.0.7:4000'', st_local_addr = Some ''10.0.0.1:8400'', st_reads = [],
     st_writes = [], st_sent = [], st_shutdowns = [], st_clone_err = None, st_debug = ''TcpStream'',
     tls_peer_certificates = Some [[b]], tls_alpn_protocol = Some (bytes_of_text ''T0SRV203'')\<rparr>"


definition demo_device :: "u64 \<Rightarrow> device" where
  "demo_device uid = \<lparr>dv_cert_subj = [(''2.5.4.5'', [show_int 7])], dv_cert_alt_subj = [(''URI'', [show_u64 uid])],
     dv_cert_access_context = \<lparr>ctx_user_id = uid, ctx_platform = ''Linux''\<rparr>\<rparr>"

lemma demo_authorize_device:
  "authorize_device demo_gw_lib (demo_tls 100) = Ok (demo_device 100)"
  "authorize_device demo_gw_lib (demo_tls 101) = Ok (demo_device 101)"
  by (simp_all add: authorize_device_def demo_gw_lib_def demo_tls_def device_new_def device_cert_def cert_subj_attrs_def
      demo_cert_lib_def demo_asn_def stringify_asn_value_def List.map_filter_def demo_group_def cert_context_def
      hm_get_def demo_device_def show_u64_def parse_u64_def parse_uint_show_nat)

lemma demo_alpn [simp]: "parse_alpn_protocol ascii_nd (Some (bytes_of_text ''T0SRV203'')) = Ok (Service 203)"
proof -
  have "from_utf8_lossy (bytes_of_text ''T0SRV203'') = PROTOCOL_SERVICE @ show_u64 203"
    by (simp add: from_utf8_lossy_ascii ascii_bytes_of_text PROTOCOL_SERVICE_def show_u64_203)
  moreover have "parse_protocol ascii_nd (PROTOCOL_SERVICE @ show_u64 203) = Ok (Some (Service 203))"
    by (simp add: parse_protocol_service_text[OF ascii_nd_ok] show_u64_digits)
  ultimately show ?thesis by (simp add: parse_alpn_protocol_def)
qed

theorem authorization_denial_codes_witness:
  "\<exists>e. process_authorization demo_gw_lib demo_config (demo_tls 101) (Some 203) (client_visitor_new demo_config) =
       (Err e, client_visitor_new demo_config) \<and> get_code e = Some RESPCODE_0422_INACTIVE_USER"
proof -
  have a: "rw_avail (cfg_user_repo demo_config)" "rw_avail (cfg_access_repo demo_config)"
    by (simp_all add: rw_avail_def demo_config_def)
  have p: "\<forall>m. parse_alpn_protocol (gl_digits demo_gw_lib) (tls_alpn_protocol (demo_tls 101)) \<noteq> Panic m"
    by (simp add: demo_gw_lib_def demo_tls_def)
  have u: "101 = ctx_user_id (dv_cert_access_context (demo_device 101))" by (simp add: demo_device_def)
  have d: "denial_code demo_gw_lib demo_config (demo_tls 101) 101 203 = Some RESPCODE_0422_INACTIVE_USER"
    by (simp add: denial_code_def demo_config_def hm_get_def new_user_def)
  from authorization_denial_codes[OF demo_authorize_device(2) u a p, of 203 "client_visitor_new demo_config"] d
  show ?thesis by simp
qed

text \<open>
  a certificate without a URI among its alternative names identifies nobody: the connection is
  refused with code 420 whatever protocol or service it asks for, because the device then has the
  default context, whose user id is 0.
\<close>

theorem certificate_without_uri_refused:
  assumes "group_ok (gl_cert L)" and "tls_peer_certificates t = Some (cert # rest)"
    and "parse_x509_certificate (gl_cert L) cert = Inr x" and "cert_subj_attrs (gl_cert L) x = Ok attrs"
    and "x_subject_alternative_name x = Inr san" and "\<forall>names uri. san = Some names \<longrightarrow> URI uri \<notin> set names"
  shows "process_authorization L cfg t sid v =
    (Err (GenWithCodeAndMsg RESPCODE_0420_INVALID_CLIENT_CERTIFICATE ''Invalid certificate user identity''), v)"
proof -
  have none: "List.map_filter (\<lambda>g. case g of URI w \<Rightarrow> Some w | OtherGeneralName \<Rightarrow> None) names = []" if "san = Some names" for names
    using assms(6) that by (auto simp: List.map_filter_def filter_empty_conv split: general_name.splits)
  have "\<exists>dev. authorize_device L t = Ok dev \<and> dv_cert_access_context dev = default_context"
    using assms(2-5) cert_context_first_uri[OF assms(1)] none
    by (cases san) (auto simp: authorize_device_def device_new_def device_cert_def Let_def)
  then show ?thesis
    by (auto simp: process_authorization_def authorize_user_def default_context_def Let_def)
qed

theorem certificate_without_uri_refused_witness:
  "process_authorization demo_gw_lib demo_config (demo_tls 255) (Some 203) (client_visitor_new demo_config) =
    (Err (GenWithCodeAndMsg RESPCODE_0420_INVALID_CLIENT_CERTIFICATE ''Invalid certificate user identity''),
     client_visitor_new demo_config)"
proof (rule certificate_without_uri_refused)
  show "group_ok (gl_cert demo_gw_lib)" using demo_group_ok by (simp add: demo_gw_lib_def)
  show "tls_peer_certificates (demo_tls 255) = Some [[255]]" by (simp add: demo_tls_def)
  show "parse_x509_certificate (gl_cert demo_gw_lib) [255] =
      Inr \<lparr>x_subject = [[(''2.5.4.5'', 7)]], x_subject_alternative_name = Inr None\<rparr>"
    by (simp add: demo_gw_lib_def demo_cert_lib_def)
  show "cert_subj_attrs (gl_cert demo_gw_lib) \<lparr>x_subject = [[(''2.5.4.5'', 7)]], x_subject_alternative_name = Inr None\<rparr> =
      Ok [(''2.5.4.5'', show_int 7)]"
    by (simp add: demo_gw_lib_def demo_cert_lib_def demo_asn_def cert_subj_attrs_def stringify_asn_value_def)
qed auto

end
