(* ===== verification/T0_Proxy_Base.thy ===== *)
theory T0_Proxy_Base
  imports T0_Stream
begin

text \<open>
  \<open>crates/common/src/proxy/proxy_base.rs\<close> and \<open>proxy/event.rs\<close>: the kinds of proxies, the events a
  proxy reports, and the text key under which the managers and the executor file it; and the tasks of
  \<open>proxy/executor.rs\<close>.  A socket address is the text the standard library prints for it.
\<close>

datatype proxy_type = ChannelAndTcp | TcpAndTcp | TcpAndUdp

fun proxy_type_key :: "proxy_type \<Rightarrow> string" where
  "proxy_type_key ChannelAndTcp = ''C&T''"
| "proxy_type_key TcpAndTcp = ''T&T''"
| "proxy_type_key TcpAndUdp = ''T&U''"

datatype proxy_event = ProxyClosed string | ProxyMessage string string bytes

text \<open>\<open>ProxyEvent::key_value\<close>.\<close>

definition proxy_key_value :: "proxy_type \<Rightarrow> string option \<Rightarrow> string option \<Rightarrow> string" where
  "proxy_key_value t a1 a2 =
     (let client_addr = (case a1 of Some a \<Rightarrow> a | None \<Rightarrow> ''client_addr_NA'');
          server_addr = (case a2 of Some a \<Rightarrow> a | None \<Rightarrow> ''server_addr_NA'') in
      proxy_type_key t @ '':'' @ debug_str client_addr @ '','' @ debug_str server_addr)"

text \<open>
  \<open>ProxyExecutorEvent\<close>: each opening task carries the proxy's key and its streams; the reader/writer
  handles of the context are handles on the same streams.
\<close>

datatype proxy_task =
    OpenChannelAndTcpProxy string string net_stream
  | OpenTcpAndTcpProxy string net_stream net_stream
  | OpenTcpAndUdpProxy string net_stream udp_sock
  | CloseProxy string

fun task_key :: "proxy_task \<Rightarrow> string" where
  "task_key (OpenChannelAndTcpProxy k _ _) = k"
| "task_key (OpenTcpAndTcpProxy k _ _) = k"
| "task_key (OpenTcpAndUdpProxy k _ _) = k"
| "task_key (CloseProxy k) = k"

text \<open>
  What the printed form of every socket address has (\<open>192.0.2.1:80\<close>, \<open>[::1]:80\<close>): printable
  characters without quotes or backslashes, and a colon.
\<close>

definition addr_text :: "string \<Rightarrow> bool" where
  "addr_text a \<longleftrightarrow> list_all plain_char a \<and> CHR '':'' \<in> set a"

section \<open>Properties\<close>

lemma addr_text_NA: "\<not> addr_text ''client_addr_NA''" "\<not> addr_text ''server_addr_NA''"
  by (simp_all add: addr_text_def)

lemma plain_NA: "list_all plain_char ''client_addr_NA''" "list_all plain_char ''server_addr_NA''"
  by (simp_all add: plain_char_def escape_char_def Let_def)

lemma debug_str_inject:
  assumes "list_all plain_char a" and "list_all plain_char b"
  shows "debug_str a @ r = debug_str b @ t \<longleftrightarrow> a = b \<and> r = t"
  using assms by (simp add: debug_str_plain append_quote_inject)

lemma opt_addr_plain:
  assumes "pred_option addr_text a"
  shows "list_all plain_char (case a of Some x \<Rightarrow> x | None \<Rightarrow> ''client_addr_NA'')"
    "list_all plain_char (case a of Some x \<Rightarrow> x | None \<Rightarrow> ''server_addr_NA'')"
  using assms plain_NA by (auto simp: addr_text_def split: option.splits)

lemma opt_addr_inject:
  assumes "pred_option addr_text a" and "pred_option addr_text b"
  shows "(case a of Some x \<Rightarrow> x | None \<Rightarrow> ''client_addr_NA'') = (case b of Some x \<Rightarrow> x | None \<Rightarrow> ''client_addr_NA'') \<longleftrightarrow> a = b"
    "(case a of Some x \<Rightarrow> x | None \<Rightarrow> ''server_addr_NA'') = (case b of Some x \<Rightarrow> x | None \<Rightarrow> ''server_addr_NA'') \<longleftrightarrow> a = b"
  using assms addr_text_NA by (auto split: option.splits)

lemma proxy_type_key_inject: "proxy_type_key s @ x = proxy_type_key t @ y \<longleftrightarrow> s = t \<and> x = y"
  by (cases s; cases t) simp_all

text \<open>
  C35: a proxy key identifies its proxy: two proxies have the same key only when they are of the
  same kind and their two socket addresses agree, a missing address included.
\<close>

theorem proxy_key_inject:
  assumes "pred_option addr_text a1" "pred_option addr_text a2" "pred_option addr_text b1" "pred_option addr_text b2"
  shows "proxy_key_value s a1 a2 = proxy_key_value t b1 b2 \<longleftrightarrow> s = t \<and> a1 = b1 \<and> a2 = b2"
proof -
  note inj = opt_addr_inject(1)[OF assms(1,3)] opt_addr_inject(2)[OF assms(2,4)]
  note pl = opt_addr_plain(1)[OF assms(1)] opt_addr_plain(1)[OF assms(3)]
    opt_addr_plain(2)[OF assms(2)] opt_addr_plain(2)[OF assms(4)]
  have "debug_str x = debug_str y \<longleftrightarrow> x = y" if "list_all plain_char x" "list_all plain_char y" for x y
    using debug_str_inject[OF that, of "[]" "[]"] by simp
  with pl inj show ?thesis
    by (simp add: proxy_key_value_def Let_def proxy_type_key_inject debug_str_inject)
qed

theorem proxy_key_inject_witness:
  "pred_option addr_text (Some ''10.0.0.7:4000'') \<and> pred_option addr_text (Some ''10.0.0.9:80'') \<and>
   proxy_key_value TcpAndTcp (Some ''10.0.0.7:4000'') (Some ''10.0.0.9:80'') \<noteq>
   proxy_key_value TcpAndTcp (Some ''10.0.0.7:4000'') None"
proof -
  have a: "pred_option addr_text (Some ''10.0.0.7:4000'')" "pred_option addr_text (Some ''10.0.0.9:80'')"
    by (simp_all add: addr_text_def plain_char_def escape_char_def Let_def)
  have n: "pred_option addr_text None" by simp
  from proxy_key_inject[OF a(1,2) a(1) n, of TcpAndTcp TcpAndTcp] a show ?thesis by simp
qed

end
