(* ===== verification/T0_Gw_Proxy.thy ===== *)
theory T0_Gw_Proxy
  imports T0_Auth T0_Proxy_Base
begin

text \<open>
  \<open>crates/gateway/src/service/proxy\<close>: the visitors of the service proxies, \<open>tcp_proxy.rs\<close> and
  \<open>udp_proxy.rs\<close>.  One visitor per service keeps who is connected through it; all share the map from
  proxy keys to services and the channel of the proxy executor.
\<close>

type_synonym proxy_addrs = "string \<times> string"

record svc_visitor =
  sp_service :: service
  sp_proxy_host :: "string option"
  sp_proxy_port :: u16
  sp_users_by_proxy_addrs :: "(proxy_addrs, u64) hashmap"
  sp_proxy_addrs_by_proxy_key :: "(string, proxy_addrs) hashmap"
  sp_proxy_keys_by_user :: "(u64, string list) hashmap"

record gw_shared =
  gs_services_by_proxy_key :: "(string, u64) hashmap"
  gs_proxy_tasks :: "proxy_task chan"

type_synonym svc_state = "svc_visitor \<times> gw_shared"

type_synonym gw_conn = "(client_visitor, tls_stream) conn"

definition svc_visitor_new :: "service \<Rightarrow> string option \<Rightarrow> u16 \<Rightarrow> svc_visitor" where
  "svc_visitor_new svc host port = \<lparr>sp_service = svc, sp_proxy_host = host, sp_proxy_port = port,
     sp_users_by_proxy_addrs = [], sp_proxy_addrs_by_proxy_key = [], sp_proxy_keys_by_user = []\<rparr>"

definition create_proxy_addrs :: "'z net_stream_scheme \<Rightarrow> proxy_addrs" where
  "create_proxy_addrs s =
     (case st_peer_addr s of Some a \<Rightarrow> a | None \<Rightarrow> ''(NA)'',
      case st_local_addr s of Some a \<Rightarrow> a | None \<Rightarrow> ''(NA)'')"

section \<open>A new connection\<close>

definition svc_create_client_conn :: "'a gw_lib \<Rightarrow> app_config \<Rightarrow> tls_stream \<Rightarrow> (svc_visitor, gw_conn) sop" where
  "svc_create_client_conn L cfg t vis =
     (case process_authorization L cfg t (Some (sv_service_id (sp_service vis))) (client_visitor_new cfg) of
        (Err e, _) \<Rightarrow> (Err e, vis)
      | (Panic m, _) \<Rightarrow> (Panic m, vis)
      | (Ok alpn, cv) \<Rightarrow>
          (case unwrap_opt (cv_user cv) of
             Ok u \<Rightarrow>
               (fst (conn_new (client_conn_base cfg) cv t (Some alpn) ()),
                vis\<lparr>sp_users_by_proxy_addrs :=
                      hm_insert (create_proxy_addrs t) (u_user_id u) (sp_users_by_proxy_addrs vis)\<rparr>)
           | Err e \<Rightarrow> (Err e, vis)
           | Panic m \<Rightarrow> (Panic m, vis)))"

text \<open>\<open>SocketAddr::new\<close> and its text.\<close>

datatype ip_addr = V4 string | V6 string

fun socket_addr :: "ip_addr \<Rightarrow> u16 \<Rightarrow> string" where
  "socket_addr (V4 h) port = h @ '':'' @ show_u16 port"
| "socket_addr (V6 h) port = ''['' @ h @ '']:'' @ show_u16 port"

text \<open>
  The network as the gateway sees it: the name resolver, connecting to a service, binding a reply
  socket, and switching a socket to non-blocking mode (each may fail).
\<close>

record net_env =
  query_addrs :: "string \<Rightarrow> dyn_error + ip_addr list"
  tcp_connect :: "string \<Rightarrow> dyn_error + net_stream"
  udp_bind :: "string \<Rightarrow> dyn_error + udp_sock"
  udp_connect :: "udp_sock \<Rightarrow> string \<Rightarrow> dyn_error option"
  tcp_set_nonblocking :: "net_stream \<Rightarrow> dyn_error option"
  udp_set_nonblocking :: "udp_sock \<Rightarrow> dyn_error option"

definition resolve_host :: "net_env \<Rightarrow> service \<Rightarrow> ip_addr list res" where
  "resolve_host N svc =
     map_err (GenWithMsgAndErr (''Failed resolving host: host='' @ sv_host svc)) (query_addrs N (sv_host svc))"

text \<open>The loop over the resolved addresses: the first that connects, else the last error.\<close>

fun connect_tcp_service :: "net_env \<Rightarrow> u16 \<Rightarrow> ip_addr list \<Rightarrow> dyn_error option \<Rightarrow> (net_stream option \<times> dyn_error option) res" where
  "connect_tcp_service N port [] err = Ok (None, err)"
| "connect_tcp_service N port (a # as) err =
     (case tcp_connect N (socket_addr a port) of
        Inr sock \<Rightarrow>
          (case tcp_set_nonblocking N sock of
             Some e \<Rightarrow> Err (GenWithMsgAndErr (''Failed making socket non-blocking: socket='' @ st_debug sock) e)
           | None \<Rightarrow> Ok (Some sock, err))
      | Inl e \<Rightarrow> connect_tcp_service N port as (Some e))"

fun connect_udp_service :: "net_env \<Rightarrow> udp_sock \<Rightarrow> u16 \<Rightarrow> ip_addr list \<Rightarrow> dyn_error option \<Rightarrow> (string option \<times> dyn_error option) res" where
  "connect_udp_service N sock port [] err = Ok (None, err)"
| "connect_udp_service N sock port (a # as) err =
     (case udp_connect N sock (socket_addr a port) of
        None \<Rightarrow>
          (case udp_set_nonblocking N sock of
             Some e \<Rightarrow> Err (GenWithMsgAndErr (''Failed making socket non-blocking: socket='' @ us_debug sock) e)
           | None \<Rightarrow> Ok (Some (socket_addr a port), err))
      | Some e \<Rightarrow> connect_udp_service N sock port as (Some e))"

definition no_endpoint :: "service \<Rightarrow> dyn_error option \<Rightarrow> app_error" where
  "no_endpoint svc err =
     (case err of
        Some e \<Rightarrow> GenWithMsgAndErr (''Failed connect to service endpoint(s): svc='' @ service_debug svc) e
      | None \<Rightarrow> General (''No resolved service endpoints: svc='' @ service_debug svc))"

text \<open>The end of both \<open>on_conn_accepted\<close>: hand the task to the executor, then fill the proxy maps.\<close>

definition send_open_task :: "proxy_task \<Rightarrow> (svc_state, unit) sop" where
  "send_open_task task st =
     (case st of (vis, sh) \<Rightarrow>
      case chan_send task (gs_proxy_tasks sh) of
        Some ch \<Rightarrow> (Ok (), vis, sh\<lparr>gs_proxy_tasks := ch\<rparr>)
      | None \<Rightarrow> (Err (General (''Error while sending request for new TCP proxy: proxy_key='' @ task_key task @
                     '', err='' @ debug_of send_error)), vis, sh))"

definition register_proxy :: "string \<Rightarrow> proxy_addrs \<Rightarrow> (svc_state, unit) sop" where
  "register_proxy key addrs st =
     (case st of (vis, sh) \<Rightarrow>
      let sh' = sh\<lparr>gs_services_by_proxy_key :=
                     hm_insert key (sv_service_id (sp_service vis)) (gs_services_by_proxy_key sh)\<rparr> in
      case hm_get (sp_users_by_proxy_addrs vis) addrs of
        None \<Rightarrow> (Err (General (''Unknown user for proxy address pair: addrs=('' @ debug_str (fst addrs) @ '', '' @
                   debug_str (snd addrs) @ '')'')), vis, sh')
      | Some uid \<Rightarrow>
          (Ok (), vis\<lparr>sp_proxy_addrs_by_proxy_key := hm_insert key addrs (sp_proxy_addrs_by_proxy_key vis),
             sp_proxy_keys_by_user :=
               hm_insert uid (case hm_get (sp_proxy_keys_by_user vis) uid of Some keys \<Rightarrow> keys @ [key] | None \<Rightarrow> [key])
                 (sp_proxy_keys_by_user vis)\<rparr>, sh'))"

text \<open>
  \<open>on_conn_accepted\<close> up to the hand-over of the task: the service is connected and the executor is asked to
  open the proxy.  Other threads can run between this and the registration.
\<close>

definition tcp_open_proxy :: "net_env \<Rightarrow> gw_conn \<Rightarrow> (svc_state, string) sop" where
  "tcp_open_proxy N connection st =
     (let svc = sp_service (fst st); tls = cn_stream connection in
      case and_then (resolve_host N svc) (\<lambda>addrs. connect_tcp_service N (sv_port svc) addrs None) of
        Err e \<Rightarrow> (Err e, st)
      | Panic m \<Rightarrow> (Panic m, st)
      | Ok (None, err) \<Rightarrow> (Err (no_endpoint svc err), st)
      | Ok (Some service_stream, _) \<Rightarrow>
          (let key = proxy_key_value TcpAndTcp (st_peer_addr tls) (st_peer_addr service_stream) in
           sop_bind (sop_lift (map_err (GenWithMsgAndErr (''Unable to clone client service proxy stream: client_stream='' @ st_debug tls))
                      (case st_clone_err tls of Some e \<Rightarrow> Inl e | None \<Rightarrow> Inr ())))
             (\<lambda>_. sop_bind (sop_lift (map_err (GenWithMsgAndErr (''Unable to clone service stream: service_stream='' @ st_debug service_stream))
                      (case st_clone_err service_stream of Some e \<Rightarrow> Inl e | None \<Rightarrow> Inr ())))
             (\<lambda>_. sop_bind (send_open_task (OpenTcpAndTcpProxy key (net_stream.truncate tls) service_stream))
             (\<lambda>_. sop_lift (Ok key)))) st))"

definition udp_open_proxy :: "net_env \<Rightarrow> app_config \<Rightarrow> gw_conn \<Rightarrow> (svc_state, string) sop" where
  "udp_open_proxy N cfg connection st =
     (let svc = sp_service (fst st); tls = cn_stream connection; reply_host = cfg_gateway_service_reply_host cfg in
      case and_then (resolve_host N svc) (\<lambda>addrs.
             and_then (map_err (GenWithMsgAndErr (''Error binding service reply UDP socket: reply_host='' @ reply_host))
                        (udp_bind N (reply_host @ '':0''))) (\<lambda>udp_socket.
             and_then (connect_udp_service N udp_socket (sv_port svc) addrs None) (\<lambda>r. Ok (udp_socket, r)))) of
        Err e \<Rightarrow> (Err e, st)
      | Panic m \<Rightarrow> (Panic m, st)
      | Ok (_, None, err) \<Rightarrow> (Err (no_endpoint svc err), st)
      | Ok (udp_socket, Some service_addr, _) \<Rightarrow>
          (let key = proxy_key_value TcpAndUdp (us_local_addr udp_socket) (Some service_addr) in
           sop_bind (sop_lift (map_err (GenWithMsgAndErr (''Unable to clone client service proxy stream: client_stream='' @ st_debug tls))
                      (case st_clone_err tls of Some e \<Rightarrow> Inl e | None \<Rightarrow> Inr ())))
             (\<lambda>_. sop_bind (send_open_task (OpenTcpAndUdpProxy key (net_stream.truncate tls) udp_socket))
             (\<lambda>_. sop_lift (Ok key))) st))"

definition tcp_on_conn_accepted :: "net_env \<Rightarrow> gw_conn \<Rightarrow> (svc_state, unit) sop" where
  "tcp_on_conn_accepted N connection =
     sop_bind (tcp_open_proxy N connection) (\<lambda>key. register_proxy key (create_proxy_addrs (cn_stream connection)))"

definition udp_on_conn_accepted :: "net_env \<Rightarrow> app_config \<Rightarrow> gw_conn \<Rightarrow> (svc_state, unit) sop" where
  "udp_on_conn_accepted N cfg connection =
     sop_bind (udp_open_proxy N cfg connection) (\<lambda>key. register_proxy key (create_proxy_addrs (cn_stream connection)))"

section \<open>The interface the manager uses\<close>

definition get_proxy_addrs_for_user :: "svc_visitor \<Rightarrow> u64 \<Rightarrow> proxy_addrs list" where
  "get_proxy_addrs_for_user vis uid = map fst (filter (\<lambda>(_, u). uid = u) (sp_users_by_proxy_addrs vis))"

definition remove_proxy_for_key :: "string \<Rightarrow> (svc_state, bool) sop" where
  "remove_proxy_for_key key st =
     (case st of (vis, sh) \<Rightarrow>
      case hm_get (sp_proxy_addrs_by_proxy_key vis) key of
        None \<Rightarrow> (Ok False, vis, sh)
      | Some addrs \<Rightarrow>
          (case hm_get (sp_users_by_proxy_addrs vis) addrs of
             None \<Rightarrow> (Panic ''called `Option::unwrap()` on a `None` value'', vis, sh)
           | Some uid \<Rightarrow>
               (Ok True,
                vis\<lparr>sp_proxy_keys_by_user :=
                      (case hm_get (sp_proxy_keys_by_user vis) uid of
                         Some keys \<Rightarrow> hm_insert uid (filter (\<lambda>k. k \<noteq> key) keys) (sp_proxy_keys_by_user vis)
                       | None \<Rightarrow> sp_proxy_keys_by_user vis),
                    sp_proxy_addrs_by_proxy_key := hm_remove key (sp_proxy_addrs_by_proxy_key vis),
                    sp_users_by_proxy_addrs := hm_remove addrs (sp_users_by_proxy_addrs vis)\<rparr>,
                sh\<lparr>gs_services_by_proxy_key := hm_remove key (gs_services_by_proxy_key sh)\<rparr>)))"

text \<open>\<open>shutdown_connections\<close>: the loop over one user's keys, and the loop over the users.\<close>

fun close_keys :: "string list \<Rightarrow> string list \<Rightarrow> (svc_state, string list) sop" where
  "close_keys [] errors st = (Ok errors, st)"
| "close_keys (key # keys) errors (vis, sh) =
     (case chan_send (CloseProxy key) (gs_proxy_tasks sh) of
        None \<Rightarrow> close_keys keys (errors @ [''Error while sending request to close a TCP proxy connection: proxy_stream='' @
                   key @ '', err='' @ debug_of send_error]) (vis, sh)
      | Some ch \<Rightarrow>
          (case remove_proxy_for_key key (vis, sh\<lparr>gs_proxy_tasks := ch\<rparr>) of
             (Ok _, st) \<Rightarrow> close_keys keys errors st
           | (Err e, st) \<Rightarrow> (Err e, st)
           | (Panic m, st) \<Rightarrow> (Panic m, st)))"

fun close_key_lists :: "string list list \<Rightarrow> (svc_state, unit) sop" where
  "close_key_lists [] st = (Ok (), st)"
| "close_key_lists (keys # ls) st =
     (case close_keys keys [] st of
        (Ok errors, st') \<Rightarrow>
          if errors \<noteq> [] then (Err (General (''Errors closing proxy connection(s), err='' @ join_strs '', '' errors)), st')
          else close_key_lists ls st'
      | (Err e, st') \<Rightarrow> (Err e, st')
      | (Panic m, st') \<Rightarrow> (Panic m, st'))"

definition svc_shutdown_connections :: "u64 option \<Rightarrow> (svc_state, unit) sop" where
  "svc_shutdown_connections user_id st =
     close_key_lists (map snd (filter (\<lambda>(uid, _). user_id = None \<or> uid = the user_id) (sp_proxy_keys_by_user (fst st)))) st"

text \<open>The two implementations of the trait, and the dispatch of a call on a trait object.\<close>

definition tcp_create_client_conn :: "'a gw_lib \<Rightarrow> app_config \<Rightarrow> tls_stream \<Rightarrow> (svc_visitor, gw_conn) sop" where
  "tcp_create_client_conn = svc_create_client_conn"
definition udp_create_client_conn :: "'a gw_lib \<Rightarrow> app_config \<Rightarrow> tls_stream \<Rightarrow> (svc_visitor, gw_conn) sop" where
  "udp_create_client_conn = svc_create_client_conn"
definition tcp_remove_proxy_for_key :: "string \<Rightarrow> (svc_state, bool) sop" where
  "tcp_remove_proxy_for_key = remove_proxy_for_key"
definition udp_remove_proxy_for_key :: "string \<Rightarrow> (svc_state, bool) sop" where
  "udp_remove_proxy_for_key = remove_proxy_for_key"
definition tcp_shutdown_connections :: "u64 option \<Rightarrow> (svc_state, unit) sop" where
  "tcp_shutdown_connections = svc_shutdown_connections"
definition udp_shutdown_connections :: "u64 option \<Rightarrow> (svc_state, unit) sop" where
  "udp_shutdown_connections = svc_shutdown_connections"

fun by_transport :: "transport \<Rightarrow> 'f \<Rightarrow> 'f \<Rightarrow> 'f" where
  "by_transport TCP tcp udp = tcp"
| "by_transport UDP tcp udp = udp"

definition gsp_create_client_conn :: "'a gw_lib \<Rightarrow> app_config \<Rightarrow> tls_stream \<Rightarrow> (svc_visitor, gw_conn) sop" where
  "gsp_create_client_conn L cfg t vis =
     by_transport (sv_transport (sp_service vis)) tcp_create_client_conn udp_create_client_conn L cfg t vis"

definition gsp_on_conn_accepted :: "net_env \<Rightarrow> app_config \<Rightarrow> gw_conn \<Rightarrow> (svc_state, unit) sop" where
  "gsp_on_conn_accepted N cfg connection st =
     by_transport (sv_transport (sp_service (fst st)))
       (tcp_on_conn_accepted N connection) (udp_on_conn_accepted N cfg connection) st"

definition gsp_open_proxy :: "net_env \<Rightarrow> app_config \<Rightarrow> gw_conn \<Rightarrow> (svc_state, string) sop" where
  "gsp_open_proxy N cfg connection st =
     by_transport (sv_transport (sp_service (fst st))) (tcp_open_proxy N connection) (udp_open_proxy N cfg connection) st"

definition gsp_remove_proxy_for_key :: "string \<Rightarrow> (svc_state, bool) sop" where
  "gsp_remove_proxy_for_key key st =
     by_transport (sv_transport (sp_service (fst st))) tcp_remove_proxy_for_key udp_remove_proxy_for_key key st"

definition gsp_shutdown_connections :: "u64 option \<Rightarrow> (svc_state, unit) sop" where
  "gsp_shutdown_connections uid st =
     by_transport (sv_transport (sp_service (fst st))) tcp_shutdown_connections udp_shutdown_connections uid st"

section \<open>The invariant of a visitor\<close>

lemma gsp_simps [simp]:
  "gsp_create_client_conn = svc_create_client_conn"
  "gsp_remove_proxy_for_key = remove_proxy_for_key"
  "gsp_shutdown_connections = svc_shutdown_connections"
proof -
  have b: "by_transport t f f = f" for t and f :: 'f by (cases t) simp_all
  show "gsp_create_client_conn = svc_create_client_conn"
    by (intro ext) (simp add: gsp_create_client_conn_def tcp_create_client_conn_def udp_create_client_conn_def b)
  show "gsp_remove_proxy_for_key = remove_proxy_for_key"
    by (intro ext) (simp add: gsp_remove_proxy_for_key_def tcp_remove_proxy_for_key_def udp_remove_proxy_for_key_def b)
  show "gsp_shutdown_connections = svc_shutdown_connections"
    by (intro ext) (simp add: gsp_shutdown_connections_def tcp_shutdown_connections_def udp_shutdown_connections_def b)
qed

text \<open>
  The three maps agree: a registered key belongs to exactly one address pair, that pair to a user,
  and the key is in that user's list; the lists hold nothing else and no key twice.  A pair without
  a key is a connection that has been authorized and not (or not successfully) been handed on.
\<close>

abbreviation key_addrs :: "svc_visitor \<Rightarrow> string \<Rightarrow> proxy_addrs option" where
  "key_addrs vis \<equiv> hm_get (sp_proxy_addrs_by_proxy_key vis)"

abbreviation addrs_user :: "svc_visitor \<Rightarrow> proxy_addrs \<Rightarrow> u64 option" where
  "addrs_user vis \<equiv> hm_get (sp_users_by_proxy_addrs vis)"

abbreviation user_keys :: "svc_visitor \<Rightarrow> u64 \<Rightarrow> string list option" where
  "user_keys vis \<equiv> hm_get (sp_proxy_keys_by_user vis)"

definition svc_inv :: "svc_visitor \<Rightarrow> bool" where
  "svc_inv vis \<longleftrightarrow> hm_inv (sp_users_by_proxy_addrs vis) \<and> hm_inv (sp_proxy_keys_by_user vis) \<and>
     (\<forall>k a. key_addrs vis k = Some a \<longrightarrow>
        (\<exists>uid ks. addrs_user vis a = Some uid \<and> user_keys vis uid = Some ks \<and> k \<in> set ks)) \<and>
     (\<forall>uid ks k. user_keys vis uid = Some ks \<and> k \<in> set ks \<longrightarrow>
        (\<exists>a. key_addrs vis k = Some a \<and> addrs_user vis a = Some uid)) \<and>
     (\<forall>k k' a. key_addrs vis k = Some a \<and> key_addrs vis k' = Some a \<longrightarrow> k = k') \<and>
     (\<forall>uid ks. user_keys vis uid = Some ks \<longrightarrow> distinct ks)"

lemma svc_inv_new [t0_inv]: "svc_inv (svc_visitor_new svc host port)"
  by (simp add: svc_inv_def svc_visitor_new_def)

lemma svc_invD:
  assumes "svc_inv vis"
  shows "key_addrs vis k = Some a \<Longrightarrow> \<exists>uid ks. addrs_user vis a = Some uid \<and> user_keys vis uid = Some ks \<and> k \<in> set ks"
    and "user_keys vis uid = Some ks \<Longrightarrow> k \<in> set ks \<Longrightarrow> \<exists>a. key_addrs vis k = Some a \<and> addrs_user vis a = Some uid"
    and "key_addrs vis k = Some a \<Longrightarrow> key_addrs vis k' = Some a \<Longrightarrow> k = k'"
    and "user_keys vis uid = Some ks \<Longrightarrow> distinct ks"
    and "hm_inv (sp_proxy_keys_by_user vis)"
  using assms unfolding svc_inv_def by blast+

text \<open>The state in which some keys, and the addresses that belong to them, are forgotten.\<close>

definition forgets :: "string set \<Rightarrow> svc_state \<Rightarrow> svc_state \<Rightarrow> bool" where
  "forgets K st st' \<longleftrightarrow> (case (st, st') of ((vis, sh), (vis', sh')) \<Rightarrow>
     svc_inv vis' \<and> sp_service vis' = sp_service vis \<and>
     (\<forall>k. key_addrs vis' k = (if k \<in> K then None else key_addrs vis k)) \<and>
     (\<forall>a. addrs_user vis' a = (if \<exists>k \<in> K. key_addrs vis k = Some a then None else addrs_user vis a)) \<and>
     (\<forall>uid. user_keys vis' uid = map_option (filter (\<lambda>k. k \<notin> K)) (user_keys vis uid)) \<and>
     (\<forall>k. hm_get (gs_services_by_proxy_key sh') k = (if k \<in> K then None else hm_get (gs_services_by_proxy_key sh) k)))"

lemma forgetsD:
  assumes "forgets K (vis, sh) (vis', sh')"
  shows "svc_inv vis'" "sp_service vis' = sp_service vis"
    "key_addrs vis' k = (if k \<in> K then None else key_addrs vis k)"
    "addrs_user vis' a = (if \<exists>k \<in> K. key_addrs vis k = Some a then None else addrs_user vis a)"
    "user_keys vis' uid = map_option (filter (\<lambda>k. k \<notin> K)) (user_keys vis uid)"
    "hm_get (gs_services_by_proxy_key sh') k = (if k \<in> K then None else hm_get (gs_services_by_proxy_key sh) k)"
  using assms unfolding forgets_def prod.case by (simp_all del: split_paired_All)

lemma user_keys_other:
  assumes "svc_inv vis" and "key_addrs vis key = Some a" and "addrs_user vis a = Some uid"
    and "user_keys vis w = Some ks" and "w \<noteq> uid"
  shows "key \<notin> set ks"
  using svc_invD(2)[OF assms(1,4), of key] assms(2,3,5) by auto

text \<open>The visitor without one of its keys.\<close>

definition drop_key :: "string \<Rightarrow> proxy_addrs \<Rightarrow> u64 \<Rightarrow> svc_visitor \<Rightarrow> svc_visitor" where
  "drop_key key a uid vis = vis
     \<lparr>sp_proxy_keys_by_user := hm_insert uid (filter (\<lambda>k. k \<noteq> key) (the (user_keys vis uid))) (sp_proxy_keys_by_user vis),
      sp_proxy_addrs_by_proxy_key := hm_remove key (sp_proxy_addrs_by_proxy_key vis),
      sp_users_by_proxy_addrs := hm_remove a (sp_users_by_proxy_addrs vis)\<rparr>"

lemma drop_key_user_keys:
  assumes "svc_inv vis" and "key_addrs vis key = Some a" and "addrs_user vis a = Some uid" and "user_keys vis uid = Some ks"
  shows "user_keys (drop_key key a uid vis) w = map_option (filter (\<lambda>k. k \<notin> {key})) (user_keys vis w)"
proof (cases "w = uid")
  case False
  then show ?thesis using user_keys_other[OF assms(1-3), of w]
    by (cases "user_keys vis w") (auto simp: drop_key_def intro!: filter_True[symmetric])
qed (simp add: drop_key_def assms(4))

lemma svc_inv_drop_key:
  assumes inv: "svc_inv vis" and k: "key_addrs vis key = Some a" and u: "addrs_user vis a = Some uid" "user_keys vis uid = Some ks"
  shows "svc_inv (drop_key key a uid vis)"
  unfolding svc_inv_def
proof (intro conjI allI impI)
  note uk = drop_key_user_keys[OF inv k u]
  show "hm_inv (sp_users_by_proxy_addrs (drop_key key a uid vis))" "hm_inv (sp_proxy_keys_by_user (drop_key key a uid vis))"
    using inv by (simp_all add: drop_key_def svc_inv_def)
  show "\<exists>w ws. addrs_user (drop_key key a uid vis) b = Some w \<and> user_keys (drop_key key a uid vis) w = Some ws \<and> k' \<in> set ws"
    if "key_addrs (drop_key key a uid vis) k' = Some b" for k' b
  proof -
    from that have k': "k' \<noteq> key" "key_addrs vis k' = Some b" by (simp_all add: drop_key_def split: if_splits)
    then have "b \<noteq> a" using svc_invD(3)[OF inv] k by blast
    with svc_invD(1)[OF inv k'(2)] k'(1) show ?thesis by (auto simp: uk) (auto simp: drop_key_def)
  qed
  show "\<exists>b. key_addrs (drop_key key a uid vis) k' = Some b \<and> addrs_user (drop_key key a uid vis) b = Some w"
    if "user_keys (drop_key key a uid vis) w = Some ws \<and> k' \<in> set ws" for w ws k'
  proof -
    from that obtain ws0 where w: "user_keys vis w = Some ws0" "k' \<in> set ws0" "k' \<noteq> key" by (auto simp: uk)
    from svc_invD(2)[OF inv w(1,2)] obtain b where b: "key_addrs vis k' = Some b" "addrs_user vis b = Some w" by blast
    then have "b \<noteq> a" using svc_invD(3)[OF inv] k w(3) by blast
    with b w(3) show ?thesis by (simp add: drop_key_def)
  qed
  show "k1 = k2" if "key_addrs (drop_key key a uid vis) k1 = Some b \<and> key_addrs (drop_key key a uid vis) k2 = Some b" for k1 k2 b
    using that svc_invD(3)[OF inv] by (auto simp: drop_key_def split: if_splits)
  show "distinct ws" if "user_keys (drop_key key a uid vis) w = Some ws" for w ws
    using that svc_invD(4)[OF inv] by (auto simp: uk)
qed

lemma remove_proxy_registered:
  assumes inv: "svc_inv vis" and k: "key_addrs vis key = Some a"
  shows "\<exists>vis' sh'. remove_proxy_for_key key (vis, sh) = (Ok True, vis', sh') \<and> gs_proxy_tasks sh' = gs_proxy_tasks sh \<and>
    forgets {key} (vis, sh) (vis', sh')"
proof -
  from svc_invD(1)[OF inv k] obtain uid ks where u: "addrs_user vis a = Some uid" "user_keys vis uid = Some ks" by blast
  define sh' where "sh' = sh\<lparr>gs_services_by_proxy_key := hm_remove key (gs_services_by_proxy_key sh)\<rparr>"
  have "remove_proxy_for_key key (vis, sh) = (Ok True, drop_key key a uid vis, sh')"
    using k u by (simp add: remove_proxy_for_key_def drop_key_def sh'_def)
  moreover have "\<forall>w. user_keys (drop_key key a uid vis) w = map_option (filter (\<lambda>k. k \<notin> {key})) (user_keys vis w)"
    using drop_key_user_keys[OF inv k u] by blast
  then have "forgets {key} (vis, sh) (drop_key key a uid vis, sh')"
    using k svc_inv_drop_key[OF inv k u] unfolding forgets_def prod.case by (auto simp: drop_key_def sh'_def)
  ultimately show ?thesis by (auto simp: sh'_def)
qed


lemma forgets_empty: "svc_inv vis \<Longrightarrow> forgets {} (vis, sh) (vis, sh\<lparr>gs_proxy_tasks := ch\<rparr>)"
  by (auto simp: forgets_def option.map_ident_strong)

lemma forgets_trans:
  assumes "forgets J (v1, s1) (v2, s2)" and "forgets K (v2, s2) (v3, s3)"
  shows "forgets (J \<union> K) (v1, s1) (v3, s3)"
  using assms
  by (auto simp: forgets_def option.map_comp comp_def intro!: option.map_cong0 filter_cong)

lemma close_keys_forgets:
  assumes "svc_inv vis" and "receiver_alive (gs_proxy_tasks sh)" and "distinct keys"
    and "\<forall>k \<in> set keys. key_addrs vis k \<noteq> None"
  shows "\<exists>vis' sh'. close_keys keys errors (vis, sh) = (Ok errors, vis', sh') \<and>
    forgets (set keys) (vis, sh) (vis', sh') \<and>
    gs_proxy_tasks sh' = (gs_proxy_tasks sh)\<lparr>queue := queue (gs_proxy_tasks sh) @ map CloseProxy keys\<rparr>"
  using assms
proof (induction keys arbitrary: vis sh)
  case Nil
  then show ?case using forgets_empty[of vis sh "gs_proxy_tasks sh"] by simp
next
  case (Cons key keys)
  define sh1 where "sh1 = sh\<lparr>gs_proxy_tasks := (gs_proxy_tasks sh)\<lparr>queue := queue (gs_proxy_tasks sh) @ [CloseProxy key]\<rparr>\<rparr>"
  from Cons.prems(4) obtain a where a: "key_addrs vis key = Some a" by auto
  from remove_proxy_registered[OF Cons.prems(1) a, of sh1] obtain v2 s2 where
    rm: "remove_proxy_for_key key (vis, sh1) = (Ok True, v2, s2)" "gs_proxy_tasks s2 = gs_proxy_tasks sh1"
      "forgets {key} (vis, sh1) (v2, s2)" by blast
  have i2: "svc_inv v2" and k2: "\<forall>k \<in> set keys. key_addrs v2 k \<noteq> None"
    using rm(3) Cons.prems(3,4) by (auto simp: forgets_def)
  have al: "receiver_alive (gs_proxy_tasks s2)" using Cons.prems(2) by (simp add: rm(2) sh1_def)
  from Cons.IH[OF i2 al _ k2] Cons.prems(3) obtain v3 s3 where
    ih: "close_keys keys errors (v2, s2) = (Ok errors, v3, s3)" "forgets (set keys) (v2, s2) (v3, s3)"
      "gs_proxy_tasks s3 = (gs_proxy_tasks s2)\<lparr>queue := queue (gs_proxy_tasks s2) @ map CloseProxy keys\<rparr>" by auto
  have "close_keys (key # keys) errors (vis, sh) = (Ok errors, v3, s3)"
    using Cons.prems(2) rm(1) ih(1) by (simp add: chan_send_def sh1_def)
  moreover have "forgets (set (key # keys)) (vis, sh) (v3, s3)"
    using forgets_trans[OF rm(3) ih(2)] by (simp add: forgets_def sh1_def)
  moreover have "gs_proxy_tasks s3 = (gs_proxy_tasks sh)\<lparr>queue := queue (gs_proxy_tasks sh) @ map CloseProxy (key # keys)\<rparr>"
    by (simp add: ih(3) rm(2) sh1_def)
  ultimately show ?case by blast
qed

lemma hm_filter_key: "hm_inv m \<Longrightarrow> map snd (filter (\<lambda>(k, _). k = x) m) = (case hm_get m x of Some v \<Rightarrow> [v] | None \<Rightarrow> [])"
proof (induction m)
  case (Cons kv m)
  obtain k v where kv: "kv = (k, v)" by (cases kv)
  have "filter (\<lambda>(k, _). k = x) m = []" if "k = x"
    using Cons.prems kv that by (force simp: hm_inv_def filter_empty_conv)
  with Cons kv show ?case by (auto simp: hm_inv_def hm_get_def)
qed (simp add: hm_get_def)

lemma close_key_lists_forgets:
  assumes "svc_inv vis" and "receiver_alive (gs_proxy_tasks sh)" and "distinct (concat ls)"
    and "\<forall>k \<in> set (concat ls). key_addrs vis k \<noteq> None"
  shows "\<exists>vis' sh'. close_key_lists ls (vis, sh) = (Ok (), vis', sh') \<and> forgets (set (concat ls)) (vis, sh) (vis', sh') \<and>
    receiver_alive (gs_proxy_tasks sh') \<and> queue (gs_proxy_tasks sh') = queue (gs_proxy_tasks sh) @ map CloseProxy (concat ls)"
  using assms
proof (induction ls arbitrary: vis sh)
  case Nil
  then show ?case using forgets_empty[of vis sh "gs_proxy_tasks sh"] by simp
next
  case (Cons keys ls)
  from close_keys_forgets[OF Cons.prems(1,2), of keys "[]"] Cons.prems(3,4) obtain v1 s1 where
    c: "close_keys keys [] (vis, sh) = (Ok [], v1, s1)" "forgets (set keys) (vis, sh) (v1, s1)"
      "gs_proxy_tasks s1 = (gs_proxy_tasks sh)\<lparr>queue := queue (gs_proxy_tasks sh) @ map CloseProxy keys\<rparr>" by auto
  have rest: "\<forall>k \<in> set (concat ls). key_addrs v1 k \<noteq> None" and d: "distinct (concat ls)"
    using forgetsD(3)[OF c(2)] Cons.prems(3,4) by (simp_all del: not_None_eq) blast
  have al: "receiver_alive (gs_proxy_tasks s1)" using Cons.prems(2) by (simp add: c(3))
  from Cons.IH[OF forgetsD(1)[OF c(2)] al d rest] obtain v2 s2 where
    ih: "close_key_lists ls (v1, s1) = (Ok (), v2, s2)" "forgets (set (concat ls)) (v1, s1) (v2, s2)" "receiver_alive (gs_proxy_tasks s2)"
      "queue (gs_proxy_tasks s2) = queue (gs_proxy_tasks s1) @ map CloseProxy (concat ls)" by blast
  from forgets_trans[OF c(2) ih(2)] ih c(1,3) show ?case by simp
qed

text \<open>The keys of one user, and those of all of them.\<close>

definition keys_of :: "svc_visitor \<Rightarrow> u64 \<Rightarrow> string list" where
  "keys_of vis uid = (case user_keys vis uid of Some ks \<Rightarrow> ks | None \<Rightarrow> [])"

definition keys_for :: "svc_visitor \<Rightarrow> u64 option \<Rightarrow> string list" where
  "keys_for vis uo = (case uo of Some uid \<Rightarrow> keys_of vis uid | None \<Rightarrow> concat (map snd (sp_proxy_keys_by_user vis)))"

lemma keys_for_Some [simp]: "keys_for vis (Some uid) = keys_of vis uid"
  by (simp add: keys_for_def)

lemma keys_of_user:
  assumes "svc_inv vis" and "k \<in> set (keys_of vis uid)"
  shows "\<exists>a. key_addrs vis k = Some a \<and> addrs_user vis a = Some uid"
proof (cases "user_keys vis uid")
  case None
  with assms(2) show ?thesis by (simp add: keys_of_def)
next
  case (Some ks)
  with assms(2) have "k \<in> set ks" by (simp add: keys_of_def)
  with svc_invD(2)[OF assms(1) Some] show ?thesis by blast
qed

lemma keys_for_None:
  assumes "svc_inv vis"
  shows "k \<in> set (keys_for vis None) \<longleftrightarrow> (\<exists>uid. k \<in> set (keys_of vis uid))"
  using svc_invD(5)[OF assms] by (force simp: keys_for_def keys_of_def hm_get_def hm_inv_def split: option.splits dest: map_of_SomeD)

lemma keys_for_registered: "svc_inv vis \<Longrightarrow> k \<in> set (keys_for vis uo) \<Longrightarrow> key_addrs vis k \<noteq> None"
  using keys_of_user keys_for_None by (cases uo) fastforce+

lemma distinct_lists:
  assumes "hm_inv m" and "\<And>u ks. (u, ks) \<in> set m \<Longrightarrow> distinct ks"
    and "\<And>u ks u' ks' k. (u, ks) \<in> set m \<Longrightarrow> (u', ks') \<in> set m \<Longrightarrow> k \<in> set ks \<Longrightarrow> k \<in> set ks' \<Longrightarrow> u = u'"
  shows "distinct (concat (map snd m))"
  using assms
proof (induction m)
  case (Cons e m)
  obtain u ks where e: "e = (u, ks)" by (cases e)
  have "distinct (concat (map snd m))"
    using Cons.prems(1,2) Cons.prems(3)[OF list.set_intros(2) list.set_intros(2)] by (intro Cons.IH) (auto simp: hm_inv_def)
  moreover have "k \<notin> set ks'" if "k \<in> set ks" "(u', ks') \<in> set m" for k u' ks'
    using Cons.prems(1) Cons.prems(3)[of u ks u' ks' k] that e by (force simp: hm_inv_def)
  ultimately show ?case using Cons.prems(2)[of u ks] e by fastforce
qed simp

lemma keys_for_distinct:
  assumes "svc_inv vis"
  shows "distinct (keys_for vis uo)"
proof (cases uo)
  case None
  have get: "user_keys vis u = Some ks" if "(u, ks) \<in> set (sp_proxy_keys_by_user vis)" for u ks
    using svc_invD(5)[OF assms] that by (simp add: hm_get_def hm_inv_def)
  show ?thesis unfolding keys_for_def None option.case
  proof (rule distinct_lists[OF svc_invD(5)[OF assms]])
    fix u ks u' ks' k
    assume "(u, ks) \<in> set (sp_proxy_keys_by_user vis)" "(u', ks') \<in> set (sp_proxy_keys_by_user vis)" "k \<in> set ks" "k \<in> set ks'"
    then show "u = u'" using svc_invD(2)[OF assms get[of u ks]] svc_invD(2)[OF assms get[of u' ks']] by fastforce
  qed (use get svc_invD(4)[OF assms] in blast)
next
  case (Some uid)
  then show ?thesis using svc_invD(4)[OF assms] by (auto simp: keys_of_def split: option.splits)
qed

lemma keys_for_lists:
  assumes "svc_inv vis"
  shows "concat (map snd (filter (\<lambda>(uid, _). uo = None \<or> uid = the uo) (sp_proxy_keys_by_user vis))) = keys_for vis uo"
  using hm_filter_key[OF svc_invD(5)[OF assms], of "the uo"]
  by (cases uo) (simp_all add: keys_for_def keys_of_def split: option.splits)

lemma shutdown_forgets:
  assumes "svc_inv vis" and "receiver_alive (gs_proxy_tasks sh)"
  shows "\<exists>vis' sh'. gsp_shutdown_connections uo (vis, sh) = (Ok (), vis', sh') \<and>
    forgets (set (keys_for vis uo)) (vis, sh) (vis', sh') \<and> receiver_alive (gs_proxy_tasks sh') \<and>
    queue (gs_proxy_tasks sh') = queue (gs_proxy_tasks sh) @ map CloseProxy (keys_for vis uo)"
  using close_key_lists_forgets[OF assms, of "map snd (filter (\<lambda>(uid, _). uo = None \<or> uid = the uo) (sp_proxy_keys_by_user vis))"]
    keys_for_distinct[OF assms(1), of uo] keys_for_registered[OF assms(1)]
  unfolding keys_for_lists[OF assms(1)] by (simp add: svc_shutdown_connections_def)


text \<open>
  Shutting down a user's connections to a service never panics and reports success while the
  executor lives; it queues one close task for each of the user's registered proxies, in order, and
  forgets exactly these: their keys, address pairs and service entries are gone, everything of the
  other users is unchanged, and the maps still agree.
\<close>

theorem shutdown_user_connections:
  assumes "svc_inv vis" and "receiver_alive (gs_proxy_tasks sh)"
  shows "\<exists>vis' sh'. gsp_shutdown_connections (Some uid) (vis, sh) = (Ok (), vis', sh') \<and>
    (let keys = (case user_keys vis uid of Some ks \<Rightarrow> ks | None \<Rightarrow> []) in
       forgets (set keys) (vis, sh) (vis', sh') \<and>
       queue (gs_proxy_tasks sh') = queue (gs_proxy_tasks sh) @ map CloseProxy keys)"
  unfolding Let_def using shutdown_forgets[OF assms, of "Some uid", unfolded keys_for_Some keys_of_def] by blast

definition demo_svc_visitor :: svc_visitor where
  "demo_svc_visitor = \<lparr>sp_service = new_service 203 ''echo'' TCP ''host'' 8203, sp_proxy_host = Some ''gw'', sp_proxy_port = 8500,
     sp_users_by_proxy_addrs = [((''c1'', ''g''), 100), ((''c2'', ''g''), 102)],
     sp_proxy_addrs_by_proxy_key = [(''k1'', (''c1'', ''g'')), (''k2'', (''c2'', ''g''))],
     sp_proxy_keys_by_user = [(100, [''k1'']), (102, [''k2''])]\<rparr>"

definition demo_shared :: gw_shared where
  "demo_shared = \<lparr>gs_services_by_proxy_key = [(''k1'', 203), (''k2'', 203)], gs_proxy_tasks = new_chan\<rparr>"

lemma demo_svc_visitor_inv: "svc_inv demo_svc_visitor"
  by (auto simp: svc_inv_def demo_svc_visitor_def hm_inv_def hm_get_def split: if_splits)

theorem shutdown_user_connections_witness:
  "svc_inv demo_svc_visitor \<and> receiver_alive (gs_proxy_tasks demo_shared) \<and>
   (\<exists>vis' sh'. gsp_shutdown_connections (Some 100) (demo_svc_visitor, demo_shared) = (Ok (), vis', sh') \<and>
      queue (gs_proxy_tasks sh') = [CloseProxy ''k1''] \<and> key_addrs vis' ''k1'' = None \<and>
      key_addrs vis' ''k2'' = Some (''c2'', ''g''))"
proof -
  have a: "receiver_alive (gs_proxy_tasks demo_shared)" by (simp add: demo_shared_def new_chan_def)
  from shutdown_user_connections[OF demo_svc_visitor_inv a, of 100] demo_svc_visitor_inv a show ?thesis
    by (auto simp: demo_svc_visitor_def demo_shared_def new_chan_def hm_get_def forgets_def Let_def)
qed

section \<open>Registration\<close>

definition addrs_free :: "svc_visitor \<Rightarrow> proxy_addrs \<Rightarrow> bool" where
  "addrs_free vis a \<longleftrightarrow> (\<forall>k. key_addrs vis k \<noteq> Some a)"

lemma create_client_conn_Ok:
  assumes "svc_create_client_conn L cfg t vis = (Ok c, vis')"
  shows "\<exists>alpn cv u. process_authorization L cfg t (Some (sv_service_id (sp_service vis))) (client_visitor_new cfg) = (Ok alpn, cv) \<and>
    cv_user cv = Some u \<and> cn_stream c = t \<and> cn_alpn c = Some alpn \<and>
    vis' = vis\<lparr>sp_users_by_proxy_addrs := hm_insert (create_proxy_addrs t) (u_user_id u) (sp_users_by_proxy_addrs vis)\<rparr>"
  using assms
  by (auto simp: svc_create_client_conn_def unwrap_opt_def conn_new_base
      split: prod.splits res.splits option.splits)

lemma svc_inv_create [t0_inv]:
  assumes "svc_inv vis" and "addrs_free vis (create_proxy_addrs t)" and "svc_create_client_conn L cfg t vis = (r, vis')"
  shows "svc_inv vis'"
proof -
  consider "vis' = vis" | uid where "vis' = vis\<lparr>sp_users_by_proxy_addrs := hm_insert (create_proxy_addrs t) uid (sp_users_by_proxy_addrs vis)\<rparr>"
    using assms(3) by (auto simp: svc_create_client_conn_def split: prod.splits res.splits)
  then show ?thesis
  proof cases
    case 2
    show ?thesis unfolding svc_inv_def
    proof (intro conjI allI impI)
      show "hm_inv (sp_users_by_proxy_addrs vis')" "hm_inv (sp_proxy_keys_by_user vis')"
        using assms(1) 2 by (simp_all add: svc_inv_def)
    next
      fix k a assume "key_addrs vis' k = Some a"
      then show "\<exists>w ks. addrs_user vis' a = Some w \<and> user_keys vis' w = Some ks \<and> k \<in> set ks"
        using svc_invD(1)[OF assms(1), of k a] assms(2) 2 by (auto simp: addrs_free_def)
    next
      fix w ks k assume "user_keys vis' w = Some ks \<and> k \<in> set ks"
      then obtain a where "key_addrs vis k = Some a" "addrs_user vis a = Some w"
        using svc_invD(2)[OF assms(1), of w ks k] 2 by auto
      then show "\<exists>a. key_addrs vis' k = Some a \<and> addrs_user vis' a = Some w"
        using assms(2) 2 by (auto simp: addrs_free_def)
    next
      fix k k' a assume "key_addrs vis' k = Some a \<and> key_addrs vis' k' = Some a"
      then show "k = k'" using svc_invD(3)[OF assms(1)] 2 by simp
    next
      fix w ks assume "user_keys vis' w = Some ks"
      then show "distinct ks" using svc_invD(4)[OF assms(1)] 2 by simp
    qed
  qed (simp add: assms(1))
qed

lemma svc_inv_register [t0_inv]:
  assumes "svc_inv vis" and "addrs_free vis a" and "key_addrs vis key = None" and "register_proxy key a (vis, sh) = (r, vis', sh')"
  shows "svc_inv vis'"
proof (cases "addrs_user vis a")
  case None
  with assms(1,4) show ?thesis by (simp add: register_proxy_def)
next
  case (Some uid)
  let ?ks = "case user_keys vis uid of Some keys \<Rightarrow> keys @ [key] | None \<Rightarrow> [key]"
  from Some assms(4) have v: "vis' = vis\<lparr>sp_proxy_addrs_by_proxy_key := hm_insert key a (sp_proxy_addrs_by_proxy_key vis),
      sp_proxy_keys_by_user := hm_insert uid ?ks (sp_proxy_keys_by_user vis)\<rparr>"
    by (simp add: register_proxy_def)
  have new: "key \<notin> set ks" if "user_keys vis w = Some ks" for w ks
    using svc_invD(2)[OF assms(1) that, of key] assms(3) by auto
  show ?thesis unfolding svc_inv_def
  proof (intro conjI allI impI)
    show "hm_inv (sp_users_by_proxy_addrs vis')" "hm_inv (sp_proxy_keys_by_user vis')"
      using assms(1) v by (simp_all add: svc_inv_def)
  next
    fix k b assume k: "key_addrs vis' k = Some b"
    show "\<exists>w ks. addrs_user vis' b = Some w \<and> user_keys vis' w = Some ks \<and> k \<in> set ks"
    proof (cases "k = key")
      case True
      with k v Some show ?thesis by (auto split: option.splits)
    next
      case False
      with k v have "key_addrs vis k = Some b" by simp
      from svc_invD(1)[OF assms(1) this] v show ?thesis by fastforce
    qed
  next
    fix w ks k assume k: "user_keys vis' w = Some ks \<and> k \<in> set ks"
    show "\<exists>b. key_addrs vis' k = Some b \<and> addrs_user vis' b = Some w"
    proof (cases "w = uid \<and> k = key")
      case True
      with v Some show ?thesis by simp
    next
      case False
      then have "\<exists>ks0. user_keys vis w = Some ks0 \<and> k \<in> set ks0 \<and> k \<noteq> key"
        using k v new by (fastforce split: if_splits option.splits)
      then show ?thesis using svc_invD(2)[OF assms(1), of w _ k] v by auto
    qed
  next
    fix k k' b assume "key_addrs vis' k = Some b \<and> key_addrs vis' k' = Some b"
    then show "k = k'" using svc_invD(3)[OF assms(1)] assms(2) v by (auto simp: addrs_free_def split: if_splits)
  next
    fix w ks assume "user_keys vis' w = Some ks"
    then show "distinct ks" using svc_invD(4)[OF assms(1)] v new by (auto split: if_splits option.splits)
  qed
qed


text \<open>The two halves of \<open>on_conn_accepted\<close> together.\<close>

lemma tcp_on_conn_accepted_eq:
  "tcp_on_conn_accepted N connection st =
     (let svc = sp_service (fst st); tls = cn_stream connection in
      case and_then (resolve_host N svc) (\<lambda>addrs. connect_tcp_service N (sv_port svc) addrs None) of
        Err e \<Rightarrow> (Err e, st)
      | Panic m \<Rightarrow> (Panic m, st)
      | Ok (None, err) \<Rightarrow> (Err (no_endpoint svc err), st)
      | Ok (Some service_stream, _) \<Rightarrow>
          (let key = proxy_key_value TcpAndTcp (st_peer_addr tls) (st_peer_addr service_stream) in
           sop_bind (sop_lift (map_err (GenWithMsgAndErr (''Unable to clone client service proxy stream: client_stream='' @ st_debug tls))
                      (case st_clone_err tls of Some e \<Rightarrow> Inl e | None \<Rightarrow> Inr ())))
             (\<lambda>_. sop_bind (sop_lift (map_err (GenWithMsgAndErr (''Unable to clone service stream: service_stream='' @ st_debug service_stream))
                      (case st_clone_err service_stream of Some e \<Rightarrow> Inl e | None \<Rightarrow> Inr ())))
             (\<lambda>_. sop_bind (send_open_task (OpenTcpAndTcpProxy key (net_stream.truncate tls) service_stream))
             (\<lambda>_. register_proxy key (create_proxy_addrs tls)))) st))"
  by (auto simp: tcp_on_conn_accepted_def tcp_open_proxy_def sop_bind_def sop_lift_def Let_def split: res.splits prod.splits option.splits)

lemma udp_on_conn_accepted_eq:
  "udp_on_conn_accepted N cfg connection st =
     (let svc = sp_service (fst st); tls = cn_stream connection; reply_host = cfg_gateway_service_reply_host cfg in
      case and_then (resolve_host N svc) (\<lambda>addrs.
             and_then (map_err (GenWithMsgAndErr (''Error binding service reply UDP socket: reply_host='' @ reply_host))
                        (udp_bind N (reply_host @ '':0''))) (\<lambda>udp_socket.
             and_then (connect_udp_service N udp_socket (sv_port svc) addrs None) (\<lambda>r. Ok (udp_socket, r)))) of
        Err e \<Rightarrow> (Err e, st)
      | Panic m \<Rightarrow> (Panic m, st)
      | Ok (_, None, err) \<Rightarrow> (Err (no_endpoint svc err), st)
      | Ok (udp_socket, Some service_addr, _) \<Rightarrow>
          (let key = proxy_key_value TcpAndUdp (us_local_addr udp_socket) (Some service_addr) in
           sop_bind (sop_lift (map_err (GenWithMsgAndErr (''Unable to clone client service proxy stream: client_stream='' @ st_debug tls))
                      (case st_clone_err tls of Some e \<Rightarrow> Inl e | None \<Rightarrow> Inr ())))
             (\<lambda>_. sop_bind (send_open_task (OpenTcpAndUdpProxy key (net_stream.truncate tls) udp_socket))
             (\<lambda>_. register_proxy key (create_proxy_addrs tls))) st))"
  by (auto simp: udp_on_conn_accepted_def udp_open_proxy_def sop_bind_def sop_lift_def Let_def split: res.splits prod.splits option.splits)

lemma gsp_on_conn_accepted_phases:
  "gsp_on_conn_accepted N cfg c = sop_bind (gsp_open_proxy N cfg c) (\<lambda>key. register_proxy key (create_proxy_addrs (cn_stream c)))"
  by (intro ext, rename_tac st, case_tac "sv_transport (sp_service (fst st))")
    (simp_all add: gsp_on_conn_accepted_def gsp_open_proxy_def tcp_on_conn_accepted_def udp_on_conn_accepted_def sop_bind_def)

lemma lift_accept:
  "sop_bind (sop_lift r) f st = (case r of Ok x \<Rightarrow> f x st | Err e \<Rightarrow> (Err e, st) | Panic m \<Rightarrow> (Panic m, st))"
  by (cases r) (simp_all add: sop_bind_def sop_lift_def)

lemma connect_tcp_no_panic: "connect_tcp_service N port as err \<noteq> Panic m"
  by (induction N port as err rule: connect_tcp_service.induct) (auto split: sum.splits option.splits)

lemma connect_udp_no_panic: "connect_udp_service N sock port as err \<noteq> Panic m"
  by (induction N sock port as err rule: connect_udp_service.induct) (auto split: option.splits)

text \<open>
  The first half of \<open>on_conn_accepted\<close> either fails and leaves everything as it was, or hands over the task
  that opens a proxy and gives its key.
\<close>

definition enqueued :: "proxy_task \<Rightarrow> gw_shared \<Rightarrow> gw_shared" where
  "enqueued task sh = sh\<lparr>gs_proxy_tasks := (gs_proxy_tasks sh)\<lparr>queue := queue (gs_proxy_tasks sh) @ [task]\<rparr>\<rparr>"

abbreviation open_outcome :: "svc_state \<Rightarrow> string res \<times> svc_state \<Rightarrow> bool" where
  "open_outcome st out \<equiv> (snd out = st \<and> (\<exists>e. fst out = Err e)) \<or>
    (\<exists>task. receiver_alive (gs_proxy_tasks (snd st)) \<and> (\<forall>k. task \<noteq> CloseProxy k) \<and> out = (Ok (task_key task), fst st, enqueued task (snd st)))"

lemma open_outcome_send:
  assumes "(snd out = st \<and> (\<exists>e. fst out = Err e)) \<or> sop_bind (send_open_task task) (\<lambda>_. sop_lift (Ok (task_key task))) st = out"
    and "\<forall>k. task \<noteq> CloseProxy k"
  shows "open_outcome st out"
  using assms
  by (cases st; cases out) (auto simp: sop_bind_def sop_lift_def send_open_task_def chan_send_def enqueued_def split: if_splits)

lemma tcp_open_cases:
  assumes "tcp_open_proxy N c st = out"
  shows "open_outcome st out"
proof (cases "and_then (resolve_host N (sp_service (fst st))) (\<lambda>as. connect_tcp_service N (sv_port (sp_service (fst st))) as None)")
  case (Err e)
  with assms show ?thesis by (auto simp: tcp_open_proxy_def Let_def)
next
  case (Panic m)
  then show ?thesis by (auto simp: res_simps resolve_host_def connect_tcp_no_panic)
next
  case (Ok so)
  obtain so1 err where so: "so = (so1, err)" by (cases so)
  show ?thesis
  proof (cases so1)
    case None
    with Ok so assms show ?thesis by (auto simp: tcp_open_proxy_def Let_def)
  next
    case (Some ss)
    show ?thesis
      by (rule open_outcome_send[where task = "OpenTcpAndTcpProxy (proxy_key_value TcpAndTcp (st_peer_addr (cn_stream c)) (st_peer_addr ss))
          (net_stream.truncate (cn_stream c)) ss"])
        (use Ok so Some assms in \<open>auto simp: tcp_open_proxy_def Let_def lift_accept split: option.splits\<close>)
  qed
qed

lemma udp_open_cases:
  assumes "udp_open_proxy N cfg c st = out"
  shows "open_outcome st out"
proof (cases "and_then (resolve_host N (sp_service (fst st))) (\<lambda>addrs.
    and_then (map_err (GenWithMsgAndErr (''Error binding service reply UDP socket: reply_host='' @ cfg_gateway_service_reply_host cfg))
               (udp_bind N (cfg_gateway_service_reply_host cfg @ '':0''))) (\<lambda>udp_socket.
    and_then (connect_udp_service N udp_socket (sv_port (sp_service (fst st))) addrs None) (\<lambda>r. Ok (udp_socket, r))))")
  case (Err e)
  with assms show ?thesis by (auto simp: udp_open_proxy_def Let_def)
next
  case (Panic m)
  then show ?thesis by (auto simp: res_simps resolve_host_def connect_udp_no_panic)
next
  case (Ok so)
  obtain us so1 err where so: "so = (us, so1, err)" by (cases so)
  show ?thesis
  proof (cases so1)
    case None
    with Ok so assms show ?thesis by (auto simp: udp_open_proxy_def Let_def)
  next
    case (Some sa)
    show ?thesis
      by (rule open_outcome_send[where task = "OpenTcpAndUdpProxy (proxy_key_value TcpAndUdp (us_local_addr us) (Some sa))
          (net_stream.truncate (cn_stream c)) us"])
        (use Ok so Some assms in \<open>auto simp: udp_open_proxy_def Let_def lift_accept split: option.splits\<close>)
  qed
qed

lemma open_cases:
  assumes "gsp_open_proxy N cfg c (vis, sh) = (r, vis', sh')"
  shows "(vis' = vis \<and> sh' = sh \<and> (\<exists>e. r = Err e)) \<or>
    (\<exists>task. receiver_alive (gs_proxy_tasks sh) \<and> (\<forall>k. task \<noteq> CloseProxy k) \<and> r = Ok (task_key task) \<and> vis' = vis \<and> sh' = enqueued task sh)"
  using assms tcp_open_cases[of N c "(vis, sh)"] udp_open_cases[of N cfg c "(vis, sh)"]
  by (cases "sv_transport (sp_service vis)") (auto simp: gsp_open_proxy_def)

text \<open>An accepted connection either leaves everything as it was, or leads to a task and its registration.\<close>

lemma accept_cases:
  assumes "gsp_on_conn_accepted N cfg c (vis, sh) = (r, vis', sh')"
  shows "(vis' = vis \<and> sh' = sh \<and> (\<exists>e. r = Err e)) \<or>
    (\<exists>task. receiver_alive (gs_proxy_tasks sh) \<and> (\<forall>k. task \<noteq> CloseProxy k) \<and>
      register_proxy (task_key task) (create_proxy_addrs (cn_stream c))
       (vis, sh\<lparr>gs_proxy_tasks := (gs_proxy_tasks sh)\<lparr>queue := queue (gs_proxy_tasks sh) @ [task]\<rparr>\<rparr>) = (r, vis', sh'))"
proof -
  obtain ro v1 s1 where o: "gsp_open_proxy N cfg c (vis, sh) = (ro, v1, s1)" by (metis prod.exhaust)
  from open_cases[OF o] o assms show ?thesis by (auto simp: gsp_on_conn_accepted_phases sop_bind_def enqueued_def)
qed

text \<open>
  when a connection is authorized but the service's host name cannot be resolved, the address
  pair entered for its user stays: the user is still listed with that connection, no proxy belongs
  to it, and shutting down the user's connections succeeds without removing it.
\<close>

theorem failed_accept_leaves_connection_listed:
  assumes "svc_inv vis" and "addrs_free vis (create_proxy_addrs t)" and "receiver_alive (gs_proxy_tasks sh)"
    and "gsp_create_client_conn L cfg t vis = (Ok c, vis1)" and "query_addrs N (sv_host (sp_service vis)) = Inl err"
  shows "\<exists>e uid. gsp_on_conn_accepted N cfg c (vis1, sh) = (Err e, vis1, sh) \<and>
    create_proxy_addrs t \<in> set (get_proxy_addrs_for_user vis1 uid) \<and>
    (\<exists>vis2 sh2. gsp_shutdown_connections (Some uid) (vis1, sh) = (Ok (), vis2, sh2) \<and>
      create_proxy_addrs t \<in> set (get_proxy_addrs_for_user vis2 uid))"
proof -
  have cc: "svc_create_client_conn L cfg t vis = (Ok c, vis1)" using assms(4) by simp
  from create_client_conn_Ok[OF cc] obtain u :: user where
    v1: "vis1 = vis\<lparr>sp_users_by_proxy_addrs := hm_insert (create_proxy_addrs t) (u_user_id u) (sp_users_by_proxy_addrs vis)\<rparr>"
    by blast
  have i1: "svc_inv vis1" using svc_inv_create[OF assms(1,2)] assms(4) by simp
  have listed: "a \<in> set (get_proxy_addrs_for_user w uid)" if "addrs_user w a = Some uid" for w a uid
    using hm_get_set[OF that] by (force simp: get_proxy_addrs_for_user_def)
  let ?keys = "case user_keys vis1 (u_user_id u) of Some ks \<Rightarrow> ks | None \<Rightarrow> []"
  obtain vis2 sh2 where s: "gsp_shutdown_connections (Some (u_user_id u)) (vis1, sh) = (Ok (), vis2, sh2)"
    "forgets (set ?keys) (vis1, sh) (vis2, sh2)"
  proof -
    have "\<exists>vis2 sh2. gsp_shutdown_connections (Some (u_user_id u)) (vis1, sh) = (Ok (), vis2, sh2) \<and>
        forgets (set ?keys) (vis1, sh) (vis2, sh2)"
      using shutdown_forgets[OF i1 assms(3), of "Some (u_user_id u)", unfolded keys_for_Some keys_of_def] by blast
    then show ?thesis using that by blast
  qed
  have u1: "addrs_user vis1 (create_proxy_addrs t) = Some (u_user_id u)" by (simp add: v1)
  have u2: "addrs_user vis2 (create_proxy_addrs t) = Some (u_user_id u)"
    using forgetsD(4)[OF s(2), of "create_proxy_addrs t"] assms(2) by (simp add: v1 addrs_free_def)
  have "\<exists>e. gsp_on_conn_accepted N cfg c (vis1, sh) = (Err e, vis1, sh)"
    using assms(5) by (cases "sv_transport (sp_service vis)")
      (simp_all add: gsp_on_conn_accepted_def tcp_on_conn_accepted_eq udp_on_conn_accepted_eq resolve_host_def v1 Let_def)
  then show ?thesis using s(1) listed[OF u1] listed[OF u2] by blast
qed


definition demo_service :: service where
  "demo_service = new_service 203 ''echo'' TCP ''host'' 8203"

definition demo_net :: net_env where
  "demo_net = \<lparr>query_addrs = (\<lambda>h. if h = ''host'' then Inl send_error else Inr [V4 ''10.0.0.9'']),
     tcp_connect = (\<lambda>a. Inr (demo_stream\<lparr>st_peer_addr := Some a\<rparr>)),
     udp_bind = (\<lambda>_. Inl send_error), udp_connect = (\<lambda>_ _. None),
     tcp_set_nonblocking = (\<lambda>_. None), udp_set_nonblocking = (\<lambda>_. None)\<rparr>"

lemma demo_authorized:
  "process_authorization demo_gw_lib demo_config (demo_tls 100) (Some 203) (client_visitor_new demo_config) =
     (Ok (Service 203), (client_visitor_new demo_config)\<lparr>cv_device := Some (demo_device 100), cv_user := Some (new_user 100 ''ann'' Active)\<rparr>)"
  unfolding process_authorization_Ok authorize_service_Ok
  by (intro exI[of _ "demo_device 100"] exI[of _ "new_user 100 ''ann'' Active"] conjI demo_authorize_device)
     (simp_all add: authorize_user_def demo_device_def user_get_def access_get_def repo_defs demo_config_def
       hm_get_def new_user_def new_access_def demo_gw_lib_def demo_tls_def)

lemma demo_created:
  "\<exists>c vis1. svc_create_client_conn demo_gw_lib demo_config (demo_tls 100) (svc_visitor_new demo_service (Some ''gw'') 8500) = (Ok c, vis1)"
proof -
  have "sv_service_id demo_service = 203" by (simp add: demo_service_def new_service_def)
  moreover have "\<exists>c. fst (conn_new (client_conn_base demo_config) cv (demo_tls 100) a ()) = Ok c" for cv a
  proof -
    obtain cp where "control_plane_new demo_config (case cv_device cv of Some d \<Rightarrow> d | None \<Rightarrow> default_device)
        (case cv_user cv of Some u \<Rightarrow> u | None \<Rightarrow> default_user) = Ok cp"
      by (simp add: control_plane_new_def setup_services_maps_def service_get_all_def repo_defs demo_config_def)
    then show ?thesis
      by (simp add: conn_new_def client_conn_base_def cv_set_event_channel_sender_def default_handler_def)
  qed
  ultimately show ?thesis
    by (simp add: svc_create_client_conn_def svc_visitor_new_def demo_authorized)
qed

theorem failed_accept_leaves_connection_listed_witness:
  "\<exists>c vis1 e uid. gsp_create_client_conn demo_gw_lib demo_config (demo_tls 100) (svc_visitor_new demo_service (Some ''gw'') 8500) = (Ok c, vis1) \<and>
    gsp_on_conn_accepted demo_net demo_config c (vis1, demo_shared) = (Err e, vis1, demo_shared) \<and>
    create_proxy_addrs (demo_tls 100) \<in> set (get_proxy_addrs_for_user vis1 uid)"
proof -
  let ?vis = "svc_visitor_new demo_service (Some ''gw'') 8500"
  obtain c vis1 where c: "gsp_create_client_conn demo_gw_lib demo_config (demo_tls 100) ?vis = (Ok c, vis1)"
    using demo_created by auto
  have f: "addrs_free ?vis (create_proxy_addrs (demo_tls 100))" by (simp add: addrs_free_def svc_visitor_new_def)
  have a: "receiver_alive (gs_proxy_tasks demo_shared)" by (simp add: demo_shared_def new_chan_def)
  have q: "query_addrs demo_net (sv_host (sp_service ?vis)) = Inl send_error"
    by (simp add: demo_net_def svc_visitor_new_def demo_service_def new_service_def)
  from failed_accept_leaves_connection_listed[OF svc_inv_new f a c q] c show ?thesis by blast
qed

end
