(* ===== verification/T0_Gw_Manager.thy ===== *)
theory T0_Gw_Manager
  imports T0_Gw_Proxy
begin

text \<open>
  \<open>crates/gateway/src/service/manager.rs\<close>: the manager of the service proxies.  It starts at most one
  proxy per service, hands out the ports, finds a proxy by service or by proxy key, and closes
  connections.  Overflow of the 16 bit port counter panics or wraps depending on how the program is
  built; the flag \<open>chk\<close> is the build's \<open>overflow-checks\<close> setting.
\<close>

definition DEFAULT_SERVICE_PORT_START :: u16 where "DEFAULT_SERVICE_PORT_START = 8200"
definition DEFAULT_SERVICE_PORT_END :: u16 where "DEFAULT_SERVICE_PORT_END = 8250"

text \<open>
  A started proxy object is its transport and port, a listener thread the port it listens on.
\<close>

record gw_mgr =
  gm_service_proxies :: "(u64, transport \<times> u16) hashmap"
  gm_service_proxy_visitors :: "(u64, svc_visitor) hashmap"
  gm_service_proxy_threads :: "(u64, u16) hashmap"
  gm_service_ports :: "(u64, u16) hashmap"
  gm_shared_service_port :: "u16 option"
  gm_next_service_port :: u16
  gm_last_service_port :: u16
  gm_shared :: gw_shared

definition gw_mgr_new :: "app_config \<Rightarrow> proxy_task chan \<Rightarrow> gw_mgr" where
  "gw_mgr_new cfg tasks =
     (let (next, last, shared) =
        (case cfg_gateway_service_ports cfg of
           Some (port_start, port_end) \<Rightarrow> (port_start, port_end, None)
         | None \<Rightarrow> (DEFAULT_SERVICE_PORT_START, DEFAULT_SERVICE_PORT_END, Some (cfg_server_port cfg)))
      in \<lparr>gm_service_proxies = [], gm_service_proxy_visitors = [], gm_service_proxy_threads = [], gm_service_ports = [],
          gm_shared_service_port = shared, gm_next_service_port = next, gm_last_service_port = last,
          gm_shared = \<lparr>gs_services_by_proxy_key = [], gs_proxy_tasks = tasks\<rparr>\<rparr>)"

section \<open>Lookups\<close>

definition get_service_id_by_proxy_key :: "gw_mgr \<Rightarrow> string \<Rightarrow> u64 option" where
  "get_service_id_by_proxy_key mgr key = hm_get (gs_services_by_proxy_key (gm_shared mgr)) key"

definition get_service_proxies :: "gw_mgr \<Rightarrow> svc_visitor list" where
  "get_service_proxies mgr = hm_values (gm_service_proxy_visitors mgr)"

definition get_service_proxy :: "gw_mgr \<Rightarrow> u64 \<Rightarrow> svc_visitor option" where
  "get_service_proxy mgr sid = hm_get (gm_service_proxy_visitors mgr) sid"

definition has_proxy_for_user_and_service :: "gw_mgr \<Rightarrow> u64 \<Rightarrow> u64 \<Rightarrow> bool" where
  "has_proxy_for_user_and_service mgr uid sid =
     (case hm_get (gm_service_proxy_visitors mgr) sid of
        Some vis \<Rightarrow> get_proxy_addrs_for_user vis uid \<noteq> []
      | None \<Rightarrow> False)"

section \<open>Starting a proxy\<close>

definition allocate_port :: "bool \<Rightarrow> (gw_mgr, u16) sop" where
  "allocate_port chk mgr =
     (case gm_shared_service_port mgr of
        Some port \<Rightarrow> (Ok port, mgr)
      | None \<Rightarrow>
          if gm_next_service_port mgr > gm_last_service_port mgr
          then (Err (General ''Service ports exhausted, please extend range''), mgr)
          else if chk \<and> gm_next_service_port mgr = - 1 then (Panic ''attempt to add with overflow'', mgr)
          else (let next = gm_next_service_port mgr + 1 in (Ok (next - 1), mgr\<lparr>gm_next_service_port := next\<rparr>)))"

definition mgr_startup :: "bool \<Rightarrow> app_config \<Rightarrow> service \<Rightarrow> (gw_mgr, string option \<times> u16) sop" where
  "mgr_startup chk cfg svc mgr =
     (case hm_get (gm_service_ports mgr) (sv_service_id svc) of
        Some port \<Rightarrow> (Ok (cfg_gateway_service_host cfg, port), mgr)
      | None \<Rightarrow>
          (case allocate_port chk mgr of
             (Err e, mgr') \<Rightarrow> (Err e, mgr')
           | (Panic m, mgr') \<Rightarrow> (Panic m, mgr')
           | (Ok port, mgr') \<Rightarrow>
               (let sid = sv_service_id svc;
                    vis = svc_visitor_new svc (cfg_gateway_service_host cfg) port in
                (Ok (cfg_gateway_service_host cfg, port),
                 mgr'\<lparr>gm_service_ports := hm_insert sid port (gm_service_ports mgr'),
                      gm_service_proxies := hm_insert sid (sv_transport svc, port) (gm_service_proxies mgr'),
                      gm_service_proxy_visitors := hm_insert sid vis (gm_service_proxy_visitors mgr'),
                      gm_service_proxy_threads :=
                        (if gm_shared_service_port mgr' = None
                         then hm_insert sid port (gm_service_proxy_threads mgr')
                         else gm_service_proxy_threads mgr')\<rparr>))))"

section \<open>Closing connections\<close>

fun shutdown_visitors :: "u64 option \<Rightarrow> u64 option \<Rightarrow> (u64, svc_visitor) hashmap \<Rightarrow> gw_shared \<Rightarrow> string list \<Rightarrow>
    string list res \<times> (u64, svc_visitor) hashmap \<times> gw_shared" where
  "shutdown_visitors uid sid [] sh errors = (Ok errors, [], sh)"
| "shutdown_visitors uid sid ((vid, vis) # rest) sh errors =
     (if sid = None \<or> vid = the sid then
        (case gsp_shutdown_connections uid (vis, sh) of
           (Panic m, vis', sh') \<Rightarrow> (Panic m, (vid, vis') # rest, sh')
         | (r, vis', sh') \<Rightarrow>
             (let errors' = (case r of
                  Err e \<Rightarrow> errors @ [''Failed shutting down service proxy connection: svc_id='' @ show_u64 vid @
                    '', user_id='' @ debug_opt show_u64 uid @ '', err='' @ err_debug e]
                | _ \<Rightarrow> errors) in
              case shutdown_visitors uid sid rest sh' errors' of (r', rest', sh'') \<Rightarrow> (r', (vid, vis') # rest', sh'')))
      else case shutdown_visitors uid sid rest sh errors of (r', rest', sh'') \<Rightarrow> (r', (vid, vis) # rest', sh''))"

definition mgr_shutdown_connections :: "u64 option \<Rightarrow> u64 option \<Rightarrow> (gw_mgr, unit) sop" where
  "mgr_shutdown_connections uid sid mgr =
     (case shutdown_visitors uid sid (gm_service_proxy_visitors mgr) (gm_shared mgr) [] of
        (r, visitors, sh) \<Rightarrow>
          (let mgr' = mgr\<lparr>gm_service_proxy_visitors := visitors, gm_shared := sh\<rparr> in
           case r of
             Ok errors \<Rightarrow>
               if errors \<noteq> [] then (Err (General (''Error shutting down services: user_id='' @ debug_opt show_u64 uid @
                 '', err(s)='' @ join_strs '','' errors)), mgr')
               else (Ok (), mgr')
           | Err e \<Rightarrow> (Err e, mgr')
           | Panic m \<Rightarrow> (Panic m, mgr')))"

definition on_closed_proxy :: "string \<Rightarrow> (gw_mgr, unit) sop" where
  "on_closed_proxy key mgr =
     (let sid = (case get_service_id_by_proxy_key mgr key of Some s \<Rightarrow> s | None \<Rightarrow> - 1) in
      case get_service_proxy mgr sid of
        None \<Rightarrow> (Ok (), mgr)
      | Some vis \<Rightarrow>
          (case gsp_remove_proxy_for_key key (vis, gm_shared mgr) of
             (r, vis', sh') \<Rightarrow>
               (let mgr' = mgr\<lparr>gm_service_proxy_visitors := hm_insert sid vis' (gm_service_proxy_visitors mgr),
                               gm_shared := sh'\<rparr> in
                case r of Ok _ \<Rightarrow> (Ok (), mgr') | Err e \<Rightarrow> (Err e, mgr') | Panic m \<Rightarrow> (Panic m, mgr'))))"

text \<open>\<open>poll_proxy_events\<close> on the events received so far; afterwards \<open>recv\<close> fails (all senders gone).\<close>

fun poll_proxy_events :: "proxy_event list \<Rightarrow> (gw_mgr, unit) sop" where
  "poll_proxy_events [] mgr = (Err (GenWithMsgAndErr ''Error receiving proxy event'' recv_error), mgr)"
| "poll_proxy_events (ProxyClosed key # evs) mgr =
     (case on_closed_proxy key mgr of
        (Ok _, mgr') \<Rightarrow> poll_proxy_events evs mgr'
      | (Err e, mgr') \<Rightarrow> (Err e, mgr')
      | (Panic m, mgr') \<Rightarrow> (Panic m, mgr'))"
| "poll_proxy_events (ProxyMessage _ _ _ # evs) mgr = (Panic ''not implemented'', mgr)"

section \<open>Ports\<close>

text \<open>
  The port bookkeeping of a manager with a range of its own: the ports handed out are those from the start of
  the range up to the counter.  In a build without overflow checks the counter wraps after the last
  16 bit port; there the range has to end below it (what happens otherwise is \<open>startup_port_wraps\<close>).
\<close>

definition ports_inv :: "bool \<Rightarrow> u16 \<Rightarrow> gw_mgr \<Rightarrow> bool" where
  "ports_inv chk start mgr \<longleftrightarrow> gm_shared_service_port mgr = None \<and> (chk \<or> unat (gm_last_service_port mgr) < 65535) \<and>
     start \<le> gm_next_service_port mgr \<and> unat (gm_next_service_port mgr) \<le> Suc (unat (gm_last_service_port mgr)) \<and>
     (\<forall>sid p. hm_get (gm_service_ports mgr) sid = Some p \<longrightarrow>
        start \<le> p \<and> p < gm_next_service_port mgr \<and> p \<le> gm_last_service_port mgr) \<and>
     (\<forall>s t p. hm_get (gm_service_ports mgr) s = Some p \<and> hm_get (gm_service_ports mgr) t = Some p \<longrightarrow> s = t)"

lemma ports_inv_new:
  assumes "cfg_gateway_service_ports cfg = Some (a, b)" and "a \<le> b" and "chk \<or> unat b < 65535"
  shows "ports_inv chk a (gw_mgr_new cfg tasks)"
  using assms by (simp add: ports_inv_def gw_mgr_new_def word_le_nat_alt)

lemma port_bound: "unat (p :: u16) < 65536"
  using unsigned_less[of p, where ?'a = nat] by simp

lemma port_not_last: "(p :: u16) \<noteq> - 1 \<Longrightarrow> unat p < 65535"
proof -
  assume "p \<noteq> - 1"
  then have "unat p \<noteq> unat (- 1 :: u16)" using unsigned_word_eqI by blast
  then show ?thesis using port_bound[of p] by (simp add: unsigned_minus_1_eq_mask mask_eq_exp_minus_1)
qed

lemma next_port_step: "(p :: u16) \<noteq> - 1 \<Longrightarrow> unat (p + 1) = Suc (unat p)"
  using port_not_last[of p] by (simp add: unat_word_ariths)

lemma ports_inv_startup [t0_inv]:
  assumes inv: "ports_inv chk start mgr" and st: "mgr_startup chk cfg svc mgr = (r, mgr')"
  shows "ports_inv chk start mgr'"
proof (cases "hm_get (gm_service_ports mgr) (sv_service_id svc)")
  case (Some p)
  with assms show ?thesis by (simp add: mgr_startup_def)
next
  case None
  let ?n = "gm_next_service_port mgr"
  show ?thesis
  proof (cases "?n > gm_last_service_port mgr \<or> chk \<and> ?n = - 1")
    case True
    with None assms show ?thesis by (auto simp: mgr_startup_def allocate_port_def ports_inv_def split: if_splits)
  next
    case False
    have "?n \<noteq> - 1"
    proof
      assume e: "?n = - 1"
      with False inv have "unat (- 1 :: u16) < 65535" by (auto simp: ports_inv_def word_less_nat_alt)
      then show False by (simp add: unsigned_minus_1_eq_mask mask_eq_exp_minus_1)
    qed
    note n = next_port_step[OF this]
    have mgr': "gm_service_ports mgr' = hm_insert (sv_service_id svc) ?n (gm_service_ports mgr)"
      "gm_next_service_port mgr' = ?n + 1" "gm_last_service_port mgr' = gm_last_service_port mgr"
      "gm_shared_service_port mgr' = None"
      using None st False inv by (auto simp: mgr_startup_def allocate_port_def ports_inv_def Let_def)
    have "?n < ?n + 1" "start \<le> ?n" using n inv by (simp_all add: word_less_nat_alt ports_inv_def)
    moreover have "p < ?n + 1" if "p < ?n" for p using that n by (simp add: word_less_nat_alt)
    moreover have "?n \<le> gm_last_service_port mgr" using False by auto
    ultimately show ?thesis using inv n unfolding ports_inv_def mgr'
      by (auto simp: word_le_nat_alt split: if_splits)
  qed
qed

text \<open>
  C27: a manager whose port range ends below 65535, or any manager with a port range of its own in a build with
  overflow checks, gives every service it starts a port of that range, the same one each time, and never
  gives one port to two services.  (A start-up that fails, because the ports are used up or the counter
  would overflow, gives no port.)
\<close>

theorem startup_ports_distinct:
  assumes "ports_inv chk start mgr" and "mgr_startup chk cfg svc mgr = (Ok (host, port), mgr')"
  shows "start \<le> port \<and> port \<le> gm_last_service_port mgr' \<and> ports_inv chk start mgr' \<and>
    (\<forall>sid. hm_get (gm_service_ports mgr') sid = Some port \<longleftrightarrow> sid = sv_service_id svc) \<and>
    mgr_startup chk cfg svc mgr' = (Ok (host, port), mgr')"
proof -
  have i: "ports_inv chk start mgr'" using assms by (rule ports_inv_startup)
  have p: "hm_get (gm_service_ports mgr') (sv_service_id svc) = Some port" "host = cfg_gateway_service_host cfg"
    using assms(2) by (auto simp: mgr_startup_def Let_def split: option.splits prod.splits res.splits)
  with i show ?thesis by (auto simp: ports_inv_def mgr_startup_def)
qed

text \<open>The answers to a sequence of start-ups, and the manager afterwards.\<close>

fun startup_all :: "bool \<Rightarrow> app_config \<Rightarrow> service list \<Rightarrow> gw_mgr \<Rightarrow> (string option \<times> u16) res list \<times> gw_mgr" where
  "startup_all chk cfg [] mgr = ([], mgr)"
| "startup_all chk cfg (svc # svcs) mgr =
     (case mgr_startup chk cfg svc mgr of (r, mgr') \<Rightarrow> (case startup_all chk cfg svcs mgr' of (rs, mgr'') \<Rightarrow> (r # rs, mgr'')))"

lemma startup_all_Cons: "mgr_startup chk cfg svc mgr = (r, mgr') \<Longrightarrow> fst (startup_all chk cfg (svc # svcs) mgr) = r # fst (startup_all chk cfg svcs mgr')"
  by (simp split: prod.splits)

definition unstarted :: "gw_mgr \<Rightarrow> service list \<Rightarrow> bool" where
  "unstarted mgr svcs \<longleftrightarrow> distinct (map sv_service_id svcs) \<and> (\<forall>svc \<in> set svcs. hm_get (gm_service_ports mgr) (sv_service_id svc) = None)"

lemma startup_next_port:
  assumes "gm_shared_service_port mgr = None" and "gm_last_service_port mgr = - 1" and "unstarted mgr (svc # svcs)"
    and "\<not> (chk \<and> gm_next_service_port mgr = - 1)"
  obtains mgr' where "mgr_startup chk cfg svc mgr = (Ok (cfg_gateway_service_host cfg, gm_next_service_port mgr), mgr')"
    "gm_shared_service_port mgr' = None" "gm_last_service_port mgr' = - 1" "gm_next_service_port mgr' = gm_next_service_port mgr + 1"
    "unstarted mgr' svcs"
proof -
  define mgr' where "mgr' = snd (mgr_startup chk cfg svc mgr)"
  have "\<not> gm_next_service_port mgr > - 1" by (simp add: word_order.extremum not_less)
  with assms have m: "mgr_startup chk cfg svc mgr = (Ok (cfg_gateway_service_host cfg, gm_next_service_port mgr), mgr')"
    "gm_shared_service_port mgr' = None" "gm_last_service_port mgr' = - 1" "gm_next_service_port mgr' = gm_next_service_port mgr + 1"
    "gm_service_ports mgr' = hm_insert (sv_service_id svc) (gm_next_service_port mgr) (gm_service_ports mgr)"
    by (auto simp: mgr'_def mgr_startup_def allocate_port_def unstarted_def Let_def)
  have "sv_service_id s \<noteq> sv_service_id svc" if "s \<in> set svcs" for s using assms(3) imageI[OF that, of sv_service_id] by (auto simp: unstarted_def)
  then have "unstarted mgr' svcs" using assms(3) m(5) by (auto simp: unstarted_def)
  with m that show ?thesis by blast
qed

lemma startup_all_wraps:
  assumes "gm_shared_service_port mgr = None" and "gm_last_service_port mgr = - 1" and "unstarted mgr svcs"
  shows "fst (startup_all False cfg svcs mgr) =
    map (\<lambda>i. Ok (cfg_gateway_service_host cfg, gm_next_service_port mgr + of_nat i)) [0..<length svcs]"
  using assms
proof (induction svcs arbitrary: mgr)
  case (Cons svc svcs)
  from startup_next_port[OF Cons.prems, of False cfg] obtain mgr' where
    m: "mgr_startup False cfg svc mgr = (Ok (cfg_gateway_service_host cfg, gm_next_service_port mgr), mgr')"
      "gm_shared_service_port mgr' = None" "gm_last_service_port mgr' = - 1" "gm_next_service_port mgr' = gm_next_service_port mgr + 1"
      "unstarted mgr' svcs" by blast
  show ?case unfolding startup_all_Cons[OF m(1)] Cons.IH[OF m(2,3,5)] m(4) by (simp add: map_upt_Suc add.assoc del: upt_Suc)
qed simp

lemma startup_all_panics:
  assumes "gm_shared_service_port mgr = None" and "gm_last_service_port mgr = - 1" and "unstarted mgr svcs"
    and "unat (gm_next_service_port mgr) + k = 65535" and "k < length svcs"
  shows "fst (startup_all True cfg svcs mgr) ! k = Panic ''attempt to add with overflow''"
  using assms
proof (induction k arbitrary: mgr svcs)
  case 0
  then obtain svc rest where s: "svcs = svc # rest" by (cases svcs) auto
  have "gm_next_service_port mgr = - 1" using 0(4) port_not_last by force
  with 0 s show ?case by (simp add: mgr_startup_def allocate_port_def unstarted_def split: prod.splits)
next
  case (Suc k)
  then obtain svc rest where s: "svcs = svc # rest" by (cases svcs) auto
  have n: "gm_next_service_port mgr \<noteq> - 1" using Suc.prems(4) by (auto simp: unsigned_minus_1_eq_mask mask_eq_exp_minus_1)
  from startup_next_port[OF Suc.prems(1,2), of svc rest True cfg] Suc.prems(3) s n obtain mgr' where
    m: "mgr_startup True cfg svc mgr = (Ok (cfg_gateway_service_host cfg, gm_next_service_port mgr), mgr')"
      "gm_shared_service_port mgr' = None" "gm_last_service_port mgr' = - 1" "gm_next_service_port mgr' = gm_next_service_port mgr + 1"
      "unstarted mgr' rest" by blast
  have "fst (startup_all True cfg rest mgr') ! k = Panic ''attempt to add with overflow''"
    using Suc.IH[OF m(2,3,5)] Suc.prems(4,5) s m(4) next_port_step[OF n] by simp
  then show ?case unfolding s startup_all_Cons[OF m(1)] by simp
qed

text \<open>
  C37: a port range that ends at 65535 is handled wrongly in both builds.  Without overflow checks it is never
  exhausted: however many different services are started, each start-up succeeds, and the i-th of them is
  given the port i places after the counter, modulo 65536; so after 65535 come port 0 and then ports
  below those of the range, and from the 65536th on ports that are already in use.  With overflow checks the
  start-up that would be given the last port of the range panics.
\<close>

theorem startup_port_wraps:
  assumes "gm_shared_service_port mgr = None" and "gm_last_service_port mgr = - 1" and "unstarted mgr svcs"
  shows "fst (startup_all False cfg svcs mgr) =
      map (\<lambda>i. Ok (cfg_gateway_service_host cfg, gm_next_service_port mgr + of_nat i)) [0..<length svcs] \<and>
    (\<forall>i < length svcs. unat (gm_next_service_port mgr + of_nat i) = (unat (gm_next_service_port mgr) + i) mod 65536) \<and>
    (\<forall>i < length svcs. 65536 \<le> unat (gm_next_service_port mgr) + i \<and> i < 65536 \<longrightarrow>
       gm_next_service_port mgr + of_nat i < gm_next_service_port mgr) \<and>
    (\<forall>i < length svcs. unat (gm_next_service_port mgr) + i = 65535 \<longrightarrow>
       fst (startup_all True cfg svcs mgr) ! i = Panic ''attempt to add with overflow'')"
proof -
  have "unat (gm_next_service_port mgr + of_nat i) = (unat (gm_next_service_port mgr) + i) mod 65536" for i
    by (simp add: unat_word_ariths unat_of_nat mod_simps)
  moreover have "(n + i) mod 65536 < n" if "65536 \<le> n + i" "i < 65536" "n < 65536" for n i :: nat
    using that by (subst mod_if) (auto simp: mod_if)
  ultimately show ?thesis using startup_all_wraps[OF assms] startup_all_panics[OF assms] port_bound[of "gm_next_service_port mgr"]
    by (simp add: word_less_nat_alt)
qed

definition demo_mgr :: gw_mgr where
  "demo_mgr = gw_mgr_new demo_config new_chan"

lemma demo_mgr_ports: "ports_inv True 8500 demo_mgr"
  unfolding demo_mgr_def by (rule ports_inv_new[where b = 8501]) (simp_all add: demo_config_def)

theorem startup_ports_distinct_witness:
  "ports_inv True 8500 demo_mgr \<and>
   (\<exists>mgr'. mgr_startup True demo_config demo_service demo_mgr = (Ok (Some ''gw'', 8500), mgr') \<and>
      (\<forall>sid. hm_get (gm_service_ports mgr') sid = Some 8500 \<longleftrightarrow> sid = 203))"
proof -
  obtain mgr' where m: "mgr_startup True demo_config demo_service demo_mgr = (Ok (Some ''gw'', 8500), mgr')"
    by (simp add: mgr_startup_def allocate_port_def demo_mgr_def gw_mgr_new_def demo_config_def Let_def)
  have "sv_service_id demo_service = 203" by (simp add: demo_service_def new_service_def)
  with startup_ports_distinct[OF demo_mgr_ports m] m demo_mgr_ports show ?thesis by auto
qed

theorem startup_port_wraps_witness:
  "let mgr = demo_mgr\<lparr>gm_last_service_port := - 1, gm_next_service_port := - 1\<rparr>;
       svcs = [new_service 1 ''a'' TCP ''h'' 1, new_service 2 ''b'' TCP ''h'' 2] in
   fst (startup_all False demo_config svcs mgr) = [Ok (Some ''gw'', - 1), Ok (Some ''gw'', 0)] \<and>
   fst (startup_all True demo_config svcs mgr) ! 0 = Panic ''attempt to add with overflow''"
proof -
  let ?mgr = "demo_mgr\<lparr>gm_last_service_port := - 1, gm_next_service_port := - 1\<rparr>"
  let ?svcs = "[new_service 1 ''a'' TCP ''h'' 1, new_service 2 ''b'' TCP ''h'' 2]"
  have a: "gm_shared_service_port ?mgr = None" "gm_last_service_port ?mgr = - 1" "unstarted ?mgr ?svcs"
    by (simp_all add: demo_mgr_def gw_mgr_new_def demo_config_def new_service_def unstarted_def)
  from startup_port_wraps[OF a, of demo_config]
  have w: "fst (startup_all False demo_config ?svcs ?mgr) =
      map (\<lambda>i. Ok (cfg_gateway_service_host demo_config, gm_next_service_port ?mgr + of_nat i)) [0..<length ?svcs]"
    and p: "unat (gm_next_service_port ?mgr) + 0 = 65535 \<Longrightarrow> fst (startup_all True demo_config ?svcs ?mgr) ! 0 = Panic ''attempt to add with overflow''"
    by auto
  have "fst (startup_all False demo_config ?svcs ?mgr) = [Ok (Some ''gw'', - 1), Ok (Some ''gw'', 0)]"
    unfolding w by (simp add: demo_config_def upt_rec)
  moreover have "fst (startup_all True demo_config ?svcs ?mgr) ! 0 = Panic ''attempt to add with overflow''"
    by (rule p) (simp add: unsigned_minus_1_eq_mask mask_eq_exp_minus_1)
  ultimately show ?thesis unfolding Let_def by blast
qed

section \<open>The proxies of all services\<close>

text \<open>
  Every visitor is filed under its service's id and satisfies its own invariant, and the shared map
  knows a key under a service exactly when that service's visitor has registered it.
\<close>

abbreviation key_service :: "gw_shared \<Rightarrow> string \<Rightarrow> u64 option" where
  "key_service sh \<equiv> hm_get (gs_services_by_proxy_key sh)"

definition visitors_inv :: "(u64, svc_visitor) hashmap \<Rightarrow> gw_shared \<Rightarrow> bool" where
  "visitors_inv vs sh \<longleftrightarrow> hm_inv vs \<and>
     (\<forall>sid vis. hm_get vs sid = Some vis \<longrightarrow> svc_inv vis \<and> sv_service_id (sp_service vis) = sid) \<and>
     (\<forall>k sid. key_service sh k = Some sid \<longleftrightarrow> (\<exists>vis. hm_get vs sid = Some vis \<and> key_addrs vis k \<noteq> None))"

definition mgr_inv :: "gw_mgr \<Rightarrow> bool" where
  "mgr_inv mgr \<longleftrightarrow> visitors_inv (gm_service_proxy_visitors mgr) (gm_shared mgr) \<and>
     (\<forall>sid. hm_get (gm_service_ports mgr) sid = None \<longleftrightarrow> hm_get (gm_service_proxy_visitors mgr) sid = None)"

lemma mgr_inv_new [t0_inv]: "mgr_inv (gw_mgr_new cfg tasks)"
  by (auto simp: mgr_inv_def visitors_inv_def gw_mgr_new_def split: option.splits)

lemma mgr_inv_startup [t0_inv]:
  assumes "mgr_inv mgr" and "mgr_startup chk cfg svc mgr = (r, mgr')"
  shows "mgr_inv mgr'"
proof -
  let ?sid = "sv_service_id svc" and ?vs = "gm_service_proxy_visitors mgr"
  consider "mgr' = mgr" | (started) vis where "hm_get (gm_service_ports mgr) ?sid = None" "\<exists>port. vis = svc_visitor_new svc (cfg_gateway_service_host cfg) port"
      "gm_service_proxy_visitors mgr' = hm_insert ?sid vis ?vs" "gm_shared mgr' = gm_shared mgr"
      "\<exists>port. gm_service_ports mgr' = hm_insert ?sid port (gm_service_ports mgr)"
    using assms(2)
    by (fastforce simp: mgr_startup_def allocate_port_def Let_def split: option.splits prod.splits res.splits if_splits)
  then show ?thesis
  proof cases
    case started
    from started(2) have vis: "svc_inv vis" "sp_service vis = svc" "\<And>k. key_addrs vis k = None"
      by (auto simp: svc_inv_new) (simp_all add: svc_visitor_new_def)
    have none: "hm_get ?vs ?sid = None" using assms(1) started(1) by (simp add: mgr_inv_def)
    then have "key_service (gm_shared mgr) k \<noteq> Some ?sid" for k
      using assms(1) by (auto simp: mgr_inv_def visitors_inv_def)
    with assms(1) none vis started(3-5) show ?thesis
      by (auto simp: mgr_inv_def visitors_inv_def)
  qed (simp add: assms(1))
qed

text \<open>Replacing a visitor by one that has forgotten some of its keys, together with the shared map.\<close>

lemma visitors_inv_forgets:
  assumes "visitors_inv vs sh" and "hm_get vs sid = Some vis" and "forgets K (vis, sh) (vis', sh')"
    and "\<forall>k \<in> K. key_addrs vis k \<noteq> None"
  shows "visitors_inv (hm_insert sid vis' vs) sh'"
proof -
  note f = forgetsD[OF assms(3)]
  have ks: "key_service sh k = Some s \<longleftrightarrow> (\<exists>v. hm_get vs s = Some v \<and> key_addrs v k \<noteq> None)" for k s
    using assms(1) by (auto simp: visitors_inv_def)
  have own: "key_service sh k = Some sid" if "k \<in> K" for k using ks that assms(2,4) by blast
  have "key_service sh' k = Some s \<longleftrightarrow> (\<exists>v. hm_get (hm_insert sid vis' vs) s = Some v \<and> key_addrs v k \<noteq> None)" for k s
  proof (cases "k \<in> K")
    case True
    then have "hm_get vs s = Some v \<Longrightarrow> s \<noteq> sid \<Longrightarrow> key_addrs v k = None" for v
      using own[OF True] ks[of k s] by (cases "key_addrs v k") auto
    with True f show ?thesis by auto
  next
    case False
    with f ks[of k s] assms(2) show ?thesis by auto
  qed
  with assms(1,2) f(1,2) show ?thesis by (auto simp: visitors_inv_def)
qed


lemma hm_insert_middle: "i \<notin> fst ` set pre \<Longrightarrow> hm_insert i w (pre @ (i, v) # rest) = pre @ (i, w) # rest"
  by (induction pre) (auto simp: hm_insert_def)

lemma hm_get_middle: "hm_inv (pre @ (i, v) # rest) \<Longrightarrow> hm_get (pre @ (i, v) # rest) i = Some v \<and> i \<notin> fst ` set pre"
  by (auto simp: hm_inv_def hm_get_def map_add_def split: option.splits dest: map_of_SomeD)
    (metis fst_conv image_eqI map_of_SomeD)

text \<open>What closing the keys of a user, or of all users, leaves of a visitor.\<close>

definition closed_for :: "u64 option \<Rightarrow> u64 option \<Rightarrow> u64 \<times> svc_visitor \<Rightarrow> u64 \<times> svc_visitor \<Rightarrow> bool" where
  "closed_for uo sid e e' \<longleftrightarrow> fst e' = fst e \<and>
     (if sid = None \<or> fst e = the sid
      then \<exists>sh sh'. forgets (set (keys_for (snd e) uo)) (snd e, sh) (snd e', sh')
      else snd e' = snd e)"

definition close_tasks :: "u64 option \<Rightarrow> u64 option \<Rightarrow> (u64, svc_visitor) hashmap \<Rightarrow> proxy_task list" where
  "close_tasks uo sid vs =
     concat (map (\<lambda>(i, v). if sid = None \<or> i = the sid then map CloseProxy (keys_for v uo) else []) vs)"

lemma shutdown_visitors_closes:
  assumes "visitors_inv (pre @ vs) sh" and "receiver_alive (gs_proxy_tasks sh)"
  shows "\<exists>vs' sh'. shutdown_visitors uo sid vs sh errors = (Ok errors, vs', sh') \<and>
    visitors_inv (pre @ vs') sh' \<and> list_all2 (closed_for uo sid) vs vs' \<and> receiver_alive (gs_proxy_tasks sh') \<and>
    queue (gs_proxy_tasks sh') = queue (gs_proxy_tasks sh) @ close_tasks uo sid vs"
  using assms
proof (induction vs arbitrary: pre sh)
  case Nil
  then show ?case by (simp add: close_tasks_def)
next
  case (Cons e rest)
  obtain i vis where e: "e = (i, vis)" by (cases e)
  have g: "hm_get (pre @ (i, vis) # rest) i = Some vis" "i \<notin> fst ` set pre"
    using Cons.prems(1) e hm_get_middle[of pre i vis rest] by (auto simp: visitors_inv_def)
  show ?case
  proof (cases "sid = None \<or> i = the sid")
    case True
    have inv: "svc_inv vis" using Cons.prems(1) e g(1) by (auto simp: visitors_inv_def)
    from shutdown_forgets[OF inv Cons.prems(2), of uo] obtain v1 s1 where
      s: "gsp_shutdown_connections uo (vis, sh) = (Ok (), v1, s1)" "forgets (set (keys_for vis uo)) (vis, sh) (v1, s1)"
        "receiver_alive (gs_proxy_tasks s1)" "queue (gs_proxy_tasks s1) = queue (gs_proxy_tasks sh) @ map CloseProxy (keys_for vis uo)"
      by blast
    have "visitors_inv (hm_insert i v1 (pre @ (i, vis) # rest)) s1"
      using visitors_inv_forgets[OF _ g(1) s(2)] Cons.prems(1) e keys_for_registered[OF inv] by blast
    then have "visitors_inv ((pre @ [(i, v1)]) @ rest) s1" by (simp add: hm_insert_middle[OF g(2)])
    from Cons.IH[OF this s(3)] obtain vs' sh' where
      ih: "shutdown_visitors uo sid rest s1 errors = (Ok errors, vs', sh')" "visitors_inv ((pre @ [(i, v1)]) @ vs') sh'"
        "list_all2 (closed_for uo sid) rest vs'" "receiver_alive (gs_proxy_tasks sh')"
        "queue (gs_proxy_tasks sh') = queue (gs_proxy_tasks s1) @ close_tasks uo sid rest" by blast
    have "closed_for uo sid e (i, v1)" using True s(2) e by (auto simp: closed_for_def)
    with ih s True e show ?thesis
      by (intro exI[of _ "(i, v1) # vs'"] exI[of _ sh']) (auto simp: close_tasks_def)
  next
    case False
    have "visitors_inv ((pre @ [(i, vis)]) @ rest) sh" using Cons.prems(1) e by simp
    from Cons.IH[OF this Cons.prems(2)] obtain vs' sh' where
      ih: "shutdown_visitors uo sid rest sh errors = (Ok errors, vs', sh')" "visitors_inv ((pre @ [(i, vis)]) @ vs') sh'"
        "list_all2 (closed_for uo sid) rest vs'" "receiver_alive (gs_proxy_tasks sh')"
        "queue (gs_proxy_tasks sh') = queue (gs_proxy_tasks sh) @ close_tasks uo sid rest" by blast
    have "closed_for uo sid e (i, vis)" using False e by (auto simp: closed_for_def)
    with ih False e show ?thesis
      by (intro exI[of _ "(i, vis) # vs'"] exI[of _ sh']) (auto simp: close_tasks_def)
  qed
qed

lemma close_tasks_keys:
  "\<exists>keys. close_tasks uo sid vs = map CloseProxy keys \<and>
     (\<forall>i v k. (i, v) \<in> set vs \<longrightarrow> sid = None \<or> i = the sid \<longrightarrow> k \<in> set (keys_for v uo) \<longrightarrow> k \<in> set keys)"
proof (induction vs)
  case Nil
  then show ?case by (simp add: close_tasks_def)
next
  case (Cons e vs)
  obtain i v where e: "e = (i, v)" by (cases e)
  from Cons obtain keys where k: "close_tasks uo sid vs = map CloseProxy keys"
    "\<forall>i v k. (i, v) \<in> set vs \<longrightarrow> sid = None \<or> i = the sid \<longrightarrow> k \<in> set (keys_for v uo) \<longrightarrow> k \<in> set keys" by blast
  define keys' where "keys' = (if sid = None \<or> i = the sid then keys_for v uo else []) @ keys"
  have "close_tasks uo sid (e # vs) = map CloseProxy keys'"
    using k(1) by (simp add: close_tasks_def e keys'_def)
  then show ?case using k(2) e by (intro exI[of _ keys']) (auto simp: keys'_def)
qed

lemma mgr_shutdown_closes:
  assumes "mgr_inv mgr" and "receiver_alive (gs_proxy_tasks (gm_shared mgr))"
  shows "\<exists>mgr'. mgr_shutdown_connections uo sid mgr = (Ok (), mgr') \<and> mgr_inv mgr' \<and>
    list_all2 (closed_for uo sid) (gm_service_proxy_visitors mgr) (gm_service_proxy_visitors mgr') \<and>
    receiver_alive (gs_proxy_tasks (gm_shared mgr')) \<and>
    queue (gs_proxy_tasks (gm_shared mgr')) =
      queue (gs_proxy_tasks (gm_shared mgr)) @ close_tasks uo sid (gm_service_proxy_visitors mgr)"
proof -
  let ?vs = "gm_service_proxy_visitors mgr"
  have "visitors_inv ([] @ ?vs) (gm_shared mgr)" using assms(1) by (simp add: mgr_inv_def)
  from shutdown_visitors_closes[OF this assms(2)] obtain vs' sh' where
    s: "shutdown_visitors uo sid ?vs (gm_shared mgr) [] = (Ok [], vs', sh')" "visitors_inv vs' sh'"
      "list_all2 (closed_for uo sid) ?vs vs'" "receiver_alive (gs_proxy_tasks sh')"
      "queue (gs_proxy_tasks sh') = queue (gs_proxy_tasks (gm_shared mgr)) @ close_tasks uo sid ?vs" by fastforce
  have "map fst vs' = map fst ?vs" using s(3) by (induction rule: list_all2_induct) (auto simp: closed_for_def)
  then have "hm_get vs' i = None \<longleftrightarrow> hm_get ?vs i = None" for i
    by (metis hm_get_def map_of_eq_None_iff list.set_map)
  with assms(1) s show ?thesis by (simp add: mgr_shutdown_connections_def mgr_inv_def)
qed


lemma list_all2_hm_get:
  "list_all2 (closed_for uid sid) vs ws \<Longrightarrow> hm_get vs i = Some v \<Longrightarrow>
     \<exists>w. hm_get ws i = Some w \<and> closed_for uid sid (i, v) (i, w)"
proof (induction vs ws rule: list_all2_induct)
  case (Cons e vs f ws)
  then show ?case by (cases e; cases f) (auto simp: hm_get_def closed_for_def split: if_splits)
qed (simp add: hm_get_def)

lemma mgr_shutdown_keys:
  assumes "mgr_inv mgr" and "receiver_alive (gs_proxy_tasks (gm_shared mgr))"
  shows "\<exists>mgr'. mgr_shutdown_connections (Some uid) sid mgr = (Ok (), mgr') \<and> mgr_inv mgr' \<and>
    queue (gs_proxy_tasks (gm_shared mgr')) =
      queue (gs_proxy_tasks (gm_shared mgr)) @ close_tasks (Some uid) sid (gm_service_proxy_visitors mgr) \<and>
    (\<forall>i vis. get_service_proxy mgr i = Some vis \<longrightarrow>
       (\<exists>vis'. get_service_proxy mgr' i = Some vis' \<and>
         (if sid = None \<or> i = the sid
          then keys_of vis' uid = [] \<and> (\<forall>u. u \<noteq> uid \<longrightarrow> keys_of vis' u = keys_of vis u)
          else vis' = vis)))"
proof -
  from mgr_shutdown_closes[OF assms] obtain mgr' where
    m: "mgr_shutdown_connections (Some uid) sid mgr = (Ok (), mgr')" "mgr_inv mgr'"
      "list_all2 (closed_for (Some uid) sid) (gm_service_proxy_visitors mgr) (gm_service_proxy_visitors mgr')"
      "queue (gs_proxy_tasks (gm_shared mgr')) = queue (gs_proxy_tasks (gm_shared mgr)) @ close_tasks (Some uid) sid (gm_service_proxy_visitors mgr)"
    by blast
  have "\<exists>vis'. get_service_proxy mgr' i = Some vis' \<and>
         (if sid = None \<or> i = the sid
          then keys_of vis' uid = [] \<and> (\<forall>u. u \<noteq> uid \<longrightarrow> keys_of vis' u = keys_of vis u)
          else vis' = vis)" if "get_service_proxy mgr i = Some vis" for i vis
  proof -
    from list_all2_hm_get[OF m(3)] that obtain w where w: "hm_get (gm_service_proxy_visitors mgr') i = Some w"
      "closed_for (Some uid) sid (i, vis) (i, w)" by (auto simp: get_service_proxy_def)
    have inv: "svc_inv vis" using assms(1) that by (auto simp: mgr_inv_def visitors_inv_def get_service_proxy_def)
    show ?thesis
    proof (cases "sid = None \<or> i = the sid")
      case True
      with w(2) obtain sh sh' where f: "forgets (set (keys_of vis uid)) (vis, sh) (w, sh')" by (auto simp: closed_for_def)
      have "keys_of w u = filter (\<lambda>k. k \<notin> set (keys_of vis uid)) (keys_of vis u)" for u
        using forgetsD(5)[OF f, of u] by (auto simp: keys_of_def split: option.splits)
      moreover have "k \<notin> set (keys_of vis uid)" if "k \<in> set (keys_of vis u)" "u \<noteq> uid" for u k
      proof
        assume "k \<in> set (keys_of vis uid)"
        from keys_of_user[OF inv this] keys_of_user[OF inv that(1)] that(2) show False by force
      qed
      ultimately show ?thesis using w(1) True by (auto simp: get_service_proxy_def intro!: filter_True)
    next
      case False
      with w show ?thesis by (auto simp: get_service_proxy_def closed_for_def)
    qed
  qed
  with m show ?thesis by blast
qed

text \<open>
  closing a user's connections, at one service or at all, succeeds while the executor lives:
  one close task per registered proxy of that user at the selected services is queued, after the
  tasks already there; afterwards the user has no registered proxy at a selected service, other
  services and other users keep theirs, and the maps of the manager still agree.
\<close>

theorem mgr_shutdown_user:
  assumes "mgr_inv mgr" and "receiver_alive (gs_proxy_tasks (gm_shared mgr))"
  shows "\<exists>mgr'. mgr_shutdown_connections (Some uid) sid mgr = (Ok (), mgr') \<and> mgr_inv mgr' \<and>
    queue (gs_proxy_tasks (gm_shared mgr')) =
      queue (gs_proxy_tasks (gm_shared mgr)) @ close_tasks (Some uid) sid (gm_service_proxy_visitors mgr) \<and>
    (\<forall>i vis. get_service_proxy mgr i = Some vis \<longrightarrow>
       (\<exists>vis'. get_service_proxy mgr' i = Some vis' \<and>
         (if sid = None \<or> i = the sid
          then keys_of vis' uid = [] \<and> (\<forall>u. u \<noteq> uid \<longrightarrow> keys_of vis' u = keys_of vis u)
          else vis' = vis)))"
  using assms by (rule mgr_shutdown_keys)

definition demo_busy_mgr :: gw_mgr where
  "demo_busy_mgr = demo_mgr\<lparr>gm_service_proxy_visitors := [(203, demo_svc_visitor)], gm_service_ports := [(203, 8500)],
     gm_shared := demo_shared\<rparr>"

lemma demo_busy_mgr_inv: "mgr_inv demo_busy_mgr"
proof -
  have "key_service demo_shared k = Some sid \<longleftrightarrow> (\<exists>vis. hm_get [(203, demo_svc_visitor)] sid = Some vis \<and> key_addrs vis k \<noteq> None)" for k sid
    by (auto simp: demo_shared_def demo_svc_visitor_def hm_get_def)
  moreover have "svc_inv demo_svc_visitor" "sv_service_id (sp_service demo_svc_visitor) = 203"
    by (rule demo_svc_visitor_inv) (simp add: demo_svc_visitor_def new_service_def)
  ultimately show ?thesis
    by (simp add: mgr_inv_def visitors_inv_def demo_busy_mgr_def hm_inv_def) (auto simp: hm_get_def)
qed

theorem mgr_shutdown_user_witness:
  "\<exists>mgr'. mgr_shutdown_connections (Some 100) None demo_busy_mgr = (Ok (), mgr') \<and>
    queue (gs_proxy_tasks (gm_shared mgr')) = [CloseProxy ''k1'']"
proof -
  have a: "receiver_alive (gs_proxy_tasks (gm_shared demo_busy_mgr))"
    by (simp add: demo_busy_mgr_def demo_shared_def new_chan_def)
  have "queue (gs_proxy_tasks (gm_shared demo_busy_mgr)) @ close_tasks (Some 100) None (gm_service_proxy_visitors demo_busy_mgr) = [CloseProxy ''k1'']"
    by (simp add: demo_busy_mgr_def demo_shared_def new_chan_def close_tasks_def keys_of_def demo_svc_visitor_def hm_get_def)
  with mgr_shutdown_user[OF demo_busy_mgr_inv a, of 100 None] show ?thesis by auto
qed

lemma on_closed_proxy_inv:
  assumes "mgr_inv mgr"
  shows "\<exists>mgr'. on_closed_proxy key mgr = (Ok (), mgr') \<and> mgr_inv mgr' \<and>
    (\<forall>k. get_service_id_by_proxy_key mgr' k = (if k = key then None else get_service_id_by_proxy_key mgr k)) \<and>
    (get_service_id_by_proxy_key mgr key = None \<longrightarrow>
       (\<forall>sid. get_service_proxy mgr' sid = get_service_proxy mgr sid) \<and> gm_shared mgr' = gm_shared mgr)"
proof -
  let ?vs = "gm_service_proxy_visitors mgr" and ?sh = "gm_shared mgr"
  let ?sid = "case key_service ?sh key of Some s \<Rightarrow> s | None \<Rightarrow> - 1"
  have vi: "visitors_inv ?vs ?sh" using assms by (simp add: mgr_inv_def)
  have ks: "key_service ?sh key = Some s \<longleftrightarrow> (\<exists>v. hm_get ?vs s = Some v \<and> key_addrs v key \<noteq> None)" for s
    using vi by (auto simp: visitors_inv_def)
  show ?thesis
  proof (cases "key_service ?sh key")
    case None
    have un: "key_addrs v key = None" if "hm_get ?vs s = Some v" for s v
      using ks[of s] None that by (cases "key_addrs v key") auto
    have "on_closed_proxy key mgr = (Ok (), mgr) \<or>
        (\<exists>v. hm_get ?vs (- 1) = Some v \<and> on_closed_proxy key mgr = (Ok (), mgr\<lparr>gm_service_proxy_visitors := hm_insert (- 1) v ?vs\<rparr>))"
      using None un[of "- 1"]
      by (cases "hm_get ?vs (- 1)")
        (auto simp: on_closed_proxy_def get_service_id_by_proxy_key_def get_service_proxy_def remove_proxy_for_key_def Let_def)
    moreover have "mgr_inv (mgr\<lparr>gm_service_proxy_visitors := hm_insert s v ?vs\<rparr>)" if "hm_get ?vs s = Some v" for s v
      using assms that by (auto simp: mgr_inv_def visitors_inv_def)
    ultimately show ?thesis using assms None
      by (fastforce simp: get_service_id_by_proxy_key_def get_service_proxy_def)
  next
    case (Some sid)
    then obtain vis where v: "hm_get ?vs sid = Some vis" "key_addrs vis key \<noteq> None" using ks by blast
    then obtain a where a: "key_addrs vis key = Some a" by (cases "key_addrs vis key") auto
    have inv: "svc_inv vis" using vi v(1) by (auto simp: visitors_inv_def)
    from remove_proxy_registered[OF inv a, of ?sh] obtain v1 s1 where
      r: "remove_proxy_for_key key (vis, ?sh) = (Ok True, v1, s1)" "forgets {key} (vis, ?sh) (v1, s1)" by blast
    have "visitors_inv (hm_insert sid v1 ?vs) s1"
      using visitors_inv_forgets[OF vi v(1) r(2)] v(2) by blast
    then have "mgr_inv (mgr\<lparr>gm_service_proxy_visitors := hm_insert sid v1 ?vs, gm_shared := s1\<rparr>)"
      using assms v(1) by (auto simp: mgr_inv_def)
    moreover have "on_closed_proxy key mgr = (Ok (), mgr\<lparr>gm_service_proxy_visitors := hm_insert sid v1 ?vs, gm_shared := s1\<rparr>)"
      using Some v(1) r(1) by (simp add: on_closed_proxy_def get_service_id_by_proxy_key_def get_service_proxy_def)
    ultimately show ?thesis using forgetsD(6)[OF r(2)] Some by (auto simp: get_service_id_by_proxy_key_def)
  qed
qed

text \<open>
  C21: when the executor reports a proxy as closed, the manager removes it without panic: the key is
  gone from the shared map and from its visitor, every other key stays as it was, and a key that
  nobody registered changes nothing.
\<close>

theorem on_closed_proxy_removes:
  assumes "mgr_inv mgr"
  shows "\<exists>mgr'. on_closed_proxy key mgr = (Ok (), mgr') \<and> mgr_inv mgr' \<and>
    (\<forall>k. get_service_id_by_proxy_key mgr' k = (if k = key then None else get_service_id_by_proxy_key mgr k)) \<and>
    (get_service_id_by_proxy_key mgr key = None \<longrightarrow>
       (\<forall>sid. get_service_proxy mgr' sid = get_service_proxy mgr sid) \<and> gm_shared mgr' = gm_shared mgr)"
  using assms by (rule on_closed_proxy_inv)

theorem on_closed_proxy_removes_witness:
  "\<exists>mgr'. on_closed_proxy ''k1'' demo_busy_mgr = (Ok (), mgr') \<and>
    get_service_id_by_proxy_key mgr' ''k1'' = None \<and> get_service_id_by_proxy_key mgr' ''k2'' = Some 203"
proof -
  have "get_service_id_by_proxy_key demo_busy_mgr ''k2'' = Some 203"
    by (simp add: get_service_id_by_proxy_key_def demo_busy_mgr_def demo_shared_def hm_get_def)
  with on_closed_proxy_removes[OF demo_busy_mgr_inv, of "''k1''"] show ?thesis by auto
qed

end
