(* ===== verification/T0_Request.thy ===== *)
theory T0_Request
  imports T0_Error
begin

text \<open>
  \<open>crates/common/src/control/request.rs\<close>: the control plane requests and their command line
  parser.  The crates \<open>shlex\<close> (splitting a line into arguments) and \<open>clap\<close> (matching
  arguments against a command description) are not part of the repository: they are the two
  functions of the parameter record \<open>cli_lib\<close>.  \<open>create_command\<close> is the command description
  the program hands to \<open>clap\<close>, and \<open>clap_ok\<close> is what \<open>clap\<close> documents for it.
\<close>

definition CODE_OK :: u16 where "CODE_OK = 200"
definition CODE_CREATED :: u16 where "CODE_CREATED = 201"
definition CODE_BAD_REQUEST :: u16 where "CODE_BAD_REQUEST = 400"
definition CODE_UNAUTHORIZED :: u16 where "CODE_UNAUTHORIZED = 401"
definition CODE_FORBIDDEN :: u16 where "CODE_FORBIDDEN = 403"
definition CODE_NOT_FOUND :: u16 where "CODE_NOT_FOUND = 404"
definition CODE_INTERNAL_SERVER_ERROR :: u16 where "CODE_INTERNAL_SERVER_ERROR = 500"

lemmas response_codes = CODE_OK_def CODE_CREATED_def CODE_BAD_REQUEST_def CODE_UNAUTHORIZED_def
  CODE_FORBIDDEN_def CODE_NOT_FOUND_def CODE_INTERNAL_SERVER_ERROR_def

definition PROTOCOL_REQUEST_ABOUT :: string where "PROTOCOL_REQUEST_ABOUT = ''about''"
definition PROTOCOL_REQUEST_CONNECTIONS :: string where "PROTOCOL_REQUEST_CONNECTIONS = ''connections''"
definition PROTOCOL_REQUEST_PING :: string where "PROTOCOL_REQUEST_PING = ''ping''"
definition PROTOCOL_REQUEST_PROXIES :: string where "PROTOCOL_REQUEST_PROXIES = ''proxies''"
definition PROTOCOL_REQUEST_SERVICES :: string where "PROTOCOL_REQUEST_SERVICES = ''services''"
definition PROTOCOL_REQUEST_START :: string where "PROTOCOL_REQUEST_START = ''start''"
definition PROTOCOL_REQUEST_STOP :: string where "PROTOCOL_REQUEST_STOP = ''stop''"
definition PROTOCOL_REQUEST_QUIT :: string where "PROTOCOL_REQUEST_QUIT = ''quit''"
definition PROTOCOL_REQUEST_EXIT :: string where "PROTOCOL_REQUEST_EXIT = ''exit''"

lemmas request_names = PROTOCOL_REQUEST_ABOUT_def PROTOCOL_REQUEST_CONNECTIONS_def
  PROTOCOL_REQUEST_PING_def PROTOCOL_REQUEST_PROXIES_def PROTOCOL_REQUEST_SERVICES_def
  PROTOCOL_REQUEST_START_def PROTOCOL_REQUEST_STOP_def PROTOCOL_REQUEST_QUIT_def
  PROTOCOL_REQUEST_EXIT_def

datatype request =
    ReqNone
  | ReqAbout
  | ReqConnections
  | ReqPing
  | ReqProxies
  | ReqServices
  | ReqStart string u16
  | ReqStop string
  | ReqQuit

text \<open>The matched arguments of a subcommand and the kinds of a \<open>clap\<close> error.\<close>

record arg_matches =
  arg_service :: "string option"
  arg_port :: "u16 option"

datatype clap_error_kind = DisplayHelp | DisplayVersion | OtherKind

record cli_lib =
  shlex_split :: "string \<Rightarrow> string list option"
  try_get_matches_from :: "string list \<Rightarrow> (clap_error_kind \<times> string) + (string \<times> arg_matches) option"

text \<open>The part of \<open>clap::Command\<close> the program fills in.\<close>

record arg_spec =
  as_short :: char
  as_long :: string
  as_value_name :: string
  as_help :: string
  as_u16_range_from :: "nat option"

record sub_spec =
  ss_name :: string
  ss_alias :: "string list"
  ss_about :: string
  ss_args :: "arg_spec list"

record command_spec =
  cs_name :: string
  cs_multicall :: bool
  cs_arg_required_else_help :: bool
  cs_subcommand_required :: bool
  cs_subcommand_value_name :: string
  cs_subcommand_help_heading :: string
  cs_subcommands :: "sub_spec list"

definition subcommand :: "string \<Rightarrow> string list \<Rightarrow> string \<Rightarrow> arg_spec list \<Rightarrow> sub_spec" where
  "subcommand name aliases about args =
     \<lparr>ss_name = name, ss_alias = aliases, ss_about = about, ss_args = args\<rparr>"

definition service_arg :: "string \<Rightarrow> arg_spec" where
  "service_arg help = \<lparr>as_short = CHR ''s'', as_long = ''service'', as_value_name = ''SERVICE_NAME'',
     as_help = help, as_u16_range_from = None\<rparr>"

definition port_arg :: arg_spec where
  "port_arg = \<lparr>as_short = CHR ''p'', as_long = ''port'', as_value_name = ''LOCAL_PORT'',
     as_help = ''Client local port for service proxy'', as_u16_range_from = Some 1\<rparr>"

definition create_command :: command_spec where
  "create_command = \<lparr>
     cs_name = ''repl'',
     cs_multicall = True,
     cs_arg_required_else_help = True,
     cs_subcommand_required = True,
     cs_subcommand_value_name = ''COMMAND'',
     cs_subcommand_help_heading = ''COMMANDS'',
     cs_subcommands = [
       subcommand PROTOCOL_REQUEST_ABOUT [] ''Display context information for connected mTLS device user'' [],
       subcommand PROTOCOL_REQUEST_CONNECTIONS [] ''List current service proxy connections'' [],
       subcommand PROTOCOL_REQUEST_PING [] ''Simple gateway heartbeat request'' [],
       subcommand PROTOCOL_REQUEST_PROXIES [] ''List active service proxies, ready for new connections'' [],
       subcommand PROTOCOL_REQUEST_SERVICES [] ''List authorized services for connected mTLS device user'' [],
       subcommand PROTOCOL_REQUEST_START []
         ''Startup proxy to authorized service via secure client-gateway proxy''
         [service_arg ''Corresponding service name for new proxy'', port_arg],
       subcommand PROTOCOL_REQUEST_STOP [] ''Shutdown active service proxy (previously started)''
         [service_arg ''Corresponding service name for proxy''],
       subcommand PROTOCOL_REQUEST_QUIT [PROTOCOL_REQUEST_EXIT]
         ''Quit the control plane (and corresponding service connections)'' []]\<rparr>"

text \<open>
  What \<open>clap\<close> documents for a command description: a match names one of the declared
  subcommands (by its name, also when it was given by an alias), there is a subcommand where
  one is required, and a \<open>u16\<close> value respects the declared range.
\<close>

definition clap_ok :: "command_spec \<Rightarrow> cli_lib \<Rightarrow> bool" where
  "clap_ok spec L \<longleftrightarrow>
     (\<forall>args. cs_subcommand_required spec \<longrightarrow> try_get_matches_from L args \<noteq> Inr None) \<and>
     (\<forall>args n m. try_get_matches_from L args = Inr (Some (n, m)) \<longrightarrow>
        (\<exists>ss \<in> set (cs_subcommands spec). ss_name ss = n \<and>
           (\<forall>a \<in> set (ss_args ss). \<forall>lo p. as_long a = ''port'' \<longrightarrow> as_u16_range_from a = Some lo \<longrightarrow>
              arg_port m = Some p \<longrightarrow> lo \<le> unat p)))"

text \<open>\<open>str::trim\<close> on ASCII text.\<close>

definition is_white :: "char \<Rightarrow> bool" where
  "is_white c \<longleftrightarrow> (let n = (of_char c :: nat) in (9 \<le> n \<and> n \<le> 13) \<or> n = 32)"

definition trim :: "string \<Rightarrow> string" where
  "trim s = rev (dropWhile is_white (rev (dropWhile is_white s)))"

definition parse_start_request :: "arg_matches \<Rightarrow> request res" where
  "parse_start_request m =
     (case arg_service m of
        None \<Rightarrow> Err (General (''Service name is required for the \"'' @ PROTOCOL_REQUEST_START @ ''\" command''))
      | Some service_name \<Rightarrow>
          (case arg_port m of
             None \<Rightarrow> Err (General (''Local port is required for the \"'' @ PROTOCOL_REQUEST_START @ ''\" command''))
           | Some local_port \<Rightarrow> Ok (ReqStart service_name local_port)))"

definition parse_stop_request :: "arg_matches \<Rightarrow> request res" where
  "parse_stop_request m =
     (case arg_service m of
        None \<Rightarrow> Err (General (''Service name is required for the \"'' @ PROTOCOL_REQUEST_STOP @ ''\" command''))
      | Some service_name \<Rightarrow> Ok (ReqStop service_name))"

text \<open>The dispatch on the matched subcommand.\<close>

definition dispatch_subcommand :: "string \<Rightarrow> arg_matches \<Rightarrow> request res" where
  "dispatch_subcommand name m =
     (if name = PROTOCOL_REQUEST_ABOUT then Ok ReqAbout
      else if name = PROTOCOL_REQUEST_CONNECTIONS then Ok ReqConnections
      else if name = PROTOCOL_REQUEST_PING then Ok ReqPing
      else if name = PROTOCOL_REQUEST_PROXIES then Ok ReqProxies
      else if name = PROTOCOL_REQUEST_SERVICES then Ok ReqServices
      else if name = PROTOCOL_REQUEST_START then parse_start_request m
      else if name = PROTOCOL_REQUEST_STOP then parse_stop_request m
      else if name = PROTOCOL_REQUEST_QUIT then Ok ReqQuit
      else if name = [] then Ok ReqNone
      else Err (GenWithCodeAndMsg CODE_BAD_REQUEST (''Unknown command: cmd='' @ name)))"

definition parse_request :: "cli_lib \<Rightarrow> string \<Rightarrow> request res" where
  "parse_request L line0 =
     (let line = trim line0 in
      case shlex_split L line of
        None \<Rightarrow> Err (GenWithCodeAndMsg CODE_BAD_REQUEST (''Invalid command line: line='' @ line))
      | Some line_as_args \<Rightarrow>
          (case try_get_matches_from L line_as_args of
             Inl (DisplayHelp, msg) \<Rightarrow> Err (GenWithCodeAndMsg CODE_OK msg)
           | Inl (DisplayVersion, msg) \<Rightarrow> Err (GenWithCodeAndMsg CODE_OK msg)
           | Inl (OtherKind, msg) \<Rightarrow> Err (GenWithCodeAndMsg CODE_BAD_REQUEST msg)
           | Inr (Some (name, m)) \<Rightarrow> dispatch_subcommand name m
           | Inr None \<Rightarrow> Panic ''internal error: entered unreachable code: subcommand required''))"

text \<open>An instance of the library parameter, for evaluation.\<close>

definition demo_matches :: "string list \<Rightarrow> (clap_error_kind \<times> string) + (string \<times> arg_matches) option" where
  "demo_matches args =
     (case args of
        [c] \<Rightarrow>
          (if c = PROTOCOL_REQUEST_PING \<or> c = PROTOCOL_REQUEST_SERVICES \<or> c = PROTOCOL_REQUEST_QUIT
           then Inr (Some (c, \<lparr>arg_service = None, arg_port = None\<rparr>)) else Inl (OtherKind, ''error''))
      | [c, f, s] \<Rightarrow>
          (if c = PROTOCOL_REQUEST_STOP then Inr (Some (c, \<lparr>arg_service = Some s, arg_port = None\<rparr>))
           else Inl (OtherKind, ''error''))
      | [c, f, s, g, p] \<Rightarrow>
          (if c = PROTOCOL_REQUEST_START then
             (case parse_u16 p of
                Some q \<Rightarrow> if q = 0 then Inl (OtherKind, ''error'')
                          else Inr (Some (c, \<lparr>arg_service = Some s, arg_port = Some q\<rparr>))
              | None \<Rightarrow> Inl (OtherKind, ''error''))
           else Inl (OtherKind, ''error''))
      | _ \<Rightarrow> Inl (OtherKind, ''error''))"

definition demo_cli :: cli_lib where
  "demo_cli = \<lparr>shlex_split = (\<lambda>s. Some (split_on (CHR '' '') s)), try_get_matches_from = demo_matches\<rparr>"

section \<open>Properties\<close>

abbreviation request_words :: "string set" where
  "request_words \<equiv> {PROTOCOL_REQUEST_ABOUT, PROTOCOL_REQUEST_CONNECTIONS, PROTOCOL_REQUEST_PING,
     PROTOCOL_REQUEST_PROXIES, PROTOCOL_REQUEST_SERVICES, PROTOCOL_REQUEST_START,
     PROTOCOL_REQUEST_STOP, PROTOCOL_REQUEST_QUIT}"

lemma clap_ok_some:
  "clap_ok create_command L \<Longrightarrow> try_get_matches_from L args \<noteq> Inr None"
  by (simp add: clap_ok_def create_command_def)

lemma clap_ok_name:
  assumes "clap_ok create_command L" and "try_get_matches_from L args = Inr (Some (n, m))"
  shows "n \<in> ss_name ` set (cs_subcommands create_command)"
  using assms unfolding clap_ok_def by blast

lemma command_names: "ss_name ` set (cs_subcommands create_command) = request_words"
  by (simp add: create_command_def subcommand_def)

lemma request_words_distinct:
  "PROTOCOL_REQUEST_START \<notin> {PROTOCOL_REQUEST_ABOUT, PROTOCOL_REQUEST_CONNECTIONS, PROTOCOL_REQUEST_PING,
     PROTOCOL_REQUEST_PROXIES, PROTOCOL_REQUEST_SERVICES, PROTOCOL_REQUEST_STOP, PROTOCOL_REQUEST_QUIT}"
  by (simp add: request_names)

lemma clap_ok_port:
  assumes "clap_ok create_command L" and "try_get_matches_from L args = Inr (Some (n, m))"
    and "n = PROTOCOL_REQUEST_START" and "arg_port m = Some p"
  shows "p \<noteq> 0"
proof -
  from assms(1,2) obtain ss where "ss \<in> set (cs_subcommands create_command)" "ss_name ss = n"
    and r: "\<forall>a \<in> set (ss_args ss). \<forall>lo p. as_long a = ''port'' \<longrightarrow> as_u16_range_from a = Some lo \<longrightarrow>
              arg_port m = Some p \<longrightarrow> lo \<le> unat p"
    unfolding clap_ok_def by blast
  then have "port_arg \<in> set (ss_args ss)"
    using assms(3) request_words_distinct by (auto simp: create_command_def subcommand_def)
  moreover have "as_long port_arg = ''port''" "as_u16_range_from port_arg = Some 1"
    by (simp_all add: port_arg_def)
  ultimately have "1 \<le> unat p" using r assms(4) by blast
  then show ?thesis by auto
qed

lemma demo_matches_cases:
  assumes "demo_matches args = Inr v"
  shows "\<exists>n m. v = Some (n, m) \<and> n \<in> request_words \<and>
    (\<forall>p. arg_port m = Some p \<longrightarrow> n = PROTOCOL_REQUEST_START \<and> p \<noteq> 0)"
  using assms by (auto simp: demo_matches_def split: list.splits if_splits option.splits)

lemma demo_cli_ok: "clap_ok create_command demo_cli"
proof -
  have "\<exists>ss \<in> set (cs_subcommands create_command). ss_name ss = n \<and>
      (\<forall>a \<in> set (ss_args ss). \<forall>lo p. as_long a = ''port'' \<longrightarrow> as_u16_range_from a = Some lo \<longrightarrow>
         arg_port m = Some p \<longrightarrow> lo \<le> unat p)"
    if "demo_matches args = Inr (Some (n, m))" for args n m
  proof -
    have n: "n \<in> ss_name ` set (cs_subcommands create_command)" and
      p: "\<And>p. arg_port m = Some p \<Longrightarrow> 1 \<le> unat p"
      using demo_matches_cases[OF that] by (auto simp: command_names Suc_le_eq unat_gt_0)
    have "lo = 1" if "ss \<in> set (cs_subcommands create_command)" "a \<in> set (ss_args ss)"
      "as_u16_range_from a = Some lo" for ss a lo
      using that by (auto simp: create_command_def subcommand_def service_arg_def port_arg_def)
    with n p show ?thesis by (auto simp: image_iff)
  qed
  moreover have "demo_matches args \<noteq> Inr None" for args
    using demo_matches_cases by blast
  ultimately show ?thesis by (simp add: clap_ok_def demo_cli_def)
qed

lemma dispatch_cases:
  assumes "n \<in> request_words"
  shows "(\<exists>r. dispatch_subcommand n m = Ok r \<and> r \<noteq> ReqNone) \<or>
    (\<exists>msg. dispatch_subcommand n m = Err (General msg))"
  using assms unfolding dispatch_subcommand_def parse_start_request_def parse_stop_request_def
  by (cases "arg_service m"; cases "arg_port m") auto

lemma dispatch_start:
  assumes "dispatch_subcommand n m = Ok (ReqStart svc port)"
  shows "n = PROTOCOL_REQUEST_START \<and> arg_service m = Some svc \<and> arg_port m = Some port"
  using assms unfolding dispatch_subcommand_def parse_start_request_def parse_stop_request_def
  by (simp split: if_splits option.splits)

lemma parse_request_outcome:
  assumes "clap_ok create_command L"
  shows "(\<exists>r. parse_request L line = Ok r \<and> r \<noteq> ReqNone) \<or>
    (\<exists>e. parse_request L line = Err e \<and>
       (get_code e = Some CODE_OK \<or> get_code e = Some CODE_BAD_REQUEST \<or> (\<exists>msg. e = General msg)))"
proof (cases "shlex_split L (trim line)")
  case None
  then show ?thesis by (simp add: parse_request_def)
next
  case (Some args)
  show ?thesis
  proof (cases "try_get_matches_from L args")
    case (Inl km)
    then show ?thesis using Some
      by (cases km; cases "fst km") (auto simp: parse_request_def)
  next
    case (Inr sub)
    then obtain n m where sub: "sub = Some (n, m)"
      using clap_ok_some[OF assms] by (cases sub) auto
    with Inr have "n \<in> request_words"
      using clap_ok_name[OF assms] command_names by blast
    from dispatch_cases[OF this, of m] show ?thesis
      using Some Inr sub by (auto simp: parse_request_def)
  qed
qed

text \<open>
  The word of each request, and what the matched arguments have to be for it.
\<close>

fun request_word :: "request \<Rightarrow> string" where
  "request_word ReqNone = []"
| "request_word ReqAbout = ''about''"
| "request_word ReqConnections = ''connections''"
| "request_word ReqPing = ''ping''"
| "request_word ReqProxies = ''proxies''"
| "request_word ReqServices = ''services''"
| "request_word (ReqStart _ _) = ''start''"
| "request_word (ReqStop _) = ''stop''"
| "request_word ReqQuit = ''quit''"

fun request_args :: "request \<Rightarrow> arg_matches \<Rightarrow> bool" where
  "request_args (ReqStart name port) m \<longleftrightarrow> arg_service m = Some name \<and> arg_port m = Some port"
| "request_args (ReqStop name) m \<longleftrightarrow> arg_service m = Some name"
| "request_args _ _ \<longleftrightarrow> True"

text \<open>What \<open>shlex\<close> and \<open>clap\<close> make of a line.\<close>

definition line_matches :: "cli_lib \<Rightarrow> string \<Rightarrow> ((clap_error_kind \<times> string) + (string \<times> arg_matches) option) option" where
  "line_matches L line = map_option (try_get_matches_from L) (shlex_split L (trim line))"

lemma parse_request_line:
  "parse_request L line =
     (case line_matches L line of
        None \<Rightarrow> Err (GenWithCodeAndMsg CODE_BAD_REQUEST (''Invalid command line: line='' @ trim line))
      | Some (Inl (k, msg)) \<Rightarrow> Err (GenWithCodeAndMsg (if k = OtherKind then CODE_BAD_REQUEST else CODE_OK) msg)
      | Some (Inr (Some (n, m))) \<Rightarrow> dispatch_subcommand n m
      | Some (Inr None) \<Rightarrow> Panic ''internal error: entered unreachable code: subcommand required'')"
  by (auto simp: parse_request_def line_matches_def Let_def split: option.splits sum.splits prod.splits clap_error_kind.splits)

lemma dispatch_Ok: "dispatch_subcommand n m = Ok req \<longleftrightarrow> n = request_word req \<and> request_args req m"
  by (cases req) (auto simp: dispatch_subcommand_def parse_start_request_def parse_stop_request_def request_names split: option.splits)

lemma dispatch_Err:
  assumes "n \<in> request_words"
  shows "dispatch_subcommand n m = Err e \<longleftrightarrow>
    n \<in> {''start'', ''stop''} \<and> arg_service m = None \<and> e = General (''Service name is required for the \"'' @ n @ ''\" command'') \<or>
    n = ''start'' \<and> arg_service m \<noteq> None \<and> arg_port m = None \<and> e = General ''Local port is required for the \"start\" command''"
  using assms by (auto simp: dispatch_subcommand_def parse_start_request_def parse_stop_request_def request_names split: option.splits)

lemma clap_ok_line:
  assumes "clap_ok create_command L"
  shows "line_matches L line \<noteq> Some (Inr None)" "line_matches L line = Some (Inr (Some (n, m))) \<Longrightarrow> n \<in> request_words"
  using clap_ok_some[OF assms] clap_ok_name[OF assms] command_names by (auto simp: line_matches_def)

text \<open>
  C30: with \<open>clap\<close> behaving as documented for the program's command description, the outcome of parsing a line
  is known exactly.  The line is taken for a request just when \<open>clap\<close> matches it to the word of that request
  with the arguments of that request, so that each of the eight requests has its own word and the empty
  request never comes out.  It is refused in just these cases: with code 400 a line that cannot be
  split into words and a line \<open>clap\<close> refuses, with code 200 a line that asks for a help or version text,
  without a code a \<open>start\<close> or \<open>stop\<close> that leaves out the service or the port.  There is no panic.
\<close>

theorem parse_request_exact:
  assumes "clap_ok create_command L"
  shows "(parse_request L line = Ok req \<longleftrightarrow> req \<noteq> ReqNone \<and> (\<exists>m. line_matches L line = Some (Inr (Some (request_word req, m))) \<and> request_args req m)) \<and>
    (parse_request L line = Err e \<longleftrightarrow>
       line_matches L line = None \<and> e = GenWithCodeAndMsg 400 (''Invalid command line: line='' @ trim line) \<or>
       (\<exists>msg. line_matches L line = Some (Inl (OtherKind, msg)) \<and> e = GenWithCodeAndMsg 400 msg) \<or>
       (\<exists>k msg. k \<in> {DisplayHelp, DisplayVersion} \<and> line_matches L line = Some (Inl (k, msg)) \<and> e = GenWithCodeAndMsg 200 msg) \<or>
       (\<exists>n m. line_matches L line = Some (Inr (Some (n, m))) \<and> n \<in> {''start'', ''stop''} \<and> arg_service m = None \<and>
          e = General (''Service name is required for the \"'' @ n @ ''\" command'')) \<or>
       (\<exists>m. line_matches L line = Some (Inr (Some (''start'', m))) \<and> arg_service m \<noteq> None \<and> arg_port m = None \<and>
          e = General ''Local port is required for the \"start\" command'')) \<and>
    (\<forall>p. parse_request L line \<noteq> Panic p)"
proof (cases "line_matches L line")
  case None
  then show ?thesis by (auto simp: parse_request_line CODE_BAD_REQUEST_def)
next
  case (Some r)
  show ?thesis
  proof (cases r)
    case (Inl km)
    then show ?thesis using Some by (cases km; cases "fst km") (auto simp: parse_request_line CODE_BAD_REQUEST_def CODE_OK_def)
  next
    case (Inr sub)
    then obtain n m where sub: "sub = Some (n, m)" using Some clap_ok_line(1)[OF assms] by (cases sub) auto
    have n: "n \<in> request_words" using clap_ok_line(2)[OF assms] Some Inr sub by blast
    have p: "parse_request L line = dispatch_subcommand n m" using Some Inr sub by (simp add: parse_request_line)
    have "n \<noteq> []" using n by (auto simp: request_names)
    then have "req = ReqNone \<Longrightarrow> n \<noteq> request_word req" by auto
    moreover have "dispatch_subcommand n m \<noteq> Panic q" for q
      by (simp add: dispatch_subcommand_def parse_start_request_def parse_stop_request_def split: option.splits)
    ultimately show ?thesis using Some Inr sub by (auto simp: p dispatch_Ok dispatch_Err[OF n])
  qed
qed

theorem parse_request_exact_witness:
  "line_matches demo_cli ''stop -s chat'' = Some (Inr (Some (''stop'', \<lparr>arg_service = Some ''chat'', arg_port = None\<rparr>))) \<and>
   parse_request demo_cli ''stop -s chat'' = Ok (ReqStop ''chat'') \<and>
   parse_request demo_cli ''bogus'' = Err (GenWithCodeAndMsg 400 ''error'')"
proof -
  have m: "line_matches demo_cli ''stop -s chat'' = Some (Inr (Some (''stop'', \<lparr>arg_service = Some ''chat'', arg_port = None\<rparr>)))"
    and b: "line_matches demo_cli ''bogus'' = Some (Inl (OtherKind, ''error''))"
    by (simp_all add: line_matches_def demo_cli_def demo_matches_def trim_def is_white_def request_names)
  from parse_request_exact[OF demo_cli_ok, where line = "''stop -s chat''" and req = "ReqStop ''chat''"] m
  have "parse_request demo_cli ''stop -s chat'' = Ok (ReqStop ''chat'')" by auto
  moreover from parse_request_exact[OF demo_cli_ok, where line = "''bogus''" and e = "GenWithCodeAndMsg 400 ''error''"] b
  have "parse_request demo_cli ''bogus'' = Err (GenWithCodeAndMsg 400 ''error'')" by auto
  ultimately show ?thesis using m by blast
qed

text \<open>
  A \<open>start\<close> request that comes out of the parser names a service and asks for a local port
  different from 0.
\<close>

theorem parse_start_port_nonzero:
  assumes "clap_ok create_command L" and "parse_request L line = Ok (ReqStart svc port)"
  shows "port \<noteq> 0"
proof -
  from assms(2) obtain args n m where
    m: "try_get_matches_from L args = Inr (Some (n, m))" and d: "dispatch_subcommand n m = Ok (ReqStart svc port)"
    by (auto simp: parse_request_def Let_def split: option.splits sum.splits prod.splits clap_error_kind.splits)
  from dispatch_start[OF d] clap_ok_port[OF assms(1) m] show ?thesis by simp
qed

theorem parse_start_port_nonzero_witness:
  "clap_ok create_command demo_cli \<and>
   parse_request demo_cli ''start -s chat -p 8501'' = Ok (ReqStart ''chat'' 8501) \<and> (8501 :: u16) \<noteq> 0"
proof -
  have p: "parse_request demo_cli ''start -s chat -p 8501'' = Ok (ReqStart ''chat'' 8501)"
    by (simp add: parse_request_def demo_cli_def demo_matches_def trim_def is_white_def request_names
        parse_u16_def parse_uint_def is_digit_def digits_val_def digit_val_def
        dispatch_subcommand_def parse_start_request_def)
  show ?thesis using demo_cli_ok p parse_start_port_nonzero[OF demo_cli_ok p] by blast
qed

end
