(* ===== verification/T0_Response.thy ===== *)
theory T0_Response
  imports T0_Request T0_Model
begin

text \<open>
  \<open>crates/common/src/control/response.rs\<close>: the control plane response and the objects it
  carries, and the conversions between the data base's services and the services shown to
  clients.  \<open>serde_json\<close> is not part of the repository: its functions, at the types the
  program uses them, are the fields of the parameter record \<open>serde\<close> over the type \<open>'v\<close> of its
  \<open>Value\<close>s.  \<open>serde_ok\<close> collects what its documentation says of derived implementations.
\<close>

record 'v response =
  rsp_code :: u16
  rsp_message :: "string option"
  rsp_request :: request
  rsp_data :: "'v option"

definition new_response :: "u16 \<Rightarrow> string option \<Rightarrow> request \<Rightarrow> 'v option \<Rightarrow> 'v response" where
  "new_response code message request data =
     \<lparr>rsp_code = code, rsp_message = message, rsp_request = request, rsp_data = data\<rparr>"

record resp_user =
  ru_user_id :: u64
  ru_name :: string
  ru_status :: string

definition new_resp_user :: "u64 \<Rightarrow> string \<Rightarrow> string \<Rightarrow> resp_user" where
  "new_resp_user uid name status = \<lparr>ru_user_id = uid, ru_name = name, ru_status = status\<rparr>"

record about =
  ab_cert_subject :: "string option"
  ab_cert_alt_subj :: "string option"
  ab_cert_context :: "string option"
  ab_user :: "resp_user option"

definition new_about :: "string option \<Rightarrow> string option \<Rightarrow> string option \<Rightarrow> resp_user option \<Rightarrow> about" where
  "new_about subj alt ctx u =
     \<lparr>ab_cert_subject = subj, ab_cert_alt_subj = alt, ab_cert_context = ctx, ab_user = u\<rparr>"

record resp_service =
  rs_id :: u64
  rs_name :: string
  rs_transport :: transport
  rs_address :: "string option"

definition new_resp_service :: "u64 \<Rightarrow> string \<Rightarrow> transport \<Rightarrow> string option \<Rightarrow> resp_service" where
  "new_resp_service sid name tr address =
     \<lparr>rs_id = sid, rs_name = name, rs_transport = tr, rs_address = address\<rparr>"

record resp_proxy =
  rp_service :: resp_service
  rp_gateway_host :: "string option"
  rp_gateway_port :: u16
  rp_client_port :: "u16 option"

definition new_resp_proxy :: "resp_service \<Rightarrow> string option \<Rightarrow> u16 \<Rightarrow> u16 option \<Rightarrow> resp_proxy" where
  "new_resp_proxy sv host port cport =
     \<lparr>rp_service = sv, rp_gateway_host = host, rp_gateway_port = port, rp_client_port = cport\<rparr>"

record resp_connection =
  rc_service_name :: string
  rc_binds :: "string list list"

definition new_resp_connection :: "string \<Rightarrow> string list list \<Rightarrow> resp_connection" where
  "new_resp_connection name binds = \<lparr>rc_service_name = name, rc_binds = binds\<rparr>"

text \<open>\<open>serde_json\<close> at the program's types.\<close>

record 'v serde =
  to_value_user :: "resp_user \<Rightarrow> dyn_error + 'v"
  to_value_about :: "about \<Rightarrow> dyn_error + 'v"
  to_value_proxy :: "resp_proxy \<Rightarrow> dyn_error + 'v"
  to_value_proxies :: "resp_proxy list \<Rightarrow> dyn_error + 'v"
  to_value_service :: "resp_service \<Rightarrow> dyn_error + 'v"
  to_value_connection :: "resp_connection \<Rightarrow> dyn_error + 'v"
  from_value_proxy :: "'v \<Rightarrow> dyn_error + resp_proxy"
  from_value_service :: "'v \<Rightarrow> dyn_error + resp_service"
  from_value_connection :: "'v \<Rightarrow> dyn_error + resp_connection"
  array_value :: "'v list \<Rightarrow> 'v"
  as_array :: "'v \<Rightarrow> 'v list option"
  string_value :: "string \<Rightarrow> 'v"
  response_to_string :: "'v response \<Rightarrow> dyn_error + string"
  response_to_string_pretty :: "'v response \<Rightarrow> dyn_error + string"
  response_from_str :: "string \<Rightarrow> dyn_error + 'v response"

definition serde_ok :: "'v serde \<Rightarrow> bool" where
  "serde_ok S \<longleftrightarrow>
     (\<forall>x. \<exists>v. to_value_proxy S x = Inr v \<and> from_value_proxy S v = Inr x \<and> as_array S v = None) \<and>
     (\<forall>x. \<exists>v. to_value_service S x = Inr v \<and> from_value_service S v = Inr x \<and> as_array S v = None) \<and>
     (\<forall>x. \<exists>v. to_value_connection S x = Inr v \<and> from_value_connection S v = Inr x \<and> as_array S v = None) \<and>
     (\<forall>x. \<exists>v. to_value_about S x = Inr v) \<and>
     (\<forall>x. \<exists>v. to_value_user S x = Inr v) \<and>
     (\<forall>vs. as_array S (array_value S vs) = Some vs) \<and>
     (\<forall>ps vs. map (to_value_proxy S) ps = map Inr vs \<longrightarrow> to_value_proxies S ps = Inr (array_value S vs)) \<and>
     (\<forall>r. \<exists>t. response_to_string_pretty S r = Inr t) \<and>
     (\<forall>r. \<exists>t. response_to_string S r = Inr t \<and> t \<noteq> [])"

text \<open>The text of one response reads back as that response, on one line.\<close>

definition text_roundtrip :: "'v serde \<Rightarrow> 'v response \<Rightarrow> bool" where
  "text_roundtrip S r \<longleftrightarrow>
     (\<exists>t. response_to_string S r = Inr t \<and> response_from_str S t = Inr r \<and>
          CHR 0x0A \<notin> set t \<and> CHR 0x0D \<notin> set t)"

definition parse_response :: "'v serde \<Rightarrow> string \<Rightarrow> 'v response res" where
  "parse_response S data =
     map_err (\<lambda>err. GenWithMsgAndErr (''Failed to parse response JSON: val='' @ data) err) (response_from_str S data)"

text \<open>The \<open>TryInto<Value>\<close> conversions.\<close>

definition user_try_into :: "'v serde \<Rightarrow> resp_user \<Rightarrow> 'v res" where
  "user_try_into S x = map_err (GenWithMsgAndErr ''Error converting User to serde Value'') (to_value_user S x)"

definition about_try_into :: "'v serde \<Rightarrow> about \<Rightarrow> 'v res" where
  "about_try_into S x = map_err (GenWithMsgAndErr ''Error converting About to serde Value'') (to_value_about S x)"

definition proxy_try_into :: "'v serde \<Rightarrow> resp_proxy \<Rightarrow> 'v res" where
  "proxy_try_into S x = map_err (GenWithMsgAndErr ''Error converting Proxy to serde Value'') (to_value_proxy S x)"

definition service_try_into :: "'v serde \<Rightarrow> resp_service \<Rightarrow> 'v res" where
  "service_try_into S x = map_err (GenWithMsgAndErr ''Error converting Service to serde Value'') (to_value_service S x)"

definition connection_try_into :: "'v serde \<Rightarrow> resp_connection \<Rightarrow> 'v res" where
  "connection_try_into S x = map_err (GenWithMsgAndErr ''Error converting Connection to serde Value'') (to_value_connection S x)"

text \<open>The \<open>from_serde_value\<close> constructors: an array gives all its elements, any other value one.\<close>

definition proxies_from_value :: "'v serde \<Rightarrow> 'v \<Rightarrow> resp_proxy list res" where
  "proxies_from_value S value =
     (case as_array S value of
        Some values \<Rightarrow>
          collect_res (map (\<lambda>v. map_err (GenWithMsgAndErr ''Error converting serde Value::Array to Proxy'')
            (from_value_proxy S v)) values)
      | None \<Rightarrow>
          and_then (map_err (GenWithMsgAndErr ''Error converting serde Value to Proxy'') (from_value_proxy S value))
            (\<lambda>p. Ok [p]))"

definition services_from_value :: "'v serde \<Rightarrow> 'v \<Rightarrow> resp_service list res" where
  "services_from_value S value =
     (case as_array S value of
        Some values \<Rightarrow>
          collect_res (map (\<lambda>v. map_err (GenWithMsgAndErr ''Error converting serde Value to Service'')
            (from_value_service S v)) values)
      | None \<Rightarrow>
          and_then (map_err (GenWithMsgAndErr ''Error converting serde Value to Service'') (from_value_service S value))
            (\<lambda>p. Ok [p]))"

definition connections_from_value :: "'v serde \<Rightarrow> 'v \<Rightarrow> resp_connection list res" where
  "connections_from_value S value =
     (case as_array S value of
        Some values \<Rightarrow>
          collect_res (map (\<lambda>v. map_err (GenWithMsgAndErr ''Error converting serde Value to Connection'')
            (from_value_connection S v)) values)
      | None \<Rightarrow>
          and_then (map_err (GenWithMsgAndErr ''Error converting serde Value to Connection'') (from_value_connection S value))
            (\<lambda>p. Ok [p]))"

text \<open>\<open>From<&model::Service> for Service\<close> and back.\<close>

definition service_to_response :: "service \<Rightarrow> resp_service" where
  "service_to_response s =
     (let address = (if sv_host s \<noteq> [] then Some (sv_host s @ '':'' @ show_u16 (sv_port s)) else None)
      in new_resp_service (sv_service_id s) (sv_name s) (sv_transport s) address)"

definition service_from_response :: "resp_service \<Rightarrow> service" where
  "service_from_response v =
     (let (host, port) =
        (case rs_address v of
           Some address \<Rightarrow>
             (let addr_parts = split_on (CHR '':'') address in
              if length addr_parts = 2
              then (addr_parts ! 0, (case parse_u16 (addr_parts ! 1) of Some p \<Rightarrow> p | None \<Rightarrow> 0))
              else ([], 0))
         | None \<Rightarrow> ([], 0))
      in new_service (rs_id v) (rs_name v) (rs_transport v) host port)"

section \<open>An instance of the JSON parameter\<close>

datatype demo_value =
    DUser resp_user | DAbout about | DProxy resp_proxy | DService resp_service
  | DConnection resp_connection | DArray "demo_value list" | DString string

text \<open>\<open>r0\<close> is the response whose text is the line the instance parses.\<close>

definition demo_serde :: "demo_value response \<Rightarrow> demo_value serde" where
  "demo_serde r0 = \<lparr>
     to_value_user = Inr \<circ> DUser,
     to_value_about = Inr \<circ> DAbout,
     to_value_proxy = Inr \<circ> DProxy,
     to_value_proxies = (\<lambda>ps. Inr (DArray (map DProxy ps))),
     to_value_service = Inr \<circ> DService,
     to_value_connection = Inr \<circ> DConnection,
     from_value_proxy = (\<lambda>v. case v of DProxy p \<Rightarrow> Inr p | _ \<Rightarrow> Inl send_error),
     from_value_service = (\<lambda>v. case v of DService p \<Rightarrow> Inr p | _ \<Rightarrow> Inl send_error),
     from_value_connection = (\<lambda>v. case v of DConnection p \<Rightarrow> Inr p | _ \<Rightarrow> Inl send_error),
     array_value = DArray,
     as_array = (\<lambda>v. case v of DArray vs \<Rightarrow> Some vs | _ \<Rightarrow> None),
     string_value = DString,
     response_to_string = (\<lambda>r. if r = r0 then Inr ''{r0}'' else Inr ''{}''),
     response_to_string_pretty = (\<lambda>r. Inr ''{}''),
     response_from_str = (\<lambda>t. if t = ''{r0}'' then Inr r0 else Inl send_error)\<rparr>"

section \<open>Properties\<close>

lemma map_DProxy: "map (Inr \<circ> DProxy) ps = map Inr vs \<Longrightarrow> vs = map DProxy ps"
  by (induction ps arbitrary: vs) auto

lemma demo_serde_ok: "serde_ok (demo_serde r0)"
  by (auto simp: serde_ok_def demo_serde_def dest: map_DProxy)

lemma demo_text_roundtrip: "text_roundtrip (demo_serde r0) r0"
  by (simp add: text_roundtrip_def demo_serde_def)

lemma serde_proxy:
  assumes "serde_ok S"
  obtains v where "to_value_proxy S p = Inr v" "from_value_proxy S v = Inr p" "as_array S v = None"
  using assms unfolding serde_ok_def by blast

lemma serde_proxy_values:
  assumes "serde_ok S"
  obtains vs where "map (to_value_proxy S) ps = map Inr vs" "map (from_value_proxy S) vs = map Inr ps"
proof -
  have "\<exists>vs. map (to_value_proxy S) ps = map Inr vs \<and> map (from_value_proxy S) vs = map Inr ps"
  proof (induction ps)
    case Nil
    then show ?case by simp
  next
    case (Cons p ps)
    then obtain vs where "map (to_value_proxy S) ps = map Inr vs" "map (from_value_proxy S) vs = map Inr ps"
      by blast
    moreover obtain v where "to_value_proxy S p = Inr v" "from_value_proxy S v = Inr p"
      using serde_proxy[OF assms] by blast
    ultimately have "map (to_value_proxy S) (p # ps) = map Inr (v # vs) \<and>
      map (from_value_proxy S) (v # vs) = map Inr (p # ps)" by simp
    then show ?case by blast
  qed
  then show ?thesis using that by blast
qed

lemma proxies_from_single:
  assumes "serde_ok S" and "proxy_try_into S p = Ok v"
  shows "proxies_from_value S v = Ok [p]"
proof -
  from assms(2) have "to_value_proxy S p = Inr v"
    by (simp add: proxy_try_into_def map_err_Ok)
  with serde_proxy[OF assms(1), of p] have "from_value_proxy S v = Inr p" "as_array S v = None" by auto
  then show ?thesis by (simp add: proxies_from_value_def)
qed

lemma collect_map_err:
  "map f vs = map Inr ps \<Longrightarrow> collect_res (map (\<lambda>v. map_err g (f v)) vs) = Ok ps"
  by (induction vs arbitrary: ps) auto

lemma address_split:
  assumes "CHR '':'' \<notin> set h"
  shows "split_on (CHR '':'') (h @ '':'' @ show_u16 p) = [h, show_u16 p]"
proof -
  have "CHR '':'' \<notin> set (show_u16 p)"
    using show_nat_digits[of "unat p"] digit_not_colon by (fastforce simp: show_u16_def list_all_iff)
  with assms show ?thesis by (simp add: split_on_append split_on_notin)
qed

lemma address_split_colons:
  assumes "CHR '':'' \<in> set h"
  shows "length (split_on (CHR '':'') (h @ '':'' @ show_u16 p)) \<noteq> 2"
proof -
  have "filter ((=) (CHR '':'')) h \<noteq> []" using assms by (auto simp: filter_empty_conv)
  then have "0 < length (filter ((=) (CHR '':'')) h)" by simp
  then show ?thesis by (simp add: length_split_on)
qed

text \<open>
  a service sent to the client and converted back is the same service exactly when its host
  is non-empty and free of colons, or when it has neither host nor port.  In particular the
  address of a service with an IPv6 literal as its host is lost.
\<close>

theorem service_roundtrip_iff:
  "service_from_response (service_to_response s) = s \<longleftrightarrow>
     (sv_host s = [] \<and> sv_port s = 0) \<or> (sv_host s \<noteq> [] \<and> CHR '':'' \<notin> set (sv_host s))"
proof (cases "sv_host s = []")
  case True
  then show ?thesis
    by (cases s) (auto simp: service_from_response_def service_to_response_def new_resp_service_def new_service_def)
next
  case False
  show ?thesis
  proof (cases "CHR '':'' \<in> set (sv_host s)")
    case True
    with False address_split_colons[OF True, of "sv_port s"] show ?thesis
      by (cases s) (auto simp: service_from_response_def service_to_response_def new_resp_service_def
          new_service_def Let_def)
  next
    case notin: False
    with False address_split[OF notin, of "sv_port s"] show ?thesis
      by (cases s) (auto simp: service_from_response_def service_to_response_def new_resp_service_def
          new_service_def Let_def)
  qed
qed

text \<open>
  C33: a list of proxies that the gateway serialises into a JSON array is read back unchanged by
  the client, and a single serialised proxy is read back as the list of that proxy.
\<close>

theorem proxies_value_roundtrip:
  assumes "serde_ok S"
  shows "(\<exists>vs. collect_res (map (proxy_try_into S) ps) = Ok vs \<and>
            proxies_from_value S (array_value S vs) = Ok ps) \<and>
         (\<exists>v. proxy_try_into S p = Ok v \<and> proxies_from_value S v = Ok [p])"
proof
  obtain vs where vs: "map (to_value_proxy S) ps = map Inr vs" "map (from_value_proxy S) vs = map Inr ps"
    using serde_proxy_values[OF assms] by blast
  have "collect_res (map (proxy_try_into S) ps) = Ok vs"
    unfolding proxy_try_into_def using vs(1) by (rule collect_map_err)
  moreover have "proxies_from_value S (array_value S vs) = Ok ps"
  proof -
    have "as_array S (array_value S vs) = Some vs" using assms by (simp add: serde_ok_def)
    with collect_map_err[OF vs(2)] show ?thesis by (simp add: proxies_from_value_def)
  qed
  ultimately show "\<exists>vs. collect_res (map (proxy_try_into S) ps) = Ok vs \<and>
      proxies_from_value S (array_value S vs) = Ok ps" by blast
next
  obtain v where "to_value_proxy S p = Inr v" using serde_proxy[OF assms] by blast
  then have "proxy_try_into S p = Ok v" by (simp add: proxy_try_into_def)
  with proxies_from_single[OF assms this]
  show "\<exists>v. proxy_try_into S p = Ok v \<and> proxies_from_value S v = Ok [p]" by blast
qed

definition demo_proxy :: resp_proxy where
  "demo_proxy = new_resp_proxy (new_resp_service 203 ''chat'' TCP None) (Some ''localhost'') 8400 (Some 8501)"

theorem proxies_value_roundtrip_witness:
  "let S = demo_serde (new_response CODE_OK None ReqPing None) in
   serde_ok S \<and> (\<exists>vs. collect_res (map (proxy_try_into S) [demo_proxy, demo_proxy]) = Ok vs \<and>
      proxies_from_value S (array_value S vs) = Ok [demo_proxy, demo_proxy])"
  using demo_serde_ok proxies_value_roundtrip[OF demo_serde_ok, of _ "[demo_proxy, demo_proxy]"]
  by (auto simp: Let_def)

end
