(* ===== verification/T0_Gw_Control.thy ===== *)
theory T0_Gw_Control
  imports T0_Gw_Manager T0_Response
begin

text \<open>
  \<open>crates/gateway/src/client/controller.rs\<close>: the control plane.  A client's command line is parsed,
  executed against the repositories and the service manager, and answered with one line of JSON; and
  the handlers of \<open>client/connection.rs\<close> that feed it.
\<close>

section \<open>Commands\<close>

definition prepare_response :: "'v serde \<Rightarrow> u16 \<Rightarrow> string option \<Rightarrow> request \<Rightarrow> 'v option \<Rightarrow> string res" where
  "prepare_response S code message req data =
     map_err (GenWithMsgAndErr ''Error serializing response'') (response_to_string S (new_response code message req data))"

definition process_cmd_about :: "'v serde \<Rightarrow> app_config \<Rightarrow> control_plane \<Rightarrow> string res" where
  "process_cmd_about S cfg cp =
     (let dev = cp_device cp in
      and_then (user_get (cfg_user_repo cfg) (ctx_user_id (dv_cert_access_context dev))) (\<lambda>found.
      let u = map_option (\<lambda>u. new_resp_user (u_user_id u) (u_name u) (status_debug (u_status u))) found in
      and_then (about_try_into S (new_about (Some (attrs_debug (dv_cert_subj dev))) (Some (attrs_debug (dv_cert_alt_subj dev)))
                  (Some (context_debug (dv_cert_access_context dev))) u)) (\<lambda>data.
      prepare_response S CODE_OK None ReqAbout (Some data))))"

definition connection_of :: "bool \<Rightarrow> u64 \<Rightarrow> svc_visitor \<Rightarrow> resp_connection" where
  "connection_of mask_addrs uid vis =
     new_resp_connection (sv_name (sp_service vis))
       (map (\<lambda>addrs. if \<not> mask_addrs then [fst addrs, snd addrs] else [fst addrs]) (get_proxy_addrs_for_user vis uid))"

definition process_cmd_connections :: "'v serde \<Rightarrow> app_config \<Rightarrow> control_plane \<Rightarrow> gw_mgr \<Rightarrow> string res" where
  "process_cmd_connections S cfg cp mgr =
     and_then (collect_res (map (\<lambda>vis. connection_try_into S
         (connection_of (cfg_mask_addresses cfg) (u_user_id (cp_user cp)) vis)) (get_service_proxies mgr))) (\<lambda>conns.
       prepare_response S CODE_OK None ReqConnections (Some (array_value S conns)))"

definition user_proxies :: "control_plane \<Rightarrow> service_access list \<Rightarrow> gw_mgr \<Rightarrow> resp_proxy list" where
  "user_proxies cp accesses mgr =
     (let user_services = set (map ac_service_id accesses) in
      map (\<lambda>vis. new_resp_proxy (service_to_response (sp_service vis)) (sp_proxy_host vis) (sp_proxy_port vis) None)
        (filter (\<lambda>vis. sv_service_id (sp_service vis) \<in> user_services) (get_service_proxies mgr)))"

definition process_cmd_proxies :: "'v serde \<Rightarrow> app_config \<Rightarrow> control_plane \<Rightarrow> gw_mgr \<Rightarrow> string res" where
  "process_cmd_proxies S cfg cp mgr =
     and_then (access_get_all_for_user (cfg_access_repo cfg) (u_user_id (cp_user cp))) (\<lambda>accesses.
     and_then (collect_res (map (proxy_try_into S) (user_proxies cp accesses mgr))) (\<lambda>proxies.
       prepare_response S CODE_OK None ReqProxies (Some (array_value S proxies))))"

definition prepare_response_service :: "service \<Rightarrow> bool \<Rightarrow> resp_service" where
  "prepare_response_service svc mask_addrs =
     service_to_response (if mask_addrs then svc\<lparr>sv_host := [], sv_port := 0\<rparr> else svc)"

definition process_cmd_services :: "'v serde \<Rightarrow> app_config \<Rightarrow> control_plane \<Rightarrow> string res" where
  "process_cmd_services S cfg cp =
     and_then (access_get_all_for_user (cfg_access_repo cfg) (u_user_id (cp_user cp))) (\<lambda>accesses.
     and_then (collect_res (map (\<lambda>svc. service_try_into S (prepare_response_service svc (cfg_mask_addresses cfg)))
         (List.map_filter (\<lambda>a. hm_get (cp_services_by_id cp) (ac_service_id a)) accesses))) (\<lambda>services.
       prepare_response S CODE_OK None ReqServices (Some (array_value S services))))"

text \<open>What \<open>start\<close> checks before it calls the service manager.\<close>

definition start_service :: "app_config \<Rightarrow> control_plane \<Rightarrow> string \<Rightarrow> service res" where
  "start_service cfg cp service_name =
     and_then (ok_or (GenWithCodeAndMsg CODE_NOT_FOUND (''Unknown service: svc_name='' @ service_name))
                (hm_get (cp_services_by_name cp) service_name)) (\<lambda>svc.
     and_then (access_get (cfg_access_repo cfg) (u_user_id (cp_user cp)) (sv_service_id svc)) (\<lambda>access.
       if access = None then Err (GenWithCodeAndMsg CODE_FORBIDDEN (''User is not authorized for service: user_id='' @
         show_u64 (u_user_id (cp_user cp)) @ '', svc_id='' @ show_u64 (sv_service_id svc)))
       else Ok svc))"

definition process_cmd_start :: "bool \<Rightarrow> 'v serde \<Rightarrow> app_config \<Rightarrow> control_plane \<Rightarrow> string \<Rightarrow> u16 \<Rightarrow> (gw_mgr, string) sop" where
  "process_cmd_start chk S cfg cp service_name local_port mgr =
     (case start_service cfg cp service_name of
        Err e \<Rightarrow> (Err e, mgr)
      | Panic m \<Rightarrow> (Panic m, mgr)
      | Ok svc \<Rightarrow>
          (case mgr_startup chk cfg svc mgr of
             (Err e, mgr') \<Rightarrow> (Err e, mgr')
           | (Panic m, mgr') \<Rightarrow> (Panic m, mgr')
           | (Ok (host, port), mgr') \<Rightarrow>
               (and_then (proxy_try_into S (new_resp_proxy (prepare_response_service svc (cfg_mask_addresses cfg)) host port (Some local_port)))
                  (\<lambda>data. prepare_response S CODE_OK None (ReqStart service_name local_port) (Some data)), mgr')))"

definition process_cmd_stop :: "'v serde \<Rightarrow> control_plane \<Rightarrow> string \<Rightarrow> (gw_mgr, string) sop" where
  "process_cmd_stop S cp service_name mgr =
     (let uid = u_user_id (cp_user cp) in
      case hm_get (cp_services_by_name cp) service_name of
        None \<Rightarrow> (Err (GenWithCodeAndMsg CODE_NOT_FOUND (''Unknown service: svc_name='' @ service_name)), mgr)
      | Some svc \<Rightarrow>
          if \<not> has_proxy_for_user_and_service mgr uid (sv_service_id svc) then
            (Err (GenWithCodeAndMsg CODE_NOT_FOUND (''No active proxy found: user_id='' @ show_u64 uid @
               '', svc_id='' @ show_u64 (sv_service_id svc))), mgr)
          else case mgr_shutdown_connections (Some uid) (Some (sv_service_id svc)) mgr of
             (Err e, mgr') \<Rightarrow> (Err e, mgr')
           | (Panic m, mgr') \<Rightarrow> (Panic m, mgr')
           | (Ok _, mgr') \<Rightarrow> (prepare_response S CODE_OK None (ReqStop service_name) None, mgr'))"

definition process_cmd_quit :: "'v serde \<Rightarrow> (conn_event chan, string) sop" where
  "process_cmd_quit S ch =
     (case chan_send Closing ch of
        None \<Rightarrow> (Err (GenWithMsgAndErr ''Error sending closing event'' send_error), ch)
      | Some ch' \<Rightarrow> (prepare_response S CODE_OK None ReqQuit (Some (string_value S ''bye'')), ch'))"

section \<open>The request processor\<close>

type_synonym ctl_state = "conn_event chan \<times> gw_mgr"

text \<open>The command's answer, before errors are turned into responses.\<close>

definition run_request :: "bool \<Rightarrow> 'v serde \<Rightarrow> app_config \<Rightarrow> control_plane \<Rightarrow> request \<Rightarrow> (ctl_state, string) sop" where
  "run_request chk S cfg cp req st =
     (case st of (ch, mgr) \<Rightarrow>
      case req of
        ReqAbout \<Rightarrow> (process_cmd_about S cfg cp, ch, mgr)
      | ReqConnections \<Rightarrow> (process_cmd_connections S cfg cp mgr, ch, mgr)
      | ReqPing \<Rightarrow> (prepare_response S CODE_OK (Some ''pong'') ReqPing None, ch, mgr)
      | ReqProxies \<Rightarrow> (process_cmd_proxies S cfg cp mgr, ch, mgr)
      | ReqServices \<Rightarrow> (process_cmd_services S cfg cp, ch, mgr)
      | ReqStart name port \<Rightarrow> (case process_cmd_start chk S cfg cp name port mgr of (r, mgr') \<Rightarrow> (r, ch, mgr'))
      | ReqStop name \<Rightarrow> (case process_cmd_stop S cp name mgr of (r, mgr') \<Rightarrow> (r, ch, mgr'))
      | ReqQuit \<Rightarrow> (case process_cmd_quit S ch of (r, ch') \<Rightarrow> (r, ch', mgr))
      | ReqNone \<Rightarrow> (prepare_response S CODE_OK (Some []) ReqNone None, ch, mgr))"

definition error_response :: "'v serde \<Rightarrow> request \<Rightarrow> app_error \<Rightarrow> string" where
  "error_response S req err =
     (let r = (case get_code err of
          Some code \<Rightarrow>
            if code = CODE_BAD_REQUEST then prepare_response S code None req None
            else prepare_response S code (Some (err_to_string err)) req None
        | None \<Rightarrow> prepare_response S CODE_INTERNAL_SERVER_ERROR (Some (err_to_string err)) req None)
      in case r of Ok t \<Rightarrow> t | Err e \<Rightarrow> ''Error serializing error response: err='' @ err_debug e | Panic m \<Rightarrow> [])"

definition send_response :: "string \<Rightarrow> request \<Rightarrow> (ctl_state, request) sop" where
  "send_response text req st =
     (case st of (ch, mgr) \<Rightarrow>
      if text = [] then (Ok req, ch, mgr)
      else case chan_send (Write (bytes_of_text (text @ [CHR 0x0A]))) ch of
             Some ch' \<Rightarrow> (Ok req, ch', mgr)
           | None \<Rightarrow> (Err (GenWithMsgAndErr ''Error sending client stream write channel event'' send_error),
                       (case chan_send Closing ch of Some ch' \<Rightarrow> ch' | None \<Rightarrow> ch), mgr))"

definition process_request :: "bool \<Rightarrow> 'v serde \<Rightarrow> cli_lib \<Rightarrow> app_config \<Rightarrow> control_plane \<Rightarrow> string \<Rightarrow> (ctl_state, request) sop" where
  "process_request chk S C cfg cp command_line st =
     (case parse_request C command_line of
        Panic m \<Rightarrow> (Panic m, st)
      | Err err \<Rightarrow> send_response (error_response S ReqNone err) ReqNone st
      | Ok req \<Rightarrow>
          (case run_request chk S cfg cp req st of
             (Panic m, st') \<Rightarrow> (Panic m, st')
           | (Ok text, st') \<Rightarrow> send_response text req st'
           | (Err err, st') \<Rightarrow> send_response (error_response S req err) req st'))"

section \<open>The connection handlers\<close>

definition cv_on_connection_read :: "bool \<Rightarrow> 'v serde \<Rightarrow> cli_lib \<Rightarrow> app_config \<Rightarrow> bytes \<Rightarrow> ((client_visitor, gw_mgr) vstate, unit) sop" where
  "cv_on_connection_read chk S C cfg data st =
     (case st of (v, ch, mgr) \<Rightarrow>
      case cv_server_mode v of
        ModeProxy \<Rightarrow> (Ok (), v, ch, mgr)
      | ModeControlPlane \<Rightarrow>
          (case map_err (GenWithMsgAndErr ''Error converting client input as UTF8'') (from_utf8 data) of
             Err e \<Rightarrow> (Err e, v, ch, mgr)
           | Panic m \<Rightarrow> (Panic m, v, ch, mgr)
           | Ok text \<Rightarrow>
               (case cv_request_processor v of
                  None \<Rightarrow> (Panic ''called `Option::unwrap()` on a `None` value'', v, ch, mgr)
                | Some cp \<Rightarrow>
                    (case process_request chk S C cfg cp text (ch, mgr) of
                       (Ok _, ch', mgr') \<Rightarrow> (Ok (), v, ch', mgr')
                     | (Err e, ch', mgr') \<Rightarrow> (Err e, v, ch', mgr')
                     | (Panic m, ch', mgr') \<Rightarrow> (Panic m, v, ch', mgr')))))"

definition cv_on_shutdown :: "((client_visitor, gw_mgr) vstate, unit) sop" where
  "cv_on_shutdown st =
     (case st of (v, ch, mgr) \<Rightarrow>
      case cv_user v of
        None \<Rightarrow> (Panic ''called `Option::unwrap()` on a `None` value'', v, ch, mgr)
      | Some u \<Rightarrow> (case mgr_shutdown_connections (Some (u_user_id u)) None mgr of (r, mgr') \<Rightarrow> (r, v, ch, mgr')))"

definition client_conn_visitor :: "bool \<Rightarrow> 'v serde \<Rightarrow> cli_lib \<Rightarrow> app_config \<Rightarrow> (client_visitor, gw_mgr) conn_visitor" where
  "client_conn_visitor chk S C cfg = (client_conn_base cfg)
     \<lparr>on_connection_read := cv_on_connection_read chk S C cfg, on_shutdown := cv_on_shutdown\<rparr>"

text \<open>\<open>ControlPlaneServerVisitor::create_client_conn\<close>.\<close>

definition cp_create_client_conn :: "'a gw_lib \<Rightarrow> app_config \<Rightarrow> tls_stream \<Rightarrow> gw_conn res" where
  "cp_create_client_conn L cfg t =
     (case process_authorization L cfg t None (client_visitor_new cfg) of
        (Ok alpn, cv) \<Rightarrow> fst (conn_new (client_conn_base cfg) cv t (Some alpn) ())
      | (Err e, _) \<Rightarrow> Err e
      | (Panic m, _) \<Rightarrow> Panic m)"


section \<open>Every request is answered\<close>

lemma prepare_response_ok:
  assumes "serde_ok S"
  obtains t where "prepare_response S code msg req data = Ok t" "t \<noteq> []"
  using assms unfolding serde_ok_def prepare_response_def by (metis map_err_simps(2))

lemma error_response_nonempty:
  assumes "serde_ok S"
  shows "error_response S req err \<noteq> []"
proof -
  have p: "prepare_response S code msg r d \<noteq> Ok []" for code msg r d
    using prepare_response_ok[OF assms, of code msg r d] by force
  have q: "prepare_response S code msg r d \<noteq> Panic m" for code msg r d m
    by (simp add: prepare_response_def)
  show ?thesis by (auto simp: error_response_def Let_def p q split: option.splits res.splits)
qed

definition answer_ok :: "string res \<Rightarrow> bool" where
  "answer_ok r \<longleftrightarrow> (case r of Ok t \<Rightarrow> t \<noteq> [] | Err _ \<Rightarrow> True | Panic _ \<Rightarrow> False)"

lemma answer_prepare [simp]: "serde_ok S \<Longrightarrow> answer_ok (prepare_response S code msg req data)"
  by (rule prepare_response_ok[of S code msg req data]) (auto simp: answer_ok_def)

lemma answer_err [simp]: "answer_ok (Err e)"
  by (simp add: answer_ok_def)

lemma answer_and_then: "(\<And>m. r \<noteq> Panic m) \<Longrightarrow> (\<And>x. answer_ok (f x)) \<Longrightarrow> answer_ok (and_then r f)"
  by (cases r) auto

lemma collect_res_no_panic: "(\<And>x m. x \<in> set xs \<Longrightarrow> f x \<noteq> Panic m) \<Longrightarrow> collect_res (map f xs) \<noteq> Panic m"
proof (induction xs)
  case (Cons x xs)
  then have "f x \<noteq> Panic m" "collect_res (map f xs) \<noteq> Panic m" by auto
  then show ?case by (auto simp: and_then_Panic)
qed simp

lemma repo_get_no_panic [simp]:
  "user_get r u \<noteq> Panic m" "access_get a u s \<noteq> Panic m" "access_get_all_for_user a u \<noteq> Panic m"
  by (simp_all add: user_get_def access_get_def access_get_all_for_user_def repo_defs)

lemma try_into_no_panic [simp]:
  "about_try_into S x1 \<noteq> Panic m" "connection_try_into S x2 \<noteq> Panic m" "proxy_try_into S x3 \<noteq> Panic m"
  "service_try_into S x4 \<noteq> Panic m"
  by (simp_all add: about_try_into_def connection_try_into_def proxy_try_into_def service_try_into_def)

lemma read_commands_answer:
  assumes "serde_ok S"
  shows "answer_ok (process_cmd_about S cfg cp)" "answer_ok (process_cmd_connections S cfg cp mgr)"
    "answer_ok (process_cmd_proxies S cfg cp mgr)" "answer_ok (process_cmd_services S cfg cp)"
  using assms unfolding process_cmd_about_def process_cmd_connections_def process_cmd_proxies_def process_cmd_services_def Let_def
  by (intro answer_and_then; simp add: collect_res_no_panic)+

lemma start_service_no_panic: "start_service cfg cp name \<noteq> Panic m"
  by (auto simp: start_service_def and_then_Panic)

lemma startup_no_panic:
  "\<not> chk \<or> gm_next_service_port mgr \<noteq> - 1 \<Longrightarrow> mgr_startup chk cfg svc mgr \<noteq> (Panic m, mgr')"
  by (auto simp: mgr_startup_def allocate_port_def Let_def split: option.splits prod.splits res.splits if_splits)

lemma startup_shared:
  "mgr_startup chk cfg svc mgr = (r, mgr') \<Longrightarrow> gm_shared mgr' = gm_shared mgr"
  by (auto simp: mgr_startup_def allocate_port_def Let_def split: option.splits prod.splits res.splits if_splits)

text \<open>The manager's state a connection can rely on.\<close>

definition mgr_ready :: "gw_mgr \<Rightarrow> bool" where
  "mgr_ready mgr \<longleftrightarrow> mgr_inv mgr \<and> receiver_alive (gs_proxy_tasks (gm_shared mgr))"

lemma start_answers:
  assumes "serde_ok S" and "mgr_ready mgr" and "\<not> chk \<or> gm_next_service_port mgr \<noteq> - 1"
    and "process_cmd_start chk S cfg cp name port mgr = (r, mgr')"
  shows "answer_ok r \<and> mgr_ready mgr'"
proof (cases "start_service cfg cp name")
  case (Ok svc)
  obtain r1 m1 where s: "mgr_startup chk cfg svc mgr = (r1, m1)" by fastforce
  have i: "mgr_ready m1" using mgr_inv_startup[OF _ s] startup_shared[OF s] assms(2) by (simp add: mgr_ready_def)
  have "answer_ok (and_then (proxy_try_into S x) (\<lambda>data. prepare_response S CODE_OK None (ReqStart name port) (Some data)))" for x
    using assms(1) by (intro answer_and_then) simp_all
  with Ok s i assms(4) startup_no_panic[OF assms(3)] show ?thesis
    by (cases r1) (auto simp: process_cmd_start_def)
qed (use assms start_service_no_panic in \<open>auto simp: process_cmd_start_def\<close>)

lemma stop_answers:
  assumes "serde_ok S" and "mgr_ready mgr" and "process_cmd_stop S cp name mgr = (r, mgr')"
  shows "answer_ok r \<and> mgr_ready mgr'"
proof (cases "hm_get (cp_services_by_name cp) name")
  case (Some svc)
  let ?uid = "u_user_id (cp_user cp)"
  from mgr_shutdown_closes[of mgr "Some ?uid" "Some (sv_service_id svc)"] assms(2) obtain m1 where
    "mgr_shutdown_connections (Some ?uid) (Some (sv_service_id svc)) mgr = (Ok (), m1)" "mgr_ready m1"
    by (auto simp: mgr_ready_def)
  with Some assms show ?thesis by (auto simp: process_cmd_stop_def Let_def split: if_splits)
qed (use assms in \<open>auto simp: process_cmd_stop_def\<close>)

lemma run_request_answers:
  assumes "serde_ok S" and "mgr_ready mgr" and "receiver_alive ch" and "\<not> chk \<or> gm_next_service_port mgr \<noteq> - 1"
    and "run_request chk S cfg cp req (ch, mgr) = (r, ch', mgr')"
  shows "answer_ok r \<and> mgr_ready mgr' \<and> ch' = ch\<lparr>queue := queue ch @ (if req = ReqQuit then [Closing] else [])\<rparr>"
  using assms(2,3,5) read_commands_answer[OF assms(1)] start_answers[OF assms(1,2,4)] stop_answers[OF assms(1,2)] assms(1)
  by (cases req) (auto simp: run_request_def process_cmd_quit_def chan_send_def split: prod.splits)

lemma process_request_answers:
  assumes "serde_ok S" and "clap_ok create_command C" and "mgr_ready mgr" and "receiver_alive ch"
    and "\<not> chk \<or> gm_next_service_port mgr \<noteq> - 1"
  shows "\<exists>req text mgr'. process_request chk S C cfg cp line (ch, mgr) =
      (Ok req, ch\<lparr>queue := queue ch @ (if req = ReqQuit then [Closing] else []) @ [Write (bytes_of_text (text @ [CHR 0x0A]))]\<rparr>, mgr') \<and>
    text \<noteq> [] \<and> mgr_ready mgr' \<and> (parse_request C line = Ok req \<or> (req = ReqNone \<and> mgr' = mgr))"
proof (cases "parse_request C line")
  case (Panic m)
  with parse_request_outcome[OF assms(2), of line] show ?thesis by auto
next
  case (Err e)
  with assms(3,4) error_response_nonempty[OF assms(1), of ReqNone e] show ?thesis
    by (auto simp: process_request_def send_response_def chan_send_def)
next
  case (Ok req)
  obtain r ch' mgr' where rr: "run_request chk S cfg cp req (ch, mgr) = (r, ch', mgr')" by (metis prod.exhaust)
  note ra = run_request_answers[OF assms(1,3,4,5) rr]
  define ans where "ans = (case r of Ok t \<Rightarrow> t | Err e \<Rightarrow> error_response S req e | Panic m \<Rightarrow> [])"
  have "process_request chk S C cfg cp line (ch, mgr) = send_response ans req (ch', mgr')" "ans \<noteq> []"
    using Ok rr ra error_response_nonempty[OF assms(1)]
    by (auto simp: process_request_def ans_def answer_ok_def split: res.splits)
  with Ok ra assms(4) show ?thesis
    by (auto simp: send_response_def chan_send_def)
qed

text \<open>
  C14: whatever line a client sends, the control plane answers it: the processor does not fail, it queues exactly
  one write for the client, a non-empty text closed by a newline, and the service manager is left in a
  consistent state.  For \<open>quit\<close>, and only for it, the event that closes the connection is queued too, ahead
  of the answer.  This holds while the connection's own channel and the executor of the proxies are alive, the maps of the
  manager agree, \<open>clap\<close> and \<open>serde_json\<close> behave as documented, and the build has no overflow checks or the counter of
  the service ports is not at 65535 (there a \<open>start\<close> panics, see \<open>startup_port_wraps\<close>).
\<close>

theorem control_plane_answers_every_line:
  assumes "serde_ok S" and "clap_ok create_command C" and "mgr_inv mgr"
    and "receiver_alive (gs_proxy_tasks (gm_shared mgr))" and "receiver_alive ch"
    and "\<not> chk \<or> gm_next_service_port mgr \<noteq> - 1"
  shows "\<exists>req text mgr' ch'. process_request chk S C cfg cp line (ch, mgr) = (Ok req, ch', mgr') \<and> text \<noteq> [] \<and>
    queue ch' = queue ch @ (if req = ReqQuit then [Closing] else []) @ [Write (bytes_of_text (text @ [CHR 0x0A]))] \<and>
    mgr_inv mgr'"
proof -
  have "mgr_ready mgr" using assms(3,4) by (simp add: mgr_ready_def)
  from process_request_answers[OF assms(1,2) this assms(5,6), of cfg cp line] obtain req ans mgr' where
    h: "process_request chk S C cfg cp line (ch, mgr) = (Ok req, ch\<lparr>queue := queue ch @
        (if req = ReqQuit then [Closing] else []) @ [Write (bytes_of_text (ans @ [CHR 0x0A]))]\<rparr>, mgr')"
      "ans \<noteq> []" "mgr_ready mgr'" by blast
  show ?thesis
    by (intro exI[of _ req] exI[of _ ans] exI[of _ mgr'] exI conjI, rule h(1), rule h(2)) (use h(3) in \<open>simp_all add: mgr_ready_def\<close>)
qed


definition demo_control_plane :: control_plane where
  "demo_control_plane = \<lparr>cp_device = demo_device 100, cp_user = new_user 100 ''ann'' Active,
     cp_services_by_id = [(203, demo_service)], cp_services_by_name = [(''echo'', demo_service)]\<rparr>"

lemma demo_mgr_inv: "mgr_inv demo_mgr"
  unfolding demo_mgr_def by (rule mgr_inv_new)

lemma demo_mgr_alive: "receiver_alive (gs_proxy_tasks (gm_shared demo_mgr))"
  by (simp add: demo_mgr_def gw_mgr_new_def new_chan_def demo_config_def)

definition demo_json :: "demo_value serde" where
  "demo_json = demo_serde (new_response CODE_OK None ReqNone None)"

lemma demo_json_ok: "serde_ok demo_json"
  unfolding demo_json_def by (rule demo_serde_ok)

theorem control_plane_answers_every_line_witness:
  "\<exists>req text mgr' ch'. process_request True demo_json demo_cli demo_config demo_control_plane ''bogus'' (new_chan, demo_mgr) =
     (Ok req, ch', mgr') \<and> text \<noteq> [] \<and>
     queue ch' = (if req = ReqQuit then [Closing] else []) @ [Write (bytes_of_text (text @ [CHR 0x0A]))]"
proof -
  have n: "\<not> True \<or> gm_next_service_port demo_mgr \<noteq> - 1" by (simp add: demo_mgr_def gw_mgr_new_def demo_config_def)
  have a: "receiver_alive (new_chan :: conn_event chan)" by (simp add: new_chan_def)
  have q: "queue (new_chan :: conn_event chan) = []" by (simp add: new_chan_def)
  from control_plane_answers_every_line[OF demo_json_ok demo_cli_ok demo_mgr_inv demo_mgr_alive a n, of demo_config
      demo_control_plane "''bogus''", unfolded q append_Nil] show ?thesis by blast
qed

section \<open>What a request may do\<close>

lemma startup_new_proxy:
  assumes "mgr_startup chk cfg svc mgr = (r, mgr')" and "get_service_proxy mgr sid = None" and "get_service_proxy mgr' sid \<noteq> None"
  shows "sid = sv_service_id svc"
  using assms
  by (auto simp: mgr_startup_def allocate_port_def get_service_proxy_def Let_def
      split: option.splits prod.splits res.splits if_splits)

lemma shutdown_visitors_keys:
  "shutdown_visitors uid sid vs sh errors = (r, vs', sh') \<Longrightarrow> map fst vs' = map fst vs"
  by (induction uid sid vs sh errors arbitrary: r vs' sh' rule: shutdown_visitors.induct)
    (fastforce simp: Let_def split: if_splits prod.splits res.splits)+

lemma shutdown_new_proxy:
  assumes "mgr_shutdown_connections uid sid mgr = (r, mgr')"
  shows "get_service_proxy mgr' i = None \<longleftrightarrow> get_service_proxy mgr i = None"
proof -
  obtain r1 vs sh where s: "shutdown_visitors uid sid (gm_service_proxy_visitors mgr) (gm_shared mgr) [] = (r1, vs, sh)"
    by (metis prod.exhaust)
  have "gm_service_proxy_visitors mgr' = vs"
    using assms s by (auto simp: mgr_shutdown_connections_def Let_def split: res.splits if_splits)
  with shutdown_visitors_keys[OF s] show ?thesis
    by (metis get_service_proxy_def hm_get_def list.set_map map_of_eq_None_iff)
qed

lemma stop_new_proxy:
  "process_cmd_stop S cp name mgr = (r, mgr') \<Longrightarrow> get_service_proxy mgr' i = None \<longleftrightarrow> get_service_proxy mgr i = None"
  by (auto simp: process_cmd_stop_def Let_def split: option.splits if_splits prod.splits res.splits dest: shutdown_new_proxy)

text \<open>
  C15: a request opens a service to connections only for a user who has access to it: when a proxy
  for a service exists after a request and did not before, the requesting user's access record for
  that service is in the access repository.
\<close>

theorem request_opens_only_granted_services:
  assumes "process_request chk S C cfg cp line (ch, mgr) = (r, ch', mgr')"
    and "get_service_proxy mgr sid = None" and "get_service_proxy mgr' sid \<noteq> None"
  shows "\<exists>a. access_get (cfg_access_repo cfg) (u_user_id (cp_user cp)) sid = Ok (Some a)"
proof -
  have "mgr' \<noteq> mgr" using assms(2,3) by auto
  then obtain req r1 where rr: "run_request chk S cfg cp req (ch, mgr) = (r1, fst (snd (run_request chk S cfg cp req (ch, mgr))), mgr')"
    using assms(1)
    by (auto simp: process_request_def send_response_def split: res.splits prod.splits if_splits option.splits)
      (metis prod.collapse snd_conv fst_conv)+
  have stop: "process_cmd_stop S cp name mgr \<noteq> (r2, mgr')" for name r2
    using stop_new_proxy[of S cp name mgr r2 mgr' sid] assms(2,3) by auto
  from rr \<open>mgr' \<noteq> mgr\<close> stop obtain name port r2 where st: "process_cmd_start chk S cfg cp name port mgr = (r2, mgr')"
    by (cases req) (auto simp: run_request_def split: prod.splits)
  then obtain svc where svc: "start_service cfg cp name = Ok svc" "\<exists>r3. mgr_startup chk cfg svc mgr = (r3, mgr')"
    using \<open>mgr' \<noteq> mgr\<close> by (auto simp: process_cmd_start_def split: res.splits prod.splits)
  then have "sid = sv_service_id svc" using startup_new_proxy assms(2,3) by blast
  with svc(1) show ?thesis by (auto simp: start_service_def res_simps split: if_splits)
qed


definition demo_started_mgr :: gw_mgr where
  "demo_started_mgr = snd (mgr_startup True demo_config demo_service demo_mgr)"

lemma demo_startup: "mgr_startup True demo_config demo_service demo_mgr = (Ok (Some ''gw'', 8500), demo_started_mgr)"
  by (simp add: demo_started_mgr_def mgr_startup_def allocate_port_def demo_mgr_def gw_mgr_new_def demo_config_def Let_def)

lemma demo_started_proxy: "get_service_proxy demo_mgr 203 = None" "get_service_proxy demo_started_mgr 203 \<noteq> None"
  by (simp_all add: demo_started_mgr_def mgr_startup_def allocate_port_def demo_mgr_def gw_mgr_new_def demo_config_def
      get_service_proxy_def demo_service_def new_service_def Let_def)

lemma demo_parse_start: "parse_request demo_cli ''start -s echo -p 8501'' = Ok (ReqStart ''echo'' 8501)"
  by (simp add: parse_request_def demo_cli_def demo_matches_def trim_def is_white_def request_names
      parse_u16_def parse_uint_def is_digit_def digits_val_def digit_val_def
      dispatch_subcommand_def parse_start_request_def)

lemma demo_start_service: "start_service demo_config demo_control_plane ''echo'' = Ok demo_service"
  by (simp add: start_service_def demo_control_plane_def hm_get_def access_get_def repo_defs demo_config_def new_user_def
      demo_service_def new_service_def)

lemma demo_process_start:
  "\<exists>r ch'. process_request True demo_json demo_cli demo_config demo_control_plane ''start -s echo -p 8501'' (new_chan, demo_mgr) =
     (r, ch', demo_started_mgr)"
proof -
  obtain r where "process_cmd_start True demo_json demo_config demo_control_plane ''echo'' 8501 demo_mgr = (r, demo_started_mgr)"
    by (simp add: process_cmd_start_def demo_start_service demo_startup)
  then show ?thesis
    by (cases r) (auto simp: process_request_def demo_parse_start run_request_def send_response_def split: option.splits)
qed

theorem request_opens_only_granted_services_witness:
  "\<exists>a. access_get (cfg_access_repo demo_config) (u_user_id (cp_user demo_control_plane)) 203 = Ok (Some a)"
proof -
  obtain r ch' where "process_request True demo_json demo_cli demo_config demo_control_plane ''start -s echo -p 8501'' (new_chan, demo_mgr) =
     (r, ch', demo_started_mgr)" using demo_process_start by blast
  from request_opens_only_granted_services[OF this demo_started_proxy] show ?thesis .
qed

text \<open>
  with address masking on, the services shown by \<open>services\<close> and \<open>start\<close> carry no address, but
  the \<open>proxies\<close> command still shows, for every proxy of a service the user may access, the host and
  port of the service itself; masking makes no difference to it.
\<close>

theorem masking_does_not_cover_proxies:
  assumes "vis \<in> set (get_service_proxies mgr)" and "a \<in> set accesses"
    and "ac_service_id a = sv_service_id (sp_service vis)" and "sv_host (sp_service vis) \<noteq> []"
  shows "rs_address (prepare_response_service svc True) = None \<and>
    (\<exists>p \<in> set (user_proxies cp accesses mgr).
       rs_address (rp_service p) = Some (sv_host (sp_service vis) @ '':'' @ show_u16 (sv_port (sp_service vis)))) \<and>
    process_cmd_proxies S (cfg\<lparr>cfg_mask_addresses := True\<rparr>) cp mgr = process_cmd_proxies S (cfg\<lparr>cfg_mask_addresses := False\<rparr>) cp mgr"
proof -
  have "new_resp_proxy (service_to_response (sp_service vis)) (sp_proxy_host vis) (sp_proxy_port vis) None \<in>
      set (user_proxies cp accesses mgr)"
    using assms(1-3) by (force simp: user_proxies_def Let_def)
  then show ?thesis using assms(4)
    by (force simp: prepare_response_service_def service_to_response_def new_resp_service_def new_resp_proxy_def
        process_cmd_proxies_def Let_def)
qed

theorem masking_does_not_cover_proxies_witness:
  "\<exists>p \<in> set (user_proxies demo_control_plane [new_access 100 203] demo_busy_mgr).
     rs_address (rp_service p) = Some (''host'' @ '':'' @ show_u16 8203)"
  using masking_does_not_cover_proxies[of demo_svc_visitor demo_busy_mgr "new_access 100 203" "[new_access 100 203]"
      demo_service demo_control_plane demo_json demo_config]
  by (simp add: get_service_proxies_def hm_values_def demo_busy_mgr_def demo_svc_visitor_def new_access_def new_service_def)

section \<open>Closing a control connection\<close>

definition conn_owner :: "client_visitor \<Rightarrow> gw_mgr \<Rightarrow> bool" where
  "conn_owner v mgr \<longleftrightarrow> cv_user v \<noteq> None \<and> mgr_ready mgr"

interpretation control_conn: quiet_visitor "client_conn_visitor chk S C cfg" conn_owner for chk S C cfg
proof
  fix v mgr ch assume "conn_owner v mgr"
  then obtain u where u: "cv_user v = Some u" and r: "mgr_inv mgr" "receiver_alive (gs_proxy_tasks (gm_shared mgr))"
    by (auto simp: conn_owner_def mgr_ready_def)
  from mgr_shutdown_closes[OF r, of "Some (u_user_id u)" None] obtain mgr' where
    "mgr_shutdown_connections (Some (u_user_id u)) None mgr = (Ok (), mgr')" "mgr_ready mgr'" by (auto simp: mgr_ready_def)
  with u show "\<exists>r v' w'. on_shutdown (client_conn_visitor chk S C cfg) (v, ch, mgr) = (r, v', ch, w') \<and> conn_owner v' w' \<and> (\<forall>m. r \<noteq> Panic m)"
    by (simp add: client_conn_visitor_def cv_on_shutdown_def conn_owner_def)
qed

lemma read_loop_eof:
  assumes "st_reads s = Inl e # rest" and "io_kind_of e = UnexpectedEof" and "receiver_alive ch"
  shows "read_conn_loop kind [] (s, ch) = (Ok [], s\<lparr>st_reads := rest\<rparr>, ch\<lparr>queue := queue ch @ [Closing]\<rparr>)"
  using assms by (subst read_conn_loop.simps) (simp add: sock_read_def)

text \<open>
  C29: when the peer of a control connection goes away (the TLS stream reports an unexpected end), nothing but
  writes is queued for the connection, and the operating system does not fail to shut its socket down, then the
  connection is closed within the same polling cycle: the cycle returns, without panic, after at most
  \<open>conn_weight c + 3\<close> rounds of its event loop, and the connection is marked closed.  The weight counts the queued
  events and, because a refused write is queued again, three for each outcome the operating system has in store
  for the writes.  (If the shutdown of the socket fails, the connection is not marked closed.)
\<close>

theorem lost_peer_closes_connection:
  assumes "st_reads (cn_stream c) = Inl e # rest" and "io_kind_of e = UnexpectedEof"
    and "receiver_alive (cn_events c)" and "queue (cn_events c) = map Write ds" and "st_shutdowns (cn_stream c) = []"
    and "cv_user (cn_visitor c) = Some u" and "mgr_inv mgr" and "receiver_alive (gs_proxy_tasks (gm_shared mgr))"
  shows "\<exists>c' mgr'. conn_poll_cycle (client_conn_visitor chk S C cfg) ''TLS'' (conn_weight c + 3) (c, mgr) = Some (Ok (), c', mgr') \<and>
    cn_closed c'"
proof -
  define c1 where "c1 = c\<lparr>cn_stream := (cn_stream c)\<lparr>st_reads := rest\<rparr>, cn_events := (cn_events c)\<lparr>queue := queue (cn_events c) @ [Closing]\<rparr>\<rparr>"
  have r: "conn_read (client_conn_visitor chk S C cfg) ''TLS'' (c, mgr) = (Ok [], c1, mgr)"
    using read_loop_eof[OF assms(1-3)] by (simp add: conn_read_def c1_def)
  have tick: "on_polling_cycle (client_conn_visitor chk S C cfg) x = (Ok (), x)" for x
    by (simp add: client_conn_visitor_def client_conn_base_def default_handler_def)
  have p: "conn_poll_cycle (client_conn_visitor chk S C cfg) ''TLS'' n (c, mgr) = conn_drain (client_conn_visitor chk S C cfg) ''TLS'' n (c1, mgr)" for n
    by (simp add: conn_poll_cycle_def r logged_def tick)
  have "conn_owner (cn_visitor c1) mgr" "receiver_alive (cn_events c1)" "conn_weight c1 < conn_weight c + 3" "winding_down c1"
    using assms(3-8) by (auto simp: c1_def conn_owner_def mgr_ready_def conn_weight_def winding_down_def)
  from control_conn.drain_closes[OF this, of chk S C cfg "''TLS''"] show ?thesis unfolding p by blast
qed

theorem lost_peer_closes_connection_witness:
  "let c = \<lparr>cn_visitor = (client_visitor_new demo_config)\<lparr>cv_user := Some (new_user 100 ''ann'' Active)\<rparr>,
         cn_stream = (demo_tls 100)\<lparr>st_reads := [Inl \<lparr>io_kind_of = UnexpectedEof, io_err_of = send_error\<rparr>]\<rparr>,
         cn_events = new_chan, cn_alpn = Some ControlPlane, cn_closed = False\<rparr> in
   \<exists>c' mgr'. conn_poll_cycle (client_conn_visitor True demo_json demo_cli demo_config) ''TLS'' (conn_weight c + 3) (c, demo_busy_mgr) =
     Some (Ok (), c', mgr') \<and> cn_closed c'"
  unfolding Let_def
  by (rule lost_peer_closes_connection[where ds = "[]" and rest = "[]" and u = "new_user 100 ''ann'' Active"
        and e = "\<lparr>io_kind_of = UnexpectedEof, io_err_of = send_error\<rparr>"])
    (simp_all add: demo_tls_def new_chan_def demo_busy_mgr_inv, simp add: demo_busy_mgr_def demo_shared_def new_chan_def)

end
