(* ===== verification/T0_Server.thy ===== *)
theory T0_Server
  imports T0_Conn
begin

text \<open>
  The servers of \<open>crates/common/src/net\<close>: \<open>tls_server/server_std.rs\<close>, \<open>tcp_server/server_std.rs\<close> and
  \<open>udp_server/server_std.rs\<close>.  The life cycle (bind, poll, shut down) is the same in the three; what one
  polling cycle does (accept a TLS connection, accept a TCP connection, receive a datagram) differs.

  The state \<open>'w\<close> is what the server's visitor and the other threads of the process share.  The
  results of the system calls and of the TLS library are arguments.
\<close>

record server =
  sr_listener :: bool
  sr_listen_addr :: string
  sr_polling :: bool
  sr_closing :: bool
  sr_closed :: bool

text \<open>
  The traits \<open>ServerVisitor\<close>: \<open>'i\<close> is what arrives, \<open>'c\<close> the connection made of it.  Of the TLS configuration that
  \<open>on_tls_handshaking\<close> returns for the client hello only matters here whether there is one.
\<close>

record ('i, 'c, 'w) server_visitor =
  create_client_conn :: "'i \<Rightarrow> ('w, 'c) sop"
  on_listening :: "('w, unit) sop"
  on_tls_handshaking :: "'i \<Rightarrow> ('w, unit) sop"
  on_conn_accepted :: "'c \<Rightarrow> ('w, unit) sop"
  get_shutdown_requested :: "'w \<Rightarrow> bool"

definition server_new :: "u16 \<Rightarrow> server" where
  "server_new port = \<lparr>sr_listener = False, sr_listen_addr = ''[::]:'' @ show_u16 port, sr_polling = False,
     sr_closing = False, sr_closed = False\<rparr>"

text \<open>\<open>bind\<close> and \<open>nonblocking\<close> are the results of the two system calls.\<close>

definition bind_listener ::
  "('i, 'c, 'w) server_visitor \<Rightarrow> dyn_error option \<Rightarrow> dyn_error option \<Rightarrow> (server \<times> 'w, unit) sop" where
  "bind_listener V bind nonblocking sw =
     (case sw of (s, w) \<Rightarrow>
      case bind of
        Some e \<Rightarrow> (Err (GenWithMsgAndErr (''Error setting up listener: server_addr='' @ sr_listen_addr s) e), s, w)
      | None \<Rightarrow>
          (case nonblocking of
             Some e \<Rightarrow> (Err (GenWithMsgAndErr (''Failed making listener non-blocking: server_addr='' @ sr_listen_addr s) e), s, w)
           | None \<Rightarrow>
               (case on_listening V w of
                  (r, w') \<Rightarrow> (r, s\<lparr>sr_listener := True, sr_closing := False, sr_closed := False, sr_polling := False\<rparr>, w'))))"

definition perform_server_shutdown :: "server \<Rightarrow> server" where
  "perform_server_shutdown s = s\<lparr>sr_closing := True, sr_closed := True, sr_polling := False, sr_listener := False\<rparr>"

definition server_shutdown :: "server \<Rightarrow> server" where
  "server_shutdown s = (if \<not> sr_polling s then perform_server_shutdown s else s\<lparr>sr_polling := False\<rparr>)"

definition stop_poller :: "server \<Rightarrow> server" where
  "stop_poller s = s\<lparr>sr_polling := False\<rparr>"

definition assert_listening :: "server \<Rightarrow> unit res" where
  "assert_listening s = (if \<not> sr_listener s then Err (General ''Gateway not listening'') else Ok ())"

section \<open>Accepting\<close>

definition accept_error :: "server \<Rightarrow> io_error \<Rightarrow> app_error" where
  "accept_error s e =
     (if io_kind_of e = KWouldBlock then WouldBlock
      else GenWithMsgAndErr (''Error accepting connection: server_addr='' @ debug_str (sr_listen_addr s)) (io_err_of e))"

text \<open>The end of both \<open>accept\<close> functions: the visitor makes the connection and takes it over.\<close>

definition hand_over :: "('i, 'c, 'w) server_visitor \<Rightarrow> 'i \<Rightarrow> ('w, unit) sop" where
  "hand_over V i = sop_bind (create_client_conn V i) (on_conn_accepted V)"

text \<open>
  A TCP connection that has been accepted, and how its TLS handshake will go: the result of each
  round of reading the client hello (the read fails; the hello is bad; it is complete or not), and the
  errors of the later steps.
\<close>

record 'i incoming =
  in_stream :: 'i
  in_peer :: string
  in_hello :: "nat \<Rightarrow> dyn_error + dyn_error + bool"
  in_into_connection :: "dyn_error option"
  in_complete_io :: "dyn_error option"
  in_nonblocking :: "dyn_error option"

text \<open>The loop that reads the client hello, with fuel; \<open>None\<close> when it does not end within it.\<close>

fun read_client_hello :: "string \<Rightarrow> (nat \<Rightarrow> dyn_error + dyn_error + bool) \<Rightarrow> nat \<Rightarrow> nat \<Rightarrow> unit res option" where
  "read_client_hello ctx hello i 0 = None"
| "read_client_hello ctx hello i (Suc n) =
     (case hello i of
        Inl _ \<Rightarrow> Some (Panic ''called `Result::unwrap()` on an `Err` value'')
      | Inr (Inl e) \<Rightarrow> Some (Err (GenWithMsgAndErr (''Error reading TLS client hello: '' @ ctx) e))
      | Inr (Inr True) \<Rightarrow> Some (Ok ())
      | Inr (Inr False) \<Rightarrow> read_client_hello ctx hello (Suc i) n)"

definition fail_if :: "string \<Rightarrow> dyn_error option \<Rightarrow> unit res" where
  "fail_if msg e = (case e of Some err \<Rightarrow> Err (GenWithMsgAndErr msg err) | None \<Rightarrow> Ok ())"

definition tls_accept ::
  "('i, 'c, 'w) server_visitor \<Rightarrow> nat \<Rightarrow> io_error + 'i incoming \<Rightarrow> server \<Rightarrow> 'w \<Rightarrow> (unit res \<times> 'w) option" where
  "tls_accept V fuel inc s w =
     (case inc of
        Inl e \<Rightarrow> Some (Err (accept_error s e), w)
      | Inr x \<Rightarrow>
          (let ctx = ''server_addr='' @ debug_str (sr_listen_addr s) @ '', peer_addr='' @ in_peer x in
           case read_client_hello ctx (in_hello x) 0 fuel of
             None \<Rightarrow> None
           | Some r \<Rightarrow> Some
               (sop_bind (sop_lift r) (\<lambda>_.
                sop_bind (on_tls_handshaking V (in_stream x)) (\<lambda>_.
                sop_bind (sop_lift (fail_if (''Error creating TLS server connection: '' @ ctx) (in_into_connection x))) (\<lambda>_.
                sop_bind (sop_lift (fail_if (''Error completing TLS server connection: '' @ ctx) (in_complete_io x))) (\<lambda>_.
                sop_bind (sop_lift (fail_if (''Failed making socket non-blocking: '' @ ctx) (in_nonblocking x))) (\<lambda>_.
                hand_over V (in_stream x)))))) w)))"

definition tcp_accept ::
  "('i, 'c, 'w) server_visitor \<Rightarrow> io_error + 'i incoming \<Rightarrow> server \<Rightarrow> 'w \<Rightarrow> (unit res \<times> 'w) option" where
  "tcp_accept V inc s w =
     (case inc of
        Inl e \<Rightarrow> Some (Err (accept_error s e), w)
      | Inr x \<Rightarrow> Some
          (sop_bind (sop_lift (fail_if (''Failed making socket non-blocking: server_addr='' @ debug_str (sr_listen_addr s) @
             '', peer_addr='' @ in_peer x) (in_nonblocking x))) (\<lambda>_. hand_over V (in_stream x)) w))"

section \<open>Polling\<close>

text \<open>
  The polling loop over the arrivals it will see.  Each entry holds the outcome of one system call and
  what the other threads do to the shared state before the loop looks at the shutdown request.
  \<open>None\<close>: the loop is still polling (or stuck in an accept) when the list ends.
\<close>

fun poll_cycles ::
  "('i, 'c, 'w) server_visitor \<Rightarrow> ('x \<Rightarrow> server \<Rightarrow> 'w \<Rightarrow> (unit res \<times> 'w) option) \<Rightarrow> ('x \<times> ('w \<Rightarrow> 'w)) list \<Rightarrow>
   server \<Rightarrow> 'w \<Rightarrow> (unit res \<times> server \<times> 'w) option" where
  "poll_cycles V acc [] s w = None"
| "poll_cycles V acc ((inc, others) # rest) s w =
     (case acc inc s w of
        None \<Rightarrow> None
      | Some (Panic m, w') \<Rightarrow> Some (Panic m, s, w')
      | Some (_, w') \<Rightarrow>
          (let w2 = others w';
               s2 = (if get_shutdown_requested V w2 then s\<lparr>sr_polling := False, sr_closing := True\<rparr> else s) in
           if \<not> sr_polling s2
           then Some (Ok (), (if sr_closing s2 then perform_server_shutdown s2 else s2), w2)
           else poll_cycles V acc rest s2 w2))"

definition poll_new_connections ::
  "('i, 'c, 'w) server_visitor \<Rightarrow> ('x \<Rightarrow> server \<Rightarrow> 'w \<Rightarrow> (unit res \<times> 'w) option) \<Rightarrow> ('x \<times> ('w \<Rightarrow> 'w)) list \<Rightarrow>
   server \<Rightarrow> 'w \<Rightarrow> (unit res \<times> server \<times> 'w) option" where
  "poll_new_connections V acc cycles s w =
     (case assert_listening s of
        Err e \<Rightarrow> Some (Err e, s, w)
      | Panic m \<Rightarrow> Some (Panic m, s, w)
      | Ok _ \<Rightarrow>
          if sr_polling s
          then Some (Err (General (''Already polling for new connections: server_addr='' @ debug_str (sr_listen_addr s))), s, w)
          else poll_cycles V acc cycles (s\<lparr>sr_polling := True\<rparr>) w)"

text \<open>The thread \<open>spawn_connection_processor\<close> starts: poll the connection, then make sure it is shut down.\<close>

definition connection_processor ::
  "('v, 'w) conn_visitor \<Rightarrow> string \<Rightarrow> nat \<Rightarrow> nat \<Rightarrow> ('v, 'z, 'w) cstate \<Rightarrow> (unit res \<times> ('v, 'z, 'w) cstate) option" where
  "connection_processor V kind fuel n cw =
     (case poll_connection V kind fuel n cw of
        None \<Rightarrow> None
      | Some (Panic m, cw') \<Rightarrow> Some (Panic m, cw')
      | Some (r, cw') \<Rightarrow>
          (case conn_shutdown V kind cw' of
             (Panic m, cw'') \<Rightarrow> Some (Panic m, cw'')
           | (r', cw'') \<Rightarrow> Some (case r of Err e \<Rightarrow> Err e | _ \<Rightarrow> r', cw'')))"

text \<open>The TLS server and the TCP server are the same code around their \<open>accept\<close>.\<close>

definition tls_server_poll_new where "tls_server_poll_new V fuel = poll_new_connections V (tls_accept V fuel)"
definition tcp_server_poll_new where "tcp_server_poll_new V = poll_new_connections V (tcp_accept V)"

definition tcp_srv_new :: "u16 \<Rightarrow> server" where "tcp_srv_new = server_new"
definition tcp_srv_bind_listener where "tcp_srv_bind_listener = bind_listener"
definition tcp_srv_shutdown :: "server \<Rightarrow> server" where "tcp_srv_shutdown = server_shutdown"
definition tcp_srv_stop_poller :: "server \<Rightarrow> server" where "tcp_srv_stop_poller = stop_poller"
definition tcp_srv_perform_shutdown :: "server \<Rightarrow> server" where "tcp_srv_perform_shutdown = perform_server_shutdown"
definition tcp_srv_assert_listening :: "server \<Rightarrow> unit res" where "tcp_srv_assert_listening = assert_listening"
definition tcp_connection_processor where "tcp_connection_processor V = connection_processor V ''TCP''"
definition tls_connection_processor where "tls_connection_processor V = connection_processor V ''TLS''"

lemmas tcp_srv_defs = tcp_srv_new_def tcp_srv_bind_listener_def tcp_srv_shutdown_def tcp_srv_stop_poller_def
  tcp_srv_perform_shutdown_def tcp_srv_assert_listening_def

section \<open>The datagram server\<close>

record 'w udp_visitor =
  on_message_received :: "string \<Rightarrow> string \<Rightarrow> bytes \<Rightarrow> ('w, unit) sop"
  udp_on_listening :: "('w, unit) sop"
  udp_get_shutdown_requested :: "'w \<Rightarrow> bool"

definition RECV_BUFFER_SIZE :: nat where "RECV_BUFFER_SIZE = 64 * 1024"

text \<open>\<open>SocketAddr::from_str\<close> accepts \<open>[::]:\<close> followed by any port.\<close>

definition udp_server_new :: "u16 \<Rightarrow> server res" where
  "udp_server_new port = Ok (server_new port)"

definition udp_bind_listener ::
  "'w udp_visitor \<Rightarrow> dyn_error option \<Rightarrow> dyn_error option \<Rightarrow> (server \<times> 'w, unit) sop" where
  "udp_bind_listener V bind nonblocking sw =
     (case sw of (s, w) \<Rightarrow>
      case and_then (fail_if (''Error binding UDP socket: server_addr='' @ sr_listen_addr s) bind) (\<lambda>_.
             fail_if (''Failed making UDP server socket non-blocking: server_addr='' @ sr_listen_addr s) nonblocking) of
        Err e \<Rightarrow> (Err e, s, w)
      | Panic m \<Rightarrow> (Panic m, s, w)
      | Ok _ \<Rightarrow>
          (case udp_on_listening V w of
             (r, w') \<Rightarrow> (r, s\<lparr>sr_listener := True, sr_closing := False, sr_closed := False, sr_polling := False\<rparr>, w')))"

definition udp_perform_shutdown :: "server \<Rightarrow> server" where
  "udp_perform_shutdown s = s\<lparr>sr_closing := True, sr_closed := True, sr_polling := False, sr_listener := False\<rparr>"

definition udp_shutdown :: "server \<Rightarrow> server" where
  "udp_shutdown s = (if \<not> sr_polling s then udp_perform_shutdown s else s\<lparr>sr_polling := False\<rparr>)"

definition udp_stop_poller :: "server \<Rightarrow> server" where
  "udp_stop_poller s = s\<lparr>sr_polling := False\<rparr>"

definition udp_assert_listening :: "server \<Rightarrow> unit res" where
  "udp_assert_listening s = (if \<not> sr_listener s then Err (General ''Gateway not listening'') else Ok ())"

text \<open>\<open>accept_message\<close>: at most one datagram per polling cycle; \<open>local\<close> is the socket's own address.\<close>

definition accept_message ::
  "'w udp_visitor \<Rightarrow> string option \<Rightarrow> io_error + string \<times> bytes \<Rightarrow> server \<Rightarrow> ('w, unit) sop" where
  "accept_message V local recv s w =
     (case recv of
        Inl e \<Rightarrow>
          (Err (if io_kind_of e = KWouldBlock then WouldBlock
                else GenWithMsgAndErr (''Error receiving message: server_addr='' @ sr_listen_addr s) (io_err_of e)), w)
      | Inr (peer_addr, data) \<Rightarrow>
          (case local of
             None \<Rightarrow> (Panic ''called `Result::unwrap()` on an `Err` value'', w)
           | Some a \<Rightarrow> on_message_received V a peer_addr (take RECV_BUFFER_SIZE data) w))"

text \<open>
  One round of \<open>poll_new_messages\<close>: a poll error stops the loop, a \<open>WouldBlock\<close> of the poll is ignored.
\<close>

fun udp_cycles ::
  "'w udp_visitor \<Rightarrow> string option \<Rightarrow> ((io_error + (io_error + string \<times> bytes)) \<times> ('w \<Rightarrow> 'w)) list \<Rightarrow>
   server \<Rightarrow> 'w \<Rightarrow> (unit res \<times> server \<times> 'w) option" where
  "udp_cycles V local [] s w = None"
| "udp_cycles V local ((ev, others) # rest) s w =
     (let (r, s1, w1) = (case ev of
          Inl e \<Rightarrow> if io_kind_of e = KWouldBlock then (Ok (), s, w) else (Ok (), s\<lparr>sr_polling := False\<rparr>, w)
        | Inr recv \<Rightarrow> (case accept_message V local recv s w of (r, w') \<Rightarrow> (r, s, w'))) in
      case r of
        Panic m \<Rightarrow> Some (Panic m, s1, w1)
      | _ \<Rightarrow>
          (let w2 = others w1;
               s2 = (if udp_get_shutdown_requested V w2 then s1\<lparr>sr_polling := False, sr_closing := True\<rparr> else s1) in
           if \<not> sr_polling s2
           then Some (Ok (), (if sr_closing s2 then udp_perform_shutdown s2 else s2), w2)
           else udp_cycles V local rest s2 w2))"

definition poll_new_messages ::
  "'w udp_visitor \<Rightarrow> string option \<Rightarrow> dyn_error option \<Rightarrow> dyn_error option \<Rightarrow> dyn_error option \<Rightarrow>
   ((io_error + (io_error + string \<times> bytes)) \<times> ('w \<Rightarrow> 'w)) list \<Rightarrow> server \<Rightarrow> 'w \<Rightarrow> (unit res \<times> server \<times> 'w) option" where
  "poll_new_messages V local clone_err poll_err register_err cycles s w =
     (case udp_assert_listening s of
        Err e \<Rightarrow> Some (Err e, s, w)
      | Panic m \<Rightarrow> Some (Panic m, s, w)
      | Ok _ \<Rightarrow>
          if sr_polling s
          then Some (Err (General (''Already polling for new messages: server_addr='' @ sr_listen_addr s)), s, w)
          else case and_then (fail_if ''Error trying to clone udp socket: socket=UdpSocket'' clone_err) (\<lambda>_.
                 and_then (fail_if ''Error creating new MIO poller'' poll_err) (\<lambda>_.
                 fail_if ''Error registering udp server socket in MIO registry'' register_err)) of
            Err e \<Rightarrow> Some (Err e, s, w)
          | Panic m \<Rightarrow> Some (Panic m, s, w)
          | Ok _ \<Rightarrow> udp_cycles V local cycles (s\<lparr>sr_polling := True\<rparr>) w)"

text \<open>\<open>send_message\<close> to a client address through the server's socket.\<close>

definition send_message :: "string \<Rightarrow> bytes \<Rightarrow> (udp_sock, nat) sop" where
  "send_message addr data u =
     (case us_sends u of
        Some e # r \<Rightarrow> (Err (GenWithMsgAndErr (''Error while sending message on UDP socket: dest='' @ addr) (io_err_of e)), u\<lparr>us_sends := r\<rparr>)
      | None # r \<Rightarrow> (Ok (length data), u\<lparr>us_sends := r, us_sent := us_sent u @ [(Some addr, data)]\<rparr>)
      | [] \<Rightarrow> (Ok (length data), u\<lparr>us_sent := us_sent u @ [(Some addr, data)]\<rparr>))"

definition clone_server_socket :: "udp_sock option \<Rightarrow> udp_sock res" where
  "clone_server_socket sock =
     (case sock of
        Some u \<Rightarrow> map_err (GenWithMsgAndErr ''Failed to clone UDP server socket'')
                    (case us_clone_err u of Some e \<Rightarrow> Inl e | None \<Rightarrow> Inr u)
      | None \<Rightarrow> Err (General ''Server socket not available for cloning''))"

section \<open>Properties\<close>

text \<open>
  A polling loop whose accepts always return ends in the cycle in which a shutdown request is seen, with the
  listener gone.
\<close>

definition server_down :: "server \<Rightarrow> bool" where
  "server_down s \<longleftrightarrow> \<not> sr_listener s \<and> \<not> sr_polling s \<and> sr_closed s"

lemma perform_shutdown_down [simp]: "server_down (perform_server_shutdown s)" "server_down (udp_perform_shutdown s)"
  by (simp_all add: server_down_def perform_server_shutdown_def udp_perform_shutdown_def)

lemma poll_cycles_run:
  assumes "\<And>i f s w. (i, f) \<in> set cycles \<Longrightarrow> I w \<Longrightarrow> \<exists>r w'. acc i s w = Some (r, w') \<and> (\<forall>m. r \<noteq> Panic m) \<and> I (f w')"
    and "(inc, others) \<in> set cycles" and "\<And>w. get_shutdown_requested V (others w)" and "sr_polling s" and "I w"
  shows "\<exists>s' w'. poll_cycles V acc cycles s w = Some (Ok (), s', w') \<and> server_down s' \<and> I w'"
  using assms(1,2,4,5)
proof (induction cycles arbitrary: s w)
  case Nil
  then show ?case by simp
next
  case (Cons x cycles)
  obtain i f where x: "x = (i, f)" by (cases x)
  obtain r w1 where a: "acc i s w = Some (r, w1)" "\<forall>m. r \<noteq> Panic m" "I (f w1)"
    using Cons.prems(1)[of i f w s] Cons.prems(4) x by auto
  show ?case
  proof (cases "get_shutdown_requested V (f w1)")
    case True
    with x a show ?thesis by (cases r) (simp_all add: Let_def)
  next
    case False
    then have "(inc, others) \<in> set cycles" using Cons.prems(2) x assms(3) by auto
    moreover have "\<exists>r w'. acc j s w = Some (r, w') \<and> (\<forall>m. r \<noteq> Panic m) \<and> I (g w')" if "(j, g) \<in> set cycles" "I w" for j g s w
      using Cons.prems(1)[of j g w s] that by simp
    ultimately show ?thesis using Cons.IH[of s "f w1"] x a False Cons.prems(3) by (cases r) (simp_all add: Let_def)
  qed
qed

lemma poll_cycles_ends:
  assumes "\<And>inc s w. \<exists>r w'. acc inc s w = Some (r, w') \<and> (\<forall>m. r \<noteq> Panic m)"
    and "(inc, others) \<in> set cycles" and "\<And>w. get_shutdown_requested V (others w)" and "sr_polling s"
  shows "\<exists>s' w'. poll_cycles V acc cycles s w = Some (Ok (), s', w') \<and> server_down s'"
  using poll_cycles_run[of cycles "\<lambda>_. True" acc inc others V s w] assms by simp

lemma udp_cycles_ends:
  assumes "\<And>a p d w m w'. on_message_received V a p d w \<noteq> (Panic m, w')" and "local = Some addr"
    and "(inc, others) \<in> set cycles" and "\<And>w. udp_get_shutdown_requested V (others w)" and "sr_polling s"
    and "\<And>e f. (Inl e, f) \<in> set cycles \<Longrightarrow> io_kind_of e = KWouldBlock"
  shows "\<exists>s' w'. udp_cycles V local cycles s w = Some (Ok (), s', w') \<and> server_down s'"
  using assms(3,5,6)
proof (induction cycles arbitrary: s w)
  case Nil
  then show ?case by simp
next
  case (Cons x cycles)
  obtain i f where x: "x = (i, f)" by (cases x)
  define round where "round = (case i of
          Inl e \<Rightarrow> if io_kind_of e = KWouldBlock then (Ok (), s, w) else (Ok (), s\<lparr>sr_polling := False\<rparr>, w)
        | Inr recv \<Rightarrow> (case accept_message V local recv s w of (r, w') \<Rightarrow> (r, s, w')))"
  have "\<exists>r w1. round = (r, s, w1) \<and> (\<forall>m. r \<noteq> Panic m)"
  proof (cases i)
    case (Inl e)
    with Cons.prems(3)[of e f] x show ?thesis by (simp add: round_def)
  next
    case (Inr recv)
    obtain r w1 where m: "accept_message V local recv s w = (r, w1)" by fastforce
    then have "\<forall>m. r \<noteq> Panic m" using assms(1,2) by (auto simp: accept_message_def split: sum.splits)
    with Inr m show ?thesis by (simp add: round_def)
  qed
  then obtain r w1 where a: "round = (r, s, w1)" "\<forall>m. r \<noteq> Panic m" by blast
  note a = a(1)[unfolded round_def] a(2)
  show ?case
  proof (cases "udp_get_shutdown_requested V (f w1)")
    case True
    with x a show ?thesis by (cases r) (simp_all add: Let_def)
  next
    case False
    then have "(inc, others) \<in> set cycles" using Cons.prems(1) x assms(4) by auto
    moreover have "io_kind_of e = KWouldBlock" if "(Inl e, g) \<in> set cycles" for e g
      using Cons.prems(3)[OF list.set_intros(2)[OF that]] .
    ultimately show ?thesis using Cons.IH[of s "f w1"] x a False Cons.prems(2) by (cases r) (simp_all add: Let_def)
  qed
qed


lemma hello_pending: "\<forall>i. hello i = Inr (Inr False) \<Longrightarrow> read_client_hello ctx hello i n = None"
  by (induction n arbitrary: i) simp_all

text \<open>
  C36: a TCP peer that never completes a TLS client hello keeps the accept loop of the TLS server:
  no amount of rounds ends the read of the hello, so the polling loop accepts nobody else and never
  looks at the shutdown request again.
\<close>

theorem silent_peer_blocks_server:
  assumes "sr_listener s" and "\<not> sr_polling s" and "\<forall>i. in_hello x i = Inr (Inr False)"
  shows "tls_server_poll_new V fuel ((Inr x, others) # rest) s w = None"
  using assms by (simp add: tls_server_poll_new_def poll_new_connections_def assert_listening_def tls_accept_def hello_pending Let_def)

definition demo_server_visitor :: "(nat, nat, bool) server_visitor" where
  "demo_server_visitor = \<lparr>create_client_conn = (\<lambda>i w. (Ok i, w)), on_listening = (\<lambda>w. (Ok (), w)),
     on_tls_handshaking = (\<lambda>i w. (Ok (), w)), on_conn_accepted = (\<lambda>c w. (Ok (), w)), get_shutdown_requested = (\<lambda>w. w)\<rparr>"

definition demo_incoming :: "nat incoming" where
  "demo_incoming = \<lparr>in_stream = 1, in_peer = ''10.0.0.7:4000'', in_hello = (\<lambda>_. Inr (Inr False)),
     in_into_connection = None, in_complete_io = None, in_nonblocking = None\<rparr>"

theorem silent_peer_blocks_server_witness:
  "tls_server_poll_new demo_server_visitor 1000 [(Inr demo_incoming, \<lambda>w. True)]
     ((server_new 8400)\<lparr>sr_listener := True\<rparr>) False = None"
  using silent_peer_blocks_server[of "(server_new 8400)\<lparr>sr_listener := True\<rparr>" demo_incoming demo_server_visitor 1000 "\<lambda>w. True" "[]" False]
  by (simp add: server_new_def demo_incoming_def)

end
