(* ===== verification/T0_Crypto.thy ===== *)
theory T0_Crypto
  imports T0_Text
begin

text \<open>
  \<open>crates/common/src/crypto/file.rs\<close>, \<open>crypto/tls.rs\<close>, \<open>crypto/x509.rs\<close> and \<open>file.rs\<close>: loading of certificates, keys and
  revocation lists, the reloading of a revocation list, and the names of TLS versions and cipher suites.
  The file system, the PEM parser and the constants of \<open>rustls\<close> are parameters.

  The revocation list of a \<open>CRLFile\<close> is a shared cell (an \<open>Arc<Mutex<..>>\<close>): the file object and the
  reloading thread each hold a reference to one.  The cells are a list, a reference is a position in it.
\<close>

record file_env =
  fe_open :: "string \<Rightarrow> dyn_error + (dyn_error + bytes)"
  fe_mtime :: "string \<Rightarrow> dyn_error + (dyn_error + nat)"
  fe_pem_certs :: "bytes \<Rightarrow> (dyn_error + bytes) list"
  fe_pem_pkcs8_keys :: "bytes \<Rightarrow> (dyn_error + bytes) list"

section \<open>Certificates and keys\<close>

text \<open>\<open>collect\<close> of results: the first error, or all values.\<close>

fun collect_io :: "(dyn_error + 'a) list \<Rightarrow> dyn_error + 'a list" where
  "collect_io [] = Inr []"
| "collect_io (Inl e # rs) = Inl e"
| "collect_io (Inr x # rs) = (case collect_io rs of Inl e \<Rightarrow> Inl e | Inr xs \<Rightarrow> Inr (x # xs))"

text \<open>A read error of the buffered reader reaches the PEM parser, which yields it as its only item.\<close>

definition pem_items :: "(bytes \<Rightarrow> (dyn_error + bytes) list) \<Rightarrow> dyn_error + bytes \<Rightarrow> (dyn_error + bytes) list" where
  "pem_items parse content = (case content of Inl e \<Rightarrow> [Inl e] | Inr data \<Rightarrow> parse data)"

definition load_certificates :: "file_env \<Rightarrow> string \<Rightarrow> bytes list res" where
  "load_certificates F filepath =
     (case map_err (GenWithMsgAndErr (''failed to open certificates file: file='' @ filepath)) (fe_open F filepath) of
        Ok content \<Rightarrow>
          map_err (GenWithMsgAndErr (''Failed parsing certificates: file='' @ filepath))
            (collect_io (pem_items (fe_pem_certs F) content))
      | Err e \<Rightarrow> Err e
      | Panic m \<Rightarrow> Panic m)"

definition verify_certificates :: "file_env \<Rightarrow> string \<Rightarrow> string res" where
  "verify_certificates F filepath = and_then (load_certificates F filepath) (\<lambda>_. Ok filepath)"

definition load_private_key :: "file_env \<Rightarrow> string \<Rightarrow> bytes res" where
  "load_private_key F filepath =
     (case map_err (IoWithMsg (''failed to open private key file: file='' @ filepath)) (fe_open F filepath) of
        Ok content \<Rightarrow>
          (case pem_items (fe_pem_pkcs8_keys F) content of
             [] \<Rightarrow> Err (General (''No PKCS8-encoded private key: file='' @ filepath))
           | [Inr key] \<Rightarrow> Ok key
           | [Inl err] \<Rightarrow> Err (General (''Invalid PKCS8 key: file='' @ filepath @ '', err='' @ debug_of err))
           | _ \<Rightarrow> Err (General (''More than one PKCS8-encoded private key: file='' @ filepath)))
      | Err e \<Rightarrow> Err e
      | Panic m \<Rightarrow> Panic m)"

definition verify_private_key_file :: "file_env \<Rightarrow> string \<Rightarrow> string res" where
  "verify_private_key_file F filepath = and_then (load_private_key F filepath) (\<lambda>_. Ok filepath)"

definition load_crl_list :: "file_env \<Rightarrow> string \<Rightarrow> bytes res" where
  "load_crl_list F filepath =
     (case map_err (IoWithMsg (''failed to open CRL file: file='' @ filepath)) (fe_open F filepath) of
        Ok content \<Rightarrow> map_err (IoWithMsg (''failed parsing CRL file: file='' @ debug_str filepath)) content
      | Err e \<Rightarrow> Err e
      | Panic m \<Rightarrow> Panic m)"

definition verify_crl_list :: "file_env \<Rightarrow> string \<Rightarrow> string res" where
  "verify_crl_list F filepath = and_then (load_crl_list F filepath) (\<lambda>_. Ok filepath)"

definition file_mtime :: "file_env \<Rightarrow> string \<Rightarrow> nat res" where
  "file_mtime F filepath =
     (case fe_mtime F filepath of
        Inr (Inr mtime) \<Rightarrow> Ok mtime
      | Inr (Inl err) \<Rightarrow> Err (GenWithMsgAndErr (''Error acquiring file metadata mtime: file='' @ debug_str filepath) err)
      | Inl err \<Rightarrow> Err (GenWithMsgAndErr (''Error acquiring CRL file metadata: file='' @ debug_str filepath) err))"

section \<open>Revocation lists\<close>

type_synonym crl_cells = "bytes option list"

definition cell_get :: "crl_cells \<Rightarrow> nat \<Rightarrow> bytes option" where
  "cell_get cells i = (if i < length cells then cells ! i else None)"

record crl_file =
  cf_path :: string
  cf_cell :: nat
  cf_reloading :: bool

definition crl_file_new :: "string \<Rightarrow> crl_cells \<Rightarrow> crl_file \<times> crl_cells" where
  "crl_file_new filepath cells = (\<lparr>cf_path = filepath, cf_cell = length cells, cf_reloading = False\<rparr>, cells @ [None])"

text \<open>The accessor: a list that is not there yet is loaded, into a new cell.\<close>

definition crl_list :: "file_env \<Rightarrow> (crl_file \<times> crl_cells, bytes) sop" where
  "crl_list F st =
     (case st of (f, cells) \<Rightarrow>
      case cell_get cells (cf_cell f) of
        Some crl \<Rightarrow> (Ok crl, f, cells)
      | None \<Rightarrow>
          (case load_crl_list F (cf_path f) of
             Ok crl \<Rightarrow> (Ok crl, f\<lparr>cf_cell := length cells\<rparr>, cells @ [Some crl])
           | Err e \<Rightarrow> (Err e, f, cells)
           | Panic m \<Rightarrow> (Panic m, f, cells)))"

text \<open>
  One step of the reloading thread over its own cell: \<open>on_critical\<close> is what the error handler does, a
  panic in the gateway's configuration.  The modification time is remembered before the file is read.
\<close>

definition process_list_reload :: "file_env \<Rightarrow> (app_error \<Rightarrow> string option) option \<Rightarrow> string \<Rightarrow> nat \<Rightarrow> (nat \<times> crl_cells, bool) sop" where
  "process_list_reload F on_critical filepath cell st =
     (case st of (last_mtime, cells) \<Rightarrow>
      case file_mtime F filepath of
        Err err \<Rightarrow>
          (case on_critical of
             Some h \<Rightarrow> (case h err of Some m \<Rightarrow> (Panic m, st) | None \<Rightarrow> (Err err, st))
           | None \<Rightarrow> (Err err, st))
      | Panic m \<Rightarrow> (Panic m, st)
      | Ok mtime \<Rightarrow>
          if last_mtime = mtime then (Ok False, st)
          else case load_crl_list F filepath of
            Ok crl \<Rightarrow> (Ok True, mtime, cells[cell := Some crl])
          | Err err \<Rightarrow> (Err (GenWithMsgAndErr (''Error loading CRL file: file='' @ debug_str filepath) (box_err err)), mtime, cells)
          | Panic m \<Rightarrow> (Panic m, mtime, cells))"

text \<open>
  The thread: one step per round, with the state of the file system in that round and whether the
  reloading was stopped before it.  It works on the cell the file object had when it was started.
\<close>

fun list_reloader :: "(app_error \<Rightarrow> string option) option \<Rightarrow> string \<Rightarrow> nat \<Rightarrow> (file_env \<times> bool) list \<Rightarrow> nat \<times> crl_cells \<Rightarrow> unit res \<times> nat \<times> crl_cells" where
  "list_reloader h filepath cell [] st = (Ok (), st)"
| "list_reloader h filepath cell ((F, stopped) # rounds) st =
     (if stopped then (Ok (), st)
      else case process_list_reload F h filepath cell st of
        (Panic m, st') \<Rightarrow> (Panic m, st')
      | (_, st') \<Rightarrow> list_reloader h filepath cell rounds st')"

definition spawn_list_reloader :: "(app_error \<Rightarrow> string option) option \<Rightarrow> (file_env \<times> bool) list \<Rightarrow> crl_file \<Rightarrow> crl_cells \<Rightarrow> unit res \<times> nat \<times> crl_cells" where
  "spawn_list_reloader h rounds f cells = list_reloader h (cf_path f) (cf_cell f) rounds (0, cells)"

definition stop_reloading :: "crl_file \<Rightarrow> crl_file" where
  "stop_reloading f = f\<lparr>cf_reloading := False\<rparr>"

section \<open>Names of versions and suites\<close>

datatype tls_version = TLS12 | TLS13

definition lookup_version :: "string \<Rightarrow> tls_version res" where
  "lookup_version version =
     (if version = ''1.2'' then Ok TLS12
      else if version = ''1.3'' then Ok TLS13
      else Err (General (''Invalid protocol version (valid values: '' @ [CHR 0x27] @ ''1.2'' @ [CHR 0x27] @ '', '' @ [CHR 0x27] @ ''1.3'' @
        [CHR 0x27] @ ''): ver='' @ version)))"

definition lookup_versions :: "string list \<Rightarrow> tls_version list res" where
  "lookup_versions names = collect_res (map lookup_version names)"

text \<open>\<open>to_lowercase\<close> is a parameter, as are the suites with the names \<open>rustls\<close> gives them.\<close>

definition lookup_suite :: "(string \<Rightarrow> string) \<Rightarrow> (string \<times> 's) list \<Rightarrow> string \<Rightarrow> 's res" where
  "lookup_suite lower suites name =
     (case find (\<lambda>(sname, _). lower sname = lower name) suites of
        Some (_, suite) \<Rightarrow> Ok suite
      | None \<Rightarrow> Err (General (''Invalid cipher suite: suite='' @ name)))"

definition lookup_suites :: "(string \<Rightarrow> string) \<Rightarrow> (string \<times> 's) list \<Rightarrow> string list \<Rightarrow> 's list res" where
  "lookup_suites lower suites names = collect_res (map (lookup_suite lower suites) names)"

definition tls_parse_alpn_protocol :: "string \<Rightarrow> bytes res" where
  "tls_parse_alpn_protocol name = Ok (bytes_of_text name)"

definition tls_parse_alpn_protocols :: "string list \<Rightarrow> bytes list res" where
  "tls_parse_alpn_protocols names = collect_res (map tls_parse_alpn_protocol names)"

section \<open>Lemmas\<close>

lemma load_private_key_Ok:
  "load_private_key F path = Ok key \<longleftrightarrow> (\<exists>content. fe_open F path = Inr content \<and> pem_items (fe_pem_pkcs8_keys F) content = [Inr key])"
  by (auto simp: load_private_key_def map_err_def split: sum.splits list.splits)

lemma cell_update_other: "i \<noteq> j \<Longrightarrow> cell_get (cells[i := v]) j = cell_get cells j"
  by (simp add: cell_get_def)

lemma process_reload_other:
  "process_list_reload F h path i st = (r, st') \<Longrightarrow> i \<noteq> j \<Longrightarrow>
     cell_get (snd st') j = cell_get (snd st) j \<and> length (snd st') = length (snd st)"
  by (auto simp: process_list_reload_def cell_update_other split: prod.splits res.splits option.splits if_splits)

lemma list_reloader_other:
  "list_reloader h path i rounds st = (r, st') \<Longrightarrow> i \<noteq> j \<Longrightarrow> cell_get (snd st') j = cell_get (snd st) j"
proof (induction rounds arbitrary: st)
  case Nil
  then show ?case by simp
next
  case (Cons x rounds)
  obtain F stopped where x: "x = (F, stopped)" by (cases x)
  obtain r1 st1 where p: "process_list_reload F h path i st = (r1, st1)"
    by (cases "process_list_reload F h path i st")
  note k = process_reload_other[OF p Cons.prems(2)]
  show ?case
  proof (cases stopped)
    case True
    with Cons.prems x show ?thesis by simp
  next
    case False
    with Cons.prems x p have "st' = st1 \<or> list_reloader h path i rounds st1 = (r, st')"
      by (cases r1) auto
    then show ?thesis using Cons.IH[of st1] Cons.prems(2) k by auto
  qed
qed

section \<open>Properties\<close>

text \<open>
  a changed revocation list takes effect while the file object still uses the cell of its
  reloading thread, and never otherwise.  When the list is asked for before the thread has loaded it
  for the first time, the object moves to a cell of its own: from then on it answers with the list it
  read then, whatever the file contains later and however often the thread reloads it.
\<close>

theorem crl_reload_visibility:
  assumes "cell_get cells (cf_cell f) = None" and "load_crl_list F (cf_path f) = Ok crl"
    and "crl_list F (f, cells) = (r, f1, cells1)" and "cf_cell f < length cells"
  shows "r = Ok crl \<and>
    (\<forall>h rounds m0 r' m cells2 G. list_reloader h (cf_path f) (cf_cell f) rounds (m0, cells1) = (r', m, cells2) \<longrightarrow>
       fst (crl_list G (f1, cells2)) = Ok crl) \<and>
    (\<forall>G H new m m' h cells2. process_list_reload G h (cf_path f) (cf_cell f) (m, cells) = (Ok True, m', cells2) \<and>
       load_crl_list G (cf_path f) = Ok new \<longrightarrow> fst (crl_list H (f, cells2)) = Ok new)"
proof -
  from assms(1-3) have e: "r = Ok crl" "f1 = f\<lparr>cf_cell := length cells\<rparr>" "cells1 = cells @ [Some crl]"
    by (auto simp: crl_list_def)
  have stale: "fst (crl_list G (f1, cells2)) = Ok crl"
    if "list_reloader h (cf_path f) (cf_cell f) rounds (m0, cells1) = (r', m, cells2)" for h rounds m0 r' m cells2 G
  proof -
    have "cell_get cells2 (length cells) = cell_get cells1 (length cells)"
      using list_reloader_other[OF that, of "length cells"] assms(4) by simp
    then have "cell_get cells2 (cf_cell f1) = Some crl" by (simp add: e cell_get_def)
    then show ?thesis by (simp add: crl_list_def)
  qed
  have fresh: "fst (crl_list H (f, cells2)) = Ok new"
    if "process_list_reload G h (cf_path f) (cf_cell f) (m, cells) = (Ok True, m', cells2)" "load_crl_list G (cf_path f) = Ok new"
    for G H new m m' h cells2
    using that assms(4) by (auto simp: process_list_reload_def crl_list_def cell_get_def split: res.splits option.splits if_splits)
  from e(1) stale fresh show ?thesis by blast
qed

definition demo_files :: "bytes \<Rightarrow> nat \<Rightarrow> file_env" where
  "demo_files content mtime = \<lparr>fe_open = (\<lambda>_. Inr (Inr content)), fe_mtime = (\<lambda>_. Inr (Inr mtime)),
     fe_pem_certs = (\<lambda>d. [Inr d]), fe_pem_pkcs8_keys = (\<lambda>d. [Inr d])\<rparr>"

theorem crl_reload_visibility_witness:
  "\<exists>f1 cells1 m cells2. crl_list (demo_files [1] 5) (crl_file_new ''crl'' []) = (Ok [1], f1, cells1) \<and>
     list_reloader None ''crl'' 0 [(demo_files [1, 2] 6, False)] (0, cells1) = (Ok (), m, cells2) \<and>
     cell_get cells2 0 = Some [1, 2] \<and> fst (crl_list (demo_files [1, 2] 6) (f1, cells2)) = Ok [1]"
proof -
  define f where "f = fst (crl_file_new ''crl'' [])"
  have f: "crl_file_new ''crl'' [] = (f, [None])" "cf_path f = ''crl''" "cf_cell f = 0" by (simp_all add: f_def crl_file_new_def)
  have l: "load_crl_list (demo_files [1] 5) (cf_path f) = Ok [1]" by (simp add: load_crl_list_def demo_files_def)
  obtain f1 cells1 where c: "crl_list (demo_files [1] 5) (f, [None]) = (Ok [1], f1, cells1)" "cells1 = [None, Some [1]]"
    using l f by (auto simp: crl_list_def cell_get_def)
  have r: "list_reloader None ''crl'' 0 [(demo_files [1, 2] 6, False)] (0, cells1) = (Ok (), 6, [Some [1, 2], Some [1]])"
    by (simp add: c(2) process_list_reload_def file_mtime_def load_crl_list_def demo_files_def)
  have "fst (crl_list (demo_files [1, 2] 6) (f1, [Some [1, 2], Some [1]])) = Ok [1]"
  proof -
    have n: "cell_get [None] (cf_cell f) = None" "cf_cell f < length [None :: bytes option]" by (simp_all add: f cell_get_def)
    have "\<forall>h rounds m0 r' m cells2 G. list_reloader h (cf_path f) (cf_cell f) rounds (m0, cells1) = (r', m, cells2) \<longrightarrow>
       fst (crl_list G (f1, cells2)) = Ok [1]"
      using crl_reload_visibility[OF n(1) l c(1) n(2)] by blast
    with r show ?thesis unfolding f by blast
  qed
  with c r f show ?thesis by (auto simp: cell_get_def)
qed

end
