(* ===== verification/T0_Gateway.thy ===== *)
theory T0_Gateway
  imports T0_Gw_Control T0_Server T0_Crypto
begin

text \<open>
  \<open>crates/gateway/src/gateway.rs\<close> and \<open>lib.rs\<close>: the gateway's TLS server visitor, which sends each new
  connection to the control plane or to the proxy of the service it names, and the main processor; and
  the gateway as a transition system, with the invariants of its reachable states.
\<close>

section \<open>The server visitor\<close>

text \<open>
  What changes of the TLS configuration while the gateway runs is the revocation list: the file object of
  the builder (\<open>TlsServerConfigBuilder\<close>) and the cells it shares with its reloading thread.
\<close>

type_synonym crl_state = "crl_file option \<times> crl_cells"

record gw_state =
  gws_mgr :: gw_mgr
  gws_shutdown_requested :: bool
  gws_crl :: crl_state
  gws_conns :: "gw_conn list"

definition gw_get_service_proxy :: "gw_mgr \<Rightarrow> u64 \<Rightarrow> svc_visitor res" where
  "gw_get_service_proxy mgr sid =
     ok_or (GenWithCodeAndMsg RESPCODE_0425_INACTIVE_SERVICE_PROXY (''Invalid service proxy: svc_id='' @ show_u64 sid))
       (get_service_proxy mgr sid)"

definition set_visitor :: "u64 \<Rightarrow> svc_visitor \<Rightarrow> gw_mgr \<Rightarrow> gw_mgr" where
  "set_visitor sid vis mgr = mgr\<lparr>gm_service_proxy_visitors := hm_insert sid vis (gm_service_proxy_visitors mgr)\<rparr>"

text \<open>A new connection at the visitor of one service, and its acceptance there.\<close>

definition create_at :: "'a gw_lib \<Rightarrow> app_config \<Rightarrow> u64 \<Rightarrow> tls_stream \<Rightarrow> (gw_state, gw_conn) sop" where
  "create_at L cfg sid t st =
     (case gw_get_service_proxy (gws_mgr st) sid of
        Err e \<Rightarrow> (Err e, st)
      | Panic m \<Rightarrow> (Panic m, st)
      | Ok vis \<Rightarrow>
          (case gsp_create_client_conn L cfg t vis of
             (r, vis') \<Rightarrow> (r, st\<lparr>gws_mgr := set_visitor sid vis' (gws_mgr st)\<rparr>)))"

definition accept_at :: "net_env \<Rightarrow> app_config \<Rightarrow> u64 \<Rightarrow> gw_conn \<Rightarrow> (gw_state, unit) sop" where
  "accept_at N cfg sid c st =
     (case gw_get_service_proxy (gws_mgr st) sid of
        Err e \<Rightarrow> (Err e, st)
      | Panic m \<Rightarrow> (Panic m, st)
      | Ok vis \<Rightarrow>
          (case gsp_on_conn_accepted N cfg c (vis, gm_shared (gws_mgr st)) of
             (r, vis', sh') \<Rightarrow> (r, st\<lparr>gws_mgr := (set_visitor sid vis' (gws_mgr st))\<lparr>gm_shared := sh'\<rparr>\<rparr>)))"

text \<open>
  The two halves of the acceptance, under the lock of the visitor: the task goes to the executor, then the
  proxy is registered.
\<close>

definition open_at :: "net_env \<Rightarrow> app_config \<Rightarrow> u64 \<Rightarrow> gw_conn \<Rightarrow> (gw_state, string) sop" where
  "open_at N cfg sid c st =
     (case gw_get_service_proxy (gws_mgr st) sid of
        Err e \<Rightarrow> (Err e, st)
      | Panic m \<Rightarrow> (Panic m, st)
      | Ok vis \<Rightarrow>
          (case gsp_open_proxy N cfg c (vis, gm_shared (gws_mgr st)) of
             (r, vis', sh') \<Rightarrow> (r, st\<lparr>gws_mgr := (set_visitor sid vis' (gws_mgr st))\<lparr>gm_shared := sh'\<rparr>\<rparr>)))"

definition register_at :: "u64 \<Rightarrow> string \<Rightarrow> proxy_addrs \<Rightarrow> (gw_state, unit) sop" where
  "register_at sid key addrs st =
     (case gw_get_service_proxy (gws_mgr st) sid of
        Err e \<Rightarrow> (Err e, st)
      | Panic m \<Rightarrow> (Panic m, st)
      | Ok vis \<Rightarrow>
          (case register_proxy key addrs (vis, gm_shared (gws_mgr st)) of
             (r, vis', sh') \<Rightarrow> (r, st\<lparr>gws_mgr := (set_visitor sid vis' (gws_mgr st))\<lparr>gm_shared := sh'\<rparr>\<rparr>)))"

definition gw_create_client_conn :: "'a gw_lib \<Rightarrow> app_config \<Rightarrow> tls_stream \<Rightarrow> (gw_state, gw_conn) sop" where
  "gw_create_client_conn L cfg t st =
     (case parse_alpn_protocol (gl_digits L) (tls_alpn_protocol t) of
        Err e \<Rightarrow> (Err e, st)
      | Panic m \<Rightarrow> (Panic m, st)
      | Ok ControlPlane \<Rightarrow> (cp_create_client_conn L cfg t, st)
      | Ok (Service sid) \<Rightarrow> create_at L cfg sid t st)"

text \<open>A control plane connection gets a thread of its own; here it joins the list of connections.\<close>

definition gw_on_conn_accepted :: "net_env \<Rightarrow> app_config \<Rightarrow> gw_conn \<Rightarrow> (gw_state, unit) sop" where
  "gw_on_conn_accepted N cfg c st =
     (case cn_alpn c of
        Some (Service sid) \<Rightarrow> accept_at N cfg sid c st
      | _ \<Rightarrow> (Ok (), st\<lparr>gws_conns := gws_conns st @ [c]\<rparr>))"

text \<open>
  \<open>B\<close> is what the TLS configuration builder does at each handshake (\<open>tls_build\<close> of \<open>T0_Tls_Config\<close>), on the revocation list
  that all visitors of the gateway share.
\<close>

definition on_handshake :: "(tls_stream \<Rightarrow> (crl_state, unit) sop) \<Rightarrow> tls_stream \<Rightarrow> (gw_state, unit) sop" where
  "on_handshake B t st = (case B t (gws_crl st) of (r, crl) \<Rightarrow> (r, st\<lparr>gws_crl := crl\<rparr>))"

definition gateway_visitor :: "(tls_stream \<Rightarrow> (crl_state, unit) sop) \<Rightarrow> 'a gw_lib \<Rightarrow> net_env \<Rightarrow> app_config \<Rightarrow> (tls_stream, gw_conn, gw_state) server_visitor" where
  "gateway_visitor B L N cfg =
     \<lparr>create_client_conn = gw_create_client_conn L cfg,
      on_listening = (\<lambda>st. (Ok (), st)),
      on_tls_handshaking = on_handshake B,
      on_conn_accepted = gw_on_conn_accepted N cfg,
      get_shutdown_requested = gws_shutdown_requested\<rparr>"

text \<open>The visitor of a service as the visitor of the server on that service's own port.\<close>

definition service_port_visitor :: "(tls_stream \<Rightarrow> (crl_state, unit) sop) \<Rightarrow> 'a gw_lib \<Rightarrow> net_env \<Rightarrow> app_config \<Rightarrow> u64 \<Rightarrow> (tls_stream, gw_conn, gw_state) server_visitor" where
  "service_port_visitor B L N cfg sid =
     \<lparr>create_client_conn = create_at L cfg sid,
      on_listening = (\<lambda>st. (Ok (), st)),
      on_tls_handshaking = on_handshake B,
      on_conn_accepted = accept_at N cfg sid,
      get_shutdown_requested = (\<lambda>_. False)\<rparr>"

section \<open>The gateway's server\<close>

definition gateway_new :: "app_config \<Rightarrow> server" where
  "gateway_new cfg = server_new (cfg_server_port cfg)"

definition gateway_bind_listener where "gateway_bind_listener B L N cfg = bind_listener (gateway_visitor B L N cfg)"
definition gateway_poll_new_connections where
  "gateway_poll_new_connections B L N cfg = tls_server_poll_new (gateway_visitor B L N cfg)"

section \<open>The main processor\<close>

definition main_new :: "app_config \<Rightarrow> gw_state" where
  "main_new cfg = \<lparr>gws_mgr = gw_mgr_new cfg new_chan, gws_shutdown_requested = False, gws_crl = (None, []), gws_conns = []\<rparr>"

definition shutdown_function :: "gw_state \<Rightarrow> gw_state" where
  "shutdown_function st = st\<lparr>gws_shutdown_requested := True\<rparr>"

definition main_stop :: "(gw_state, unit) sop" where
  "main_stop st =
     (case mgr_shutdown_connections None None (gws_mgr st) of
        (r, mgr') \<Rightarrow> (r, st\<lparr>gws_shutdown_requested := True, gws_mgr := mgr'\<rparr>))"

text \<open>\<open>start\<close>: bind the listener, poll until a shutdown is requested, then stop.\<close>

definition main_start ::
  "(tls_stream \<Rightarrow> (crl_state, unit) sop) \<Rightarrow> 'a gw_lib \<Rightarrow> net_env \<Rightarrow> app_config \<Rightarrow> nat \<Rightarrow> dyn_error option \<Rightarrow> dyn_error option \<Rightarrow>
   ((io_error + tls_stream incoming) \<times> (gw_state \<Rightarrow> gw_state)) list \<Rightarrow> gw_state \<Rightarrow> (unit res \<times> gw_state) option" where
  "main_start B L N cfg fuel bind nonblocking cycles st =
     (case gateway_bind_listener B L N cfg bind nonblocking (gateway_new cfg, st) of
        (Err e, _, st') \<Rightarrow> Some (Err e, st')
      | (Panic m, _, st') \<Rightarrow> Some (Panic m, st')
      | (Ok _, s, st') \<Rightarrow>
          (case gateway_poll_new_connections B L N cfg fuel cycles s st' of
             None \<Rightarrow> None
           | Some (Ok _, _, st'') \<Rightarrow> Some (main_stop st'')
           | Some (Err e, _, st'') \<Rightarrow> Some (Err e, st'')
           | Some (Panic m, _, st'') \<Rightarrow> Some (Panic m, st'')))"

section \<open>Steps of the running gateway\<close>

text \<open>
  The runs that are considered: no proxy that is still registered has the address pair of a new connection, and the key
  of the task it leads to is not registered either.  This is a condition on the clients, not a guarantee of
  the operating system.  The address pair is that of a TCP connection, so it can only come back when the
  old connection is gone and its end not yet reported.  The key of a TCP proxy is made of the client's address
  and that of the service and leaves out the gateway's own port (\<open>tcp_proxy.rs\<close>, line 196): it comes back
  at once when a client uses one source port for two connections to one service, one to the gateway's port and one
  to the port of the service (\<open>same_source_port_same_key\<close> in \<open>T0_Availability\<close>).
\<close>

definition fresh_arrival :: "tls_stream \<Rightarrow> gw_mgr \<Rightarrow> gw_mgr \<Rightarrow> bool" where
  "fresh_arrival t mgr mgr' \<longleftrightarrow>
     (\<forall>sid vis. get_service_proxy mgr sid = Some vis \<longrightarrow> addrs_free vis (create_proxy_addrs t)) \<and>
     (\<forall>task. queue (gs_proxy_tasks (gm_shared mgr')) = queue (gs_proxy_tasks (gm_shared mgr)) @ [task] \<longrightarrow>
        get_service_id_by_proxy_key mgr (task_key task) = None)"

text \<open>
  A step: a connection arrives (on the gateway port, or on the port of a service), a control
  connection gets data, one goes away, the executor reports a closed proxy.
\<close>

inductive gw_step :: "bool \<Rightarrow> 'a gw_lib \<Rightarrow> net_env \<Rightarrow> 'v serde \<Rightarrow> cli_lib \<Rightarrow> app_config \<Rightarrow> gw_state \<Rightarrow> gw_state \<Rightarrow> bool"
  for chk L N S C cfg where
  arrival: "hand_over (gateway_visitor B L N cfg) t st = (r, st') \<Longrightarrow> fresh_arrival t (gws_mgr st) (gws_mgr st') \<Longrightarrow>
     gw_step chk L N S C cfg st st'"
| service_arrival: "hand_over (service_port_visitor B L N cfg sid) t st = (r, st') \<Longrightarrow>
     fresh_arrival t (gws_mgr st) (gws_mgr st') \<Longrightarrow> gw_step chk L N S C cfg st st'"
| data: "i < length (gws_conns st) \<Longrightarrow> c = gws_conns st ! i \<Longrightarrow>
     cv_on_connection_read chk S C cfg bs (cn_visitor c, cn_events c, gws_mgr st) = (r, v', ch', mgr') \<Longrightarrow>
     gw_step chk L N S C cfg st
       (st\<lparr>gws_mgr := mgr', gws_conns := (gws_conns st)[i := c\<lparr>cn_visitor := v', cn_events := ch'\<rparr>]\<rparr>)"
| gone: "i < length (gws_conns st) \<Longrightarrow> c = gws_conns st ! i \<Longrightarrow>
     cv_on_shutdown (cn_visitor c, cn_events c, gws_mgr st) = (r, v', ch', mgr') \<Longrightarrow>
     gw_step chk L N S C cfg st (st\<lparr>gws_mgr := mgr', gws_conns := take i (gws_conns st) @ drop (Suc i) (gws_conns st)\<rparr>)"
| proxy_closed: "on_closed_proxy key (gws_mgr st) = (r, mgr') \<Longrightarrow> gw_step chk L N S C cfg st (st\<lparr>gws_mgr := mgr'\<rparr>)"

inductive_cases gw_step_cases: "gw_step chk L N S C cfg st st'"

inductive gw_reachable :: "bool \<Rightarrow> 'a gw_lib \<Rightarrow> net_env \<Rightarrow> 'v serde \<Rightarrow> cli_lib \<Rightarrow> app_config \<Rightarrow> gw_state \<Rightarrow> bool"
  for chk L N S C cfg where
  init: "gw_reachable chk L N S C cfg (main_new cfg)"
| step: "gw_reachable chk L N S C cfg st \<Longrightarrow> gw_step chk L N S C cfg st st' \<Longrightarrow> gw_reachable chk L N S C cfg st'"

section \<open>The invariant\<close>

text \<open>Who may be connected to a service.\<close>

definition entitled :: "app_config \<Rightarrow> u64 \<Rightarrow> u64 \<Rightarrow> bool" where
  "entitled cfg uid sid \<longleftrightarrow>
     (\<exists>u. user_get (cfg_user_repo cfg) uid = Ok (Some u) \<and> u_status u = Active) \<and>
     (\<exists>a. access_get (cfg_access_repo cfg) uid sid = Ok (Some a))"

definition only_entitled :: "app_config \<Rightarrow> gw_mgr \<Rightarrow> bool" where
  "only_entitled cfg mgr \<longleftrightarrow>
     (\<forall>sid vis a uid. get_service_proxy mgr sid = Some vis \<and> addrs_user vis a = Some uid \<longrightarrow> entitled cfg uid sid)"

definition gw_inv :: "app_config \<Rightarrow> gw_state \<Rightarrow> bool" where
  "gw_inv cfg st \<longleftrightarrow> mgr_ready (gws_mgr st) \<and> only_entitled cfg (gws_mgr st) \<and>
     (\<forall>c \<in> set (gws_conns st). \<exists>u. cv_user (cn_visitor c) = Some u \<and>
        user_get (cfg_user_repo cfg) (u_user_id u) = Ok (Some u) \<and> u_status u = Active)"


lemma visitors_inv_same_keys:
  assumes "visitors_inv vs sh" and "hm_get vs sid = Some vis" and "svc_inv vis'" and "sp_service vis' = sp_service vis"
    and "\<And>k. key_addrs vis' k = key_addrs vis k"
  shows "visitors_inv (hm_insert sid vis' vs) sh"
proof -
  have "(\<exists>v. hm_get (hm_insert sid vis' vs) s = Some v \<and> key_addrs v k \<noteq> None) \<longleftrightarrow> (\<exists>v. hm_get vs s = Some v \<and> key_addrs v k \<noteq> None)" for s k
    using assms(2,5) by auto
  with assms show ?thesis by (auto simp: visitors_inv_def)
qed

lemma visitors_inv_register:
  assumes vi: "visitors_inv vs sh" and v: "hm_get vs sid = Some vis" and f: "addrs_free vis a" and k: "key_service sh key = None"
    and u: "addrs_user vis a = Some uid" and r: "register_proxy key a (vis, sh\<lparr>gs_proxy_tasks := ch\<rparr>) = (x, vis', sh')"
  shows "visitors_inv (hm_insert sid vis' vs) sh' \<and> (\<forall>b. addrs_user vis' b = addrs_user vis b) \<and> gs_proxy_tasks sh' = ch \<and> x = Ok ()"
proof -
  have ks: "key_service sh j = Some s \<longleftrightarrow> (\<exists>w. hm_get vs s = Some w \<and> key_addrs w j \<noteq> None)" for j s
    using vi by (auto simp: visitors_inv_def)
  have inv: "svc_inv vis" "sv_service_id (sp_service vis) = sid" using vi v by (auto simp: visitors_inv_def)
  have none: "key_addrs w key = None" if "hm_get vs s = Some w" for s w
    using ks[of key s] k that by (cases "key_addrs w key") auto
  have inv': "svc_inv vis'" using svc_inv_register[OF inv(1) f none[OF v] r] .
  have vis': "sp_service vis' = sp_service vis" "\<And>j. key_addrs vis' j = (if j = key then Some a else key_addrs vis j)"
    "\<And>b. addrs_user vis' b = addrs_user vis b" "\<And>j. key_service sh' j = (if j = key then Some sid else key_service sh j)"
    "gs_proxy_tasks sh' = ch" "x = Ok ()"
    using r u inv(2) by (auto simp: register_proxy_def Let_def)
  have "key_service sh' j = Some s \<longleftrightarrow> (\<exists>w. hm_get (hm_insert sid vis' vs) s = Some w \<and> key_addrs w j \<noteq> None)" for j s
    using ks[of j s] none[of s] v by (auto simp: vis'(2,4))
  with vi v inv inv' vis'(1) have "visitors_inv (hm_insert sid vis' vs) sh'" by (auto simp: visitors_inv_def)
  with vis' show ?thesis by blast
qed

text \<open>One after the other, the two halves are the acceptance.\<close>

lemma hm_insert_twice: "hm_insert k v (hm_insert k w m) = hm_insert k v m"
  unfolding hm_insert_def by (induction m) auto

lemma set_visitor_simps [simp]:
  "get_service_proxy (set_visitor sid vis mgr) i = (if i = sid then Some vis else get_service_proxy mgr i)"
  "get_service_proxy (mgr\<lparr>gm_shared := sh\<rparr>) i = get_service_proxy mgr i" "gm_shared (set_visitor sid vis mgr) = gm_shared mgr"
  "set_visitor sid vis ((set_visitor sid vis' mgr)\<lparr>gm_shared := sh\<rparr>) = (set_visitor sid vis mgr)\<lparr>gm_shared := sh\<rparr>"
  by (cases mgr; simp add: get_service_proxy_def set_visitor_def hm_insert_twice)+

lemma accept_at_phases:
  "accept_at N cfg sid c = sop_bind (open_at N cfg sid c) (\<lambda>key. register_at sid key (create_proxy_addrs (cn_stream c)))"
proof
  fix st
  show "accept_at N cfg sid c st = sop_bind (open_at N cfg sid c) (\<lambda>key. register_at sid key (create_proxy_addrs (cn_stream c))) st"
  proof (cases "get_service_proxy (gws_mgr st) sid")
    case None
    then show ?thesis by (simp add: accept_at_def open_at_def gw_get_service_proxy_def sop_bind_def)
  next
    case (Some vis)
    obtain r vis' sh' where o: "gsp_open_proxy N cfg c (vis, gm_shared (gws_mgr st)) = (r, vis', sh')" by (metis prod.exhaust)
    with Some show ?thesis
      by (cases r) (simp_all add: accept_at_def open_at_def register_at_def gw_get_service_proxy_def gsp_on_conn_accepted_phases sop_bind_def
          split: prod.splits)
  qed
qed

lemma create_entitled:
  assumes "svc_create_client_conn L cfg t vis = (r, vis')" and "user_inv (cfg_user_repo cfg)"
  shows "(vis' = vis \<and> (\<forall>c. r \<noteq> Ok c)) \<or>
    (\<exists>uid. vis' = vis\<lparr>sp_users_by_proxy_addrs := hm_insert (create_proxy_addrs t) uid (sp_users_by_proxy_addrs vis)\<rparr> \<and>
       entitled cfg uid (sv_service_id (sp_service vis)) \<and>
       (\<forall>c. r = Ok c \<longrightarrow> cn_stream c = t \<and> cn_alpn c = Some (Service (sv_service_id (sp_service vis)))))"
proof -
  let ?sid = "sv_service_id (sp_service vis)"
  obtain pr cv where p: "process_authorization L cfg t (Some ?sid) (client_visitor_new cfg) = (pr, cv)" by fastforce
  show ?thesis
  proof (cases pr)
    case (Ok alpn)
    from p[unfolded Ok process_authorization_Ok authorize_user_Ok authorize_service_Ok] obtain dev :: device and u :: user where
      u: "user_get (cfg_user_repo cfg) (ctx_user_id (dv_cert_access_context dev)) = Ok (Some u)" "u_status u = Active"
        "\<exists>a. access_get (cfg_access_repo cfg) (ctx_user_id (dv_cert_access_context dev)) ?sid = Ok (Some a)"
        "alpn = Service ?sid" "cv_user cv = Some u" by auto
    have "u_user_id u = ctx_user_id (dv_cert_access_context dev)"
      using u(1) assms(2) by (auto simp: user_get_def user_inv_def repo_defs split: if_splits)
    then have "entitled cfg (u_user_id u) ?sid" using u by (auto simp: entitled_def)
    with assms(1) p Ok u(4,5) show ?thesis
      by (auto simp: svc_create_client_conn_def conn_new_base split: prod.splits res.splits)
  qed (use assms(1) p in \<open>auto simp: svc_create_client_conn_def\<close>)
qed


lemma only_entitledD:
  "only_entitled cfg mgr \<Longrightarrow> get_service_proxy mgr sid = Some vis \<Longrightarrow> addrs_user vis a = Some uid \<Longrightarrow> entitled cfg uid sid"
  unfolding only_entitled_def by blast

lemma only_entitled_set:
  assumes "only_entitled cfg mgr" and "\<And>a uid. addrs_user vis' a = Some uid \<Longrightarrow> entitled cfg uid sid"
  shows "only_entitled cfg ((set_visitor sid vis' mgr)\<lparr>gm_shared := sh\<rparr>)"
  unfolding only_entitled_def
proof (intro allI impI, elim conjE)
  fix i w a uid
  assume "get_service_proxy ((set_visitor sid vis' mgr)\<lparr>gm_shared := sh\<rparr>) i = Some w" and a: "addrs_user w a = Some uid"
  then have "(i = sid \<and> w = vis') \<or> get_service_proxy mgr i = Some w"
    by (auto simp: get_service_proxy_def set_visitor_def split: if_splits)
  then show "entitled cfg uid i" using assms only_entitledD a by blast
qed

lemma create_at_inv:
  assumes "create_at L cfg sid t st = (r, st')" and "user_inv (cfg_user_repo cfg)"
    and "mgr_ready (gws_mgr st)" and "only_entitled cfg (gws_mgr st)"
    and "\<And>vis. get_service_proxy (gws_mgr st) sid = Some vis \<Longrightarrow> addrs_free vis (create_proxy_addrs t)"
  shows "mgr_ready (gws_mgr st') \<and> only_entitled cfg (gws_mgr st') \<and> gws_conns st' = gws_conns st \<and>
    gm_shared (gws_mgr st') = gm_shared (gws_mgr st) \<and>
    (\<forall>c. r = Ok c \<longrightarrow> cn_stream c = t \<and> cn_alpn c = Some (Service sid) \<and>
       (\<exists>vis uid. get_service_proxy (gws_mgr st') sid = Some vis \<and> addrs_free vis (create_proxy_addrs t) \<and>
          addrs_user vis (create_proxy_addrs t) = Some uid))"
proof (cases "get_service_proxy (gws_mgr st) sid")
  case None
  with assms show ?thesis by (auto simp: create_at_def gw_get_service_proxy_def)
next
  case (Some vis)
  let ?mgr = "gws_mgr st"
  have vi: "visitors_inv (gm_service_proxy_visitors ?mgr) (gm_shared ?mgr)"
    and g: "hm_get (gm_service_proxy_visitors ?mgr) sid = Some vis"
    and ports: "\<And>i. hm_get (gm_service_ports ?mgr) i = None \<longleftrightarrow> hm_get (gm_service_proxy_visitors ?mgr) i = None"
    using assms(3) Some by (auto simp: mgr_ready_def mgr_inv_def get_service_proxy_def)
  have inv: "svc_inv vis" "sv_service_id (sp_service vis) = sid" using vi g by (auto simp: visitors_inv_def)
  obtain vis' where c: "svc_create_client_conn L cfg t vis = (r, vis')" and st': "st' = st\<lparr>gws_mgr := set_visitor sid vis' ?mgr\<rparr>"
    using assms(1) Some by (auto simp: create_at_def gw_get_service_proxy_def split: prod.splits)
  have f: "addrs_free vis (create_proxy_addrs t)" using assms(5)[OF Some] .
  have inv': "svc_inv vis'" using svc_inv_create[OF inv(1) f c] .
  have same: "sp_service vis' = sp_service vis" "\<And>k. key_addrs vis' k = key_addrs vis k"
    using create_entitled[OF c assms(2)] by auto
  have users: "addrs_user vis' a = Some uid \<Longrightarrow> addrs_user vis a = Some uid \<or> entitled cfg uid sid" for a uid
    using create_entitled[OF c assms(2)] inv(2) by (auto split: if_splits)
  have "visitors_inv (hm_insert sid vis' (gm_service_proxy_visitors ?mgr)) (gm_shared ?mgr)"
    using visitors_inv_same_keys[OF vi g inv' same] .
  then have "mgr_ready (set_visitor sid vis' ?mgr)"
    using assms(3) ports g by (auto simp: mgr_ready_def mgr_inv_def set_visitor_def)
  moreover have "only_entitled cfg ((set_visitor sid vis' ?mgr)\<lparr>gm_shared := gm_shared ?mgr\<rparr>)"
    using only_entitled_set[OF assms(4)] users only_entitledD[OF assms(4) Some] by blast
  then have "only_entitled cfg (set_visitor sid vis' ?mgr)" by (simp add: set_visitor_def)
  moreover have "\<exists>uid. addrs_user vis' (create_proxy_addrs t) = Some uid" if "r = Ok c" for c
    using create_entitled[OF c assms(2)] that by auto
  moreover have "addrs_free vis' (create_proxy_addrs t)" using f same(2) by (simp add: addrs_free_def)
  moreover have "r = Ok c \<Longrightarrow> cn_stream c = t \<and> cn_alpn c = Some (Service sid)" for c
    using create_entitled[OF c assms(2)] inv(2) by auto
  ultimately show ?thesis unfolding st' by (auto simp: get_service_proxy_def set_visitor_def)
qed

lemma accept_at_inv:
  assumes "accept_at N cfg sid c st = (r, st')" and "mgr_ready (gws_mgr st)" and "only_entitled cfg (gws_mgr st)"
    and "get_service_proxy (gws_mgr st) sid = Some vis" and "addrs_free vis (create_proxy_addrs (cn_stream c))"
    and "addrs_user vis (create_proxy_addrs (cn_stream c)) = Some uid"
    and fresh: "\<And>task. queue (gs_proxy_tasks (gm_shared (gws_mgr st'))) = queue (gs_proxy_tasks (gm_shared (gws_mgr st))) @ [task] \<Longrightarrow>
      get_service_id_by_proxy_key (gws_mgr st) (task_key task) = None"
  shows "mgr_ready (gws_mgr st') \<and> only_entitled cfg (gws_mgr st') \<and> gws_conns st' = gws_conns st"
proof -
  let ?mgr = "gws_mgr st"
  have vi: "visitors_inv (gm_service_proxy_visitors ?mgr) (gm_shared ?mgr)"
    and g: "hm_get (gm_service_proxy_visitors ?mgr) sid = Some vis"
    and ports: "\<And>i. hm_get (gm_service_ports ?mgr) i = None \<longleftrightarrow> hm_get (gm_service_proxy_visitors ?mgr) i = None"
    using assms(2,4) by (auto simp: mgr_ready_def mgr_inv_def get_service_proxy_def)
  obtain vis' sh' where a: "gsp_on_conn_accepted N cfg c (vis, gm_shared ?mgr) = (r, vis', sh')"
    and st': "st' = st\<lparr>gws_mgr := (set_visitor sid vis' ?mgr)\<lparr>gm_shared := sh'\<rparr>\<rparr>"
    using assms(1,4) by (auto simp: accept_at_def gw_get_service_proxy_def split: prod.splits)
  have K: "visitors_inv (hm_insert sid vis' (gm_service_proxy_visitors ?mgr)) sh' \<and> (\<forall>b. addrs_user vis' b = addrs_user vis b) \<and>
      receiver_alive (gs_proxy_tasks sh')"
    using accept_cases[OF a]
  proof (elim disjE exE conjE)
    assume "vis' = vis" "sh' = gm_shared ?mgr"
    moreover have "svc_inv vis" using vi g by (auto simp: visitors_inv_def)
    ultimately show ?thesis using visitors_inv_same_keys[OF vi g] assms(2) by (simp add: mgr_ready_def)
  next
    fix task
    assume al: "receiver_alive (gs_proxy_tasks (gm_shared ?mgr))"
      and reg: "register_proxy (task_key task) (create_proxy_addrs (cn_stream c)) (vis, (gm_shared ?mgr)
        \<lparr>gs_proxy_tasks := (gs_proxy_tasks (gm_shared ?mgr))\<lparr>queue := queue (gs_proxy_tasks (gm_shared ?mgr)) @ [task]\<rparr>\<rparr>) = (r, vis', sh')"
    have t: "gs_proxy_tasks sh' = (gs_proxy_tasks (gm_shared ?mgr))\<lparr>queue := queue (gs_proxy_tasks (gm_shared ?mgr)) @ [task]\<rparr>"
      using reg assms(6) by (auto simp: register_proxy_def Let_def)
    then have "key_service (gm_shared ?mgr) (task_key task) = None"
      using fresh[of task] by (simp add: st' get_service_id_by_proxy_key_def)
    from visitors_inv_register[OF vi g assms(5) this assms(6) reg] al show ?thesis by (auto simp: t)
  qed
  have "only_entitled cfg ((set_visitor sid vis' ?mgr)\<lparr>gm_shared := sh'\<rparr>)"
  proof (rule only_entitled_set[OF assms(3)])
    fix b u assume "addrs_user vis' b = Some u"
    then have "addrs_user vis b = Some u" using K by metis
    then show "entitled cfg u sid" by (rule only_entitledD[OF assms(3,4)])
  qed
  then show ?thesis using K assms(2) ports g
    by (auto simp: st' mgr_ready_def mgr_inv_def set_visitor_def)
qed

lemma process_request_mgr:
  assumes "process_request chk S C cfg cp line (ch, mgr) = (r, ch', mgr')"
  shows "mgr' = mgr \<or> (\<exists>svc x. mgr_startup chk cfg svc mgr = (x, mgr')) \<or>
    (\<exists>uid sid x. mgr_shutdown_connections (Some uid) (Some sid) mgr = (x, mgr'))"
proof -
  have start: "process_cmd_start chk S cfg cp name port mgr = (x, m') \<Longrightarrow> m' = mgr \<or> (\<exists>svc x. mgr_startup chk cfg svc mgr = (x, m'))" for name port x m'
    by (auto simp: process_cmd_start_def split: res.splits prod.splits)
  have stop: "process_cmd_stop S cp name mgr = (x, m') \<Longrightarrow>
      m' = mgr \<or> (\<exists>uid sid x. mgr_shutdown_connections (Some uid) (Some sid) mgr = (x, m'))" for name x m'
    by (auto simp: process_cmd_stop_def Let_def split: res.splits prod.splits option.splits if_splits)
  have run: "run_request chk S cfg cp req (ch, mgr) = (x, c', m') \<Longrightarrow>
      m' = mgr \<or> (\<exists>svc x. mgr_startup chk cfg svc mgr = (x, m')) \<or>
      (\<exists>uid sid x. mgr_shutdown_connections (Some uid) (Some sid) mgr = (x, m'))" for req x c' m'
    by (cases req) (auto simp: run_request_def split: prod.splits dest!: start stop)
  have send: "send_response t q (c1, m1) = (x, c', m') \<Longrightarrow> m' = m1" for t q c1 m1 x c' m'
    by (auto simp: send_response_def split: if_splits option.splits)
  show ?thesis
  proof (cases "parse_request C line")
    case (Ok req)
    obtain x c1 m1 where rr: "run_request chk S cfg cp req (ch, mgr) = (x, c1, m1)" by (metis prod.exhaust)
    with assms Ok send have "mgr' = m1" by (cases x) (auto simp: process_request_def)
    with run[OF rr] show ?thesis by simp
  qed (use assms send in \<open>auto simp: process_request_def\<close>)
qed

lemma shutdown_entitled:
  assumes "mgr_ready mgr" and "only_entitled cfg mgr" and "mgr_shutdown_connections uo sid mgr = (x, mgr')"
  shows "mgr_ready mgr' \<and> only_entitled cfg mgr'"
proof -
  from mgr_shutdown_closes[of mgr uo sid] assms(1,3) have
    m: "mgr_ready mgr'" "list_all2 (closed_for uo sid) (gm_service_proxy_visitors mgr) (gm_service_proxy_visitors mgr')"
    by (auto simp: mgr_ready_def)
  have "entitled cfg u i" if w: "get_service_proxy mgr' i = Some w" and a: "addrs_user w a = Some u" for i w a u
  proof -
    have "hm_get (gm_service_proxy_visitors mgr) i \<noteq> None"
      using w m(2) shutdown_new_proxy[OF assms(3), of i] by (auto simp: get_service_proxy_def)
    then obtain v where v: "hm_get (gm_service_proxy_visitors mgr) i = Some v" by auto
    from list_all2_hm_get[OF m(2) v] w have c: "closed_for uo sid (i, v) (i, w)" by (auto simp: get_service_proxy_def)
    have "addrs_user v a = Some u"
    proof (cases "sid = None \<or> i = the sid")
      case True
      with c obtain sh sh' where f: "forgets (set (keys_for v uo)) (v, sh) (w, sh')" by (auto simp: closed_for_def)
      from forgetsD(4)[OF f, of a] a show ?thesis by (simp split: if_splits)
    next
      case False
      with c a show ?thesis by (simp add: closed_for_def)
    qed
    with v only_entitledD[OF assms(2), of i v a u] show ?thesis by (simp add: get_service_proxy_def)
  qed
  with m(1) show ?thesis unfolding only_entitled_def by blast
qed

lemma startup_entitled:
  assumes "mgr_ready mgr" and "only_entitled cfg mgr" and "mgr_startup chk cfg svc mgr = (x, mgr')"
  shows "mgr_ready mgr' \<and> only_entitled cfg mgr'"
proof -
  have "mgr_ready mgr'" using mgr_inv_startup[OF _ assms(3)] startup_shared[OF assms(3)] assms(1) by (simp add: mgr_ready_def)
  moreover have "entitled cfg u i" if w: "get_service_proxy mgr' i = Some w" and a: "addrs_user w a = Some u" for i w a u
  proof -
    have "get_service_proxy mgr i = Some w \<or> addrs_user w a = None"
      using w assms(3)
      by (auto simp: mgr_startup_def allocate_port_def get_service_proxy_def svc_visitor_new_def Let_def
          split: option.splits prod.splits res.splits if_splits)
    with a only_entitledD[OF assms(2)] show ?thesis by auto
  qed
  ultimately show ?thesis unfolding only_entitled_def by blast
qed


lemma closed_tasks:
  assumes "on_closed_proxy key mgr = (x, mgr')"
  shows "gs_proxy_tasks (gm_shared mgr') = gs_proxy_tasks (gm_shared mgr)"
  using assms by (auto simp: on_closed_proxy_def remove_proxy_for_key_def Let_def split: option.splits prod.splits res.splits)

lemma closed_entitled:
  assumes "mgr_ready mgr" and "only_entitled cfg mgr" and "on_closed_proxy key mgr = (x, mgr')"
  shows "mgr_ready mgr' \<and> only_entitled cfg mgr'"
proof -
  have inv: "mgr_inv mgr" using assms(1) by (simp add: mgr_ready_def)
  have "mgr_inv mgr'" using on_closed_proxy_inv[OF inv, of key] assms(3) by auto
  moreover have "gs_proxy_tasks (gm_shared mgr') = gs_proxy_tasks (gm_shared mgr)" by (rule closed_tasks[OF assms(3)])
  moreover have "entitled cfg u i" if w: "get_service_proxy mgr' i = Some w" and a: "addrs_user w a = Some u" for i w a u
  proof -
    have sub: "addrs_user v' b = Some u' \<Longrightarrow> addrs_user v b = Some u'"
      if "remove_proxy_for_key key (v, sh) = (y, v', sh')" for v v' sh sh' y b u'
      using that by (auto simp: remove_proxy_for_key_def split: option.splits if_splits)
    have "\<exists>v. get_service_proxy mgr i = Some v \<and> addrs_user v a = Some u"
      using w a assms(3)
      by (auto simp: on_closed_proxy_def get_service_proxy_def Let_def split: option.splits prod.splits res.splits if_splits dest: sub)
    with only_entitledD[OF assms(2)] show ?thesis by blast
  qed
  ultimately show ?thesis using assms(1) unfolding only_entitled_def mgr_ready_def by auto
qed

lemma cp_create_identity:
  assumes "cp_create_client_conn L cfg t = Ok c" and "user_inv (cfg_user_repo cfg)"
  shows "\<exists>u. cv_user (cn_visitor c) = Some u \<and> user_get (cfg_user_repo cfg) (u_user_id u) = Ok (Some u) \<and> u_status u = Active"
proof -
  obtain alpn cv where p: "process_authorization L cfg t None (client_visitor_new cfg) = (Ok alpn, cv)"
    using assms(1) by (auto simp: cp_create_client_conn_def split: prod.splits res.splits)
  from p[unfolded process_authorization_Ok authorize_user_Ok] obtain dev :: device and u :: user where
    u: "user_get (cfg_user_repo cfg) (ctx_user_id (dv_cert_access_context dev)) = Ok (Some u)" "u_status u = Active" "cv_user cv = Some u"
    by auto
  have "u_user_id u = ctx_user_id (dv_cert_access_context dev)"
    using u(1) assms(2) by (auto simp: user_get_def user_inv_def repo_defs split: if_splits)
  moreover have "cv_user (cn_visitor c) = cv_user cv"
    using assms(1) p conn_new_user(1)[of cfg cv t "Some alpn" "()" c] by (simp add: cp_create_client_conn_def prod_eq_iff)
  ultimately show ?thesis using u by auto
qed

lemma cp_create_conn:
  assumes "cp_create_client_conn L cfg t = Ok c" and "parse_alpn_protocol (gl_digits L) (tls_alpn_protocol t) = Ok ControlPlane"
  shows "cn_alpn c = Some ControlPlane" "cn_stream c = t"
proof -
  obtain cv where "process_authorization L cfg t None (client_visitor_new cfg) = (Ok ControlPlane, cv)"
    "fst (conn_new (client_conn_base cfg) cv t (Some ControlPlane) ()) = Ok c"
    using assms by (auto simp: cp_create_client_conn_def process_authorization_Ok split: prod.splits res.splits)
  then show "cn_alpn c = Some ControlPlane" "cn_stream c = t"
    using conn_new_user(2,3)[of cfg cv t "Some ControlPlane" "()" c] by (simp_all add: prod_eq_iff)
qed

lemma hand_over_at_inv:
  assumes "sop_bind (create_at L cfg sid t) (accept_at N cfg sid) st = (r, st')" and "gw_inv cfg st"
    and "user_inv (cfg_user_repo cfg)" and "fresh_arrival t (gws_mgr st) (gws_mgr st')"
  shows "gw_inv cfg st'"
proof -
  obtain cr st1 where c: "create_at L cfg sid t st = (cr, st1)" by fastforce
  have f: "get_service_proxy (gws_mgr st) sid = Some vis \<Longrightarrow> addrs_free vis (create_proxy_addrs t)" for vis
    using assms(4) by (auto simp: fresh_arrival_def)
  have i: "mgr_ready (gws_mgr st)" "only_entitled cfg (gws_mgr st)" using assms(2) by (auto simp: gw_inv_def)
  note ci = create_at_inv[OF c assms(3) i f]
  show ?thesis
  proof (cases cr)
    case (Ok conn)
    with ci obtain vis uid where v: "cn_stream conn = t" "get_service_proxy (gws_mgr st1) sid = Some vis"
      "addrs_free vis (create_proxy_addrs t)" "addrs_user vis (create_proxy_addrs t) = Some uid" by blast
    have a: "accept_at N cfg sid conn st1 = (r, st')" using assms(1) c Ok by (simp add: sop_bind_def)
    have "mgr_ready (gws_mgr st') \<and> only_entitled cfg (gws_mgr st') \<and> gws_conns st' = gws_conns st1"
    proof (rule accept_at_inv[OF a])
      show "mgr_ready (gws_mgr st1)" "only_entitled cfg (gws_mgr st1)" using ci by auto
      show "get_service_proxy (gws_mgr st1) sid = Some vis" by (rule v(2))
      show "addrs_free vis (create_proxy_addrs (cn_stream conn))" using v by simp
      show "addrs_user vis (create_proxy_addrs (cn_stream conn)) = Some uid" using v by simp
      show "get_service_id_by_proxy_key (gws_mgr st1) (task_key task) = None"
        if "queue (gs_proxy_tasks (gm_shared (gws_mgr st'))) = queue (gs_proxy_tasks (gm_shared (gws_mgr st1))) @ [task]" for task
        using that assms(4) ci by (simp add: fresh_arrival_def get_service_id_by_proxy_key_def)
    qed
    with ci assms(2) show ?thesis by (simp add: gw_inv_def)
  next
    case (Err e)
    with assms(1,2) c ci show ?thesis by (simp add: sop_bind_def gw_inv_def)
  next
    case (Panic m)
    with assms(1,2) c ci show ?thesis by (simp add: sop_bind_def gw_inv_def)
  qed
qed

text \<open>An arrival at the gateway's own port: a service connection, a control connection, or nothing.\<close>

lemma arrival_cases:
  assumes "hand_over (gateway_visitor B L N cfg) t st = (r, st')" and "gw_inv cfg st"
    and "user_inv (cfg_user_repo cfg)" and "fresh_arrival t (gws_mgr st) (gws_mgr st')"
  shows "(\<exists>sid. sop_bind (create_at L cfg sid t) (accept_at N cfg sid) st = (r, st')) \<or>
    gws_mgr st' = gws_mgr st \<and> (gws_conns st' = gws_conns st \<or>
      (\<exists>c. gws_conns st' = gws_conns st @ [c] \<and> cp_create_client_conn L cfg t = Ok c))"
proof -
  have h: "sop_bind (gw_create_client_conn L cfg t) (gw_on_conn_accepted N cfg) st = (r, st')"
    using assms(1) by (simp add: hand_over_def gateway_visitor_def)
  let ?p = "parse_alpn_protocol (gl_digits L) (tls_alpn_protocol t)"
  consider (service) sid where "?p = Ok (Service sid)" | (control) "?p = Ok ControlPlane" | (bad) "\<forall>p. ?p \<noteq> Ok p"
    by (cases ?p; metis protocol.exhaust res.distinct(1) res.distinct(3))
  then show ?thesis
  proof cases
    case service
    have "gw_create_client_conn L cfg t st = create_at L cfg sid t st" by (simp add: gw_create_client_conn_def service)
    moreover have "cn_alpn c = Some (Service sid)" if "create_at L cfg sid t st = (Ok c, st1)" for c st1
    proof -
      have i: "mgr_ready (gws_mgr st)" "only_entitled cfg (gws_mgr st)" using assms(2) by (auto simp: gw_inv_def)
      show ?thesis using create_at_inv[OF that assms(3) i] assms(4) by (auto simp: fresh_arrival_def)
    qed
    ultimately have "sop_bind (create_at L cfg sid t) (accept_at N cfg sid) st = (r, st')"
      using h by (auto simp: sop_bind_def gw_on_conn_accepted_def split: prod.splits res.splits)
    then show ?thesis by blast
  next
    case control
    then have cr: "gw_create_client_conn L cfg t st = (cp_create_client_conn L cfg t, st)" by (simp add: gw_create_client_conn_def)
    show ?thesis
    proof (cases "cp_create_client_conn L cfg t")
      case (Ok c)
      then have "st' = st\<lparr>gws_conns := gws_conns st @ [c]\<rparr>" 
        using h cr cp_create_conn(1)[OF Ok control] by (simp add: sop_bind_def gw_on_conn_accepted_def)
      with Ok show ?thesis by simp
    qed (use h cr in \<open>auto simp: sop_bind_def\<close>)
  next
    case bad
    with h show ?thesis by (cases ?p) (auto simp: sop_bind_def gw_create_client_conn_def)
  qed
qed

lemma arrival_inv:
  assumes "hand_over (gateway_visitor B L N cfg) t st = (r, st')" and "gw_inv cfg st"
    and "user_inv (cfg_user_repo cfg)" and "fresh_arrival t (gws_mgr st) (gws_mgr st')"
  shows "gw_inv cfg st'"
  using arrival_cases[OF assms]
proof (elim disjE exE conjE)
  fix sid
  assume "sop_bind (create_at L cfg sid t) (accept_at N cfg sid) st = (r, st')"
  then show ?thesis using assms(2-4) by (rule hand_over_at_inv)
next
  fix c
  assume "gws_mgr st' = gws_mgr st" "gws_conns st' = gws_conns st @ [c]" "cp_create_client_conn L cfg t = Ok c"
  with assms(2) cp_create_identity[OF _ assms(3)] show ?thesis by (auto simp: gw_inv_def)
qed (use assms(2) in \<open>simp_all add: gw_inv_def\<close>)


lemma read_keeps_visitor:
  assumes "cv_on_connection_read chk S C cfg bs (v, ch, mgr) = (r, v', ch', mgr')"
  shows "v' = v \<and> (mgr' = mgr \<or> (\<exists>cp line x c0. process_request chk S C cfg cp line (c0, mgr) = (x, ch', mgr')))"
  using assms
  by (auto simp: cv_on_connection_read_def split: server_mode.splits res.splits option.splits prod.splits)

lemma request_entitled:
  assumes "mgr_ready mgr" and "only_entitled cfg mgr" and "process_request chk S C cfg cp line (ch, mgr) = (r, ch', mgr')"
  shows "mgr_ready mgr' \<and> only_entitled cfg mgr'"
  using process_request_mgr[OF assms(3)] assms(1,2) startup_entitled[OF assms(1,2)] shutdown_entitled[OF assms(1,2)] by blast

lemma gw_step_inv:
  assumes "gw_step chk L N S C cfg st st'" and "gw_inv cfg st" and "user_inv (cfg_user_repo cfg)"
  shows "gw_inv cfg st'"
proof -
  have i: "mgr_ready (gws_mgr st)" "only_entitled cfg (gws_mgr st)" using assms(2) by (auto simp: gw_inv_def)
  from assms(1) show ?thesis
  proof cases
    case (arrival B t r)
    from arrival(1) assms(2,3) arrival(2) show ?thesis by (rule arrival_inv)
  next
    case (service_arrival B sid t r)
    then have "sop_bind (create_at L cfg sid t) (accept_at N cfg sid) st = (r, st')"
      by (simp add: hand_over_def service_port_visitor_def)
    then show ?thesis using assms(2,3) service_arrival(2) by (rule hand_over_at_inv)
  next
    case (data k c bs r v' ch' mgr')
    have "mgr_ready mgr' \<and> only_entitled cfg mgr'"
      using read_keeps_visitor[OF data(4)] i request_entitled[OF i] by blast
    moreover have "v' = cn_visitor c" using read_keeps_visitor[OF data(4)] by simp
    moreover have "c \<in> set (gws_conns st)" using data(2,3) by simp
    ultimately show ?thesis using assms(2) data(1)
      by (auto simp: gw_inv_def dest!: set_update_subset_insert[THEN subsetD])
  next
    case (gone k c r v' ch' mgr')
    have "c \<in> set (gws_conns st)" using gone(2,3) by simp
    then obtain u where "cv_user (cn_visitor c) = Some u" using assms(2) by (auto simp: gw_inv_def)
    then obtain x where "mgr_shutdown_connections (Some (u_user_id u)) None (gws_mgr st) = (x, mgr')"
      using gone(4) by (auto simp: cv_on_shutdown_def split: prod.splits)
    from shutdown_entitled[OF i this] show ?thesis using assms(2) gone(1)
      by (auto simp: gw_inv_def dest: in_set_takeD in_set_dropD)
  next
    case (proxy_closed key r mgr')
    with closed_entitled[OF i] assms(2) show ?thesis by (auto simp: gw_inv_def)
  qed
qed

lemma gw_inv_new: "gw_inv cfg (main_new cfg)"
proof -
  have "mgr_inv (gws_mgr (main_new cfg))" by (simp add: main_new_def mgr_inv_new)
  moreover have "receiver_alive (gs_proxy_tasks (gm_shared (gws_mgr (main_new cfg))))" "gws_conns (main_new cfg) = []"
    "gm_service_proxy_visitors (gws_mgr (main_new cfg)) = []"
    by (simp_all add: main_new_def gw_mgr_new_def new_chan_def split: option.splits)
  ultimately show ?thesis by (simp add: gw_inv_def mgr_ready_def only_entitled_def get_service_proxy_def)
qed

lemma reachable_inv:
  assumes "gw_reachable chk L N S C cfg st" and "user_inv (cfg_user_repo cfg)"
  shows "gw_inv cfg st"
  using assms(1) by induction (auto intro: gw_inv_new gw_step_inv[OF _ _ assms(2)])


lemma demo_user_inv: "user_inv (cfg_user_repo demo_config)"
  by (auto simp: user_inv_def demo_config_def hm_get_def new_user_def split: if_splits)

text \<open>
  A run that opens a session: ann connects to the control plane, starts the service \<open>echo\<close>, and connects
  to it.
\<close>

definition demo_reachable_net :: net_env where
  "demo_reachable_net = demo_net\<lparr>query_addrs := (\<lambda>_. Inr [V4 ''10.0.0.9''])\<rparr>"

definition demo_control_tls :: tls_stream where
  "demo_control_tls = (demo_tls 100)\<lparr>st_peer_addr := Some ''10.0.0.7:3999'', tls_alpn_protocol := Some (bytes_of_text ''T0CP'')\<rparr>"

definition demo_control_conn :: gw_conn where
  "demo_control_conn = \<lparr>cn_visitor = \<lparr>cv_server_mode = ModeControlPlane, cv_event_channel_sender = True,
       cv_request_processor = Some demo_control_plane, cv_device = Some (demo_device 100), cv_user = Some (new_user 100 ''ann'' Active)\<rparr>,
     cn_stream = demo_control_tls, cn_events = new_chan, cn_alpn = Some ControlPlane, cn_closed = False\<rparr>"

lemma demo_alpn_control [simp]: "parse_alpn_protocol ascii_nd (Some (bytes_of_text ''T0CP'')) = Ok ControlPlane"
  by (simp add: parse_alpn_protocol_def from_utf8_lossy_ascii ascii_bytes_of_text parse_protocol_def PROTOCOL_CONTROL_PLANE_def)

lemma demo_control_plane_new: "control_plane_new demo_config (demo_device 100) (new_user 100 ''ann'' Active) = Ok demo_control_plane"
  by (simp add: control_plane_new_def setup_services_maps_def service_get_all_def repo_defs demo_config_def demo_control_plane_def
      hm_collect_def hm_values_def demo_service_def new_service_def hm_insert_def)

lemma demo_control_created: "cp_create_client_conn demo_gw_lib demo_config demo_control_tls = Ok demo_control_conn"
proof -
  have "authorize_device demo_gw_lib demo_control_tls = authorize_device demo_gw_lib (demo_tls 100)"
    by (simp add: authorize_device_def demo_control_tls_def)
  with demo_authorize_device(1) have d: "authorize_device demo_gw_lib demo_control_tls = Ok (demo_device 100)" by simp
  have u: "authorize_user demo_config 100 = Ok (new_user 100 ''ann'' Active)"
    by (simp add: authorize_user_def user_get_def repo_defs demo_config_def hm_get_def new_user_def)
  have "process_authorization demo_gw_lib demo_config demo_control_tls None (client_visitor_new demo_config) =
      (Ok ControlPlane, (client_visitor_new demo_config)\<lparr>cv_device := Some (demo_device 100), cv_user := Some (new_user 100 ''ann'' Active)\<rparr>)"
    by (simp add: process_authorization_def d u) (simp add: demo_device_def u demo_gw_lib_def demo_control_tls_def authorize_service_def)
  then show ?thesis
    by (simp add: cp_create_client_conn_def conn_new_base cv_set_event_channel_sender_def demo_control_plane_new client_visitor_new_def
        demo_control_conn_def) (simp add: demo_config_def)
qed

abbreviation demo_at :: "crl_state \<Rightarrow> gw_mgr \<Rightarrow> gw_conn list \<Rightarrow> gw_state" where
  "demo_at crl mgr cs \<equiv> \<lparr>gws_mgr = mgr, gws_shutdown_requested = False, gws_crl = crl, gws_conns = cs\<rparr>"

abbreviation demo_gw_step :: "gw_state \<Rightarrow> gw_state \<Rightarrow> bool" where
  "demo_gw_step \<equiv> gw_step True demo_gw_lib demo_reachable_net demo_json demo_cli demo_config"

lemma demo_main_new: "main_new demo_config = demo_at (None, []) demo_mgr []"
  by (simp add: main_new_def demo_mgr_def)

lemma demo_mgr_no_service: "get_service_proxy demo_mgr sid = None"
  by (simp add: demo_mgr_def gw_mgr_new_def get_service_proxy_def hm_get_def demo_config_def)

lemma demo_control_arrives: "demo_gw_step (demo_at crl demo_mgr []) (demo_at crl demo_mgr [demo_control_conn])"
proof (rule gw_step.arrival)
  have "parse_alpn_protocol (gl_digits demo_gw_lib) (tls_alpn_protocol demo_control_tls) = Ok ControlPlane" "cn_alpn demo_control_conn = Some ControlPlane"
    by (simp_all add: demo_gw_lib_def demo_control_tls_def demo_control_conn_def)
  then show "hand_over (gateway_visitor (\<lambda>_. sop_lift (Ok ())) demo_gw_lib demo_reachable_net demo_config) demo_control_tls (demo_at crl demo_mgr []) =
      (Ok (), demo_at crl demo_mgr [demo_control_conn])"
    by (simp add: hand_over_def gateway_visitor_def sop_bind_def gw_create_client_conn_def demo_control_created gw_on_conn_accepted_def)
  show "fresh_arrival demo_control_tls (gws_mgr (demo_at crl demo_mgr [])) (gws_mgr (demo_at crl demo_mgr [demo_control_conn]))"
    by (simp add: fresh_arrival_def demo_mgr_no_service)
qed

lemma demo_start_read:
  "\<exists>r ch. cv_on_connection_read True demo_json demo_cli demo_config (bytes_of_text ''start -s echo -p 8501'')
      (cn_visitor demo_control_conn, cn_events demo_control_conn, demo_mgr) = (r, cn_visitor demo_control_conn, ch, demo_started_mgr)"
proof -
  let ?line = "''start -s echo -p 8501''"
  obtain r ch where p: "process_request True demo_json demo_cli demo_config demo_control_plane ?line (new_chan, demo_mgr) = (r, ch, demo_started_mgr)"
    using demo_process_start by blast
  have "\<exists>r. cv_on_connection_read True demo_json demo_cli demo_config (bytes_of_text ?line)
      (cn_visitor demo_control_conn, cn_events demo_control_conn, demo_mgr) = (r, cn_visitor demo_control_conn, ch, demo_started_mgr)"
    by (cases r) (simp_all add: cv_on_connection_read_def demo_control_conn_def from_utf8_ascii ascii_bytes_of_text p)
  then show ?thesis by blast
qed

lemma demo_start_arrives:
  "\<exists>ch. demo_gw_step (demo_at crl demo_mgr [demo_control_conn]) (demo_at crl demo_started_mgr [demo_control_conn\<lparr>cn_events := ch\<rparr>])"
proof -
  obtain r ch where r: "cv_on_connection_read True demo_json demo_cli demo_config (bytes_of_text ''start -s echo -p 8501'')
      (cn_visitor demo_control_conn, cn_events demo_control_conn, demo_mgr) = (r, cn_visitor demo_control_conn, ch, demo_started_mgr)"
    using demo_start_read by blast
  show ?thesis
    using gw_step.data[of 0 "demo_at crl demo_mgr [demo_control_conn]" demo_control_conn True demo_json demo_cli demo_config
      "bytes_of_text ''start -s echo -p 8501''" r "cn_visitor demo_control_conn" ch demo_started_mgr demo_gw_lib demo_reachable_net] r
    by auto
qed

definition demo_session_key :: string where
  "demo_session_key = proxy_key_value TcpAndTcp (Some ''10.0.0.7:4000'') (Some (socket_addr (V4 ''10.0.0.9'') 8203))"

lemma demo_started_visitor: "get_service_proxy demo_started_mgr sid = (if sid = 203 then Some (svc_visitor_new demo_service (Some ''gw'') 8500) else None)"
  by (simp add: demo_started_mgr_def mgr_startup_def allocate_port_def demo_mgr_def gw_mgr_new_def demo_config_def
      get_service_proxy_def demo_service_def new_service_def Let_def)

lemma demo_started_shared: "gm_shared demo_started_mgr = \<lparr>gs_services_by_proxy_key = [], gs_proxy_tasks = new_chan\<rparr>"
  by (simp add: demo_started_mgr_def mgr_startup_def allocate_port_def demo_mgr_def gw_mgr_new_def demo_config_def Let_def)

lemma demo_session_hand_over:
  "\<exists>st vis. hand_over (gateway_visitor B demo_gw_lib demo_reachable_net demo_config) (demo_tls 100) (demo_at crl demo_started_mgr cs) = (Ok (), st) \<and>
     fresh_arrival (demo_tls 100) demo_started_mgr (gws_mgr st) \<and> get_service_proxy (gws_mgr st) 203 = Some vis \<and> keys_of vis 100 = [demo_session_key] \<and>
     get_proxy_addrs_for_user vis 100 = [create_proxy_addrs (demo_tls 100)] \<and> gws_conns st = cs"
proof -
  let ?vis = "svc_visitor_new demo_service (Some ''gw'') 8500"
  let ?vis1 = "?vis\<lparr>sp_users_by_proxy_addrs := [(create_proxy_addrs (demo_tls 100), 100)]\<rparr>"
  let ?st = "demo_at crl demo_started_mgr cs"
  obtain c where c: "svc_create_client_conn demo_gw_lib demo_config (demo_tls 100) ?vis = (Ok c, ?vis1)" "cn_stream c = demo_tls 100"
    "cn_alpn c = Some (Service 203)"
    using demo_created by (auto simp: svc_create_client_conn_def svc_visitor_new_def demo_service_def new_service_def demo_authorized conn_new_base
      new_user_def hm_insert_def split: res.splits)
  obtain vis2 sh2 where a: "gsp_on_conn_accepted demo_reachable_net demo_config c (?vis1, gm_shared demo_started_mgr) = (Ok (), vis2, sh2)"
    "keys_of vis2 100 = [demo_session_key]" "sp_users_by_proxy_addrs vis2 = sp_users_by_proxy_addrs ?vis1"
    by (simp add: gsp_on_conn_accepted_def tcp_on_conn_accepted_eq svc_visitor_new_def demo_service_def new_service_def resolve_host_def
      demo_reachable_net_def demo_net_def c(2) demo_started_shared demo_tls_def demo_stream_def sop_bind_def sop_lift_def send_open_task_def
      chan_send_def new_chan_def register_proxy_def hm_get_def hm_insert_def keys_of_def demo_session_key_def Let_def)
  let ?st' = "?st\<lparr>gws_mgr := (set_visitor 203 vis2 (set_visitor 203 ?vis1 demo_started_mgr))\<lparr>gm_shared := sh2\<rparr>\<rparr>"
  have "parse_alpn_protocol (gl_digits demo_gw_lib) (tls_alpn_protocol (demo_tls 100)) = Ok (Service 203)"
    by (simp add: demo_gw_lib_def demo_tls_def)
  moreover have "get_service_proxy demo_started_mgr 203 = Some ?vis" by (simp add: demo_started_visitor)
  ultimately have "hand_over (gateway_visitor B demo_gw_lib demo_reachable_net demo_config) (demo_tls 100) ?st = (Ok (), ?st')"
    using c a(1) by (simp add: hand_over_def gateway_visitor_def sop_bind_def gw_create_client_conn_def gw_on_conn_accepted_def create_at_def
      accept_at_def gw_get_service_proxy_def ok_or_def)
  moreover have "fresh_arrival (demo_tls 100) demo_started_mgr (gws_mgr ?st')"
    by (simp add: fresh_arrival_def demo_started_visitor addrs_free_def svc_visitor_new_def get_service_id_by_proxy_key_def demo_started_shared hm_get_def)
  moreover have "get_service_proxy (gws_mgr ?st') 203 = Some vis2" by (simp add: get_service_proxy_def set_visitor_def)
  moreover have "gws_conns ?st' = cs" by simp
  moreover have "get_proxy_addrs_for_user vis2 100 = [create_proxy_addrs (demo_tls 100)]" using a(3) by (simp add: get_proxy_addrs_for_user_def)
  ultimately show ?thesis using a(2) by blast
qed

lemma demo_session_opens:
  "\<exists>st vis. demo_gw_step (demo_at crl demo_started_mgr cs) st \<and> get_service_proxy (gws_mgr st) 203 = Some vis \<and>
     keys_of vis 100 = [demo_session_key] \<and> get_proxy_addrs_for_user vis 100 = [create_proxy_addrs (demo_tls 100)] \<and> gws_conns st = cs"
proof -
  obtain st vis where "hand_over (gateway_visitor (\<lambda>_. sop_lift (Ok ())) demo_gw_lib demo_reachable_net demo_config) (demo_tls 100)
      (demo_at crl demo_started_mgr cs) = (Ok (), st)" "fresh_arrival (demo_tls 100) demo_started_mgr (gws_mgr st)"
    "get_service_proxy (gws_mgr st) 203 = Some vis" "keys_of vis 100 = [demo_session_key]"
    "get_proxy_addrs_for_user vis 100 = [create_proxy_addrs (demo_tls 100)]" "gws_conns st = cs"
    using demo_session_hand_over[where B = "\<lambda>_. sop_lift (Ok ())"] by blast
  then show ?thesis
    by (intro exI[of _ st] exI[of _ vis] conjI gw_step.arrival[where B = "\<lambda>_. sop_lift (Ok ())" and r = "Ok ()" and t = "demo_tls 100"]) simp_all
qed

lemma demo_started_reachable:
  obtains ch where "gw_reachable True demo_gw_lib demo_reachable_net demo_json demo_cli demo_config
    \<lparr>gws_mgr = demo_started_mgr, gws_shutdown_requested = False, gws_crl = (None, []), gws_conns = [demo_control_conn\<lparr>cn_events := ch\<rparr>]\<rparr>"
proof -
  note r = gw_reachable.init[of True demo_gw_lib demo_reachable_net demo_json demo_cli demo_config, unfolded demo_main_new]
  show ?thesis using gw_reachable.step[OF gw_reachable.step[OF r demo_control_arrives]] demo_start_arrives[of "(None, [])"] that by blast
qed

lemma demo_session:
  obtains st vis where "gw_reachable True demo_gw_lib demo_reachable_net demo_json demo_cli demo_config st"
    "get_service_proxy (gws_mgr st) 203 = Some vis" "keys_of vis 100 = [demo_session_key]"
    "get_proxy_addrs_for_user vis 100 = [create_proxy_addrs (demo_tls 100)]"
    "\<exists>ch. gws_conns st = [demo_control_conn\<lparr>cn_events := ch\<rparr>]"
proof -
  obtain ch where r: "gw_reachable True demo_gw_lib demo_reachable_net demo_json demo_cli demo_config
      \<lparr>gws_mgr = demo_started_mgr, gws_shutdown_requested = False, gws_crl = (None, []), gws_conns = [demo_control_conn\<lparr>cn_events := ch\<rparr>]\<rparr>"
    by (rule demo_started_reachable)
  from demo_session_opens[of "(None, [])" "[demo_control_conn\<lparr>cn_events := ch\<rparr>]"] gw_reachable.step[OF r] show ?thesis using that by blast
qed


end
