(* ===== verification/T0_Tls_Client.thy ===== *)
theory T0_Tls_Client
  imports T0_Conn
begin

text \<open>
  \<open>crates/common/src/net/tls_client/client_std.rs\<close>: the TLS client, which resolves the server, makes a
  TCP connection, completes the handshake and hands the connection to its visitor.  The resolver, the
  socket calls and \<open>rustls\<close> are parameters.
\<close>

record connect_env =
  ce_server_name :: "string \<Rightarrow> dyn_error + string"
  ce_to_socket_addrs :: "string \<Rightarrow> u16 \<Rightarrow> dyn_error + string list"
  ce_tls_new :: "bytes list \<Rightarrow> string \<Rightarrow> dyn_error option"
  ce_tcp_connect :: "string \<Rightarrow> dyn_error option"
  ce_complete_io :: "bytes list \<Rightarrow> string \<Rightarrow> dyn_error + tls_stream"
  ce_nonblocking :: "string \<Rightarrow> dyn_error option"

text \<open>The trait \<open>ClientVisitor\<close>.\<close>

record ('c, 'w) tls_client_visitor =
  create_server_conn :: "tls_stream \<Rightarrow> ('w, 'c) sop"
  on_session_connected :: "('w, unit) sop"

record 'c tls_client =
  tc_alpn_protocols :: "bytes list"
  tc_server_host :: string
  tc_server_port :: u16
  tc_connection :: "'c option"

definition tls_client_new :: "bytes list \<Rightarrow> string \<Rightarrow> u16 \<Rightarrow> 'c tls_client" where
  "tls_client_new alpn host port =
     \<lparr>tc_alpn_protocols = alpn, tc_server_host = host, tc_server_port = port, tc_connection = None\<rparr>"

text \<open>The steps of \<open>connect\<close> that come before the visitor is asked for a connection.\<close>

definition tls_handshake :: "connect_env \<Rightarrow> 'c tls_client \<Rightarrow> tls_stream res" where
  "tls_handshake E cl =
     (let host = tc_server_host cl; port = tc_server_port cl in
      and_then (map_err (GenWithMsgAndErr (''Failed to resolve server host: host='' @ host)) (ce_server_name E host)) (\<lambda>server_host.
      and_then (map_err from_io (ce_to_socket_addrs E host port)) (\<lambda>addrs.
      and_then (ok_or (General (''Unable to create socket addr: host='' @ host @ '', port='' @ show_u16 port))
        (case addrs of [] \<Rightarrow> None | a # _ \<Rightarrow> Some a)) (\<lambda>addr.
      and_then (map_err (GenWithMsgAndErr (''Error setting up TLS client connection: server='' @ server_host))
        (case ce_tls_new E (tc_alpn_protocols cl) server_host of Some e \<Rightarrow> Inl e | None \<Rightarrow> Inr ())) (\<lambda>_.
      and_then (map_err (GenWithMsgAndErr (''Error establishing TCP connection: addr='' @ addr))
        (case ce_tcp_connect E addr of Some e \<Rightarrow> Inl e | None \<Rightarrow> Inr ())) (\<lambda>_.
      and_then (map_err (GenWithMsgAndErr ''Error completing TLS client connection'')
        (ce_complete_io E (tc_alpn_protocols cl) addr)) (\<lambda>stream.
      and_then (map_err (GenWithMsgAndErr (''Failed making socket non-blocking: addr='' @ addr))
        (case ce_nonblocking E addr of Some e \<Rightarrow> Inl e | None \<Rightarrow> Inr ())) (\<lambda>_.
      Ok stream))))))))"

definition tls_client_connect ::
  "connect_env \<Rightarrow> ('c, 'w) tls_client_visitor \<Rightarrow> ('c tls_client \<times> 'w, unit) sop" where
  "tls_client_connect E V cw =
     (case cw of (cl, w) \<Rightarrow>
      case tls_handshake E cl of
        Err e \<Rightarrow> (Err e, cl, w)
      | Panic m \<Rightarrow> (Panic m, cl, w)
      | Ok stream \<Rightarrow>
          (case create_server_conn V stream w of
             (Err e, w1) \<Rightarrow> (Err e, cl, w1)
           | (Panic m, w1) \<Rightarrow> (Panic m, cl, w1)
           | (Ok connection, w1) \<Rightarrow>
               (case on_session_connected V w1 of
                  (Ok _, w2) \<Rightarrow> (Ok (), cl\<lparr>tc_connection := Some connection\<rparr>, w2)
                | (Err e, w2) \<Rightarrow> (Err e, cl, w2)
                | (Panic m, w2) \<Rightarrow> (Panic m, cl, w2))))"

definition assert_connected :: "'c tls_client \<Rightarrow> unit res" where
  "assert_connected cl = (if tc_connection cl = None then Err (General ''Client not connected'') else Ok ())"

text \<open>\<open>poll_connection\<close>, with the fuel of the connection's loops.\<close>

definition tls_client_poll_connection ::
  "('v, 'w) conn_visitor \<Rightarrow> nat \<Rightarrow> nat \<Rightarrow> ('v, tls_stream) conn tls_client \<times> 'w \<Rightarrow> (unit res \<times> ('v, tls_stream) conn tls_client \<times> 'w) option" where
  "tls_client_poll_connection V fuel n cw =
     (case cw of (cl, w) \<Rightarrow>
      case (assert_connected cl, tc_connection cl) of
        (Err e, _) \<Rightarrow> Some (Err e, cl, w)
      | (Panic m, _) \<Rightarrow> Some (Panic m, cl, w)
      | (Ok _, None) \<Rightarrow> Some (Panic ''called `Option::unwrap()` on a `None` value'', cl, w)
      | (Ok _, Some c) \<Rightarrow>
          map_option (\<lambda>(r, c', w'). (r, cl\<lparr>tc_connection := Some c'\<rparr>, w')) (tls_client_poll V fuel n (c, w)))"

section \<open>Lemmas\<close>

text \<open>
  A handshake that succeeds went to the first address the resolver gave for the client's server, and
  offered the protocol names of the client.
\<close>

lemma tls_handshake_Ok:
  assumes "tls_handshake E cl = Ok t"
  obtains addr rest where "ce_to_socket_addrs E (tc_server_host cl) (tc_server_port cl) = Inr (addr # rest)"
    "ce_complete_io E (tc_alpn_protocols cl) addr = Inr t"
proof -
  from assms obtain addrs where a: "ce_to_socket_addrs E (tc_server_host cl) (tc_server_port cl) = Inr addrs" "addrs \<noteq> []"
    "ce_complete_io E (tc_alpn_protocols cl) (hd addrs) = Inr t"
    by (cases "ce_to_socket_addrs E (tc_server_host cl) (tc_server_port cl)"; cases "projr (ce_to_socket_addrs E (tc_server_host cl) (tc_server_port cl))")
      (auto simp: tls_handshake_def Let_def res_simps map_err_Ok ok_or_def)
  then show thesis using that by (cases addrs) auto
qed

lemma tls_handshake_no_panic: "tls_handshake E cl \<noteq> Panic m"
  by (auto simp: tls_handshake_def Let_def res_simps map_err_def ok_or_def split: sum.splits list.splits option.splits)

end
