(* ===== verification/T0_Cli_Proxy.thy ===== *)
theory T0_Cli_Proxy
  imports T0_Proxy_Base T0_Tls_Client T0_Server T0_Text T0_Model
begin

text \<open>
  \<open>crates/client/src/service/proxy\<close>: the client's end of a service proxy.  A local TCP or UDP listener
  accepts the user's programs; each connection (for UDP: each peer address) gets its own TLS
  connection to the gateway, made with the protocol name of the service, and a proxy that copies
  between the two.  \<open>tcp_proxy.rs\<close> and \<open>udp_proxy.rs\<close> keep the same maps; the field \<open>xv_channels\<close>
  is used by the UDP visitor alone.
\<close>

record cli_visitor =
  xv_service :: service
  xv_client_port :: u16
  xv_gateway_host :: string
  xv_gateway_port :: u16
  xv_channels :: "(string, proxy_event chan) hashmap"
  xv_proxy_keys :: "string list"
  xv_shutdown_requested :: bool

text \<open>What the visitors of all services share: the service of each proxy key, and the executor's tasks.\<close>

record cli_shared =
  xs_services_by_proxy_key :: "(string, u64) hashmap"
  xs_proxy_tasks :: "proxy_task chan"

type_synonym cli_state = "cli_visitor \<times> cli_shared"

definition cli_visitor_new :: "service \<Rightarrow> u16 \<Rightarrow> string \<Rightarrow> u16 \<Rightarrow> cli_visitor" where
  "cli_visitor_new svc client_port gateway_host gateway_port =
     \<lparr>xv_service = svc, xv_client_port = client_port, xv_gateway_host = gateway_host, xv_gateway_port = gateway_port,
      xv_channels = [], xv_proxy_keys = [], xv_shutdown_requested = False\<rparr>"

section \<open>The connection to the gateway\<close>

text \<open>\<open>proxy_client.rs\<close>: both visitors have the default handlers only.\<close>

definition plain_conn_visitor :: "(unit, 'w) conn_visitor" where
  "plain_conn_visitor = \<lparr>set_event_channel_sender = default_handler, on_connected = default_handler,
     on_connection_read = (\<lambda>_. default_handler), on_polling_cycle = default_handler, on_shutdown = default_handler,
     send_error_response = (\<lambda>_. default_handler)\<rparr>"

definition proxy_client_visitor :: "((unit, tls_stream) conn, 'w) tls_client_visitor" where
  "proxy_client_visitor =
     \<lparr>create_server_conn = tls_client_conn_new plain_conn_visitor (), on_session_connected = (\<lambda>w. (Ok (), w))\<rparr>"

text \<open>
  The TLS client of a service connection, up to the copy of its socket: its protocol names are the
  one of the service.
\<close>

definition connect_gateway :: "connect_env \<Rightarrow> cli_visitor \<Rightarrow> tls_stream res" where
  "connect_gateway E vis =
     (let alpn = [bytes_of_text (create_service_protocol (sv_service_id (xv_service vis)))];
          tls_client = tls_client_new alpn (xv_gateway_host vis) (xv_gateway_port vis) in
      case tls_client_connect E proxy_client_visitor (tls_client, ()) of
        (Err e, _) \<Rightarrow> Err e
      | (Panic m, _) \<Rightarrow> Panic m
      | (Ok _, cl, _) \<Rightarrow>
          and_then (unwrap_opt (tc_connection cl)) (\<lambda>c.
            map_err (GenWithMsgAndErr ''Error trying to clone gateway proxy TLS stream'')
              (case st_clone_err (cn_stream c) of Some e \<Rightarrow> Inl e | None \<Rightarrow> Inr (cn_stream c))))"

section \<open>TCP\<close>

definition cli_tcp_create_client_conn :: "net_stream \<Rightarrow> (unit, net_stream) conn res" where
  "cli_tcp_create_client_conn stream = fst (tcp_conn_new plain_conn_visitor () stream ())"

text \<open>The end of both handlers: the task for the executor, and the proxy maps.\<close>

definition cli_send_task :: "string \<Rightarrow> proxy_task \<Rightarrow> (cli_state, unit) sop" where
  "cli_send_task kind task st =
     (case st of (vis, sh) \<Rightarrow>
      case chan_send task (xs_proxy_tasks sh) of
        Some ch \<Rightarrow> (Ok (), vis, sh\<lparr>xs_proxy_tasks := ch\<rparr>)
      | None \<Rightarrow> (Err (General (''Error while sending request for new '' @ kind @ '' proxy: proxy_key='' @ task_key task @
                     '', err='' @ debug_of send_error)), vis, sh))"

definition cli_register :: "string \<Rightarrow> (cli_state, unit) sop" where
  "cli_register key st =
     (case st of (vis, sh) \<Rightarrow>
      (Ok (), vis\<lparr>xv_proxy_keys := List.insert key (xv_proxy_keys vis)\<rparr>,
       sh\<lparr>xs_services_by_proxy_key := hm_insert key (sv_service_id (xv_service vis)) (xs_services_by_proxy_key sh)\<rparr>))"

definition cli_tcp_on_conn_accepted :: "connect_env \<Rightarrow> (unit, net_stream) conn \<Rightarrow> (cli_state, unit) sop" where
  "cli_tcp_on_conn_accepted E connection st =
     (case connect_gateway E (fst st) of
        Err e \<Rightarrow> (Err e, st)
      | Panic m \<Rightarrow> (Panic m, st)
      | Ok gateway_stream \<Rightarrow>
          (let stream = cn_stream connection;
               key = proxy_key_value TcpAndTcp (st_peer_addr stream) (st_local_addr stream) in
           sop_bind (sop_lift (map_err (GenWithMsgAndErr (''Unable to clone client stream: client_stream='' @ st_debug stream))
                      (case st_clone_err stream of Some e \<Rightarrow> Inl e | None \<Rightarrow> Inr ())))
             (\<lambda>_. sop_bind (cli_send_task ''TCP'' (OpenTcpAndTcpProxy key stream (net_stream.truncate gateway_stream)))
             (\<lambda>_. cli_register key)) st))"

section \<open>UDP\<close>

text \<open>
  A datagram from a peer without an entry in the channel map opens a proxy first; then, in any case,
  the datagram goes to the channel of its key.
\<close>

definition cli_udp_open :: "connect_env \<Rightarrow> string \<Rightarrow> string \<Rightarrow> (cli_state, unit) sop" where
  "cli_udp_open E key peer_addr st =
     (case connect_gateway E (fst st) of
        Err e \<Rightarrow> (Err e, st)
      | Panic m \<Rightarrow> (Panic m, st)
      | Ok gateway_stream \<Rightarrow>
          sop_bind (cli_send_task ''UDP'' (OpenChannelAndTcpProxy key peer_addr (net_stream.truncate gateway_stream)))
            (\<lambda>_ (vis, sh). cli_register key (vis\<lparr>xv_channels := hm_insert key new_chan (xv_channels vis)\<rparr>, sh)) st)"

definition cli_udp_send :: "string \<Rightarrow> string \<Rightarrow> bytes \<Rightarrow> (cli_state, unit) sop" where
  "cli_udp_send key peer_addr data st =
     (case st of (vis, sh) \<Rightarrow>
      case hm_get (xv_channels vis) key of
        None \<Rightarrow> (Ok (), vis, sh)
      | Some ch \<Rightarrow>
          (case chan_send (ProxyMessage key peer_addr data) ch of
             Some ch' \<Rightarrow> (Ok (), vis\<lparr>xv_channels := hm_insert key ch' (xv_channels vis)\<rparr>, sh)
           | None \<Rightarrow> (Err (GenWithMsgAndErr (''Error while sending message to socket channel: proxy_stream='' @ key) send_error), vis, sh)))"

definition cli_udp_on_message_received :: "connect_env \<Rightarrow> string \<Rightarrow> string \<Rightarrow> bytes \<Rightarrow> (cli_state, unit) sop" where
  "cli_udp_on_message_received E local_addr peer_addr data st =
     (let key = proxy_key_value ChannelAndTcp (Some peer_addr) (Some local_addr) in
      sop_bind (if hm_get (xv_channels (fst st)) key = None then cli_udp_open E key peer_addr else (\<lambda>st. (Ok (), st)))
        (\<lambda>_. cli_udp_send key peer_addr data) st)"

text \<open>
  \<open>spawn_client_bound_message_processor\<close>: a thread with a socket of its own, a clone of the server's.  A round
  takes what \<open>recv\<close> gives (\<open>None\<close>: an error, which is logged) and sends a message to the address it
  carries; an error of the sending is logged too.  The thread is a loop without an end: it has no result.
\<close>

definition client_bound_message :: "proxy_event option \<Rightarrow> udp_sock \<Rightarrow> udp_sock" where
  "client_bound_message received server_socket =
     (case received of
        Some (ProxyMessage _ addr data) \<Rightarrow> snd (send_message addr data server_socket)
      | _ \<Rightarrow> server_socket)"

partial_function (option) client_bound_message_processor :: "(nat \<Rightarrow> proxy_event option) \<Rightarrow> nat \<Rightarrow> udp_sock \<Rightarrow> unit option" where
  "client_bound_message_processor received n server_socket =
     client_bound_message_processor received (Suc n) (client_bound_message (received n) server_socket)"

section \<open>The interface the manager uses\<close>

definition cli_set_shutdown_requested :: "cli_visitor \<Rightarrow> cli_visitor" where
  "cli_set_shutdown_requested vis = vis\<lparr>xv_shutdown_requested := True\<rparr>"

fun cli_close_keys :: "string \<Rightarrow> string list \<Rightarrow> string list \<Rightarrow> cli_shared \<Rightarrow> string list \<times> cli_shared" where
  "cli_close_keys kind [] errors sh = (errors, sh)"
| "cli_close_keys kind (key # keys) errors sh =
     (case (case chan_send (CloseProxy key) (xs_proxy_tasks sh) of
              Some ch \<Rightarrow> (errors, sh\<lparr>xs_proxy_tasks := ch\<rparr>)
            | None \<Rightarrow> (errors @ [''Error while sending request to close a '' @ kind @ '' proxy connection: proxy_stream='' @
                 key @ '', err='' @ debug_of send_error], sh)) of
        (errors', sh') \<Rightarrow>
          cli_close_keys kind keys errors'
            (sh'\<lparr>xs_services_by_proxy_key := hm_remove key (xs_services_by_proxy_key sh')\<rparr>))"

definition cli_shutdown_connections :: "string \<Rightarrow> (cli_state, unit) sop" where
  "cli_shutdown_connections kind st =
     (case st of (vis, sh) \<Rightarrow>
      case cli_close_keys kind (xv_proxy_keys vis) [] sh of
        (errors, sh') \<Rightarrow>
          if errors = [] then (Ok (), vis\<lparr>xv_proxy_keys := []\<rparr>, sh')
          else (Err (General (''Errors closing proxy connection(s), err='' @ join_strs '', '' errors)), vis, sh'))"

definition cli_tcp_shutdown_connections where "cli_tcp_shutdown_connections = cli_shutdown_connections ''TCP''"
definition cli_udp_shutdown_connections where "cli_udp_shutdown_connections = cli_shutdown_connections ''UDP''"

definition cli_remove_proxy_for_key :: "string \<Rightarrow> cli_state \<Rightarrow> bool \<times> cli_state" where
  "cli_remove_proxy_for_key key st =
     (case st of (vis, sh) \<Rightarrow>
      if key \<in> set (xv_proxy_keys vis) then
        (True, vis\<lparr>xv_proxy_keys := filter (\<lambda>k. k \<noteq> key) (xv_proxy_keys vis)\<rparr>,
         sh\<lparr>xs_services_by_proxy_key := hm_remove key (xs_services_by_proxy_key sh)\<rparr>)
      else (False, vis, sh))"

definition cli_tcp_remove_proxy_for_key where "cli_tcp_remove_proxy_for_key = cli_remove_proxy_for_key"
definition cli_udp_remove_proxy_for_key where "cli_udp_remove_proxy_for_key = cli_remove_proxy_for_key"

text \<open>The visitors' shutdown and removal by the transport of their service.\<close>

definition csp_shutdown_connections :: "(cli_state, unit) sop" where
  "csp_shutdown_connections st =
     (case sv_transport (xv_service (fst st)) of
        TCP \<Rightarrow> cli_tcp_shutdown_connections st | UDP \<Rightarrow> cli_udp_shutdown_connections st)"

definition csp_remove_proxy_for_key :: "string \<Rightarrow> cli_state \<Rightarrow> bool \<times> cli_state" where
  "csp_remove_proxy_for_key key st =
     (case sv_transport (xv_service (fst st)) of
        TCP \<Rightarrow> cli_tcp_remove_proxy_for_key key st | UDP \<Rightarrow> cli_udp_remove_proxy_for_key key st)"

section \<open>Lemmas\<close>

text \<open>The message processor never returns, and between two rounds it still has its socket.\<close>

lemma message_processor_never_returns: "client_bound_message_processor received n u = None"
proof (rule ccontr)
  assume "client_bound_message_processor received n u \<noteq> None"
  then obtain y where "client_bound_message_processor received n u = Some y" by auto
  then show False by (rule client_bound_message_processor.raw_induct[where P = "\<lambda>_ _ _ _. False", rotated])
qed

lemma tls_client_conn_new_plain [simp]:
  "tls_client_conn_new plain_conn_visitor () stream w =
     (Ok \<lparr>cn_visitor = (), cn_stream = stream, cn_events = new_chan, cn_alpn = None, cn_closed = False\<rparr>, w)"
  by (simp add: tls_client_conn_new_def plain_conn_visitor_def default_handler_def)

lemma conn_new_plain [simp]:
  "conn_new plain_conn_visitor () stream alpn w =
     (Ok \<lparr>cn_visitor = (), cn_stream = stream, cn_events = new_chan, cn_alpn = alpn, cn_closed = False\<rparr>, w)"
  by (simp add: conn_new_def plain_conn_visitor_def default_handler_def)

text \<open>A service connection goes to the gateway proxy of the visitor and offers the service's protocol name alone.\<close>

lemma connect_gateway_Ok:
  assumes "connect_gateway E vis = Ok t"
  obtains addr rest where "ce_to_socket_addrs E (xv_gateway_host vis) (xv_gateway_port vis) = Inr (addr # rest)"
    "ce_complete_io E [bytes_of_text (create_service_protocol (sv_service_id (xv_service vis)))] addr = Inr t"
proof -
  define cl :: "(unit, tls_stream) conn tls_client" where
    "cl = tls_client_new [bytes_of_text (create_service_protocol (sv_service_id (xv_service vis)))] (xv_gateway_host vis) (xv_gateway_port vis)"
  have t: "tls_handshake E cl = Ok t"
  proof (cases "tls_handshake E cl")
    case (Ok u)
    with assms show ?thesis
      by (auto simp: connect_gateway_def Let_def cl_def[symmetric] tls_client_connect_def proxy_client_visitor_def
          unwrap_opt_def map_err_Ok split: option.splits)
  qed (use assms in \<open>auto simp: connect_gateway_def Let_def cl_def[symmetric] tls_client_connect_def\<close>)
  from tls_handshake_Ok[OF t] obtain addr rest where
    "ce_to_socket_addrs E (tc_server_host cl) (tc_server_port cl) = Inr (addr # rest)"
    "ce_complete_io E (tc_alpn_protocols cl) addr = Inr t" by blast
  with that show thesis by (simp add: cl_def tls_client_new_def)
qed

lemma connect_gateway_no_panic: "connect_gateway E vis \<noteq> Panic m"
  by (auto simp: connect_gateway_def Let_def tls_client_connect_def proxy_client_visitor_def unwrap_opt_def map_err_def
      tls_handshake_no_panic split: res.splits option.splits)

text \<open>Closing a list of keys while the executor lives.\<close>

lemma cli_close_keys_alive:
  "receiver_alive (xs_proxy_tasks sh) \<Longrightarrow>
   \<exists>sh'. cli_close_keys kind keys errors sh = (errors, sh') \<and> receiver_alive (xs_proxy_tasks sh') \<and>
     queue (xs_proxy_tasks sh') = queue (xs_proxy_tasks sh) @ map CloseProxy keys \<and>
     (\<forall>k. hm_get (xs_services_by_proxy_key sh') k =
        (if k \<in> set keys then None else hm_get (xs_services_by_proxy_key sh) k))"
proof (induction keys arbitrary: sh)
  case Nil
  then show ?case by simp
next
  case (Cons key keys)
  define sh1 where "sh1 = sh\<lparr>xs_proxy_tasks := (xs_proxy_tasks sh)\<lparr>queue := queue (xs_proxy_tasks sh) @ [CloseProxy key]\<rparr>,
    xs_services_by_proxy_key := hm_remove key (xs_services_by_proxy_key sh)\<rparr>"
  have "receiver_alive (xs_proxy_tasks sh1)" using Cons.prems by (simp add: sh1_def)
  from Cons.IH[OF this] Cons.prems show ?case
    by (auto simp: chan_send_def sh1_def)
qed

lemma csp_shutdown_alive:
  assumes "receiver_alive (xs_proxy_tasks sh)"
  shows "\<exists>sh'. csp_shutdown_connections (vis, sh) = (Ok (), vis\<lparr>xv_proxy_keys := []\<rparr>, sh') \<and>
     receiver_alive (xs_proxy_tasks sh') \<and>
     queue (xs_proxy_tasks sh') = queue (xs_proxy_tasks sh) @ map CloseProxy (xv_proxy_keys vis) \<and>
     (\<forall>k. hm_get (xs_services_by_proxy_key sh') k =
        (if k \<in> set (xv_proxy_keys vis) then None else hm_get (xs_services_by_proxy_key sh) k))"
proof -
  let ?P = "\<lambda>r. \<exists>sh'. r = (Ok (), vis\<lparr>xv_proxy_keys := []\<rparr>, sh') \<and> receiver_alive (xs_proxy_tasks sh') \<and>
     queue (xs_proxy_tasks sh') = queue (xs_proxy_tasks sh) @ map CloseProxy (xv_proxy_keys vis) \<and>
     (\<forall>k. hm_get (xs_services_by_proxy_key sh') k =
        (if k \<in> set (xv_proxy_keys vis) then None else hm_get (xs_services_by_proxy_key sh) k))"
  have "?P (cli_shutdown_connections kind (vis, sh))" for kind
  proof -
    from cli_close_keys_alive[OF assms, of kind "xv_proxy_keys vis" "[]"] obtain sh' where
      "cli_close_keys kind (xv_proxy_keys vis) [] sh = ([], sh')" "receiver_alive (xs_proxy_tasks sh')"
      "queue (xs_proxy_tasks sh') = queue (xs_proxy_tasks sh) @ map CloseProxy (xv_proxy_keys vis)"
      "\<forall>k. hm_get (xs_services_by_proxy_key sh') k =
        (if k \<in> set (xv_proxy_keys vis) then None else hm_get (xs_services_by_proxy_key sh) k)" by blast
    then show ?thesis by (simp add: cli_shutdown_connections_def)
  qed
  then show ?thesis
    by (cases "sv_transport (xv_service vis)")
      (simp_all only: csp_shutdown_connections_def cli_tcp_shutdown_connections_def cli_udp_shutdown_connections_def
        fst_conv transport.case)
qed

section \<open>Properties\<close>

text \<open>The handler over a sequence of datagrams of one peer.\<close>

fun receive_all :: "connect_env \<Rightarrow> string \<Rightarrow> string \<Rightarrow> bytes list \<Rightarrow> (cli_state, unit) sop" where
  "receive_all E local_addr peer_addr [] st = (Ok (), st)"
| "receive_all E local_addr peer_addr (d # ds) st =
     sop_bind (cli_udp_on_message_received E local_addr peer_addr d) (\<lambda>_. receive_all E local_addr peer_addr ds) st"

lemma receive_known_peer:
  assumes "key = proxy_key_value ChannelAndTcp (Some peer_addr) (Some local_addr)"
    and "hm_get (xv_channels vis) key = Some ch" and "receiver_alive ch"
  shows "\<exists>vis' ch'. receive_all E local_addr peer_addr ds (vis, sh) = (Ok (), vis', sh) \<and>
    hm_get (xv_channels vis') key = Some ch' \<and> queue ch' = queue ch @ map (ProxyMessage key peer_addr) ds"
  using assms(2,3)
proof (induction ds arbitrary: vis ch)
  case Nil
  then show ?case by simp
next
  case (Cons d ds)
  let ?ch = "ch\<lparr>queue := queue ch @ [ProxyMessage key peer_addr d]\<rparr>"
  let ?vis = "vis\<lparr>xv_channels := hm_insert key ?ch (xv_channels vis)\<rparr>"
  have "cli_udp_on_message_received E local_addr peer_addr d (vis, sh) = (Ok (), ?vis, sh)"
    using Cons.prems by (simp add: cli_udp_on_message_received_def Let_def assms(1)[symmetric] sop_bind_def cli_udp_send_def chan_send_def)
  moreover from Cons.IH[of ?vis ?ch] Cons.prems(2) obtain vis' ch' where
    "receive_all E local_addr peer_addr ds (?vis, sh) = (Ok (), vis', sh)" "hm_get (xv_channels vis') key = Some ch'"
    "queue ch' = queue ?ch @ map (ProxyMessage key peer_addr) ds"
    by auto
  ultimately show ?case by (auto simp: sop_bind_def)
qed

text \<open>
  C25: a new peer of a local UDP service gets exactly one tunnel: its first datagram makes one
  connection to the gateway and queues one opening task, and all its datagrams, the first one
  included, are queued for that tunnel once each and in order; the proxy is filed under the service.
\<close>

theorem udp_peer_gets_one_tunnel:
  assumes "key = proxy_key_value ChannelAndTcp (Some peer_addr) (Some local_addr)"
    and "hm_get (xv_channels vis) key = None" and "connect_gateway E vis = Ok t"
    and "receiver_alive (xs_proxy_tasks sh)" and "ds \<noteq> []"
  shows "\<exists>vis' sh' ch. receive_all E local_addr peer_addr ds (vis, sh) = (Ok (), vis', sh') \<and>
    hm_get (xv_channels vis') key = Some ch \<and> queue ch = map (ProxyMessage key peer_addr) ds \<and>
    queue (xs_proxy_tasks sh') = queue (xs_proxy_tasks sh) @ [OpenChannelAndTcpProxy key peer_addr (net_stream.truncate t)] \<and>
    hm_get (xs_services_by_proxy_key sh') key = Some (sv_service_id (xv_service vis))"
proof -
  obtain d rest where ds: "ds = d # rest" using assms(5) by (cases ds) auto
  define ch1 :: "proxy_event chan" where "ch1 = \<lparr>queue = [ProxyMessage key peer_addr d], receiver_alive = True\<rparr>"
  define sh1 where "sh1 = sh\<lparr>xs_proxy_tasks := (xs_proxy_tasks sh)\<lparr>queue := queue (xs_proxy_tasks sh) @
      [OpenChannelAndTcpProxy key peer_addr (net_stream.truncate t)]\<rparr>,
    xs_services_by_proxy_key := hm_insert key (sv_service_id (xv_service vis)) (xs_services_by_proxy_key sh)\<rparr>"
  have "\<exists>vis1. cli_udp_on_message_received E local_addr peer_addr d (vis, sh) = (Ok (), vis1, sh1) \<and>
      hm_get (xv_channels vis1) key = Some ch1"
    using assms(2-4)
    by (auto simp: cli_udp_on_message_received_def Let_def assms(1)[symmetric] sop_bind_def cli_udp_open_def cli_send_task_def
        cli_register_def cli_udp_send_def chan_send_def new_chan_def ch1_def sh1_def)
  then obtain vis1 where v1: "cli_udp_on_message_received E local_addr peer_addr d (vis, sh) = (Ok (), vis1, sh1)"
    "hm_get (xv_channels vis1) key = Some ch1" by blast
  have "receiver_alive ch1" by (simp add: ch1_def)
  from receive_known_peer[OF assms(1) v1(2) this, of E rest sh1] v1(1) ds show ?thesis
    by (auto simp: sop_bind_def ch1_def sh1_def)
qed

text \<open>
  the tunnel of a UDP peer is never replaced: once its proxy has ended and was removed, every
  later datagram of that peer fails, whatever the gateway would answer to a new connection, and no
  opening task is queued, because the channel of the ended proxy stays in the map.
\<close>

theorem udp_peer_never_reconnects:
  assumes "key = proxy_key_value ChannelAndTcp (Some peer_addr) (Some local_addr)"
    and "hm_get (xv_channels vis) key = Some ch" and "\<not> receiver_alive ch"
    and "csp_remove_proxy_for_key key (vis, sh) = (b, vis1, sh1)"
  shows "\<exists>e. cli_udp_on_message_received E local_addr peer_addr data (vis1, sh1) = (Err e, vis1, sh1)"
proof -
  have "hm_get (xv_channels vis1) key = Some ch"
    using assms(2,4)
    by (auto simp: csp_remove_proxy_for_key_def cli_tcp_remove_proxy_for_key_def cli_udp_remove_proxy_for_key_def
        cli_remove_proxy_for_key_def split: transport.splits if_splits)
  with assms(3) show ?thesis
    by (simp add: cli_udp_on_message_received_def Let_def assms(1)[symmetric] sop_bind_def cli_udp_send_def chan_send_def)
qed

section \<open>Concrete instances\<close>

definition demo_cli_tls :: tls_stream where
  "demo_cli_tls = \<lparr>st_peer_addr = Some ''192.0.2.1:8400'', st_local_addr = Some ''10.0.0.7:4100'', st_reads = [],
     st_writes = [], st_sent = [], st_shutdowns = [], st_clone_err = None, st_debug = ''TcpStream'',
     tls_peer_certificates = None, tls_alpn_protocol = None\<rparr>"

definition demo_connect :: connect_env where
  "demo_connect = \<lparr>ce_server_name = Inr, ce_to_socket_addrs = (\<lambda>h p. Inr [''192.0.2.1:8400'']), ce_tls_new = (\<lambda>_ _. None),
     ce_tcp_connect = (\<lambda>_. None), ce_complete_io = (\<lambda>_ _. Inr demo_cli_tls), ce_nonblocking = (\<lambda>_. None)\<rparr>"

definition demo_cli_visitor :: cli_visitor where
  "demo_cli_visitor = cli_visitor_new (new_service 203 ''echo'' UDP ''echo.example'' 7) 8501 ''gw.example'' 8400"

definition demo_cli_shared :: cli_shared where
  "demo_cli_shared = \<lparr>xs_services_by_proxy_key = [], xs_proxy_tasks = new_chan\<rparr>"

lemma demo_connect_gateway: "connect_gateway demo_connect vis = Ok demo_cli_tls"
  by (simp add: connect_gateway_def Let_def tls_client_connect_def tls_handshake_def tls_client_new_def demo_connect_def
      proxy_client_visitor_def unwrap_opt_def demo_cli_tls_def ok_or_def)

theorem udp_peer_gets_one_tunnel_witness:
  "\<exists>vis' sh' ch. receive_all demo_connect ''[::]:8501'' ''10.0.0.9:999'' [[1], [2]] (demo_cli_visitor, demo_cli_shared) = (Ok (), vis', sh') \<and>
    queue (xs_proxy_tasks sh') = [OpenChannelAndTcpProxy (proxy_key_value ChannelAndTcp (Some ''10.0.0.9:999'') (Some ''[::]:8501''))
      ''10.0.0.9:999'' (net_stream.truncate demo_cli_tls)]"
proof -
  have "hm_get (xv_channels demo_cli_visitor) (proxy_key_value ChannelAndTcp (Some ''10.0.0.9:999'') (Some ''[::]:8501'')) = None"
    "receiver_alive (xs_proxy_tasks demo_cli_shared)" "queue (xs_proxy_tasks demo_cli_shared) = []" "[[1], [2]] \<noteq> ([] :: bytes list)"
    by (simp_all add: demo_cli_visitor_def cli_visitor_new_def demo_cli_shared_def new_chan_def hm_get_def)
  with udp_peer_gets_one_tunnel[OF refl this(1) demo_connect_gateway this(2,4)] show ?thesis by (metis append_Nil)
qed

theorem udp_peer_never_reconnects_witness:
  "\<exists>vis1 sh1 e. cli_udp_on_message_received demo_connect ''[::]:8501'' ''10.0.0.9:999'' [1] (vis1, sh1) = (Err e, vis1, sh1) \<and>
     queue (xs_proxy_tasks sh1) = []"
proof -
  define key where "key = proxy_key_value ChannelAndTcp (Some ''10.0.0.9:999'') (Some ''[::]:8501'')"
  define vis where "vis = demo_cli_visitor\<lparr>xv_channels := [(key, \<lparr>queue = [], receiver_alive = False\<rparr>)], xv_proxy_keys := [key]\<rparr>"
  obtain b vis1 sh1 where r: "csp_remove_proxy_for_key key (vis, demo_cli_shared) = (b, vis1, sh1)" by (metis prod_cases3)
  have "xs_proxy_tasks sh1 = xs_proxy_tasks demo_cli_shared"
    using r by (auto simp: csp_remove_proxy_for_key_def cli_tcp_remove_proxy_for_key_def cli_udp_remove_proxy_for_key_def
        cli_remove_proxy_for_key_def split: transport.splits if_splits)
  moreover have "hm_get (xv_channels vis) key = Some \<lparr>queue = [], receiver_alive = False\<rparr>"
    by (simp add: vis_def hm_get_def)
  ultimately show ?thesis
    using udp_peer_never_reconnects[OF key_def _ _ r, of "\<lparr>queue = [], receiver_alive = False\<rparr>" demo_connect "[1]"]
    by (intro exI[of _ vis1] exI[of _ sh1]) (simp add: demo_cli_shared_def new_chan_def)
qed

end
