(* ===== verification/T0_Cli_Manager.thy ===== *)
theory T0_Cli_Manager
  imports T0_Cli_Proxy
begin

text \<open>
  \<open>crates/client/src/service/manager.rs\<close>: the client's service manager.  It starts the local end of a
  service proxy when the gateway has granted one, shuts all of them down, and removes the proxies whose
  end the executor reports.  The listener threads it starts are those of \<open>T0_Server\<close>; the server each
  one runs is kept in \<open>xm_service_proxies\<close>.
\<close>

type_synonym cli_addrs = "u16 \<times> string \<times> u16"

record cli_mgr =
  xm_service_proxies :: "(u64, server) hashmap"
  xm_service_proxy_visitors :: "(u64, cli_visitor) hashmap"
  xm_service_addrs :: "(u64, cli_addrs) hashmap"
  xm_shared :: cli_shared

definition cli_mgr_new :: "proxy_task chan \<Rightarrow> cli_mgr" where
  "cli_mgr_new tasks = \<lparr>xm_service_proxies = [], xm_service_proxy_visitors = [], xm_service_addrs = [],
     xm_shared = \<lparr>xs_services_by_proxy_key = [], xs_proxy_tasks = tasks\<rparr>\<rparr>"

definition get_proxy_service_for_proxy_key :: "cli_mgr \<Rightarrow> string \<Rightarrow> u64 option" where
  "get_proxy_service_for_proxy_key mgr key = hm_get (xs_services_by_proxy_key (xm_shared mgr)) key"

definition get_proxy_addrs_for_service :: "cli_mgr \<Rightarrow> u64 \<Rightarrow> cli_addrs option" where
  "get_proxy_addrs_for_service mgr sid = hm_get (xm_service_addrs mgr) sid"

definition get_proxy_visitor_for_service :: "cli_mgr \<Rightarrow> u64 \<Rightarrow> cli_visitor option" where
  "get_proxy_visitor_for_service mgr sid = hm_get (xm_service_proxy_visitors mgr) sid"

text \<open>\<open>startup\<close>: a service that was started before keeps the addresses it has.\<close>

definition cli_startup :: "service \<Rightarrow> cli_addrs \<Rightarrow> (cli_mgr, cli_addrs) sop" where
  "cli_startup svc proxy_addrs mgr =
     (case hm_get (xm_service_addrs mgr) (sv_service_id svc) of
        Some addrs \<Rightarrow> (Ok addrs, mgr)
      | None \<Rightarrow>
          (case proxy_addrs of (client_port, gateway_host, gateway_port) \<Rightarrow>
             (let visitor = cli_visitor_new svc client_port gateway_host gateway_port;
                  made = (case sv_transport svc of TCP \<Rightarrow> Ok (server_new client_port) | UDP \<Rightarrow> udp_server_new client_port) in
              case made of
                Err e \<Rightarrow> (Err e, mgr)
              | Panic m \<Rightarrow> (Panic m, mgr)
              | Ok srv \<Rightarrow>
                  (Ok proxy_addrs,
                   mgr\<lparr>xm_service_addrs := hm_insert (sv_service_id svc) proxy_addrs (xm_service_addrs mgr),
                       xm_service_proxies := hm_insert (sv_service_id svc) srv (xm_service_proxies mgr),
                       xm_service_proxy_visitors := hm_insert (sv_service_id svc) visitor (xm_service_proxy_visitors mgr)\<rparr>))))"

text \<open>\<open>shutdown\<close>: every visitor is told to stop and closes its proxies; the errors are collected.\<close>

fun cli_shutdown_visitors :: "(u64, cli_visitor) hashmap \<Rightarrow> cli_shared \<Rightarrow> string list \<Rightarrow>
    string list res \<times> (u64, cli_visitor) hashmap \<times> cli_shared" where
  "cli_shutdown_visitors [] sh errors = (Ok errors, [], sh)"
| "cli_shutdown_visitors ((sid, vis) # rest) sh errors =
     (case csp_shutdown_connections (cli_set_shutdown_requested vis, sh) of
        (Panic m, vis', sh') \<Rightarrow> (Panic m, (sid, vis') # rest, sh')
      | (r, vis', sh') \<Rightarrow>
          (let errors' = (case r of
               Err e \<Rightarrow> errors @ [''Failed shutting down service proxy: svc_id='' @ show_u64 sid @ '', err='' @ err_debug e]
             | _ \<Rightarrow> errors) in
           case cli_shutdown_visitors rest sh' errors' of (r', rest', sh'') \<Rightarrow> (r', (sid, vis') # rest', sh'')))"

definition cli_shutdown :: "(cli_mgr, unit) sop" where
  "cli_shutdown mgr =
     (case cli_shutdown_visitors (xm_service_proxy_visitors mgr) (xm_shared mgr) [] of
        (r, visitors, sh) \<Rightarrow>
          (let mgr' = mgr\<lparr>xm_service_proxy_visitors := visitors, xm_shared := sh\<rparr> in
           case r of
             Ok errors \<Rightarrow>
               if errors \<noteq> [] then (Err (General (''Error shutting down services: err(s)='' @ join_strs '','' errors)), mgr')
               else (Ok (), mgr')
           | Err e \<Rightarrow> (Err e, mgr')
           | Panic m \<Rightarrow> (Panic m, mgr')))"

text \<open>\<open>process_next_proxy_event\<close>; \<open>None\<close> is a closed channel.\<close>

definition process_next_proxy_event :: "proxy_event option \<Rightarrow> (cli_mgr, bool) sop" where
  "process_next_proxy_event received mgr =
     (case received of
        None \<Rightarrow> (Err (GenWithMsgAndErr ''Error receiving proxy event'' recv_error), mgr)
      | Some (ProxyMessage _ _ _) \<Rightarrow> (Ok False, mgr)
      | Some (ProxyClosed key) \<Rightarrow>
          (let sid = (case get_proxy_service_for_proxy_key mgr key of Some s \<Rightarrow> s | None \<Rightarrow> - 1) in
           case get_proxy_visitor_for_service mgr sid of
             None \<Rightarrow> (Ok False, mgr)
           | Some vis \<Rightarrow>
               (case csp_remove_proxy_for_key key (vis, xm_shared mgr) of
                  (removed, vis', sh') \<Rightarrow>
                    (Ok removed, mgr\<lparr>xm_service_proxy_visitors := hm_insert sid vis' (xm_service_proxy_visitors mgr), xm_shared := sh'\<rparr>))))"

fun cli_poll_proxy_events :: "proxy_event option list \<Rightarrow> (cli_mgr, unit) sop" where
  "cli_poll_proxy_events [] mgr = (Ok (), mgr)"
| "cli_poll_proxy_events (ev # evs) mgr =
     sop_bind (process_next_proxy_event ev) (\<lambda>_. cli_poll_proxy_events evs) mgr"

section \<open>Invariant\<close>

text \<open>
  Every visitor is filed under its own service, with the addresses recorded for it, and the shared map
  knows exactly the keys of the visitors.
\<close>

definition cli_mgr_inv :: "cli_mgr \<Rightarrow> bool" where
  "cli_mgr_inv mgr \<longleftrightarrow> hm_inv (xm_service_proxy_visitors mgr) \<and>
     (\<forall>sid vis. get_proxy_visitor_for_service mgr sid = Some vis \<longrightarrow> sv_service_id (xv_service vis) = sid \<and> distinct (xv_proxy_keys vis)) \<and>
     (\<forall>sid. get_proxy_addrs_for_service mgr sid =
        map_option (\<lambda>vis. (xv_client_port vis, xv_gateway_host vis, xv_gateway_port vis)) (get_proxy_visitor_for_service mgr sid)) \<and>
     (\<forall>key sid. get_proxy_service_for_proxy_key mgr key = Some sid \<longleftrightarrow>
        (\<exists>vis. get_proxy_visitor_for_service mgr sid = Some vis \<and> key \<in> set (xv_proxy_keys vis)))"

lemmas cli_defs = get_proxy_service_for_proxy_key_def get_proxy_addrs_for_service_def get_proxy_visitor_for_service_def

lemma cli_inv_key:
  assumes "cli_mgr_inv mgr" and "get_proxy_visitor_for_service mgr sid = Some vis" and "key \<in> set (xv_proxy_keys vis)"
  shows "get_proxy_service_for_proxy_key mgr key = Some sid"
proof -
  from assms(1) have "get_proxy_service_for_proxy_key mgr key = Some sid \<longleftrightarrow>
        (\<exists>vis. get_proxy_visitor_for_service mgr sid = Some vis \<and> key \<in> set (xv_proxy_keys vis))"
    unfolding cli_mgr_inv_def by blast
  with assms(2,3) show ?thesis by blast
qed

lemma cli_mgr_new_inv: "cli_mgr_inv (cli_mgr_new tasks)"
  by (simp add: cli_mgr_inv_def cli_mgr_new_def cli_defs hm_inv_def hm_get_def)

lemma cli_startup_new:
  assumes "get_proxy_addrs_for_service mgr (sv_service_id svc) = None"
  shows "\<exists>mgr'. cli_startup svc (p, h, q) mgr = (Ok (p, h, q), mgr') \<and> xm_shared mgr' = xm_shared mgr \<and>
    xm_service_proxy_visitors mgr' = hm_insert (sv_service_id svc) (cli_visitor_new svc p h q) (xm_service_proxy_visitors mgr) \<and>
    xm_service_addrs mgr' = hm_insert (sv_service_id svc) (p, h, q) (xm_service_addrs mgr)"
  using assms by (auto simp: cli_startup_def cli_defs Let_def udp_server_new_def split: transport.splits)

lemma cli_startup_inv:
  assumes "cli_mgr_inv mgr" and "cli_startup svc addrs mgr = (r, mgr')"
  shows "cli_mgr_inv mgr'"
proof (cases "get_proxy_addrs_for_service mgr (sv_service_id svc)")
  case None
  obtain p h q where a: "addrs = (p, h, q)" by (cases addrs)
  from cli_startup_new[OF None, of p h q] assms(2) a
  have n: "xm_shared mgr' = xm_shared mgr"
    "xm_service_proxy_visitors mgr' = hm_insert (sv_service_id svc) (cli_visitor_new svc p h q) (xm_service_proxy_visitors mgr)"
    "xm_service_addrs mgr' = hm_insert (sv_service_id svc) (p, h, q) (xm_service_addrs mgr)" by auto
  have "get_proxy_visitor_for_service mgr (sv_service_id svc) = None"
    using None assms(1) by (simp add: cli_mgr_inv_def)
  then show ?thesis
    using assms(1) unfolding cli_mgr_inv_def
    by (auto simp: cli_defs n hm.inv_insert cli_visitor_new_def)
next
  case (Some a)
  with assms show ?thesis by (simp add: cli_startup_def cli_defs)
qed

section \<open>The end of a proxy\<close>

lemma csp_remove_eq:
  "csp_remove_proxy_for_key key (vis, sh) =
     (if key \<in> set (xv_proxy_keys vis) then
        (True, vis\<lparr>xv_proxy_keys := filter (\<lambda>k. k \<noteq> key) (xv_proxy_keys vis)\<rparr>,
         sh\<lparr>xs_services_by_proxy_key := hm_remove key (xs_services_by_proxy_key sh)\<rparr>)
      else (False, vis, sh))"
  by (simp add: csp_remove_proxy_for_key_def cli_tcp_remove_proxy_for_key_def cli_udp_remove_proxy_for_key_def
      cli_remove_proxy_for_key_def split: transport.splits)

lemma process_closed_unknown:
  assumes "cli_mgr_inv mgr" and "get_proxy_service_for_proxy_key mgr key = None"
  shows "\<exists>mgr'. process_next_proxy_event (Some (ProxyClosed key)) mgr = (Ok False, mgr') \<and> xm_shared mgr' = xm_shared mgr \<and>
    xm_service_addrs mgr' = xm_service_addrs mgr \<and> (\<forall>sid. get_proxy_visitor_for_service mgr' sid = get_proxy_visitor_for_service mgr sid) \<and>
    hm_inv (xm_service_proxy_visitors mgr')"
proof (cases "get_proxy_visitor_for_service mgr (- 1)")
  case None
  with assms show ?thesis by (auto simp: process_next_proxy_event_def Let_def cli_mgr_inv_def)
next
  case (Some vis)
  with assms have "key \<notin> set (xv_proxy_keys vis)" using cli_inv_key[OF assms(1) Some, of key] by auto
  moreover have "hm_inv (xm_service_proxy_visitors mgr)" using assms(1) by (simp add: cli_mgr_inv_def)
  ultimately show ?thesis
    using assms(2) Some by (auto simp: process_next_proxy_event_def Let_def csp_remove_eq cli_defs hm.inv_insert)
qed

text \<open>One visitor is replaced by another with the same addresses.\<close>

lemma cli_mgr_inv_update:
  assumes "cli_mgr_inv mgr" and v: "get_proxy_visitor_for_service mgr sid = Some vis"
    and "sv_service_id (xv_service vis') = sid" "xv_client_port vis' = xv_client_port vis" "xv_gateway_host vis' = xv_gateway_host vis"
      "xv_gateway_port vis' = xv_gateway_port vis" "distinct (xv_proxy_keys vis')"
    and get: "\<And>i. get_proxy_visitor_for_service mgr' i = (if i = sid then Some vis' else get_proxy_visitor_for_service mgr i)"
    and addrs: "\<And>i. get_proxy_addrs_for_service mgr' i = get_proxy_addrs_for_service mgr i" and "hm_inv (xm_service_proxy_visitors mgr')"
    and keys: "\<And>k i. get_proxy_service_for_proxy_key mgr' k = Some i \<longleftrightarrow>
      (\<exists>w. get_proxy_visitor_for_service mgr' i = Some w \<and> k \<in> set (xv_proxy_keys w))"
  shows "cli_mgr_inv mgr'"
proof -
  from assms(1) have i2: "\<And>i w. get_proxy_visitor_for_service mgr i = Some w \<Longrightarrow> sv_service_id (xv_service w) = i \<and> distinct (xv_proxy_keys w)"
    and i3: "\<And>i. get_proxy_addrs_for_service mgr i =
        map_option (\<lambda>vis. (xv_client_port vis, xv_gateway_host vis, xv_gateway_port vis)) (get_proxy_visitor_for_service mgr i)"
    unfolding cli_mgr_inv_def by blast+
  have "sv_service_id (xv_service w) = i \<and> distinct (xv_proxy_keys w)" if "get_proxy_visitor_for_service mgr' i = Some w" for i w
    using that i2[of i w] assms(3,7) by (auto simp: get split: if_splits)
  moreover have "get_proxy_addrs_for_service mgr' i =
        map_option (\<lambda>vis. (xv_client_port vis, xv_gateway_host vis, xv_gateway_port vis)) (get_proxy_visitor_for_service mgr' i)" for i
    using i3[of i] v assms(4-6) by (auto simp: get addrs)
  ultimately show ?thesis using assms(10) keys unfolding cli_mgr_inv_def by blast
qed

lemma process_closed:
  assumes "cli_mgr_inv mgr"
  shows "\<exists>mgr'. process_next_proxy_event (Some (ProxyClosed key)) mgr =
      (Ok (get_proxy_service_for_proxy_key mgr key \<noteq> None), mgr') \<and> cli_mgr_inv mgr' \<and>
    (\<forall>k. get_proxy_service_for_proxy_key mgr' k = (if k = key then None else get_proxy_service_for_proxy_key mgr k)) \<and>
    (\<forall>sid. get_proxy_addrs_for_service mgr' sid = get_proxy_addrs_for_service mgr sid) \<and>
    xs_proxy_tasks (xm_shared mgr') = xs_proxy_tasks (xm_shared mgr)"
proof (cases "get_proxy_service_for_proxy_key mgr key")
  case None
  from process_closed_unknown[OF assms None] obtain mgr' where
    m: "process_next_proxy_event (Some (ProxyClosed key)) mgr = (Ok False, mgr')" "xm_shared mgr' = xm_shared mgr"
      "xm_service_addrs mgr' = xm_service_addrs mgr" "\<forall>sid. get_proxy_visitor_for_service mgr' sid = get_proxy_visitor_for_service mgr sid"
      "hm_inv (xm_service_proxy_visitors mgr')" by blast
  have "cli_mgr_inv mgr'"
    using assms m(2-5) by (simp add: cli_mgr_inv_def get_proxy_addrs_for_service_def get_proxy_service_for_proxy_key_def)
  with m None show ?thesis by (auto simp: get_proxy_addrs_for_service_def get_proxy_service_for_proxy_key_def)
next
  case (Some sid)
  with assms obtain vis where v: "get_proxy_visitor_for_service mgr sid = Some vis" "key \<in> set (xv_proxy_keys vis)"
    by (auto simp: cli_mgr_inv_def)
  define vis' where "vis' = vis\<lparr>xv_proxy_keys := filter (\<lambda>k. k \<noteq> key) (xv_proxy_keys vis)\<rparr>"
  define mgr' where "mgr' = mgr\<lparr>xm_service_proxy_visitors := hm_insert sid vis' (xm_service_proxy_visitors mgr),
    xm_shared := (xm_shared mgr)\<lparr>xs_services_by_proxy_key := hm_remove key (xs_services_by_proxy_key (xm_shared mgr))\<rparr>\<rparr>"
  have r: "process_next_proxy_event (Some (ProxyClosed key)) mgr = (Ok True, mgr')"
    using Some v by (simp add: process_next_proxy_event_def Let_def csp_remove_eq mgr'_def vis'_def)
  have get: "get_proxy_visitor_for_service mgr' i = (if i = sid then Some vis' else get_proxy_visitor_for_service mgr i)"
    "get_proxy_service_for_proxy_key mgr' k = (if k = key then None else get_proxy_service_for_proxy_key mgr k)"
    "get_proxy_addrs_for_service mgr' i = get_proxy_addrs_for_service mgr i" for i k
    by (simp_all add: mgr'_def cli_defs)
  have one: "get_proxy_visitor_for_service mgr i = Some w \<Longrightarrow> key \<in> set (xv_proxy_keys w) \<Longrightarrow> i = sid" for i w
    using cli_inv_key[OF assms, of i w key] Some by simp
  have i4: "get_proxy_service_for_proxy_key mgr k = Some i \<longleftrightarrow>
        (\<exists>w. get_proxy_visitor_for_service mgr i = Some w \<and> k \<in> set (xv_proxy_keys w))" for k i
    using assms by (auto simp: cli_mgr_inv_def)
  have "get_proxy_service_for_proxy_key mgr' k = Some i \<longleftrightarrow>
        (\<exists>w. get_proxy_visitor_for_service mgr' i = Some w \<and> k \<in> set (xv_proxy_keys w))" for k i
    using one[of i] i4[of k i] v(1) by (cases "k = key") (auto simp: get vis'_def)
  moreover have "sv_service_id (xv_service vis) = sid \<and> distinct (xv_proxy_keys vis)" "hm_inv (xm_service_proxy_visitors mgr)"
    using assms v(1) by (auto simp: cli_mgr_inv_def)
  ultimately have "cli_mgr_inv mgr'"
    by (intro cli_mgr_inv_update[OF assms v(1), of vis' mgr']) (simp_all add: get(1,3), simp_all add: vis'_def mgr'_def hm.inv_insert)
  with r get Some show ?thesis by (auto simp: mgr'_def)
qed

text \<open>
  when the executor reports the end of a client proxy, the manager forgets that proxy and no other:
  its key is gone from the shared map and from the visitor of its service, every other key and every
  address stays, the answer says whether the key was known, and the maps still agree.
\<close>

theorem cli_closed_proxy_removed:
  assumes "cli_mgr_inv mgr"
  shows "\<exists>mgr'. process_next_proxy_event (Some (ProxyClosed key)) mgr =
      (Ok (get_proxy_service_for_proxy_key mgr key \<noteq> None), mgr') \<and> cli_mgr_inv mgr' \<and>
    (\<forall>k. get_proxy_service_for_proxy_key mgr' k = (if k = key then None else get_proxy_service_for_proxy_key mgr k)) \<and>
    (\<forall>sid. get_proxy_addrs_for_service mgr' sid = get_proxy_addrs_for_service mgr sid) \<and>
    xs_proxy_tasks (xm_shared mgr') = xs_proxy_tasks (xm_shared mgr)"
  using assms by (rule process_closed)

section \<open>Shutting down\<close>

lemma cli_shutdown_visitors_alive:
  "receiver_alive (xs_proxy_tasks sh) \<Longrightarrow>
   \<exists>sh'. cli_shutdown_visitors vs sh errors =
       (Ok errors, map (\<lambda>(i, v). (i, v\<lparr>xv_shutdown_requested := True, xv_proxy_keys := []\<rparr>)) vs, sh') \<and>
     receiver_alive (xs_proxy_tasks sh') \<and>
     queue (xs_proxy_tasks sh') = queue (xs_proxy_tasks sh) @ map CloseProxy (concat (map (\<lambda>(i, v). xv_proxy_keys v) vs)) \<and>
     (\<forall>k. hm_get (xs_services_by_proxy_key sh') k =
        (if \<exists>(i, v) \<in> set vs. k \<in> set (xv_proxy_keys v) then None else hm_get (xs_services_by_proxy_key sh) k))"
proof (induction vs arbitrary: sh)
  case Nil
  then show ?case by simp
next
  case (Cons x vs)
  obtain i v where x: "x = (i, v)" by (cases x)
  from csp_shutdown_alive[OF Cons.prems, of "cli_set_shutdown_requested v"] obtain sh1 where
    s1: "csp_shutdown_connections (cli_set_shutdown_requested v, sh) = (Ok (), v\<lparr>xv_shutdown_requested := True, xv_proxy_keys := []\<rparr>, sh1)"
      "receiver_alive (xs_proxy_tasks sh1)"
      "queue (xs_proxy_tasks sh1) = queue (xs_proxy_tasks sh) @ map CloseProxy (xv_proxy_keys v)"
      "\<forall>k. hm_get (xs_services_by_proxy_key sh1) k = (if k \<in> set (xv_proxy_keys v) then None else hm_get (xs_services_by_proxy_key sh) k)"
    by (auto simp: cli_set_shutdown_requested_def)
  from Cons.IH[OF s1(2)] obtain sh' where
    "cli_shutdown_visitors vs sh1 errors = (Ok errors, map (\<lambda>(i, v). (i, v\<lparr>xv_shutdown_requested := True, xv_proxy_keys := []\<rparr>)) vs, sh')" "receiver_alive (xs_proxy_tasks sh')"
    "queue (xs_proxy_tasks sh') = queue (xs_proxy_tasks sh1) @ map CloseProxy (concat (map (\<lambda>(i, v). xv_proxy_keys v) vs))"
    "\<forall>k. hm_get (xs_services_by_proxy_key sh') k =
        (if \<exists>(i, v) \<in> set vs. k \<in> set (xv_proxy_keys v) then None else hm_get (xs_services_by_proxy_key sh1) k)" by blast
  with s1 x show ?case by auto
qed

lemma map_of_map_values: "map_of (map (\<lambda>(i, v). (i, f v)) m) k = map_option f (map_of m k)"
  by (induction m) auto

lemma cli_shutdown_all:
  assumes "cli_mgr_inv mgr" and "receiver_alive (xs_proxy_tasks (xm_shared mgr))"
  shows "\<exists>mgr'. cli_shutdown mgr = (Ok (), mgr') \<and> cli_mgr_inv mgr' \<and> receiver_alive (xs_proxy_tasks (xm_shared mgr')) \<and>
    (\<forall>k. get_proxy_service_for_proxy_key mgr' k = None) \<and>
    (\<forall>sid. get_proxy_visitor_for_service mgr' sid =
       map_option (\<lambda>v. v\<lparr>xv_shutdown_requested := True, xv_proxy_keys := []\<rparr>) (get_proxy_visitor_for_service mgr sid)) \<and>
    queue (xs_proxy_tasks (xm_shared mgr')) = queue (xs_proxy_tasks (xm_shared mgr)) @
      map CloseProxy (concat (map (\<lambda>(i, v). xv_proxy_keys v) (xm_service_proxy_visitors mgr)))"
proof -
  define g :: "cli_visitor \<Rightarrow> cli_visitor" where "g = (\<lambda>v. v\<lparr>xv_shutdown_requested := True, xv_proxy_keys := []\<rparr>)"
  let ?vs = "xm_service_proxy_visitors mgr"
  from cli_shutdown_visitors_alive[OF assms(2), of ?vs "[]"] obtain sh' where
    sh: "cli_shutdown_visitors ?vs (xm_shared mgr) [] = (Ok [], map (\<lambda>(i, v). (i, g v)) ?vs, sh')" "receiver_alive (xs_proxy_tasks sh')"
      "queue (xs_proxy_tasks sh') = queue (xs_proxy_tasks (xm_shared mgr)) @ map CloseProxy (concat (map (\<lambda>(i, v). xv_proxy_keys v) ?vs))"
      "\<forall>k. hm_get (xs_services_by_proxy_key sh') k =
        (if \<exists>(i, v) \<in> set ?vs. k \<in> set (xv_proxy_keys v) then None else hm_get (xs_services_by_proxy_key (xm_shared mgr)) k)"
    unfolding g_def by blast
  define mgr' where "mgr' = mgr\<lparr>xm_service_proxy_visitors := map (\<lambda>(i, v). (i, g v)) ?vs, xm_shared := sh'\<rparr>"
  have inv: "hm_inv ?vs" using assms(1) by (simp add: cli_mgr_inv_def)
  have run: "cli_shutdown mgr = (Ok (), mgr')" by (simp add: cli_shutdown_def sh(1) mgr'_def)
  have none: "get_proxy_service_for_proxy_key mgr' k = None" for k
  proof (cases "get_proxy_service_for_proxy_key mgr k")
    case None
    then show ?thesis using sh(4) by (simp add: mgr'_def get_proxy_service_for_proxy_key_def)
  next
    case (Some sid)
    with assms(1) obtain v where "hm_get ?vs sid = Some v" "k \<in> set (xv_proxy_keys v)"
      by (auto simp: cli_mgr_inv_def get_proxy_visitor_for_service_def)
    with hm_get_set have "\<exists>(i, v) \<in> set ?vs. k \<in> set (xv_proxy_keys v)" by fastforce
    then show ?thesis using sh(4) by (simp add: mgr'_def get_proxy_service_for_proxy_key_def)
  qed
  have vis: "get_proxy_visitor_for_service mgr' sid = map_option g (get_proxy_visitor_for_service mgr sid)" for sid
    by (simp add: mgr'_def get_proxy_visitor_for_service_def hm_get_def map_of_map_values)
  have addrs: "get_proxy_addrs_for_service mgr' sid = get_proxy_addrs_for_service mgr sid" for sid
    by (simp add: mgr'_def get_proxy_addrs_for_service_def)
  have "hm_inv (xm_service_proxy_visitors mgr')"
    using inv by (simp add: mgr'_def hm_inv_def comp_def case_prod_beta)
  then have "cli_mgr_inv mgr'"
    using assms(1) unfolding cli_mgr_inv_def none vis addrs
    by (auto simp: g_def option.map_comp comp_def)
  with run none vis sh(2,3) show ?thesis by (auto simp: mgr'_def g_def)
qed

text \<open>
  C23: when the client shuts down, every local listener is asked to stop and every proxy of every
  service is closed: one close task per proxy is queued after the tasks already there, no key is left
  anywhere, the services stay started, and the maps still agree.
\<close>

theorem cli_shutdown_closes_everything:
  assumes "cli_mgr_inv mgr" and "receiver_alive (xs_proxy_tasks (xm_shared mgr))"
  shows "\<exists>mgr'. cli_shutdown mgr = (Ok (), mgr') \<and> cli_mgr_inv mgr' \<and>
    (\<forall>k. get_proxy_service_for_proxy_key mgr' k = None) \<and>
    (\<forall>sid. get_proxy_visitor_for_service mgr' sid =
       map_option (\<lambda>v. v\<lparr>xv_shutdown_requested := True, xv_proxy_keys := []\<rparr>) (get_proxy_visitor_for_service mgr sid)) \<and>
    queue (xs_proxy_tasks (xm_shared mgr')) = queue (xs_proxy_tasks (xm_shared mgr)) @
      map CloseProxy (concat (map (\<lambda>(i, v). xv_proxy_keys v) (xm_service_proxy_visitors mgr)))"
  using cli_shutdown_all[OF assms] by blast

section \<open>Concrete instances\<close>

definition demo_cli_mgr :: cli_mgr where
  "demo_cli_mgr = \<lparr>xm_service_proxies = [(203, server_new 8501)],
     xm_service_proxy_visitors = [(203, demo_cli_visitor\<lparr>xv_proxy_keys := [''k'']\<rparr>)],
     xm_service_addrs = [(203, 8501, ''gw.example'', 8400)],
     xm_shared = \<lparr>xs_services_by_proxy_key = [(''k'', 203)], xs_proxy_tasks = new_chan\<rparr>\<rparr>"

lemma demo_cli_mgr_inv: "cli_mgr_inv demo_cli_mgr"
  by (auto simp: cli_mgr_inv_def cli_defs demo_cli_mgr_def demo_cli_visitor_def cli_visitor_new_def new_service_def hm_inv_def hm_get_def)

theorem cli_closed_proxy_removed_witness:
  "\<exists>mgr'. process_next_proxy_event (Some (ProxyClosed ''k'')) demo_cli_mgr = (Ok True, mgr') \<and>
     get_proxy_service_for_proxy_key mgr' ''k'' = None"
proof -
  have "get_proxy_service_for_proxy_key demo_cli_mgr ''k'' = Some 203"
    by (simp add: get_proxy_service_for_proxy_key_def demo_cli_mgr_def hm_get_def)
  with cli_closed_proxy_removed[OF demo_cli_mgr_inv, of "''k''"] show ?thesis by auto
qed

theorem cli_shutdown_closes_everything_witness:
  "\<exists>mgr'. cli_shutdown demo_cli_mgr = (Ok (), mgr') \<and> queue (xs_proxy_tasks (xm_shared mgr')) = [CloseProxy ''k'']"
proof -
  have "receiver_alive (xs_proxy_tasks (xm_shared demo_cli_mgr))" "queue (xs_proxy_tasks (xm_shared demo_cli_mgr)) = []"
    "concat (map (\<lambda>(i, v). xv_proxy_keys v) (xm_service_proxy_visitors demo_cli_mgr)) = [''k'']"
    by (simp_all add: demo_cli_mgr_def new_chan_def)
  with cli_shutdown_closes_everything[OF demo_cli_mgr_inv] show ?thesis by fastforce
qed

end
