(* ===== verification/T0_Sessions.thy ===== *)
theory T0_Sessions
  imports T0_Gateway T0_Cli_Manager
begin

text \<open>
  An abstract specification of what the gateway and the client are for, the table of open sessions, and
  its refinement by the detailed models.  A session is a service, a user and a proxy key.  The table
  changes in four ways only: not at all; a user who is entitled to a service opens a session under a new
  key; the sessions of one user end, at one service or at all; the session of one key ends.
\<close>

section \<open>The specification\<close>

inductive session_step :: "('u \<Rightarrow> 's \<Rightarrow> bool) \<Rightarrow> ('s \<times> 'u \<times> string) set \<Rightarrow> ('s \<times> 'u \<times> string) set \<Rightarrow> bool"
  for may where
  idle: "session_step may A A"
| admit: "may uid sid \<Longrightarrow> \<forall>i u. (i, u, key) \<notin> A \<Longrightarrow> session_step may A (insert (sid, uid, key) A)"
| evict: "session_step may A {(i, u, k). (i, u, k) \<in> A \<and> \<not> (u = uid \<and> (sid = None \<or> i = the sid))}"
| ended: "session_step may A {(i, u, k). (i, u, k) \<in> A \<and> k \<noteq> key}"

inductive_cases session_step_cases: "session_step may A B"

text \<open>What the table promises.\<close>

definition session_table :: "('u \<Rightarrow> 's \<Rightarrow> bool) \<Rightarrow> ('s \<times> 'u \<times> string) set \<Rightarrow> bool" where
  "session_table may A \<longleftrightarrow> (\<forall>i u k. (i, u, k) \<in> A \<longrightarrow> may u i) \<and>
     (\<forall>i u i' u' k. (i, u, k) \<in> A \<and> (i', u', k) \<in> A \<longrightarrow> i = i' \<and> u = u')"

lemma session_table_step: "session_step may A B \<Longrightarrow> session_table may A \<Longrightarrow> session_table may B"
  by (erule session_step_cases; simp add: session_table_def; metis)

section \<open>Simulation\<close>

text \<open>A system with an invariant whose steps are steps of a specification under an abstraction.\<close>

locale simulation =
  fixes cstep :: "'c \<Rightarrow> 'c \<Rightarrow> bool" and inv :: "'c \<Rightarrow> bool" and abs :: "'c \<Rightarrow> 'a" and astep :: "'a \<Rightarrow> 'a \<Rightarrow> bool"
  assumes inv_step: "inv c \<Longrightarrow> cstep c c' \<Longrightarrow> inv c'"
    and abs_step: "inv c \<Longrightarrow> cstep c c' \<Longrightarrow> astep (abs c) (abs c')"
begin

lemma run_refines: "cstep\<^sup>*\<^sup>* c c' \<Longrightarrow> inv c \<Longrightarrow> inv c' \<and> astep\<^sup>*\<^sup>* (abs c) (abs c')"
  by (induction rule: rtranclp_induct) (auto intro: inv_step abs_step rtranclp.rtrancl_into_rtrancl)

lemma run_promises:
  assumes "cstep\<^sup>*\<^sup>* c c'" and "inv c" and "P (abs c)" and "\<And>a a'. astep a a' \<Longrightarrow> P a \<Longrightarrow> P a'"
  shows "P (abs c')"
  using conjunct2[OF run_refines[OF assms(1,2)]] assms(3)
  by (induction rule: rtranclp_induct) (auto intro: assms(4))

end

section \<open>The gateway\<close>

definition sessions :: "gw_mgr \<Rightarrow> (u64 \<times> u64 \<times> string) set" where
  "sessions mgr = {(sid, uid, key). \<exists>vis. get_service_proxy mgr sid = Some vis \<and> key \<in> set (keys_of vis uid)}"

lemma in_sessions: "(sid, uid, key) \<in> sessions mgr \<longleftrightarrow> (\<exists>vis. get_service_proxy mgr sid = Some vis \<and> key \<in> set (keys_of vis uid))"
  by (simp add: sessions_def)

lemma sessions_cong:
  assumes "\<And>i. (\<exists>v. get_service_proxy mgr' i = Some v \<and> k \<in> set (keys_of v u)) \<longleftrightarrow>
    (\<exists>v. get_service_proxy mgr i = Some v \<and> k \<in> set (keys_of v u))"
  shows "(i, u, k) \<in> sessions mgr' \<longleftrightarrow> (i, u, k) \<in> sessions mgr"
  using assms by (simp add: in_sessions)

lemma mgr_invD:
  assumes "mgr_inv mgr" and "get_service_proxy mgr sid = Some vis"
  shows "svc_inv vis" "sv_service_id (sp_service vis) = sid"
  using assms by (auto simp: mgr_inv_def visitors_inv_def get_service_proxy_def)

lemma session_key:
  assumes "mgr_inv mgr" and "(sid, uid, key) \<in> sessions mgr"
  shows "get_service_id_by_proxy_key mgr key = Some sid"
proof -
  from assms(2) obtain vis where v: "get_service_proxy mgr sid = Some vis" "key \<in> set (keys_of vis uid)" by (auto simp: in_sessions)
  with keys_for_registered[OF mgr_invD(1)[OF assms(1) v(1)], of key "Some uid"] have "key_addrs vis key \<noteq> None" by simp
  with assms(1) v(1) show ?thesis
    by (auto simp: mgr_inv_def visitors_inv_def get_service_proxy_def get_service_id_by_proxy_key_def)
qed

lemma session_user:
  assumes "mgr_inv mgr" and "only_entitled cfg mgr" and "(sid, uid, key) \<in> sessions mgr"
  shows "entitled cfg uid sid"
proof -
  from assms(3) obtain vis where v: "get_service_proxy mgr sid = Some vis" "key \<in> set (keys_of vis uid)" by (auto simp: in_sessions)
  from keys_of_user[OF mgr_invD(1)[OF assms(1) v(1)] v(2)] only_entitledD[OF assms(2) v(1)] show ?thesis by blast
qed

lemma sessions_startup:
  assumes "mgr_inv mgr" and "mgr_startup chk cfg svc mgr = (r, mgr')"
  shows "sessions mgr' = sessions mgr"
proof -
  have "(i, u, k) \<in> sessions mgr' \<longleftrightarrow> (i, u, k) \<in> sessions mgr" for i u k
  proof -
    have "get_service_proxy mgr' i = get_service_proxy mgr i \<or>
        get_service_proxy mgr i = None \<and> (\<exists>v. get_service_proxy mgr' i = Some v \<and> keys_of v u = [])"
      using assms
      by (auto simp: mgr_startup_def allocate_port_def get_service_proxy_def mgr_inv_def keys_of_def svc_visitor_new_def Let_def
          split: option.splits prod.splits res.splits if_splits)
    then show ?thesis unfolding in_sessions by (elim disjE conjE exE) simp_all
  qed
  then show ?thesis by auto
qed

lemma sessions_shutdown:
  assumes "mgr_ready mgr" and "mgr_shutdown_connections (Some uid) sid mgr = (r, mgr')"
  shows "sessions mgr' = {(i, u, k). (i, u, k) \<in> sessions mgr \<and> \<not> (u = uid \<and> (sid = None \<or> i = the sid))}"
proof -
  from mgr_shutdown_keys[of mgr uid sid] assms have
    m: "get_service_proxy mgr i = Some vis \<Longrightarrow> \<exists>vis'. get_service_proxy mgr' i = Some vis' \<and>
         (if sid = None \<or> i = the sid
          then keys_of vis' uid = [] \<and> (\<forall>u. u \<noteq> uid \<longrightarrow> keys_of vis' u = keys_of vis u)
          else vis' = vis)" for i vis
    by (auto simp: mgr_ready_def)
  have n: "get_service_proxy mgr i = None \<Longrightarrow> get_service_proxy mgr' i = None" for i
    using shutdown_new_proxy[OF assms(2)] by simp
  have "(i, u, k) \<in> sessions mgr' \<longleftrightarrow> (i, u, k) \<in> sessions mgr \<and> \<not> (u = uid \<and> (sid = None \<or> i = the sid))" for i u k
  proof (cases "get_service_proxy mgr i")
    case None
    with n show ?thesis by (simp add: in_sessions)
  next
    case (Some vis)
    from m[OF Some] Some show ?thesis by (cases "u = uid") (auto simp: in_sessions split: if_splits)
  qed
  then show ?thesis by auto
qed

text \<open>A shutdown, of one user or of all: the sessions that end are those whose proxies are told to close.\<close>

definition session_keys :: "gw_mgr \<Rightarrow> string set" where
  "session_keys mgr = {key. \<exists>sid uid. (sid, uid, key) \<in> sessions mgr}"

lemma shutdown_visitor:
  assumes "closed_for uo sid (i, v) (i, w)"
  shows "set (keys_of w u) \<subseteq> set (keys_of v u)"
    "k \<in> set (keys_of v u) \<Longrightarrow> k \<in> set (keys_of w u) \<or> (sid = None \<or> i = the sid) \<and> k \<in> set (keys_for v uo)"
proof -
  have "set (keys_of w u) = {k \<in> set (keys_of v u). (sid = None \<or> i = the sid) \<longrightarrow> k \<notin> set (keys_for v uo)}"
  proof (cases "sid = None \<or> i = the sid")
    case True
    with assms obtain sh sh' where f: "forgets (set (keys_for v uo)) (v, sh) (w, sh')" by (auto simp: closed_for_def)
    from forgetsD(5)[OF f, of u] True show ?thesis by (auto simp: keys_of_def split: option.splits)
  qed (use assms in \<open>auto simp: closed_for_def\<close>)
  then show "set (keys_of w u) \<subseteq> set (keys_of v u)"
    "k \<in> set (keys_of v u) \<Longrightarrow> k \<in> set (keys_of w u) \<or> (sid = None \<or> i = the sid) \<and> k \<in> set (keys_for v uo)" by auto
qed

lemma shutdown_revokes:
  assumes "mgr_ready mgr" and "mgr_shutdown_connections uo sid mgr = (r, mgr')"
  obtains ks where "queue (gs_proxy_tasks (gm_shared mgr')) = queue (gs_proxy_tasks (gm_shared mgr)) @ map CloseProxy ks"
    "session_keys mgr' \<subseteq> session_keys mgr" "session_keys mgr \<subseteq> session_keys mgr' \<union> set ks"
proof -
  let ?vs = "gm_service_proxy_visitors mgr"
  from mgr_shutdown_closes[of mgr uo sid] assms have
    q: "queue (gs_proxy_tasks (gm_shared mgr')) = queue (gs_proxy_tasks (gm_shared mgr)) @ close_tasks uo sid ?vs"
    and c: "list_all2 (closed_for uo sid) ?vs (gm_service_proxy_visitors mgr')" by (auto simp: mgr_ready_def)
  obtain ks where ks: "close_tasks uo sid ?vs = map CloseProxy ks"
    "\<And>i v k. (i, v) \<in> set ?vs \<Longrightarrow> sid = None \<or> i = the sid \<Longrightarrow> k \<in> set (keys_for v uo) \<Longrightarrow> k \<in> set ks"
    using close_tasks_keys[of uo sid ?vs] by blast
  have "k \<in> session_keys mgr' \<or> k \<in> set ks" if "(i, u, k) \<in> sessions mgr" for i u k
  proof -
    from that obtain v where v: "get_service_proxy mgr i = Some v" "k \<in> set (keys_of v u)" by (auto simp: in_sessions)
    with list_all2_hm_get[OF c] obtain w where w: "get_service_proxy mgr' i = Some w" "closed_for uo sid (i, v) (i, w)"
      by (auto simp: get_service_proxy_def)
    have "(i, v) \<in> set ?vs" using v(1) by (simp add: get_service_proxy_def hm_get_set)
    with shutdown_visitor(2)[OF w(2) v(2)] w(1) ks(2) show ?thesis unfolding session_keys_def in_sessions by blast
  qed
  moreover have "(i, u, k) \<in> sessions mgr" if "(i, u, k) \<in> sessions mgr'" for i u k
  proof -
    from that obtain w where w: "get_service_proxy mgr' i = Some w" "k \<in> set (keys_of w u)" by (auto simp: in_sessions)
    then obtain v where v: "get_service_proxy mgr i = Some v" using shutdown_new_proxy[OF assms(2), of i] by (cases "get_service_proxy mgr i") auto
    have "closed_for uo sid (i, v) (i, w)" using list_all2_hm_get[OF c, of i v] v w(1) by (auto simp: get_service_proxy_def)
    from shutdown_visitor(1)[OF this, of u] w(2) v show ?thesis by (auto simp: in_sessions)
  qed
  ultimately have "session_keys mgr' \<subseteq> session_keys mgr" "session_keys mgr \<subseteq> session_keys mgr' \<union> set ks"
    unfolding session_keys_def subset_iff mem_Collect_eq Un_iff by blast+
  then show ?thesis using that[of ks] q ks(1) by simp
qed

lemma closed_forgets:
  assumes "mgr_inv mgr" and "on_closed_proxy key mgr = (r, mgr')"
  shows "get_service_proxy mgr' i = get_service_proxy mgr i \<or>
    (\<exists>vis vis' sh sh'. get_service_proxy mgr i = Some vis \<and> get_service_proxy mgr' i = Some vis' \<and> forgets {key} (vis, sh) (vis', sh'))"
proof -
  define sid where "sid = (case get_service_id_by_proxy_key mgr key of Some s \<Rightarrow> s | None \<Rightarrow> - 1)"
  show ?thesis
  proof (cases "get_service_proxy mgr sid")
    case None
    with assms(2) show ?thesis by (simp add: on_closed_proxy_def Let_def flip: sid_def)
  next
    case (Some vis)
    obtain x v1 s1 where rm: "remove_proxy_for_key key (vis, gm_shared mgr) = (x, v1, s1)" by (metis prod.exhaust)
    have m: "get_service_proxy mgr' i = (if i = sid then Some v1 else get_service_proxy mgr i)"
      using assms(2) Some rm by (cases x) (auto simp: on_closed_proxy_def get_service_proxy_def Let_def simp flip: sid_def)
    have "v1 = vis \<or> forgets {key} (vis, gm_shared mgr) (v1, s1)"
    proof (cases "key_addrs vis key")
      case None
      with rm show ?thesis by (simp add: remove_proxy_for_key_def)
    next
      case (Some a)
      from remove_proxy_registered[OF mgr_invD(1)[OF assms(1) \<open>get_service_proxy mgr sid = Some vis\<close>] Some, of "gm_shared mgr"] rm
      show ?thesis by auto
    qed
    with m Some show ?thesis by (cases "i = sid") auto
  qed
qed

lemma sessions_closed:
  assumes "mgr_inv mgr" and "on_closed_proxy key mgr = (r, mgr')"
  shows "sessions mgr' = {(i, u, k). (i, u, k) \<in> sessions mgr \<and> k \<noteq> key}"
proof -
  have inv: "mgr_inv mgr'" "get_service_id_by_proxy_key mgr' key = None" using on_closed_proxy_inv[OF assms(1), of key] assms(2) by auto
  have "(i, u, k) \<in> sessions mgr' \<longleftrightarrow> (i, u, k) \<in> sessions mgr" if "k \<noteq> key" for i u k
    using closed_forgets[OF assms, of i]
  proof (elim disjE exE conjE)
    fix vis vis' sh sh'
    assume v: "get_service_proxy mgr i = Some vis" "get_service_proxy mgr' i = Some vis'" and f: "forgets {key} (vis, sh) (vis', sh')"
    from forgetsD(5)[OF f, of u] have "keys_of vis' u = filter (\<lambda>k. k \<noteq> key) (keys_of vis u)" by (simp add: keys_of_def split: option.splits)
    with v that show ?thesis by (simp add: in_sessions)
  qed (simp add: in_sessions)
  moreover have "(i, u, key) \<notin> sessions mgr'" for i u using session_key[OF inv(1), of i u key] inv(2) by auto
  ultimately have "(i, u, k) \<in> sessions mgr' \<longleftrightarrow> (i, u, k) \<in> sessions mgr \<and> k \<noteq> key" for i u k by (cases "k = key") simp_all
  then show ?thesis by auto
qed

lemma sessions_request:
  assumes "mgr_ready mgr" and "process_request chk S C cfg cp line (ch, mgr) = (r, ch', mgr')"
  shows "session_step may (sessions mgr) (sessions mgr')"
  using process_request_mgr[OF assms(2)]
proof (elim disjE exE)
  assume "mgr' = mgr"
  then show ?thesis by (simp add: session_step.idle)
next
  fix svc x
  assume "mgr_startup chk cfg svc mgr = (x, mgr')"
  with assms(1) have "sessions mgr' = sessions mgr" by (intro sessions_startup) (simp_all add: mgr_ready_def)
  then show ?thesis by (simp add: session_step.idle)
next
  fix uid sid x
  assume "mgr_shutdown_connections (Some uid) (Some sid) mgr = (x, mgr')"
  from sessions_shutdown[OF assms(1) this] show ?thesis by (simp only: session_step.evict)
qed

text \<open>Replacing one visitor.\<close>

lemma sessions_set:
  assumes "get_service_proxy mgr sid = Some vis"
  shows "sessions ((set_visitor sid vis' mgr)\<lparr>gm_shared := sh\<rparr>) =
    {(i, u, k). if i = sid then k \<in> set (keys_of vis' u) else (i, u, k) \<in> sessions mgr}"
  using assms by (auto simp: sessions_def get_service_proxy_def set_visitor_def split: if_splits)

lemma sessions_set_same:
  assumes "get_service_proxy mgr sid = Some vis" and "\<And>u. keys_of vis' u = keys_of vis u"
  shows "sessions ((set_visitor sid vis' mgr)\<lparr>gm_shared := sh\<rparr>) = sessions mgr"
  unfolding sessions_set[OF assms(1)] using assms by (auto simp: in_sessions)

lemma sessions_create_at:
  assumes "create_at L cfg sid t st = (r, st')"
  shows "sessions (gws_mgr st') = sessions (gws_mgr st)"
proof (cases "get_service_proxy (gws_mgr st) sid")
  case None
  with assms show ?thesis by (simp add: create_at_def gw_get_service_proxy_def)
next
  case (Some vis)
  obtain vis' where c: "svc_create_client_conn L cfg t vis = (r, vis')" and st': "st' = st\<lparr>gws_mgr := set_visitor sid vis' (gws_mgr st)\<rparr>"
    using assms Some by (auto simp: create_at_def gw_get_service_proxy_def split: prod.splits)
  have "sp_proxy_keys_by_user vis' = sp_proxy_keys_by_user vis"
    using c by (auto simp: svc_create_client_conn_def split: prod.splits res.splits)
  then have "keys_of vis' u = keys_of vis u" for u by (simp add: keys_of_def)
  from sessions_set_same[OF Some this, of "gm_shared (gws_mgr st)"] show ?thesis by (simp add: st' set_visitor_def)
qed

lemma keys_of_register:
  assumes "register_proxy key a (vis, sh) = (r, vis', sh')" and "addrs_user vis a = Some uid"
  shows "set (keys_of vis' u) = set (keys_of vis u) \<union> (if u = uid then {key} else {})"
  using assms by (auto simp: register_proxy_def keys_of_def Let_def split: option.splits)

text \<open>
  What an accepted connection does: nothing to the sessions and to the executor's tasks, or one new session
  of an entitled user together with the task that opens its proxy.
\<close>

abbreviation gw_tasks :: "gw_state \<Rightarrow> proxy_task list" where
  "gw_tasks st \<equiv> queue (gs_proxy_tasks (gm_shared (gws_mgr st)))"

definition admits :: "app_config \<Rightarrow> gw_state \<Rightarrow> gw_state \<Rightarrow> bool" where
  "admits cfg st st' \<longleftrightarrow> sessions (gws_mgr st') = sessions (gws_mgr st) \<and> gw_tasks st' = gw_tasks st \<or>
     (\<exists>sid uid task. sessions (gws_mgr st') = insert (sid, uid, task_key task) (sessions (gws_mgr st)) \<and>
        gw_tasks st' = gw_tasks st @ [task] \<and> (\<forall>k. task \<noteq> CloseProxy k) \<and> entitled cfg uid sid \<and>
        (\<forall>i u. (i, u, task_key task) \<notin> sessions (gws_mgr st)))"

lemma admits_session_step: "admits cfg st st' \<Longrightarrow> session_step (entitled cfg) (sessions (gws_mgr st)) (sessions (gws_mgr st'))"
  by (auto simp: admits_def session_step.idle session_step.admit)

lemma accept_at_admits:
  assumes "accept_at N cfg sid c st = (r, st')" and "mgr_inv (gws_mgr st)" and "only_entitled cfg (gws_mgr st)"
    and "get_service_proxy (gws_mgr st) sid = Some vis" and "addrs_user vis (create_proxy_addrs (cn_stream c)) = Some uid"
    and fresh: "\<And>task. gw_tasks st' = gw_tasks st @ [task] \<Longrightarrow> get_service_id_by_proxy_key (gws_mgr st) (task_key task) = None"
  shows "admits cfg st st'"
proof -
  let ?mgr = "gws_mgr st"
  obtain vis' sh' where a: "gsp_on_conn_accepted N cfg c (vis, gm_shared ?mgr) = (r, vis', sh')"
    and st': "st' = st\<lparr>gws_mgr := (set_visitor sid vis' ?mgr)\<lparr>gm_shared := sh'\<rparr>\<rparr>"
    using assms(1,4) by (auto simp: accept_at_def gw_get_service_proxy_def split: prod.splits)
  from accept_cases[OF a] show ?thesis
  proof (elim disjE exE conjE)
    assume "vis' = vis" "sh' = gm_shared ?mgr"
    then show ?thesis using sessions_set_same[OF assms(4), of vis sh'] by (simp add: st' admits_def)
  next
    fix task
    assume op: "\<forall>k. task \<noteq> CloseProxy k" and reg: "register_proxy (task_key task) (create_proxy_addrs (cn_stream c)) (vis, (gm_shared ?mgr)
        \<lparr>gs_proxy_tasks := (gs_proxy_tasks (gm_shared ?mgr))\<lparr>queue := queue (gs_proxy_tasks (gm_shared ?mgr)) @ [task]\<rparr>\<rparr>) = (r, vis', sh')"
    have q: "gw_tasks st' = gw_tasks st @ [task]" using reg assms(5) by (auto simp: st' register_proxy_def Let_def)
    from fresh[OF this] have "(i, u, task_key task) \<notin> sessions ?mgr" for i u
      using session_key[OF assms(2), of i u "task_key task"] by auto
    moreover have "sessions (gws_mgr st') = insert (sid, uid, task_key task) (sessions ?mgr)"
      using assms(4) by (auto simp: st' sessions_set[OF assms(4)] keys_of_register[OF reg assms(5)] in_sessions split: if_splits)
    moreover have "entitled cfg uid sid" using only_entitledD[OF assms(3,4,5)] .
    ultimately show ?thesis using q op unfolding admits_def by blast
  qed
qed

lemma hand_over_at_admits:
  assumes "sop_bind (create_at L cfg sid t) (accept_at N cfg sid) st = (r, st')" and "gw_inv cfg st"
    and "user_inv (cfg_user_repo cfg)" and "fresh_arrival t (gws_mgr st) (gws_mgr st')"
  shows "admits cfg st st'"
proof -
  obtain cr st1 where c: "create_at L cfg sid t st = (cr, st1)" by fastforce
  have f: "get_service_proxy (gws_mgr st) sid = Some vis \<Longrightarrow> addrs_free vis (create_proxy_addrs t)" for vis
    using assms(4) by (auto simp: fresh_arrival_def)
  have i: "mgr_ready (gws_mgr st)" "only_entitled cfg (gws_mgr st)" using assms(2) by (auto simp: gw_inv_def)
  note ci = create_at_inv[OF c assms(3) i f] and same = sessions_create_at[OF c]
  show ?thesis
  proof (cases cr)
    case (Ok conn)
    with ci obtain vis uid where v: "cn_stream conn = t" "get_service_proxy (gws_mgr st1) sid = Some vis"
      "addrs_user vis (create_proxy_addrs t) = Some uid" by blast
    have a: "accept_at N cfg sid conn st1 = (r, st')" using assms(1) c Ok by (simp add: sop_bind_def)
    have "admits cfg st1 st'"
    proof (rule accept_at_admits[OF a])
      show "mgr_inv (gws_mgr st1)" "only_entitled cfg (gws_mgr st1)" using ci by (auto simp: mgr_ready_def)
      show "get_service_proxy (gws_mgr st1) sid = Some vis" by (rule v(2))
      show "addrs_user vis (create_proxy_addrs (cn_stream conn)) = Some uid" using v by simp
      show "get_service_id_by_proxy_key (gws_mgr st1) (task_key task) = None" if "gw_tasks st' = gw_tasks st1 @ [task]" for task
        using that assms(4) ci by (simp add: fresh_arrival_def get_service_id_by_proxy_key_def)
    qed
    then show ?thesis using ci by (simp add: admits_def same)
  qed (use assms(1) c ci same in \<open>auto simp: sop_bind_def admits_def\<close>)
qed

lemma arrival_admits:
  assumes "hand_over (gateway_visitor B L N cfg) t st = (r, st')" and "gw_inv cfg st"
    and "user_inv (cfg_user_repo cfg)" and "fresh_arrival t (gws_mgr st) (gws_mgr st')"
  shows "admits cfg st st'"
  using arrival_cases[OF assms] hand_over_at_admits[OF _ assms(2-4)] by (auto simp: admits_def)

lemma service_arrival_admits:
  assumes "hand_over (service_port_visitor B L N cfg sid) t st = (r, st')" and "gw_inv cfg st"
    and "user_inv (cfg_user_repo cfg)" and "fresh_arrival t (gws_mgr st) (gws_mgr st')"
  shows "admits cfg st st'"
  using assms by (intro hand_over_at_admits[of L cfg sid t N]) (simp_all add: hand_over_def service_port_visitor_def)

lemma gone_shuts_down:
  assumes "c \<in> set (gws_conns st)" and "gw_inv cfg st" and "cv_on_shutdown (cn_visitor c, cn_events c, gws_mgr st) = (r, v', ch', mgr')"
  obtains uid x where "mgr_shutdown_connections (Some uid) None (gws_mgr st) = (x, mgr')"
proof -
  obtain u where "cv_user (cn_visitor c) = Some u" using assms(1,2) by (auto simp: gw_inv_def)
  with assms(3) that show ?thesis by (auto simp: cv_on_shutdown_def split: prod.splits)
qed

lemma gw_step_sessions:
  assumes "gw_step chk L N S C cfg st st'" and "gw_inv cfg st" and "user_inv (cfg_user_repo cfg)"
  shows "session_step (entitled cfg) (sessions (gws_mgr st)) (sessions (gws_mgr st'))"
proof -
  have i: "mgr_ready (gws_mgr st)" "mgr_inv (gws_mgr st)" using assms(2) by (auto simp: gw_inv_def mgr_ready_def)
  from assms(1) show ?thesis
  proof cases
    case (arrival B t r)
    from arrival_admits[OF arrival(1) assms(2,3) arrival(2)] show ?thesis by (rule admits_session_step)
  next
    case (service_arrival B sid t r)
    from service_arrival_admits[OF service_arrival(1) assms(2,3) service_arrival(2)] show ?thesis by (rule admits_session_step)
  next
    case (data k c bs r v' ch' mgr')
    with read_keeps_visitor[OF data(4)] sessions_request[OF i(1)] show ?thesis by (auto simp: session_step.idle)
  next
    case (gone k c r v' ch' mgr')
    have "c \<in> set (gws_conns st)" using gone(2,3) by simp
    then obtain uid x where "mgr_shutdown_connections (Some uid) None (gws_mgr st) = (x, mgr')" using gone_shuts_down[OF _ assms(2) gone(4)] by metis
    note s = sessions_shutdown[OF i(1) this]
    have "gws_mgr st' = mgr'" using gone(1) by simp
    then show ?thesis by (simp only: s session_step.evict)
  next
    case (proxy_closed key r mgr')
    have "gws_mgr st' = mgr'" using proxy_closed(1) by simp
    then show ?thesis by (simp only: sessions_closed[OF i(2) proxy_closed(2)] session_step.ended)
  qed
qed

lemma reachable_run: "gw_reachable chk L N S C cfg st \<Longrightarrow> (gw_step chk L N S C cfg)\<^sup>*\<^sup>* (main_new cfg) st"
  by (induction rule: gw_reachable.induct) (auto intro: rtranclp.rtrancl_into_rtrancl)

lemma sessions_new: "sessions (gws_mgr (main_new cfg)) = {}"
  by (auto simp: sessions_def main_new_def gw_mgr_new_def get_service_proxy_def split: option.splits)

interpretation gw_sim: simulation "gw_step chk L N S C cfg" "\<lambda>st. user_inv (cfg_user_repo cfg) \<and> gw_inv cfg st"
    "\<lambda>st. sessions (gws_mgr st)" "session_step (entitled cfg)"
  by unfold_locales (auto intro: gw_step_inv gw_step_sessions)



section \<open>The client\<close>

text \<open>
  The steps of the client's service manager: a service is started, a local connection or a datagram
  arrives at the listener of a service, the executor reports an event, the client shuts down.  The key of
  a task that opens a proxy is one the operating system has just made up from a free address pair.
\<close>

definition fresh_task :: "cli_mgr \<Rightarrow> cli_shared \<Rightarrow> bool" where
  "fresh_task mgr sh' \<longleftrightarrow> (\<forall>task. queue (xs_proxy_tasks sh') = queue (xs_proxy_tasks (xm_shared mgr)) @ [task] \<longrightarrow>
     get_proxy_service_for_proxy_key mgr (task_key task) = None)"

definition put_visitor :: "u64 \<Rightarrow> cli_state \<Rightarrow> cli_mgr \<Rightarrow> cli_mgr" where
  "put_visitor sid st mgr = mgr\<lparr>xm_service_proxy_visitors := hm_insert sid (fst st) (xm_service_proxy_visitors mgr), xm_shared := snd st\<rparr>"

inductive cli_step :: "connect_env \<Rightarrow> cli_mgr \<Rightarrow> cli_mgr \<Rightarrow> bool" for E where
  start: "cli_startup svc addrs mgr = (r, mgr') \<Longrightarrow> cli_step E mgr mgr'"
| local_conn: "get_proxy_visitor_for_service mgr sid = Some vis \<Longrightarrow>
     cli_tcp_on_conn_accepted E c (vis, xm_shared mgr) = (r, st) \<Longrightarrow> fresh_task mgr (snd st) \<Longrightarrow> cli_step E mgr (put_visitor sid st mgr)"
| local_datagram: "get_proxy_visitor_for_service mgr sid = Some vis \<Longrightarrow>
     cli_udp_on_message_received E local_addr peer_addr bs (vis, xm_shared mgr) = (r, st) \<Longrightarrow> fresh_task mgr (snd st) \<Longrightarrow>
     cli_step E mgr (put_visitor sid st mgr)"
| reported: "process_next_proxy_event ev mgr = (r, mgr') \<Longrightarrow> cli_step E mgr mgr'"
| quit: "cli_shutdown mgr = (r, mgr') \<Longrightarrow> cli_step E mgr mgr'"

definition cli_ready :: "cli_mgr \<Rightarrow> bool" where
  "cli_ready mgr \<longleftrightarrow> cli_mgr_inv mgr \<and> receiver_alive (xs_proxy_tasks (xm_shared mgr))"

text \<open>The client acts for one user.\<close>

definition cli_sessions :: "cli_mgr \<Rightarrow> (u64 \<times> unit \<times> string) set" where
  "cli_sessions mgr = {(sid, u, key). get_proxy_service_for_proxy_key mgr key = Some sid}"

text \<open>What opening a proxy does: nothing to the keys, or one new key with its task.\<close>

definition opens :: "cli_state \<Rightarrow> cli_state \<Rightarrow> bool" where
  "opens st st' \<longleftrightarrow> (case (st, st') of ((vis, sh), (vis', sh')) \<Rightarrow>
     (xv_service vis', xv_client_port vis', xv_gateway_host vis', xv_gateway_port vis') =
       (xv_service vis, xv_client_port vis, xv_gateway_host vis, xv_gateway_port vis) \<and>
     (xv_proxy_keys vis' = xv_proxy_keys vis \<and> sh' = sh \<or>
      (\<exists>task. (\<forall>k. task \<noteq> CloseProxy k) \<and> xv_proxy_keys vis' = List.insert (task_key task) (xv_proxy_keys vis) \<and>
         xs_services_by_proxy_key sh' = hm_insert (task_key task) (sv_service_id (xv_service vis)) (xs_services_by_proxy_key sh) \<and>
         xs_proxy_tasks sh' = (xs_proxy_tasks sh)\<lparr>queue := queue (xs_proxy_tasks sh) @ [task]\<rparr>)))"

lemma opens_same: "opens (vis, sh) (vis, sh)"
  by (simp add: opens_def)

lemma opens_new:
  "task_key task = key \<Longrightarrow> \<forall>k. task \<noteq> CloseProxy k \<Longrightarrow>
   opens (vis, sh) (vis\<lparr>xv_channels := c, xv_proxy_keys := List.insert key (xv_proxy_keys vis)\<rparr>,
     sh\<lparr>xs_proxy_tasks := (xs_proxy_tasks sh)\<lparr>queue := queue (xs_proxy_tasks sh) @ [task]\<rparr>,
       xs_services_by_proxy_key := hm_insert key (sv_service_id (xv_service vis)) (xs_services_by_proxy_key sh)\<rparr>)"
  by (auto simp: opens_def)

lemma send_register_opens:
  assumes "sop_bind (cli_send_task kind task) (\<lambda>_ (v, s). cli_register (task_key task) (v\<lparr>xv_channels := f (xv_channels v)\<rparr>, s)) (vis, sh) = (r, st')"
    and "\<forall>k. task \<noteq> CloseProxy k"
  shows "opens (vis, sh) st'"
  using assms opens_new[OF refl assms(2), where vis = vis and sh = sh and c = "f (xv_channels vis)"]
  by (auto simp: sop_bind_def cli_send_task_def chan_send_def cli_register_def opens_same split: if_splits)

lemma tcp_opens:
  assumes "cli_tcp_on_conn_accepted E c (vis, sh) = (r, st')"
  shows "opens (vis, sh) st'"
proof (cases "connect_gateway E vis")
  case (Ok g)
  define task where "task = OpenTcpAndTcpProxy (proxy_key_value TcpAndTcp (st_peer_addr (cn_stream c)) (st_local_addr (cn_stream c)))
    (cn_stream c) (net_stream.truncate g)"
  have reg: "(\<lambda>_ (v, s). cli_register (task_key task) (v\<lparr>xv_channels := id (xv_channels v)\<rparr>, s)) = (\<lambda>_. cli_register (task_key task))"
    by (auto simp: fun_eq_iff)
  have "st' = (vis, sh) \<or> sop_bind (cli_send_task ''TCP'' task) (\<lambda>_. cli_register (task_key task)) (vis, sh) = (r, st')"
    using assms Ok by (cases "st_clone_err (cn_stream c)") (auto simp: cli_tcp_on_conn_accepted_def Let_def lift_accept task_def)
  moreover have "\<forall>k. task \<noteq> CloseProxy k" by (simp add: task_def)
  ultimately show ?thesis using send_register_opens[of "''TCP''" task id vis sh r st', unfolded reg] opens_same by blast
qed (use assms opens_same in \<open>auto simp: cli_tcp_on_conn_accepted_def\<close>)

lemma udp_open_opens:
  assumes "cli_udp_open E key peer (vis, sh) = (r, st')"
  shows "opens (vis, sh) st'"
proof (cases "connect_gateway E vis")
  case (Ok g)
  with assms send_register_opens[of "''UDP''" "OpenChannelAndTcpProxy key peer (net_stream.truncate g)" "hm_insert key new_chan" vis sh r st']
  show ?thesis by (simp add: cli_udp_open_def)
qed (use assms opens_same in \<open>auto simp: cli_udp_open_def\<close>)

lemma udp_send_opens:
  assumes "cli_udp_send key peer bs st1 = (r, st')" and "opens st st1"
  shows "opens st st'"
  using assms by (cases st; cases st1) (auto simp: cli_udp_send_def opens_def split: option.splits)

lemma udp_opens:
  assumes "cli_udp_on_message_received E local peer bs (vis, sh) = (r, st')"
  shows "opens (vis, sh) st'"
proof -
  define key where "key = proxy_key_value ChannelAndTcp (Some peer) (Some local)"
  obtain r1 st1 where o1: "(if hm_get (xv_channels vis) key = None then cli_udp_open E key peer else (\<lambda>st. (Ok (), st))) (vis, sh) = (r1, st1)"
    by (metis prod.exhaust)
  have 1: "opens (vis, sh) st1" using o1 udp_open_opens opens_same by (auto split: if_splits)
  show ?thesis using assms o1 1 udp_send_opens[OF _ 1]
    by (cases r1) (auto simp: cli_udp_on_message_received_def sop_bind_def simp flip: key_def)
qed

lemma opens_step:
  assumes "cli_ready mgr" and v: "get_proxy_visitor_for_service mgr sid = Some vis" and "opens (vis, xm_shared mgr) st"
    and fresh: "fresh_task mgr (snd st)"
  shows "cli_ready (put_visitor sid st mgr) \<and> session_step (\<lambda>_ _. True) (cli_sessions mgr) (cli_sessions (put_visitor sid st mgr))"
proof -
  obtain vis' sh' where st: "st = (vis', sh')" by (cases st)
  let ?m = "put_visitor sid st mgr"
  have inv: "cli_mgr_inv mgr" and al: "receiver_alive (xs_proxy_tasks (xm_shared mgr))" using assms(1) by (simp_all add: cli_ready_def)
  have own: "sv_service_id (xv_service vis) = sid" "distinct (xv_proxy_keys vis)" "hm_inv (xm_service_proxy_visitors mgr)"
    using inv v by (auto simp: cli_mgr_inv_def)
  have i4: "get_proxy_service_for_proxy_key mgr k = Some i \<longleftrightarrow>
      (\<exists>w. get_proxy_visitor_for_service mgr i = Some w \<and> k \<in> set (xv_proxy_keys w))" for k i
    using inv by (auto simp: cli_mgr_inv_def)
  have get: "get_proxy_visitor_for_service ?m i = (if i = sid then Some vis' else get_proxy_visitor_for_service mgr i)"
    "get_proxy_addrs_for_service ?m i = get_proxy_addrs_for_service mgr i" for i
    by (simp_all add: put_visitor_def st cli_defs)
  have upd: "cli_mgr_inv ?m" if "distinct (xv_proxy_keys vis')"
    "\<And>k i. get_proxy_service_for_proxy_key ?m k = Some i \<longleftrightarrow> (\<exists>w. get_proxy_visitor_for_service ?m i = Some w \<and> k \<in> set (xv_proxy_keys w))"
    using cli_mgr_inv_update[OF inv v, of vis' ?m] that get own assms(3) by (auto simp: opens_def st put_visitor_def hm.inv_insert)
  consider (none) "xv_proxy_keys vis' = xv_proxy_keys vis" "sh' = xm_shared mgr"
    | (new) task where "xv_proxy_keys vis' = List.insert (task_key task) (xv_proxy_keys vis)"
        "xs_services_by_proxy_key sh' = hm_insert (task_key task) sid (xs_services_by_proxy_key (xm_shared mgr))"
        "xs_proxy_tasks sh' = (xs_proxy_tasks (xm_shared mgr))\<lparr>queue := queue (xs_proxy_tasks (xm_shared mgr)) @ [task]\<rparr>"
    using assms(3) own(1) by (auto simp: opens_def st)
  then show ?thesis
  proof cases
    case none
    have k: "get_proxy_service_for_proxy_key ?m k = get_proxy_service_for_proxy_key mgr k" for k
      by (simp add: put_visitor_def st none get_proxy_service_for_proxy_key_def)
    have "cli_mgr_inv ?m" using i4 v none(1) own(2) by (intro upd) (auto simp: k get)
    moreover have "cli_sessions ?m = cli_sessions mgr" by (simp add: cli_sessions_def k)
    ultimately show ?thesis using al by (simp add: cli_ready_def session_step.idle put_visitor_def st none(2))
  next
    case new
    have free: "get_proxy_service_for_proxy_key mgr (task_key task) = None" using fresh new(3) by (simp add: fresh_task_def st)
    have k: "get_proxy_service_for_proxy_key ?m k = (if k = task_key task then Some sid else get_proxy_service_for_proxy_key mgr k)" for k
      by (simp add: put_visitor_def st new(2) get_proxy_service_for_proxy_key_def)
    have "task_key task \<notin> set (xv_proxy_keys w)" if "get_proxy_visitor_for_service mgr i = Some w" for i w
      using i4[of "task_key task" i] free that by simp
    with i4 v new(1) own(2) have "cli_mgr_inv ?m" by (intro upd) (auto simp: k get)
    moreover have "cli_sessions ?m = insert (sid, (), task_key task) (cli_sessions mgr)" "\<forall>i u. (i, u, task_key task) \<notin> cli_sessions mgr"
      using free by (auto simp: cli_sessions_def k split: if_splits)
    ultimately show ?thesis using al by (simp add: cli_ready_def session_step.admit put_visitor_def st new(3))
  qed
qed

lemma cli_step_sessions:
  assumes "cli_step E mgr mgr'" and "cli_ready mgr"
  shows "cli_ready mgr' \<and> session_step (\<lambda>_ _. True) (cli_sessions mgr) (cli_sessions mgr')"
  using assms(1)
proof cases
  case (start svc addrs r)
  have "xm_shared mgr' = xm_shared mgr"
    using start by (auto simp: cli_startup_def Let_def udp_server_new_def split: option.splits prod.splits transport.splits)
  moreover have "cli_mgr_inv mgr'" using cli_startup_inv[OF _ start] assms(2) by (simp add: cli_ready_def)
  ultimately show ?thesis using assms(2)
    by (simp add: cli_ready_def cli_sessions_def get_proxy_service_for_proxy_key_def session_step.idle)
next
  case (local_conn sid vis c r st)
  from opens_step[OF assms(2) local_conn(2) tcp_opens[OF local_conn(3)] local_conn(4)] show ?thesis by (simp only: local_conn(1))
next
  case (local_datagram sid vis la pa bs r st)
  from opens_step[OF assms(2) local_datagram(2) udp_opens[OF local_datagram(3)] local_datagram(4)] show ?thesis by (simp only: local_datagram(1))
next
  case (reported ev r)
  show ?thesis
  proof (cases "\<exists>key. ev = Some (ProxyClosed key)")
    case True
    then obtain key where ev: "ev = Some (ProxyClosed key)" by blast
    from process_closed[of mgr key] assms(2) reported ev have
      p: "cli_mgr_inv mgr'" "xs_proxy_tasks (xm_shared mgr') = xs_proxy_tasks (xm_shared mgr)"
        "\<forall>k. get_proxy_service_for_proxy_key mgr' k = (if k = key then None else get_proxy_service_for_proxy_key mgr k)"
      by (auto simp: cli_ready_def)
    have "cli_sessions mgr' = {(i, u, k). (i, u, k) \<in> cli_sessions mgr \<and> k \<noteq> key}" using p(3) by (auto simp: cli_sessions_def split: if_splits)
    moreover have "cli_ready mgr'" using p assms(2) by (simp add: cli_ready_def)
    ultimately show ?thesis by (simp only: session_step.ended)
  next
    case False
    with reported have "mgr' = mgr" by (auto simp: process_next_proxy_event_def split: option.splits proxy_event.splits)
    with assms(2) show ?thesis by (simp add: session_step.idle)
  qed
next
  case (quit r)
  from cli_shutdown_all[of mgr] assms(2) quit have
    q: "cli_ready mgr'" "\<forall>k. get_proxy_service_for_proxy_key mgr' k = None" by (auto simp: cli_ready_def)
  have "cli_sessions mgr' = {(i, u, k). (i, u, k) \<in> cli_sessions mgr \<and> \<not> (u = () \<and> ((None :: u64 option) = None \<or> i = the None))}"
    using q(2) by (simp add: cli_sessions_def)
  with session_step.evict[of "\<lambda>_ _. True" "cli_sessions mgr" "()" None] show ?thesis using q(1) by (simp only:)
qed

interpretation cli_sim: simulation "cli_step E" cli_ready cli_sessions "session_step (\<lambda>_ _. True)"
  by unfold_locales (use cli_step_sessions in blast)+

text \<open>
  C18: the client's service manager implements the session table too: from its start, through any
  interleaving of started services, local connections, datagrams, reported ends and shutdowns while the
  executor lives, its maps agree with each other, a proxy key belongs to one service, and the set of its
  proxies only changes by the steps of the specification.
\<close>

theorem client_refines_session_table:
  assumes "(cli_step E)\<^sup>*\<^sup>* (cli_mgr_new tasks) mgr" and "receiver_alive tasks"
  shows "cli_mgr_inv mgr \<and> (session_step (\<lambda>_ _. True))\<^sup>*\<^sup>* {} (cli_sessions mgr)"
proof -
  have "cli_ready (cli_mgr_new tasks)" using assms(2) cli_mgr_new_inv by (simp add: cli_ready_def) (simp add: cli_mgr_new_def)
  moreover have "cli_sessions (cli_mgr_new tasks) = {}"
    by (simp add: cli_sessions_def cli_mgr_new_def get_proxy_service_for_proxy_key_def)
  ultimately show ?thesis using cli_sim.run_refines[OF assms(1)] by (simp add: cli_ready_def)
qed

theorem client_refines_session_table_witness:
  "\<exists>mgr. (cli_step demo_connect)\<^sup>*\<^sup>* (cli_mgr_new new_chan) mgr \<and> get_proxy_addrs_for_service mgr 203 = Some (8501, ''gw'', 8400) \<and> cli_mgr_inv mgr"
proof -
  have id: "sv_service_id demo_service = 203" by (simp add: demo_service_def new_service_def)
  have "get_proxy_addrs_for_service (cli_mgr_new new_chan) (sv_service_id demo_service) = None"
    by (simp add: cli_mgr_new_def get_proxy_addrs_for_service_def)
  from cli_startup_new[OF this, of 8501 "''gw''" 8400] obtain mgr where
    m: "cli_startup demo_service (8501, ''gw'', 8400) (cli_mgr_new new_chan) = (Ok (8501, ''gw'', 8400), mgr)"
      "xm_service_addrs mgr = hm_insert 203 (8501, ''gw'', 8400) (xm_service_addrs (cli_mgr_new new_chan))" unfolding id by blast
  have r: "(cli_step demo_connect)\<^sup>*\<^sup>* (cli_mgr_new new_chan) mgr" using cli_step.start[OF m(1)] by blast
  have "receiver_alive (new_chan :: proxy_task chan)" by (simp add: new_chan_def)
  from client_refines_session_table[OF r this] r m(2) show ?thesis by (auto simp: get_proxy_addrs_for_service_def)
qed

end
