(* ===== verification/T0_Proxy_Stream.thy ===== *)
theory T0_Proxy_Stream
  imports T0_Proxy_Base
begin

text \<open>
  The three kinds of proxies of \<open>crates/common/src/proxy\<close>: \<open>proxy_tcp_and_tcp.rs\<close>,
  \<open>proxy_tcp_and_udp.rs\<close> and \<open>proxy_channel_and_tcp.rs\<close>.

  A proxy owns two endpoints and one or two threads that copy what one of them receives to the
  other.  A thread is a function of what the system answers it: the outcome of creating and
  registering the poller, and then one \<open>poll_round\<close> per iteration of its loop, with the readiness
  events \<open>poll\<close> returns and whether another thread has set the shared \<open>closing\<close> flag by then.  The
  result \<open>None\<close> means that the thread is still waiting after these rounds.
\<close>

section \<open>Copying between two endpoints\<close>

text \<open>
  What a readiness event leads to: data were copied (or there was nothing to copy), the write was
  refused and the event is skipped (\<open>continue\<close>), the peer is gone (\<open>break 'EVENTS\<close>), or an error
  that sets the \<open>closing\<close> flag; a panic ends the thread.
\<close>

datatype flow = Forwarded | Skipped | Ended | Failed app_error | Aborted string

definition write_flow :: "unit res \<Rightarrow> flow" where
  "write_flow r =
     (case r of
        Ok _ \<Rightarrow> Forwarded
      | Err e \<Rightarrow> (case e of WouldBlock \<Rightarrow> Skipped | StreamEOF \<Rightarrow> Ended | _ \<Rightarrow> Failed e)
      | Panic m \<Rightarrow> Aborted m)"

definition copy_data :: "('a, bytes) sop \<Rightarrow> (bytes \<Rightarrow> ('b, unit) sop) \<Rightarrow> 'a \<Rightarrow> 'b \<Rightarrow> flow \<times> 'a \<times> 'b" where
  "copy_data rd wr a b =
     (case rd a of
        (Ok data, a') \<Rightarrow> (case wr data b of (r, b') \<Rightarrow> (write_flow r, a', b'))
      | (Err e, a') \<Rightarrow> (Failed e, a', b)
      | (Panic m, a') \<Rightarrow> (Aborted m, a', b))"

record poll_round =
  pr_closing :: bool
  pr_poll :: "io_error + (nat \<times> dyn_error option) list"

record io_env =
  ie_poll_new :: "dyn_error option"
  ie_register1 :: "dyn_error option"
  ie_register2 :: "dyn_error option"
  ie_rounds :: "poll_round list"

text \<open>
  The events of one call of \<open>poll\<close>: each is a token with the answer of the registration that
  follows a successful copy.  A token the handler does not know is passed over.
\<close>

fun process_events :: "(nat \<Rightarrow> 's \<Rightarrow> (flow \<times> 's) option) \<Rightarrow> (nat \<Rightarrow> string) \<Rightarrow> (nat \<times> dyn_error option) list \<Rightarrow> 's \<Rightarrow> flow \<times> 's" where
  "process_events H msg [] s = (Forwarded, s)"
| "process_events H msg ((tok, rereg) # evs) s =
     (case H tok s of
        None \<Rightarrow> process_events H msg evs s
      | Some (fl, s') \<Rightarrow>
          (case fl of
             Forwarded \<Rightarrow>
               (case rereg of
                  Some err \<Rightarrow> (Failed (GenWithMsgAndErr (msg tok) err), s')
                | None \<Rightarrow> process_events H msg evs s')
           | Skipped \<Rightarrow> process_events H msg evs s'
           | _ \<Rightarrow> (fl, s')))"

text \<open>The loop: its result, the endpoints and the \<open>closing\<close> flag at the end.\<close>

fun copy_loop :: "(nat \<Rightarrow> 's \<Rightarrow> (flow \<times> 's) option) \<Rightarrow> (nat \<Rightarrow> string) \<Rightarrow> poll_round list \<Rightarrow> 's \<Rightarrow> (unit res \<times> 's \<times> bool) option" where
  "copy_loop H msg [] s = None"
| "copy_loop H msg (r # rs) s =
     (if pr_closing r then Some (Ok (), s, True)
      else case pr_poll r of
        Inl e \<Rightarrow>
          if io_kind_of e = KWouldBlock then copy_loop H msg rs s
          else Some (Err (GenWithMsgAndErr ''Error while polling for IO events'' (io_err_of e)), s, True)
      | Inr evs \<Rightarrow>
          (case process_events H msg evs s of
             (Failed e, s') \<Rightarrow> Some (Err e, s', True)
           | (Ended, s') \<Rightarrow> Some (Ok (), s', False)
           | (Aborted m, s') \<Rightarrow> Some (Panic m, s', False)
           | (_, s') \<Rightarrow> copy_loop H msg rs s'))"

text \<open>
  \<open>perform_shutdown\<close>: the TCP streams are shut down (an error is logged at most), the end is
  reported under the proxy's key, and \<open>closed\<close> is set.
\<close>

definition report_closed :: "string \<Rightarrow> proxy_event chan \<Rightarrow> proxy_event chan" where
  "report_closed key ch = (case chan_send (ProxyClosed key) ch of Some ch' \<Rightarrow> ch' | None \<Rightarrow> ch)"

section \<open>TCP and TCP\<close>

definition STREAM1_TOKEN :: nat where "STREAM1_TOKEN = 0"
definition STREAM2_TOKEN :: nat where "STREAM2_TOKEN = 1"

record tt_proxy =
  tt_key :: string
  tt_stream1 :: net_stream
  tt_stream2 :: net_stream
  tt_closing :: bool
  tt_closed :: bool

text \<open>
  The answers of the system to the construction of a proxy: of \<open>set_nonblocking\<close> for its endpoints,
  and of the clones that \<open>connect\<close> makes.
\<close>

record proxy_env =
  pe_nonblocking1 :: "dyn_error option"
  pe_nonblocking2 :: "dyn_error option"
  pe_clone1 :: "dyn_error option"
  pe_clone2 :: "dyn_error option"

definition answered :: "dyn_error option \<Rightarrow> dyn_error + unit" where
  "answered e = (case e of Some err \<Rightarrow> Inl err | None \<Rightarrow> Inr ())"

definition tt_new :: "proxy_env \<Rightarrow> string \<Rightarrow> net_stream \<Rightarrow> net_stream \<Rightarrow> tt_proxy res" where
  "tt_new E key stream1 stream2 =
     and_then (clone_std_tcp_stream stream1) (\<lambda>s1.
     and_then (clone_std_tcp_stream stream2) (\<lambda>s2.
     and_then (map_err (GenWithMsgAndErr (''Failed making stream 1 socket non-blocking: proxy_stream='' @ key))
       (answered (pe_nonblocking1 E))) (\<lambda>_.
     and_then (map_err (GenWithMsgAndErr (''Failed making stream 2 socket non-blocking: proxy_stream='' @ key))
       (answered (pe_nonblocking2 E))) (\<lambda>_.
     Ok \<lparr>tt_key = key, tt_stream1 = s1, tt_stream2 = s2, tt_closing = False, tt_closed = False\<rparr>))))"

text \<open>\<open>connect\<close> up to the start of the thread; the thread itself is \<open>tt_thread\<close>.\<close>

definition tt_connect :: "proxy_env \<Rightarrow> (tt_proxy, unit) sop" where
  "tt_connect E p =
     (let p1 = p\<lparr>tt_closing := False\<rparr> in
      case and_then (clone_std_tcp_stream ((tt_stream1 p)\<lparr>st_clone_err := pe_clone1 E\<rparr>)) (\<lambda>_.
           clone_std_tcp_stream ((tt_stream2 p)\<lparr>st_clone_err := pe_clone2 E\<rparr>)) of
        Ok _ \<Rightarrow> (Ok (), p1\<lparr>tt_closed := False\<rparr>)
      | Err e \<Rightarrow> (Err e, p1)
      | Panic m \<Rightarrow> (Panic m, p1))"

definition tt_copy :: "nat \<Rightarrow> net_stream \<times> net_stream \<Rightarrow> (flow \<times> net_stream \<times> net_stream) option" where
  "tt_copy token s =
     (case s of (s1, s2) \<Rightarrow>
      if token = STREAM1_TOKEN then Some (copy_data read_tcp_stream write_tcp_stream s1 s2)
      else if token = STREAM2_TOKEN then
        Some (case copy_data read_tcp_stream write_tcp_stream s2 s1 of (fl, s2', s1') \<Rightarrow> (fl, s1', s2'))
      else None)"

definition tt_reregister_msg :: "nat \<Rightarrow> string" where
  "tt_reregister_msg token =
     (if token = STREAM1_TOKEN then ''Error registering tcp stream 1 in MIO registry''
      else ''Error registering tcp stream 2 in MIO registry'')"

definition tt_perform_shutdown :: "tt_proxy \<Rightarrow> proxy_event chan \<Rightarrow> tt_proxy \<times> proxy_event chan" where
  "tt_perform_shutdown p ch =
     (p\<lparr>tt_stream1 := snd (sock_shutdown (tt_stream1 p)), tt_stream2 := snd (sock_shutdown (tt_stream2 p)), tt_closed := True\<rparr>,
      report_closed (tt_key p) ch)"

definition tt_thread :: "io_env \<Rightarrow> tt_proxy \<Rightarrow> proxy_event chan \<Rightarrow> (unit res \<times> tt_proxy \<times> proxy_event chan) option" where
  "tt_thread E p ch =
     (case (ie_poll_new E, ie_register1 E, ie_register2 E) of
        (Some err, _, _) \<Rightarrow> Some (Err (GenWithMsgAndErr ''Error creating new MIO poller'' err), tt_perform_shutdown p ch)
      | (None, Some err, _) \<Rightarrow>
          Some (Err (GenWithMsgAndErr ''Error registering tcp stream 1 in MIO registry'' err), tt_perform_shutdown p ch)
      | (None, None, Some err) \<Rightarrow>
          Some (Err (GenWithMsgAndErr ''Error registering tcp stream 2 in MIO registry'' err), tt_perform_shutdown p ch)
      | (None, None, None) \<Rightarrow>
          (case copy_loop tt_copy tt_reregister_msg (ie_rounds E) (tt_stream1 p, tt_stream2 p) of
             None \<Rightarrow> None
           | Some (r, (s1, s2), closing) \<Rightarrow>
               (let p1 = p\<lparr>tt_stream1 := s1, tt_stream2 := s2, tt_closing := tt_closing p \<or> closing\<rparr> in
                case r of
                  Panic m \<Rightarrow> Some (Panic m, p1, ch)
                | _ \<Rightarrow> Some (r, tt_perform_shutdown p1 ch))))"

definition tt_disconnect :: "(tt_proxy, unit) sop" where
  "tt_disconnect p = (Ok (), p\<lparr>tt_closing := True\<rparr>)"

section \<open>TCP and UDP\<close>

definition TCP_STREAM_TOKEN :: nat where "TCP_STREAM_TOKEN = 0"
definition UDP_SOCKET_TOKEN :: nat where "UDP_SOCKET_TOKEN = 1"

record tu_proxy =
  tu_key :: string
  tu_stream :: net_stream
  tu_socket :: udp_sock
  tu_closing :: bool
  tu_closed :: bool

definition tu_new :: "proxy_env \<Rightarrow> string \<Rightarrow> net_stream \<Rightarrow> udp_sock \<Rightarrow> tu_proxy res" where
  "tu_new E key stream socket =
     and_then (clone_std_tcp_stream stream) (\<lambda>s.
     and_then (clone_std_udp_socket socket) (\<lambda>u.
     and_then (map_err (GenWithMsgAndErr (''Failed making tcp socket non-blocking: proxy_stream='' @ key))
       (answered (pe_nonblocking1 E))) (\<lambda>_.
     and_then (map_err (GenWithMsgAndErr (''Failed making udp socket non-blocking: proxy_stream='' @ key))
       (answered (pe_nonblocking2 E))) (\<lambda>_.
     Ok \<lparr>tu_key = key, tu_stream = s, tu_socket = u, tu_closing = False, tu_closed = False\<rparr>))))"

definition tu_connect :: "proxy_env \<Rightarrow> (tu_proxy, unit) sop" where
  "tu_connect E p =
     (let p1 = p\<lparr>tu_closing := False\<rparr> in
      case and_then (clone_std_tcp_stream ((tu_stream p)\<lparr>st_clone_err := pe_clone1 E\<rparr>)) (\<lambda>_.
           clone_std_udp_socket ((tu_socket p)\<lparr>us_clone_err := pe_clone2 E\<rparr>)) of
        Ok _ \<Rightarrow> (Ok (), p1\<lparr>tu_closed := False\<rparr>)
      | Err e \<Rightarrow> (Err e, p1)
      | Panic m \<Rightarrow> (Panic m, p1))"

text \<open>A datagram's content, without the address it came from.\<close>

definition read_datagram :: "(udp_sock, bytes) sop" where
  "read_datagram u =
     (case read_mio_udp_socket u of
        (Ok (_, data), u') \<Rightarrow> (Ok data, u') | (Err e, u') \<Rightarrow> (Err e, u') | (Panic m, u') \<Rightarrow> (Panic m, u'))"

definition tu_copy :: "nat \<Rightarrow> net_stream \<times> udp_sock \<Rightarrow> (flow \<times> net_stream \<times> udp_sock) option" where
  "tu_copy token s =
     (case s of (t, u) \<Rightarrow>
      if token = TCP_STREAM_TOKEN then Some (copy_data read_tcp_stream write_mio_udp_socket t u)
      else if token = UDP_SOCKET_TOKEN then
        Some (case copy_data read_datagram write_tcp_stream u t of (fl, u', t') \<Rightarrow> (fl, t', u'))
      else None)"

definition tu_reregister_msg :: "nat \<Rightarrow> string" where
  "tu_reregister_msg token =
     (if token = TCP_STREAM_TOKEN then ''Error registering tcp stream in MIO registry''
      else ''Error registering udp socket in MIO registry'')"

definition tu_perform_shutdown :: "tu_proxy \<Rightarrow> proxy_event chan \<Rightarrow> tu_proxy \<times> proxy_event chan" where
  "tu_perform_shutdown p ch =
     (p\<lparr>tu_stream := snd (sock_shutdown (tu_stream p)), tu_closed := True\<rparr>, report_closed (tu_key p) ch)"

definition tu_thread :: "io_env \<Rightarrow> tu_proxy \<Rightarrow> proxy_event chan \<Rightarrow> (unit res \<times> tu_proxy \<times> proxy_event chan) option" where
  "tu_thread E p ch =
     (case (ie_poll_new E, ie_register1 E, ie_register2 E) of
        (Some err, _, _) \<Rightarrow> Some (Err (GenWithMsgAndErr ''Error creating new MIO poller'' err), tu_perform_shutdown p ch)
      | (None, Some err, _) \<Rightarrow>
          Some (Err (GenWithMsgAndErr ''Error registering tcp stream in MIO registry'' err), tu_perform_shutdown p ch)
      | (None, None, Some err) \<Rightarrow>
          Some (Err (GenWithMsgAndErr ''Error registering udp socket in MIO registry'' err), tu_perform_shutdown p ch)
      | (None, None, None) \<Rightarrow>
          (case copy_loop tu_copy tu_reregister_msg (ie_rounds E) (tu_stream p, tu_socket p) of
             None \<Rightarrow> None
           | Some (r, (t, u), closing) \<Rightarrow>
               (let p1 = p\<lparr>tu_stream := t, tu_socket := u, tu_closing := tu_closing p \<or> closing\<rparr> in
                case r of
                  Panic m \<Rightarrow> Some (Panic m, p1, ch)
                | _ \<Rightarrow> Some (r, tu_perform_shutdown p1 ch))))"

definition tu_disconnect :: "(tu_proxy, unit) sop" where
  "tu_disconnect p = (Ok (), p\<lparr>tu_closing := True\<rparr>)"

section \<open>Channel and TCP\<close>

text \<open>
  The proxy of a UDP client: datagrams arrive as messages of a channel, and what the TCP stream
  brings back is sent as messages to the server socket, addressed to the client.  Two threads share
  the stream and the flags.
\<close>

record ct_proxy =
  ct_key :: string
  ct_addr :: string
  ct_stream :: net_stream
  ct_closing :: bool
  ct_closed :: bool

definition ct_new :: "proxy_env \<Rightarrow> string \<Rightarrow> string \<Rightarrow> net_stream \<Rightarrow> ct_proxy res" where
  "ct_new E key addr stream =
     and_then (clone_std_tcp_stream stream) (\<lambda>s.
     and_then (map_err (GenWithMsgAndErr (''Failed making tcp stream non-blocking: stream_addr='' @ key))
       (answered (pe_nonblocking1 E))) (\<lambda>_.
     Ok \<lparr>ct_key = key, ct_addr = addr, ct_stream = s, ct_closing = False, ct_closed = False\<rparr>))"

definition ct_connect :: "proxy_env \<Rightarrow> (ct_proxy, unit) sop" where
  "ct_connect E p =
     (let p1 = p\<lparr>ct_closing := False\<rparr> in
      case and_then (clone_std_tcp_stream ((ct_stream p)\<lparr>st_clone_err := pe_clone1 E\<rparr>)) (\<lambda>_.
           clone_std_tcp_stream ((ct_stream p)\<lparr>st_clone_err := pe_clone2 E\<rparr>)) of
        Ok _ \<Rightarrow> (Ok (), p1\<lparr>ct_closed := False\<rparr>)
      | Err e \<Rightarrow> (Err e, p1)
      | Panic m \<Rightarrow> (Panic m, p1))"

text \<open>
  From the channel to the stream.  The thread blocks in \<open>recv\<close>: a round is the flag at the check of
  the loop together with what \<open>recv\<close> then returns (\<open>None\<close>: every sender is gone).
\<close>

fun channel_to_tcp_loop :: "(bool \<times> proxy_event option) list \<Rightarrow> net_stream \<Rightarrow> (unit res \<times> net_stream \<times> bool) option" where
  "channel_to_tcp_loop [] s = None"
| "channel_to_tcp_loop ((closing, received) # rs) s =
     (if closing then Some (Ok (), s, True)
      else case received of
        None \<Rightarrow> Some (Err (GenWithMsgAndErr ''Error receiving proxy socket channel event'' recv_error), s, True)
      | Some (ProxyClosed _) \<Rightarrow> channel_to_tcp_loop rs s
      | Some (ProxyMessage _ _ data) \<Rightarrow>
          (case write_tcp_stream data s of (r, s') \<Rightarrow>
             case write_flow r of
               Ended \<Rightarrow> Some (Ok (), s', False)
             | Failed e \<Rightarrow> Some (Err e, s', True)
             | Aborted m \<Rightarrow> Some (Panic m, s', False)
             | _ \<Rightarrow> channel_to_tcp_loop rs s'))"

text \<open>From the stream to the channel; an empty read sends nothing.\<close>

definition channel_write :: "string \<Rightarrow> string \<Rightarrow> bytes \<Rightarrow> (proxy_event chan, unit) sop" where
  "channel_write key addr data ch =
     (if data = [] then (Ok (), ch)
      else case chan_send (ProxyMessage key addr data) ch of
             Some ch' \<Rightarrow> (Ok (), ch')
           | None \<Rightarrow> (Err (GenWithMsgAndErr (''Error sending socket message to channel: proxy_stream='' @ key) send_error), ch))"

definition ct_copy :: "string \<Rightarrow> string \<Rightarrow> nat \<Rightarrow> net_stream \<times> proxy_event chan \<Rightarrow> (flow \<times> net_stream \<times> proxy_event chan) option" where
  "ct_copy key addr token s =
     (case s of (t, ch) \<Rightarrow>
      if token = TCP_STREAM_TOKEN then Some (copy_data read_tcp_stream (channel_write key addr) t ch) else None)"

definition ct_perform_shutdown :: "ct_proxy \<Rightarrow> proxy_event chan \<Rightarrow> ct_proxy \<times> proxy_event chan" where
  "ct_perform_shutdown p ch =
     (p\<lparr>ct_stream := snd (sock_shutdown (ct_stream p)), ct_closed := True\<rparr>, report_closed (ct_key p) ch)"

definition ct_channel_thread ::
  "(bool \<times> proxy_event option) list \<Rightarrow> ct_proxy \<Rightarrow> proxy_event chan \<Rightarrow> (unit res \<times> ct_proxy \<times> proxy_event chan) option" where
  "ct_channel_thread rounds p ch =
     (case channel_to_tcp_loop rounds (ct_stream p) of
        None \<Rightarrow> None
      | Some (r, s, closing) \<Rightarrow>
          (let p1 = p\<lparr>ct_stream := s, ct_closing := ct_closing p \<or> closing\<rparr> in
           case r of Panic m \<Rightarrow> Some (Panic m, p1, ch) | _ \<Rightarrow> Some (r, ct_perform_shutdown p1 ch)))"

definition ct_stream_thread ::
  "io_env \<Rightarrow> ct_proxy \<Rightarrow> proxy_event chan \<Rightarrow> proxy_event chan \<Rightarrow> (unit res \<times> (ct_proxy \<times> proxy_event chan) \<times> proxy_event chan) option" where
  "ct_stream_thread E p server_ch ch =
     (case (ie_poll_new E, ie_register1 E) of
        (Some err, _) \<Rightarrow>
          Some (Err (GenWithMsgAndErr ''Error creating new MIO poller'' err), ct_perform_shutdown p ch, server_ch)
      | (None, Some err) \<Rightarrow>
          Some (Err (GenWithMsgAndErr ''Error registering tcp stream in MIO registry'' err), ct_perform_shutdown p ch, server_ch)
      | (None, None) \<Rightarrow>
          (case copy_loop (ct_copy (ct_key p) (ct_addr p)) tu_reregister_msg (ie_rounds E) (ct_stream p, server_ch) of
             None \<Rightarrow> None
           | Some (r, (s, server_ch'), closing) \<Rightarrow>
               (let p1 = p\<lparr>ct_stream := s, ct_closing := ct_closing p \<or> closing\<rparr> in
                case r of
                  Panic m \<Rightarrow> Some (Panic m, (p1, ch), server_ch')
                | _ \<Rightarrow> Some (r, ct_perform_shutdown p1 ch, server_ch'))))"

definition ct_disconnect :: "(ct_proxy, unit) sop" where
  "ct_disconnect p = (Ok (), p\<lparr>ct_closing := True\<rparr>)"

section \<open>What a copying thread keeps\<close>

text \<open>
  The contract of a handler: a relation \<open>R\<close> between the endpoints before and after that holds across
  every event that is not a failure, and a weaker one, \<open>Q\<close>, that also holds across a failure.  The
  handler does not panic.  The loop then keeps \<open>R\<close> when it ends well and \<open>Q\<close> in any case.
\<close>

locale relay =
  fixes H :: "nat \<Rightarrow> 's \<Rightarrow> (flow \<times> 's) option" and R Q :: "'s \<Rightarrow> 's \<Rightarrow> bool"
  assumes R_refl: "R s s" and R_trans: "R a b \<Longrightarrow> R b c \<Longrightarrow> R a c" and R_Q: "R a b \<Longrightarrow> Q a b"
    and R_then_Q: "R a b \<Longrightarrow> Q b c \<Longrightarrow> Q a c"
    and step_ok: "H tok s = Some (fl, s') \<Longrightarrow> (\<forall>e. fl \<noteq> Failed e) \<Longrightarrow> R s s'"
    and step_failed: "H tok s = Some (Failed e, s') \<Longrightarrow> Q s s'"
    and no_abort: "H tok s \<noteq> Some (Aborted m, s')"
begin

lemma process_events_keeps:
  "process_events H msg evs s = (fl, s') \<Longrightarrow>
     Q s s' \<and> ((\<forall>e. fl \<noteq> Failed e) \<longrightarrow> R s s') \<and> (\<forall>m. fl \<noteq> Aborted m)"
proof (induction evs arbitrary: s)
  case Nil
  then show ?case by (auto intro: R_refl R_Q)
next
  case (Cons ev evs)
  obtain tok rereg where ev: "ev = (tok, rereg)" by (cases ev)
  show ?case
  proof (cases "H tok s")
    case None
    with Cons ev show ?thesis by simp
  next
    case (Some x)
    obtain g s1 where x: "x = (g, s1)" by (cases x)
    have pass: ?thesis if "R s s1" and "process_events H msg evs s1 = (fl, s')"
      using Cons.IH[OF that(2)] that(1) R_trans R_then_Q by blast
    show ?thesis
    proof (cases g)
      case Forwarded
      then have "R s s1" using step_ok[of tok s g s1] Some x by simp
      with Forwarded Cons.prems Some x ev pass show ?thesis
        by (auto split: option.splits intro: R_Q)
    next
      case Skipped
      then have "R s s1" using step_ok[of tok s g s1] Some x by simp
      with Skipped Cons.prems Some x ev pass show ?thesis by auto
    next
      case Ended
      then have "R s s1" using step_ok[of tok s g s1] Some x by simp
      with Ended Cons.prems Some x ev show ?thesis by (auto intro: R_Q)
    next
      case (Failed e)
      with Cons.prems Some x ev step_failed[of tok s e s1] show ?thesis by auto
    next
      case (Aborted m)
      with no_abort Some x show ?thesis by blast
    qed
  qed
qed

lemma copy_loop_keeps:
  "copy_loop H msg rounds s = Some (r, s', closing) \<Longrightarrow>
     Q s s' \<and> (r = Ok () \<longrightarrow> R s s') \<and> (\<forall>m. r \<noteq> Panic m)"
proof (induction rounds arbitrary: s)
  case Nil
  then show ?case by simp
next
  case (Cons rd rounds)
  show ?case
  proof (cases "pr_closing rd")
    case True
    with Cons.prems show ?thesis by (auto intro: R_refl R_Q)
  next
    case open_: False
    show ?thesis
    proof (cases "pr_poll rd")
      case (Inl e)
      with open_ Cons show ?thesis by (auto split: if_splits intro: R_refl R_Q)
    next
      case (Inr evs)
      obtain fl s1 where pe: "process_events H msg evs s = (fl, s1)" by fastforce
      note k = process_events_keeps[OF pe]
      have pass: ?thesis if "R s s1" and "copy_loop H msg rounds s1 = Some (r, s', closing)"
        using Cons.IH[OF that(2)] that(1) R_trans R_then_Q by blast
      show ?thesis using Cons.prems open_ Inr pe k pass by (cases fl) auto
    qed
  qed
qed

end

text \<open>A loop that sees the \<open>closing\<close> flag ends, whatever else happens.\<close>

lemma copy_loop_ends:
  assumes "rd \<in> set rounds" and "pr_closing rd"
  shows "copy_loop H msg rounds s \<noteq> None"
  using assms(1)
proof (induction rounds arbitrary: s)
  case Nil
  then show ?case by simp
next
  case (Cons r rs)
  show ?case using Cons assms(2)
    by (auto split: sum.splits prod.splits flow.splits)
qed

section \<open>The TCP and TCP proxy\<close>

text \<open>
  On sockets that take what is written to them: the bytes taken from each stream are, in order, those
  sent on the other one, followed by \<open>l1\<close> (\<open>l2\<close>) bytes that were read and not sent.
\<close>

definition tt_relayed :: "bytes \<Rightarrow> bytes \<Rightarrow> net_stream \<times> net_stream \<Rightarrow> net_stream \<times> net_stream \<Rightarrow> bool" where
  "tt_relayed l1 l2 s s' \<longleftrightarrow>
     (st_writes (fst s) = [] \<and> st_writes (snd s) = [] \<longrightarrow>
        st_writes (fst s') = [] \<and> st_writes (snd s') = [] \<and>
        (\<exists>g1 g2. pending (st_reads (fst s)) = g1 @ l1 @ pending (st_reads (fst s')) \<and>
           st_sent (snd s') = st_sent (snd s) @ g1 \<and>
           pending (st_reads (snd s)) = g2 @ l2 @ pending (st_reads (snd s')) \<and>
           st_sent (fst s') = st_sent (fst s) @ g2))"

lemma read_tcp_loop_frame:
  "read_tcp_loop buf s = (r, s') \<Longrightarrow> st_sent s' = st_sent s \<and> st_writes s' = st_writes s"
proof (induction buf s rule: read_tcp_loop.induct)
  case (1 buffer s)
  have fr: "sock_read n s = (x, s1) \<Longrightarrow> st_sent s1 = st_sent s \<and> st_writes s1 = st_writes s" for n x s1
    by (auto simp: sock_read_def split: list.splits sum.splits)
  from 1(2) 1(1) show ?case
    by (subst (asm) read_tcp_loop.simps) (auto split: prod.splits sum.splits option.splits if_splits dest!: fr)
qed

lemma read_tcp_stream_frame:
  "read_tcp_stream s = (r, s') \<Longrightarrow> st_sent s' = st_sent s \<and> st_writes s' = st_writes s"
  by (simp add: read_tcp_stream_def read_tcp_loop_frame)

lemma read_tcp_stream_cases:
  assumes "read_tcp_stream s = (r, s')"
  obtains (ok) data where "r = Ok data" "pending (st_reads s) = data @ pending (st_reads s')"
  | (err) e lost where "r = Err e" "pending (st_reads s) = lost @ pending (st_reads s')"
proof -
  from read_tcp_loop_conserves[where buffer = "[]" and s = s] assms
  obtain got where "pending (st_reads s) = got @ pending (st_reads s')"
    "case r of Ok data \<Rightarrow> data = [] @ got | Err _ \<Rightarrow> TCP_READ_BLOCK_SIZE dvd length got | Panic _ \<Rightarrow> False"
    by (auto simp: read_tcp_stream_def)
  with ok err show thesis by (cases r) auto
qed

lemma write_tcp_stream_free:
  assumes "st_writes s = []"
  shows "write_tcp_stream data s = (Ok (), s\<lparr>st_sent := st_sent s @ data\<rparr>)"
  using assms by (simp add: write_tcp_stream_def sock_write_all_def)

lemma write_tcp_stream_no_panic: "write_tcp_stream data s \<noteq> (Panic m, s')"
  by (auto simp: write_tcp_stream_def split: prod.splits sum.splits)

lemma write_flow_simps [simp]:
  "write_flow r = Aborted m \<longleftrightarrow> r = Panic m" "write_flow (Ok u) = Forwarded"
  by (auto simp: write_flow_def split: res.splits app_error.splits)

lemma copy_tcp_no_abort: "copy_data read_tcp_stream write_tcp_stream a b \<noteq> (Aborted m, a', b')"
proof -
  obtain r a1 where r: "read_tcp_stream a = (r, a1)" by fastforce
  from r show ?thesis
  proof (cases rule: read_tcp_stream_cases)
    case (ok data)
    obtain w b1 where "write_tcp_stream data b = (w, b1)" by fastforce
    with r ok write_tcp_stream_no_panic[of data b m b1] show ?thesis by (auto simp: copy_data_def)
  next
    case (err e lost)
    with r show ?thesis by (simp add: copy_data_def)
  qed
qed

lemma copy_tcp_relays:
  assumes "copy_data read_tcp_stream write_tcp_stream a b = (fl, a', b')" and "st_writes b = []"
  shows "\<exists>g l. pending (st_reads a) = g @ l @ pending (st_reads a') \<and> st_sent b' = st_sent b @ g \<and>
    st_sent a' = st_sent a \<and> st_writes a' = st_writes a \<and> st_writes b' = [] \<and> st_reads b' = st_reads b \<and>
    ((\<forall>e. fl \<noteq> Failed e) \<longrightarrow> l = [])"
proof -
  obtain r a1 where r: "read_tcp_stream a = (r, a1)" by fastforce
  note fr = read_tcp_stream_frame[OF r]
  show ?thesis using r
  proof (cases rule: read_tcp_stream_cases)
    case (ok data)
    with assms r fr show ?thesis
      by (intro exI[of _ data] exI[of _ "[]"]) (auto simp: copy_data_def write_tcp_stream_free)
  next
    case (err e lost)
    with assms r fr show ?thesis
      by (intro exI[of _ "[]"] exI[of _ lost]) (auto simp: copy_data_def)
  qed
qed

lemma tt_copy_relays:
  assumes "tt_copy tok s = Some (fl, s')"
  shows "\<exists>l1 l2. tt_relayed l1 l2 s s' \<and> ((\<forall>e. fl \<noteq> Failed e) \<longrightarrow> l1 = [] \<and> l2 = [])"
proof -
  obtain a b a' b' where s: "s = (a, b)" "s' = (a', b')" by (cases s; cases s') auto
  consider (one) "copy_data read_tcp_stream write_tcp_stream a b = (fl, a', b')"
    | (two) "copy_data read_tcp_stream write_tcp_stream b a = (fl, b', a')"
    using assms s by (auto simp: tt_copy_def split: if_splits prod.splits)
  then show ?thesis
  proof cases
    case one
    show ?thesis
    proof (cases "st_writes b = []")
      case True
      from copy_tcp_relays[OF one True] obtain g l where "pending (st_reads a) = g @ l @ pending (st_reads a')"
        "st_sent b' = st_sent b @ g" "st_sent a' = st_sent a" "st_writes a' = st_writes a" "st_writes b' = []"
        "st_reads b' = st_reads b" "(\<forall>e. fl \<noteq> Failed e) \<longrightarrow> l = []" by blast
      then show ?thesis using s by (intro exI[of _ l] exI[of _ "[]"]) (auto simp: tt_relayed_def)
    qed (use s in \<open>auto simp: tt_relayed_def\<close>)
  next
    case two
    show ?thesis
    proof (cases "st_writes a = []")
      case True
      from copy_tcp_relays[OF two True] obtain g l where "pending (st_reads b) = g @ l @ pending (st_reads b')"
        "st_sent a' = st_sent a @ g" "st_sent b' = st_sent b" "st_writes b' = st_writes b" "st_writes a' = []"
        "st_reads a' = st_reads a" "(\<forall>e. fl \<noteq> Failed e) \<longrightarrow> l = []" by blast
      then show ?thesis using s by (intro exI[of _ "[]"] exI[of _ l]) (auto simp: tt_relayed_def)
    qed (use s in \<open>auto simp: tt_relayed_def\<close>)
  qed
qed

lemma tt_relayed_refl: "tt_relayed [] [] s s"
  by (simp add: tt_relayed_def)

lemma tt_relayed_trans:
  assumes "tt_relayed [] [] a b" and "tt_relayed l1 l2 b c"
  shows "tt_relayed l1 l2 a c"
  using assms unfolding tt_relayed_def by (metis append.assoc append_Nil)

interpretation tt_relay: relay tt_copy "tt_relayed [] []" "\<lambda>s s'. \<exists>l1 l2. tt_relayed l1 l2 s s'"
proof unfold_locales
  fix tok s fl s' e m
  show "tt_copy tok s = Some (fl, s') \<Longrightarrow> (\<forall>e. fl \<noteq> Failed e) \<Longrightarrow> tt_relayed [] [] s s'"
    using tt_copy_relays by fastforce
  show "tt_copy tok s = Some (Failed e, s') \<Longrightarrow> \<exists>l1 l2. tt_relayed l1 l2 s s'"
    using tt_copy_relays by blast
  show "tt_copy tok s \<noteq> Some (Aborted m, s')"
    using copy_tcp_no_abort[of "fst s" "snd s" m "fst s'" "snd s'"] copy_tcp_no_abort[of "snd s" "fst s" m "snd s'" "fst s'"]
    by (cases s; cases s') (auto simp: tt_copy_def split: if_splits prod.splits)
qed (auto intro: tt_relayed_refl tt_relayed_trans)

text \<open>The three outcomes of a thread: it still runs, or it ended and the end was reported.\<close>

lemma tt_thread_ends:
  assumes "tt_thread E p ch = Some (r, p', ch')"
  shows "(\<forall>m. r \<noteq> Panic m) \<and> tt_closed p' \<and> tt_key p' = tt_key p \<and> ch' = report_closed (tt_key p) ch \<and>
    (\<exists>s. (\<exists>l1 l2. tt_relayed l1 l2 (tt_stream1 p, tt_stream2 p) s) \<and>
       (r = Ok () \<longrightarrow> tt_relayed [] [] (tt_stream1 p, tt_stream2 p) s) \<and>
       tt_stream1 p' = snd (sock_shutdown (fst s)) \<and> tt_stream2 p' = snd (sock_shutdown (snd s)))"
proof (cases "ie_poll_new E = None \<and> ie_register1 E = None \<and> ie_register2 E = None")
  case True
  with assms obtain s closing where cl: "copy_loop tt_copy tt_reregister_msg (ie_rounds E) (tt_stream1 p, tt_stream2 p) = Some (r, s, closing)"
    "case r of Panic m \<Rightarrow> True | _ \<Rightarrow> (p', ch') = tt_perform_shutdown
       (p\<lparr>tt_stream1 := fst s, tt_stream2 := snd s, tt_closing := tt_closing p \<or> closing\<rparr>) ch"
    by (auto simp: tt_thread_def Let_def split: option.splits prod.splits res.splits)
  note k = tt_relay.copy_loop_keeps[OF cl(1)]
  with cl(2) have "(p', ch') = tt_perform_shutdown
       (p\<lparr>tt_stream1 := fst s, tt_stream2 := snd s, tt_closing := tt_closing p \<or> closing\<rparr>) ch"
    by (cases r) auto
  with k show ?thesis by (intro conjI exI[of _ s]) (auto simp: tt_perform_shutdown_def)
next
  case False
  with assms have e: "(p', ch') = tt_perform_shutdown p ch" "\<exists>e. r = Err e"
    by (auto simp: tt_thread_def split: option.splits prod.splits)
  then show ?thesis
    using tt_relayed_refl by (intro conjI exI[of _ "(tt_stream1 p, tt_stream2 p)"]) (auto simp: tt_perform_shutdown_def)
qed

lemma sock_shutdown_frame [simp]:
  "st_reads (snd (sock_shutdown s)) = st_reads s" "st_sent (snd (sock_shutdown s)) = st_sent s"
  "st_writes (snd (sock_shutdown s)) = st_writes s"
  by (auto simp: sock_shutdown_def split: list.splits option.splits)

lemma tt_thread_relays:
  assumes "tt_thread E p ch = Some (r, p', ch')" and "st_writes (tt_stream1 p) = []" and "st_writes (tt_stream2 p) = []"
  shows "\<exists>g1 g2 l1 l2.
    pending (st_reads (tt_stream1 p)) = g1 @ l1 @ pending (st_reads (tt_stream1 p')) \<and>
    st_sent (tt_stream2 p') = st_sent (tt_stream2 p) @ g1 \<and>
    pending (st_reads (tt_stream2 p)) = g2 @ l2 @ pending (st_reads (tt_stream2 p')) \<and>
    st_sent (tt_stream1 p') = st_sent (tt_stream1 p) @ g2 \<and>
    (r = Ok () \<longrightarrow> l1 = [] \<and> l2 = [])"
proof -
  from tt_thread_ends[OF assms(1)] obtain s l1 l2 where
    s: "tt_relayed l1 l2 (tt_stream1 p, tt_stream2 p) s" "r = Ok () \<longrightarrow> l1 = [] \<and> l2 = []"
      "tt_stream1 p' = snd (sock_shutdown (fst s))" "tt_stream2 p' = snd (sock_shutdown (snd s))"
    by blast
  from s(1) assms(2,3) obtain g1 g2 where
    "pending (st_reads (tt_stream1 p)) = g1 @ l1 @ pending (st_reads (fst s))" "st_sent (snd s) = st_sent (tt_stream2 p) @ g1"
    "pending (st_reads (tt_stream2 p)) = g2 @ l2 @ pending (st_reads (snd s))" "st_sent (fst s) = st_sent (tt_stream1 p) @ g2"
    by (auto simp: tt_relayed_def)
  with s(2-4) show ?thesis by (intro exI[of _ g1] exI[of _ g2] exI[of _ l1] exI[of _ l2]) auto
qed

text \<open>
  C12: a TCP proxy whose sockets take what is written to them relays faithfully in both directions,
  however reads, events and the closing request interleave: when its thread has ended, each side was
  sent exactly the bytes taken from the other side, in order; only an error can leave a last stretch
  of bytes that was read and not passed on.  The end was reported once under the proxy's key.
\<close>

theorem tcp_proxy_relays:
  assumes "tt_thread E p ch = Some (r, p', ch')" and "receiver_alive ch"
    and "st_writes (tt_stream1 p) = []" and "st_writes (tt_stream2 p) = []"
  shows "(\<exists>g1 g2 l1 l2.
      pending (st_reads (tt_stream1 p)) = g1 @ l1 @ pending (st_reads (tt_stream1 p')) \<and>
      st_sent (tt_stream2 p') = st_sent (tt_stream2 p) @ g1 \<and>
      pending (st_reads (tt_stream2 p)) = g2 @ l2 @ pending (st_reads (tt_stream2 p')) \<and>
      st_sent (tt_stream1 p') = st_sent (tt_stream1 p) @ g2 \<and>
      (r = Ok () \<longrightarrow> l1 = [] \<and> l2 = [])) \<and>
    tt_closed p' \<and> queue ch' = queue ch @ [ProxyClosed (tt_key p)]"
  using tt_thread_relays[OF assms(1,3,4)] tt_thread_ends[OF assms(1)] assms(2)
  by (auto simp: report_closed_def chan_send_def)

definition demo_tt :: tt_proxy where
  "demo_tt = \<lparr>tt_key = ''k'', tt_stream1 = demo_stream\<lparr>st_reads := [Inr [1, 2]]\<rparr>, tt_stream2 = demo_stream,
     tt_closing = False, tt_closed = False\<rparr>"

definition demo_io :: io_env where
  "demo_io = \<lparr>ie_poll_new = None, ie_register1 = None, ie_register2 = None,
     ie_rounds = [\<lparr>pr_closing = False, pr_poll = Inr [(STREAM1_TOKEN, None)]\<rparr>, \<lparr>pr_closing = True, pr_poll = Inr []\<rparr>]\<rparr>"

lemma demo_copy:
  "copy_data read_tcp_stream write_tcp_stream (demo_stream\<lparr>st_reads := [Inr [1, 2]]\<rparr>) demo_stream =
     (Forwarded, demo_stream, demo_stream\<lparr>st_sent := [1, 2]\<rparr>)"
proof -
  have "read_tcp_stream (demo_stream\<lparr>st_reads := [Inr [1, 2]]\<rparr>) = (Ok [1, 2], demo_stream\<lparr>st_reads := []\<rparr>)"
    using read_tcp_stream_short[of "demo_stream\<lparr>st_reads := [Inr [1, 2]]\<rparr>" "[1, 2]" "[]"]
    by (simp add: demo_stream_def TCP_READ_BLOCK_SIZE_def)
  moreover have "demo_stream\<lparr>st_reads := []\<rparr> = demo_stream" by (simp add: demo_stream_def)
  ultimately show ?thesis by (simp add: copy_data_def write_tcp_stream_free demo_stream_def)
qed

lemma demo_tt_run:
  "tt_thread demo_io demo_tt new_chan = Some (Ok (),
     demo_tt\<lparr>tt_stream1 := demo_stream, tt_stream2 := demo_stream\<lparr>st_sent := [1, 2]\<rparr>, tt_closing := True, tt_closed := True\<rparr>,
     new_chan\<lparr>queue := [ProxyClosed ''k'']\<rparr>)"
proof -
  have "sock_shutdown s = (Inr (), s)" if "st_shutdowns s = []" for s :: net_stream
    using that by (simp add: sock_shutdown_def)
  then have "snd (sock_shutdown demo_stream) = demo_stream"
    "snd (sock_shutdown (demo_stream\<lparr>st_sent := [1, 2]\<rparr>)) = demo_stream\<lparr>st_sent := [1, 2]\<rparr>"
    by (simp_all add: demo_stream_def)
  then show ?thesis
    by (simp add: tt_thread_def demo_io_def demo_tt_def tt_copy_def demo_copy tt_perform_shutdown_def
        report_closed_def chan_send_def new_chan_def Let_def)
qed

theorem tcp_proxy_relays_witness:
  "tt_thread demo_io demo_tt new_chan \<noteq> None \<and>
   (\<exists>g1. pending (st_reads (tt_stream1 demo_tt)) = g1 \<and> st_sent (demo_stream\<lparr>st_sent := [1, 2]\<rparr>) = st_sent demo_stream @ g1)"
  using tcp_proxy_relays[OF demo_tt_run] demo_tt_run
  by (auto simp: demo_tt_def demo_stream_def new_chan_def)

section \<open>The TCP and UDP proxy\<close>

text \<open>
  What arrives on the stream goes out as datagrams, one per read, and what arrives as datagrams is
  written to the stream; a datagram longer than the receive buffer is cut.
\<close>

definition datagram_data :: "(io_error + string \<times> bytes) list \<Rightarrow> bytes" where
  "datagram_data rs = concat (map (\<lambda>r. case r of Inl _ \<Rightarrow> [] | Inr (_, d) \<Rightarrow> take UDP_RECV_BUFFER_SIZE d) rs)"

definition tu_relayed :: "bytes \<Rightarrow> net_stream \<times> udp_sock \<Rightarrow> net_stream \<times> udp_sock \<Rightarrow> bool" where
  "tu_relayed l s s' \<longleftrightarrow>
     (st_writes (fst s) = [] \<and> us_sends (snd s) = [] \<longrightarrow>
        st_writes (fst s') = [] \<and> us_sends (snd s') = [] \<and>
        (\<exists>ds rs. pending (st_reads (fst s)) = concat ds @ l @ pending (st_reads (fst s')) \<and>
           us_sent (snd s') = us_sent (snd s) @ map (\<lambda>d. (None, d)) ds \<and>
           us_recvs (snd s) = rs @ us_recvs (snd s') \<and> st_sent (fst s') = st_sent (fst s) @ datagram_data rs))"

lemma tu_relayedI:
  assumes "st_writes t = [] \<Longrightarrow> us_sends u = [] \<Longrightarrow> st_writes t' = [] \<and> us_sends u' = [] \<and>
    pending (st_reads t) = concat ds @ l @ pending (st_reads t') \<and> us_sent u' = us_sent u @ map (\<lambda>d. (None, d)) ds \<and>
    us_recvs u = rs @ us_recvs u' \<and> st_sent t' = st_sent t @ datagram_data rs"
  shows "tu_relayed l (t, u) (t', u')"
  unfolding tu_relayed_def fst_conv snd_conv
proof (intro impI, elim conjE)
  assume "st_writes t = []" "us_sends u = []"
  from assms[OF this] show "st_writes t' = [] \<and> us_sends u' = [] \<and>
    (\<exists>ds rs. pending (st_reads t) = concat ds @ l @ pending (st_reads t') \<and> us_sent u' = us_sent u @ map (\<lambda>d. (None, d)) ds \<and>
      us_recvs u = rs @ us_recvs u' \<and> st_sent t' = st_sent t @ datagram_data rs)" by blast
qed

lemma datagram_data_Nil [simp]: "datagram_data [] = []"
  by (simp add: datagram_data_def)

lemma write_udp_free:
  assumes "us_sends u = []"
  shows "write_mio_udp_socket data u = (Ok (), u\<lparr>us_sent := us_sent u @ [(None, data)]\<rparr>)"
  using assms by (simp add: write_mio_udp_socket_def)

lemma write_udp_no_panic: "write_mio_udp_socket data u \<noteq> (Panic m, u')"
  by (auto simp: write_mio_udp_socket_def split: list.splits option.splits)

lemma read_datagram_cases:
  assumes "read_datagram u = (r, u')"
  obtains (ok) data rs where "r = Ok data" "us_recvs u = rs @ us_recvs u'" "datagram_data rs = data"
      "us_sent u' = us_sent u" "us_sends u' = us_sends u"
  | (err) e rs where "r = Err e" "us_recvs u = rs @ us_recvs u'" "datagram_data rs = []"
      "us_sent u' = us_sent u" "us_sends u' = us_sends u"
proof (cases "us_recvs u")
  case Nil
  with assms err[of WouldBlock "[]"] show thesis
    by (auto simp: read_datagram_def read_mio_udp_socket_def datagram_data_def)
next
  case (Cons x rest)
  show thesis
  proof (cases x)
    case (Inl e)
    with Cons assms err[of _ "[x]"] show thesis
      by (auto simp: read_datagram_def read_mio_udp_socket_def datagram_data_def)
  next
    case (Inr d)
    obtain addr data where "d = (addr, data)" by (cases d)
    with Inr Cons assms ok[of _ "[x]"] show thesis
      by (auto simp: read_datagram_def read_mio_udp_socket_def datagram_data_def)
  qed
qed

lemma tu_copy_relays:
  assumes "tu_copy tok s = Some (fl, s')"
  shows "\<exists>l. tu_relayed l s s' \<and> ((\<forall>e. fl \<noteq> Failed e) \<longrightarrow> l = []) \<and> (\<forall>m. fl \<noteq> Aborted m)"
proof -
  obtain t u t' u' where s: "s = (t, u)" "s' = (t', u')" by (cases s; cases s') auto
  consider (tcp) "copy_data read_tcp_stream write_mio_udp_socket t u = (fl, t', u')"
    | (udp) "copy_data read_datagram write_tcp_stream u t = (fl, u', t')"
    using assms s by (auto simp: tu_copy_def split: if_splits prod.splits)
  then show ?thesis
  proof cases
    case tcp
    obtain r t1 where r: "read_tcp_stream t = (r, t1)" by fastforce
    note fr = read_tcp_stream_frame[OF r]
    from r show ?thesis
    proof (cases rule: read_tcp_stream_cases)
      case (ok data)
      obtain w u1 where w: "write_mio_udp_socket data u = (w, u1)" by fastforce
      with ok tcp r have e: "fl = write_flow w" "t' = t1" "u' = u1" by (auto simp: copy_data_def)
      have "\<forall>m. fl \<noteq> Aborted m" using e(1) w write_udp_no_panic[of data u] by auto
      moreover have "tu_relayed [] s s'"
        unfolding s using w e ok(2) fr write_udp_free[of u data]
        by (intro tu_relayedI[where ds = "[data]" and rs = "[]"]) auto
      ultimately show ?thesis by blast
    next
      case (err e lost)
      with tcp r have e: "fl = Failed e" "t' = t1" "u' = u" by (auto simp: copy_data_def)
      then have "tu_relayed lost s s'"
        unfolding s using err(2) fr by (intro tu_relayedI[where ds = "[]" and rs = "[]"]) auto
      with e show ?thesis by blast
    qed
  next
    case udp
    obtain r u1 where r: "read_datagram u = (r, u1)" by fastforce
    from r show ?thesis
    proof (cases rule: read_datagram_cases)
      case (ok data rs)
      obtain w t1 where w: "write_tcp_stream data t = (w, t1)" by fastforce
      with ok udp r have e: "fl = write_flow w" "t' = t1" "u' = u1" by (auto simp: copy_data_def)
      have "\<forall>m. fl \<noteq> Aborted m" using e(1) w write_tcp_stream_no_panic[of data t] by auto
      moreover have "tu_relayed [] s s'"
        unfolding s using w e ok write_tcp_stream_free[of t data]
        by (intro tu_relayedI[where ds = "[]" and rs = rs]) auto
      ultimately show ?thesis by blast
    next
      case (err e rs)
      with udp r have e: "fl = Failed e" "u' = u1" "t' = t" by (auto simp: copy_data_def)
      then have "tu_relayed [] s s'"
        unfolding s using err by (intro tu_relayedI[where ds = "[]" and rs = rs]) auto
      with e show ?thesis by blast
    qed
  qed
qed

lemma tu_relayed_refl: "tu_relayed [] s s"
  using tu_relayedI[where ds = "[]" and rs = "[]"] by (cases s) auto

lemma tu_relayed_trans:
  assumes "tu_relayed [] a b" and "tu_relayed l b c"
  shows "tu_relayed l a c"
proof (cases "st_writes (fst a) = [] \<and> us_sends (snd a) = []")
  case True
  with assms(1) obtain ds rs where ab: "st_writes (fst b) = []" "us_sends (snd b) = []"
    "pending (st_reads (fst a)) = concat ds @ pending (st_reads (fst b))"
    "us_sent (snd b) = us_sent (snd a) @ map (\<lambda>d. (None, d)) ds"
    "us_recvs (snd a) = rs @ us_recvs (snd b)" "st_sent (fst b) = st_sent (fst a) @ datagram_data rs"
    by (auto simp: tu_relayed_def)
  with assms(2) obtain ds' rs' where bc: "st_writes (fst c) = []" "us_sends (snd c) = []"
    "pending (st_reads (fst b)) = concat ds' @ l @ pending (st_reads (fst c))"
    "us_sent (snd c) = us_sent (snd b) @ map (\<lambda>d. (None, d)) ds'"
    "us_recvs (snd b) = rs' @ us_recvs (snd c)" "st_sent (fst c) = st_sent (fst b) @ datagram_data rs'"
    by (auto simp: tu_relayed_def)
  from ab bc show ?thesis
    by (auto simp: tu_relayed_def datagram_data_def intro!: exI[of _ "ds @ ds'"] exI[of _ "rs @ rs'"])
qed (auto simp: tu_relayed_def)

interpretation tu_relay: relay tu_copy "tu_relayed []" "\<lambda>s s'. \<exists>l. tu_relayed l s s'"
proof unfold_locales
  fix tok s fl s' e m
  show "tu_copy tok s = Some (fl, s') \<Longrightarrow> (\<forall>e. fl \<noteq> Failed e) \<Longrightarrow> tu_relayed [] s s'"
    using tu_copy_relays by fastforce
  show "tu_copy tok s = Some (Failed e, s') \<Longrightarrow> \<exists>l. tu_relayed l s s'"
    using tu_copy_relays by blast
  show "tu_copy tok s \<noteq> Some (Aborted m, s')"
    using tu_copy_relays by blast
qed (auto intro: tu_relayed_refl tu_relayed_trans)

lemma tu_thread_ends:
  assumes "tu_thread E p ch = Some (r, p', ch')"
  shows "(\<forall>m. r \<noteq> Panic m) \<and> tu_closed p' \<and> tu_key p' = tu_key p \<and> ch' = report_closed (tu_key p) ch \<and>
    (\<exists>s. (\<exists>l. tu_relayed l (tu_stream p, tu_socket p) s) \<and>
       (r = Ok () \<longrightarrow> tu_relayed [] (tu_stream p, tu_socket p) s) \<and>
       tu_stream p' = snd (sock_shutdown (fst s)) \<and> tu_socket p' = snd s)"
proof (cases "ie_poll_new E = None \<and> ie_register1 E = None \<and> ie_register2 E = None")
  case True
  with assms obtain s closing where cl: "copy_loop tu_copy tu_reregister_msg (ie_rounds E) (tu_stream p, tu_socket p) = Some (r, s, closing)"
    "case r of Panic m \<Rightarrow> True | _ \<Rightarrow> (p', ch') = tu_perform_shutdown
       (p\<lparr>tu_stream := fst s, tu_socket := snd s, tu_closing := tu_closing p \<or> closing\<rparr>) ch"
    by (auto simp: tu_thread_def Let_def split: option.splits prod.splits res.splits)
  note k = tu_relay.copy_loop_keeps[OF cl(1)]
  with cl(2) have "(p', ch') = tu_perform_shutdown
       (p\<lparr>tu_stream := fst s, tu_socket := snd s, tu_closing := tu_closing p \<or> closing\<rparr>) ch"
    by (cases r) auto
  with k show ?thesis by (intro conjI exI[of _ s]) (auto simp: tu_perform_shutdown_def)
next
  case False
  with assms have e: "(p', ch') = tu_perform_shutdown p ch" "\<exists>e. r = Err e"
    by (auto simp: tu_thread_def split: option.splits prod.splits)
  then show ?thesis
    using tu_relayed_refl by (intro conjI exI[of _ "(tu_stream p, tu_socket p)"]) (auto simp: tu_perform_shutdown_def)
qed

lemma thread_runs_to_end:
  assumes "\<exists>rd \<in> set (ie_rounds E). pr_closing rd"
  shows "tt_thread E p ch \<noteq> None" "tu_thread E q ch \<noteq> None"
proof -
  from assms obtain rd where rd: "rd \<in> set (ie_rounds E)" "pr_closing rd" by blast
  note e = copy_loop_ends[OF rd]
  show "tt_thread E p ch \<noteq> None"
    using e[of tt_copy tt_reregister_msg "(tt_stream1 p, tt_stream2 p)"]
    by (auto simp: tt_thread_def Let_def split: option.splits res.splits)
  show "tu_thread E q ch \<noteq> None"
    using e[of tu_copy tu_reregister_msg "(tu_stream q, tu_socket q)"]
    by (auto simp: tu_thread_def Let_def split: option.splits res.splits)
qed

section \<open>The end of a proxy\<close>

text \<open>
  C24: disconnecting a proxy ends it: once its \<open>closing\<close> flag is seen by the loop of the thread, the
  thread ends without panic, marks the proxy closed and reports its end under its key, whatever the
  sockets did before; this holds for both kinds of proxies with a single thread.
\<close>

theorem disconnected_proxy_ends:
  assumes "\<exists>rd \<in> set (ie_rounds E). pr_closing rd" and "receiver_alive ch"
  shows "(\<exists>r p' ch'. tt_thread E p ch = Some (r, p', ch') \<and> (\<forall>m. r \<noteq> Panic m) \<and> tt_closed p' \<and>
            queue ch' = queue ch @ [ProxyClosed (tt_key p)]) \<and>
    (\<exists>r q' ch'. tu_thread E q ch = Some (r, q', ch') \<and> (\<forall>m. r \<noteq> Panic m) \<and> tu_closed q' \<and>
            queue ch' = queue ch @ [ProxyClosed (tu_key q)])"
proof (intro conjI)
  have q: "queue (report_closed k ch) = queue ch @ [ProxyClosed k]" for k
    using assms(2) by (simp add: report_closed_def chan_send_def)
  show "\<exists>r p' ch'. tt_thread E p ch = Some (r, p', ch') \<and> (\<forall>m. r \<noteq> Panic m) \<and> tt_closed p' \<and>
            queue ch' = queue ch @ [ProxyClosed (tt_key p)]"
  proof -
    from thread_runs_to_end(1)[OF assms(1), of p ch] obtain r p' ch' where t: "tt_thread E p ch = Some (r, p', ch')"
      by (cases "tt_thread E p ch") auto
    with tt_thread_ends[OF t] q show ?thesis by simp
  qed
  show "\<exists>r q' ch'. tu_thread E q ch = Some (r, q', ch') \<and> (\<forall>m. r \<noteq> Panic m) \<and> tu_closed q' \<and>
            queue ch' = queue ch @ [ProxyClosed (tu_key q)]"
  proof -
    from thread_runs_to_end(2)[OF assms(1), of q ch] obtain r q' ch' where t: "tu_thread E q ch = Some (r, q', ch')"
      by (cases "tu_thread E q ch") auto
    with tu_thread_ends[OF t] q show ?thesis by simp
  qed
qed

definition demo_tu :: tu_proxy where
  "demo_tu = \<lparr>tu_key = ''u'', tu_stream = demo_stream, tu_socket = \<lparr>us_local_addr = None, us_recvs = [], us_sends = [],
     us_sent = [], us_clone_err = None, us_debug = ''UdpSocket''\<rparr>, tu_closing = False, tu_closed = False\<rparr>"

theorem disconnected_proxy_ends_witness:
  "(\<exists>rd \<in> set (ie_rounds demo_io). pr_closing rd) \<and>
   (\<exists>r p' ch'. tt_thread demo_io demo_tt new_chan = Some (r, p', ch') \<and> queue ch' = [ProxyClosed ''k'']) \<and>
   (\<exists>r q' ch'. tu_thread demo_io demo_tu new_chan = Some (r, q', ch') \<and> queue ch' = [ProxyClosed ''u''])"
proof -
  have a: "\<exists>rd \<in> set (ie_rounds demo_io). pr_closing rd" by (simp add: demo_io_def)
  have b: "receiver_alive (new_chan :: proxy_event chan)" "queue (new_chan :: proxy_event chan) = []"
    by (simp_all add: new_chan_def)
  have "tt_key demo_tt = ''k''" "tu_key demo_tu = ''u''" by (simp_all add: demo_tt_def demo_tu_def)
  with disconnected_proxy_ends[OF a b(1), of demo_tt demo_tu] a b(2) show ?thesis by fastforce
qed

text \<open>
  a block that the other side refuses is lost: when the second socket would block after taking
  \<open>n\<close> bytes of it, the data already read are dropped, the proxy goes on, and the rest of the block
  never reaches the second socket.
\<close>

theorem refused_block_is_dropped:
  assumes "st_reads s1 = Inr a # r" and "length a < TCP_READ_BLOCK_SIZE"
    and "st_writes s2 = Some (would_block_error, n) # w"
  shows "\<exists>s1' s2'. process_events tt_copy tt_reregister_msg [(STREAM1_TOKEN, rereg)] (s1, s2) = (Forwarded, s1', s2') \<and>
    pending (st_reads s1') = pending r \<and> st_sent s2' = st_sent s2 @ take n a"
  using read_tcp_stream_short[OF assms(1,2)] assms(3)
  by (simp add: tt_copy_def copy_data_def write_tcp_stream_def sock_write_all_def would_block_error_def write_flow_def)

theorem refused_block_is_dropped_witness:
  "\<exists>s1' s2'. process_events tt_copy tt_reregister_msg [(STREAM1_TOKEN, None)]
     (demo_stream\<lparr>st_reads := [Inr [1, 2]]\<rparr>, demo_stream\<lparr>st_writes := [Some (would_block_error, 1)]\<rparr>) = (Forwarded, s1', s2') \<and>
   pending (st_reads s1') = [] \<and> st_sent s2' = [1]"
  using refused_block_is_dropped[of "demo_stream\<lparr>st_reads := [Inr [1, 2]]\<rparr>" "[1, 2]" "[]"
      "demo_stream\<lparr>st_writes := [Some (would_block_error, 1)]\<rparr>" 1 "[]" None]
  by (simp add: demo_stream_def TCP_READ_BLOCK_SIZE_def)

end
