(* ===== verification/T0_Executor.thy ===== *)
theory T0_Executor
  imports T0_Proxy_Stream
begin

text \<open>
  \<open>crates/common/src/proxy/executor.rs\<close>: the executor that opens proxies and closes them on request.
  Its state are the proxies it knows by key and the channel on which the end of a proxy is reported;
  the answers of the system to the opening of each proxy are arguments.
\<close>

datatype proxy_stream =
    TcpAndTcpStream tt_proxy
  | TcpAndUdpStream tu_proxy
  | ChannelAndTcpStream ct_proxy

record proxy_executor =
  ex_streams :: "(string, proxy_stream) hashmap"
  ex_events :: "proxy_event chan"

definition executor_new :: "proxy_event chan \<Rightarrow> proxy_executor" where
  "executor_new ch = \<lparr>ex_streams = [], ex_events = ch\<rparr>"

text \<open>\<open>ProxyStream::disconnect\<close>.\<close>

fun disconnect :: "(proxy_stream, unit) sop" where
  "disconnect (TcpAndTcpStream p) = (case tt_disconnect p of (r, p') \<Rightarrow> (r, TcpAndTcpStream p'))"
| "disconnect (TcpAndUdpStream p) = (case tu_disconnect p of (r, p') \<Rightarrow> (r, TcpAndUdpStream p'))"
| "disconnect (ChannelAndTcpStream p) = (case ct_disconnect p of (r, p') \<Rightarrow> (r, ChannelAndTcpStream p'))"

text \<open>
  One opening task.  A proxy that cannot be constructed is reported as closed; an error of \<open>connect\<close>
  is logged and nothing else.
\<close>

definition open_proxy :: "string \<Rightarrow> 'p res \<Rightarrow> ('p, unit) sop \<Rightarrow> ('p \<Rightarrow> proxy_stream) \<Rightarrow> (proxy_executor, unit) sop" where
  "open_proxy key made connect wrap ex =
     (case made of
        Err _ \<Rightarrow> (Ok (), ex\<lparr>ex_events := report_closed key (ex_events ex)\<rparr>)
      | Panic m \<Rightarrow> (Panic m, ex)
      | Ok p \<Rightarrow>
          (case connect p of
             (Ok _, p') \<Rightarrow> (Ok (), ex\<lparr>ex_streams := hm_insert key (wrap p') (ex_streams ex)\<rparr>)
           | (Err _, _) \<Rightarrow> (Ok (), ex)
           | (Panic m, _) \<Rightarrow> (Panic m, ex)))"

fun executor_task :: "proxy_env \<Rightarrow> proxy_task \<Rightarrow> (proxy_executor, unit) sop" where
  "executor_task E (OpenChannelAndTcpProxy key addr stream) ex =
     open_proxy key (ct_new E key addr stream) (ct_connect E) ChannelAndTcpStream ex"
| "executor_task E (OpenTcpAndTcpProxy key stream1 stream2) ex =
     open_proxy key (tt_new E key stream1 stream2) (tt_connect E) TcpAndTcpStream ex"
| "executor_task E (OpenTcpAndUdpProxy key stream socket) ex =
     open_proxy key (tu_new E key stream socket) (tu_connect E) TcpAndUdpStream ex"
| "executor_task E (CloseProxy key) ex =
     (case hm_get (ex_streams ex) key of
        Some stream \<Rightarrow> (Ok (), ex\<lparr>ex_streams := hm_insert key (snd (disconnect stream)) (ex_streams ex)\<rparr>)
      | None \<Rightarrow> (Ok (), ex))"

text \<open>
  The task loop, over the tasks received so far.  The executor holds a sender of its own channel, so
  that \<open>recv\<close> never fails and the loop goes on waiting.
\<close>

fun poll_new_tasks :: "(proxy_task \<times> proxy_env) list \<Rightarrow> (proxy_executor, unit) sop" where
  "poll_new_tasks [] ex = (Ok (), ex)"
| "poll_new_tasks ((task, E) # rest) ex =
     (case executor_task E task ex of
        (Ok _, ex') \<Rightarrow> poll_new_tasks rest ex'
      | (Err e, ex') \<Rightarrow> (Err e, ex')
      | (Panic m, ex') \<Rightarrow> (Panic m, ex'))"

section \<open>Lemmas\<close>

fun stream_closing :: "proxy_stream \<Rightarrow> bool" where
  "stream_closing (TcpAndTcpStream p) = tt_closing p"
| "stream_closing (TcpAndUdpStream p) = tu_closing p"
| "stream_closing (ChannelAndTcpStream p) = ct_closing p"

lemma disconnect_closing: "stream_closing (snd (disconnect s))"
  by (cases s) (simp_all add: tt_disconnect_def tu_disconnect_def ct_disconnect_def)

lemma clone_no_panic: "clone_std_tcp_stream s \<noteq> Panic m" "clone_std_udp_socket u \<noteq> Panic m"
  by (auto simp: clone_std_tcp_stream_def clone_std_udp_socket_def map_err_def split: option.splits sum.splits)

lemma new_no_panic: "tt_new E k s1 s2 \<noteq> Panic m" "tu_new E k s1 u \<noteq> Panic m" "ct_new E k a s1 \<noteq> Panic m"
  by (simp_all add: tt_new_def tu_new_def ct_new_def res_simps clone_no_panic map_err_no_panic)

lemma connect_no_panic: "tt_connect E p \<noteq> (Panic m, p')" "tu_connect E q \<noteq> (Panic m, q')" "ct_connect E c \<noteq> (Panic m, c')"
  by (auto simp: tt_connect_def tu_connect_def ct_connect_def Let_def res_simps clone_no_panic split: res.splits)

lemma open_proxy_ok:
  assumes "\<And>m. made \<noteq> Panic m" and "\<And>p m p'. connect p \<noteq> (Panic m, p')"
  shows "\<exists>ex'. open_proxy key made connect wrap ex = (Ok (), ex')"
proof (cases made)
  case (Ok p)
  obtain r p' where "connect p = (r, p')" by fastforce
  with Ok assms(2)[of p _ p'] show ?thesis by (cases r) (auto simp: open_proxy_def)
qed (use assms(1) in \<open>auto simp: open_proxy_def\<close>)

lemma executor_task_ok: "\<exists>ex'. executor_task E t ex = (Ok (), ex')"
proof (cases t)
  case (CloseProxy key)
  then show ?thesis by (auto split: option.splits)
qed (simp_all add: open_proxy_ok new_no_panic connect_no_panic)

lemma poll_new_tasks_ok: "\<exists>ex'. poll_new_tasks ts ex = (Ok (), ex')"
proof (induction ts arbitrary: ex)
  case Nil
  then show ?case by simp
next
  case (Cons x ts)
  obtain t E where x: "x = (t, E)" by (cases x)
  obtain ex1 where e: "executor_task E t ex = (Ok (), ex1)" using executor_task_ok by blast
  from Cons.IH[of ex1] x e show ?case by simp
qed

lemma poll_new_tasks_append:
  "poll_new_tasks (xs @ ys) ex =
     (case poll_new_tasks xs ex of (Ok _, ex') \<Rightarrow> poll_new_tasks ys ex' | (Err e, ex') \<Rightarrow> (Err e, ex') | (Panic m, ex') \<Rightarrow> (Panic m, ex'))"
  by (induction xs arbitrary: ex) (auto split: prod.splits res.splits)

text \<open>A run of close tasks: every stream they name is closing afterwards, and none stops closing.\<close>

lemma close_run:
  assumes "map fst ts = map CloseProxy keys"
  shows "poll_new_tasks ts ex = (Ok (), ex') \<Longrightarrow>
    (\<forall>k s. hm_get (ex_streams ex') k = Some s \<longrightarrow>
       (k \<in> set keys \<or> (\<exists>s0. hm_get (ex_streams ex) k = Some s0 \<and> stream_closing s0) \<longrightarrow> stream_closing s)) \<and>
    (\<forall>k. hm_get (ex_streams ex') k = None \<longleftrightarrow> hm_get (ex_streams ex) k = None) \<and>
    (\<forall>k. k \<notin> set keys \<longrightarrow> hm_get (ex_streams ex') k = hm_get (ex_streams ex) k)"
  using assms
proof (induction ts arbitrary: ex keys)
  case Nil
  then show ?case by auto
next
  case (Cons x ts)
  then obtain E key keys' where x: "x = (CloseProxy key, E)" "keys = key # keys'" "map fst ts = map CloseProxy keys'"
    by (cases x; cases keys) auto
  show ?case
  proof (cases "hm_get (ex_streams ex) key")
    case None
    with Cons.prems(1) x have "poll_new_tasks ts ex = (Ok (), ex')" by simp
    note IH = Cons.IH[OF this x(3)]
    then have n: "hm_get (ex_streams ex') k \<noteq> Some s" if "k = key" for k s using None that by (metis option.distinct(1))
    from IH n x(2) show ?thesis by (intro conjI) (metis None n set_ConsD, blast, metis list.set_intros(2))
  next
    case (Some s)
    with Cons.prems(1) x have "poll_new_tasks ts (ex\<lparr>ex_streams := hm_insert key (snd (disconnect s)) (ex_streams ex)\<rparr>) = (Ok (), ex')"
      by simp
    from Cons.IH[OF this x(3)] Some x(2) disconnect_closing[of s] show ?thesis
      by (auto split: if_splits)
  qed
qed

text \<open>
  The one way in which a proxy disappears unreported: its streams could be cloned when it was
  constructed and not when it was connected.
\<close>

lemma unconnected_proxy_unreported:
  assumes "st_clone_err s1 = None" and "st_clone_err s2 = None" and "pe_nonblocking1 E = None" and "pe_nonblocking2 E = None"
    and "pe_clone1 E = Some e"
  shows "executor_task E (OpenTcpAndTcpProxy key s1 s2) ex = (Ok (), ex)"
  using assms
  by (simp add: open_proxy_def tt_new_def tt_connect_def clone_std_tcp_stream_def answered_def)

end
