(* ===== verification/T0_Availability.thy ===== *)
theory T0_Availability
  imports T0_Sessions T0_Executor
begin

text \<open>
  The other half of access control: whoever is entitled to a service gets to it.  From a started service
  and a reachable host, a connection of an entitled user leads to a session, to the task that opens its
  proxy, and to a running proxy of the executor; and when the user's control connection goes away, the
  sessions of that user end and those of nobody else.
\<close>

section \<open>A reachable service\<close>

text \<open>
  The task that opens the proxy of a new connection, if the network allows it: the host resolves, one of
  its addresses takes a connection, and the streams can be cloned.
\<close>

definition opening_task :: "net_env \<Rightarrow> app_config \<Rightarrow> tls_stream \<Rightarrow> service \<Rightarrow> proxy_task option" where
  "opening_task N cfg t svc =
     (if st_clone_err t \<noteq> None then None
      else case sv_transport svc of
        TCP \<Rightarrow>
          (case and_then (resolve_host N svc) (\<lambda>addrs. connect_tcp_service N (sv_port svc) addrs None) of
             Ok (Some ss, _) \<Rightarrow>
               if st_clone_err ss \<noteq> None then None
               else Some (OpenTcpAndTcpProxy (proxy_key_value TcpAndTcp (st_peer_addr t) (st_peer_addr ss)) (net_stream.truncate t) ss)
           | _ \<Rightarrow> None)
      | UDP \<Rightarrow>
          (case and_then (resolve_host N svc) (\<lambda>addrs.
                  and_then (map_err (GenWithMsgAndErr (''Error binding service reply UDP socket: reply_host='' @ cfg_gateway_service_reply_host cfg))
                             (udp_bind N (cfg_gateway_service_reply_host cfg @ '':0''))) (\<lambda>us.
                  and_then (connect_udp_service N us (sv_port svc) addrs None) (\<lambda>r. Ok (us, r)))) of
             Ok (us, Some sa, _) \<Rightarrow>
               Some (OpenTcpAndUdpProxy (proxy_key_value TcpAndUdp (us_local_addr us) (Some sa)) (net_stream.truncate t) us)
           | _ \<Rightarrow> None))"

lemma open_reachable:
  assumes "opening_task N cfg (cn_stream c) (sp_service vis) = Some task" and "receiver_alive (gs_proxy_tasks sh)"
  shows "gsp_open_proxy N cfg c (vis, sh) = (Ok (task_key task), vis, enqueued task sh)"
proof (cases "sv_transport (sp_service vis)")
  case TCP
  with assms show ?thesis
    by (auto simp: opening_task_def gsp_open_proxy_def tcp_open_proxy_def sop_bind_def sop_lift_def send_open_task_def enqueued_def
        chan_send_def Let_def split: if_splits res.splits option.splits prod.splits)
next
  case UDP
  with assms show ?thesis
    by (auto simp: opening_task_def gsp_open_proxy_def udp_open_proxy_def sop_bind_def sop_lift_def send_open_task_def enqueued_def
        chan_send_def Let_def split: if_splits res.splits option.splits prod.splits)
qed

lemma accept_reachable:
  assumes "opening_task N cfg (cn_stream c) (sp_service vis) = Some task" and "receiver_alive (gs_proxy_tasks sh)"
  shows "gsp_on_conn_accepted N cfg c (vis, sh) = register_proxy (task_key task) (create_proxy_addrs (cn_stream c))
    (vis, sh\<lparr>gs_proxy_tasks := (gs_proxy_tasks sh)\<lparr>queue := queue (gs_proxy_tasks sh) @ [task]\<rparr>\<rparr>)"
  using open_reachable[OF assms] by (simp add: gsp_on_conn_accepted_phases sop_bind_def enqueued_def)

text \<open>
  The key of a TCP proxy is made of the addresses of the client and of the service: two connections from one
  client address to one service have the same key, whatever ports of the gateway they came in by.  When
  both are opened, the executor keeps the second stream only, and the order to close the key reaches that one alone.
\<close>

lemma same_source_port_same_key:
  assumes "opening_task N cfg t svc = Some task" and "opening_task N cfg t' svc = Some task'" and "sv_transport svc = TCP"
    and "st_peer_addr t' = st_peer_addr t"
  shows "task_key task' = task_key task"
  using assms by (auto simp: opening_task_def split: if_splits res.splits option.splits prod.splits)

lemma second_stream_replaces_first:
  assumes "hm_get (ex_streams ex) k = Some s" and "executor_task E (OpenTcpAndTcpProxy k s1 s2) ex = (Ok (), ex')" and "ex_streams ex' \<noteq> ex_streams ex"
  shows "\<exists>p. hm_get (ex_streams ex') k = Some (TcpAndTcpStream p) \<and> tt_stream1 p = s1 \<and> tt_stream2 p = s2 \<and> ex_events ex' = ex_events ex"
  using assms(2,3)
  by (auto simp: open_proxy_def tt_new_def tt_connect_def clone_std_tcp_stream_def map_err_def res_simps Let_def
      split: res.splits prod.splits option.splits)

section \<open>An entitled user gets a session\<close>

lemma control_plane_available:
  assumes "rw_avail (cfg_service_repo cfg)"
  shows "\<exists>cp. control_plane_new cfg dev u = Ok cp"
  using assms by (simp add: control_plane_new_def setup_services_maps_def service_get_all_def repo_defs rw_avail_def)

lemma create_entitled_user:
  assumes "authorize_device L t = Ok dev" and "uid = ctx_user_id (dv_cert_access_context dev)" and "uid \<noteq> 0"
    and "entitled cfg uid (sv_service_id (sp_service vis))"
    and "parse_alpn_protocol (gl_digits L) (tls_alpn_protocol t) = Ok (Service (sv_service_id (sp_service vis)))"
    and "user_inv (cfg_user_repo cfg)" and "rw_avail (cfg_service_repo cfg)"
  obtains c where "svc_create_client_conn L cfg t vis =
      (Ok c, vis\<lparr>sp_users_by_proxy_addrs := hm_insert (create_proxy_addrs t) uid (sp_users_by_proxy_addrs vis)\<rparr>)"
    "cn_stream c = t" "cn_alpn c = Some (Service (sv_service_id (sp_service vis)))"
proof -
  let ?sid = "sv_service_id (sp_service vis)"
  from assms(4) obtain u where u: "user_get (cfg_user_repo cfg) uid = Ok (Some u)" "u_status u = Active"
    and acc: "\<exists>a. access_get (cfg_access_repo cfg) uid ?sid = Ok (Some a)" by (auto simp: entitled_def)
  have id: "u_user_id u = uid" using u(1) assms(6) by (auto simp: user_get_def user_inv_def repo_defs split: if_splits)
  have "process_authorization L cfg t (Some ?sid) (client_visitor_new cfg) =
      (Ok (Service ?sid), (client_visitor_new cfg)\<lparr>cv_device := Some dev, cv_user := Some u\<rparr>)"
    unfolding process_authorization_Ok using assms(1-3,5) u acc by (auto simp: authorize_user_Ok authorize_service_Ok)
  moreover obtain cp where "control_plane_new cfg dev u = Ok cp" using control_plane_available[OF assms(7)] by blast
  ultimately show ?thesis using id that
    by (simp add: svc_create_client_conn_def conn_new_base cv_set_event_channel_sender_def)
qed

lemma gw_inv_visitor:
  assumes "gw_inv cfg st" and "get_service_proxy (gws_mgr st) sid = Some vis"
  shows "sv_service_id (sp_service vis) = sid" "receiver_alive (gs_proxy_tasks (gm_shared (gws_mgr st)))"
  using assms mgr_invD(2) by (auto simp: gw_inv_def mgr_ready_def)

lemma entitled_user_session:
  assumes "gw_inv cfg st" and "user_inv (cfg_user_repo cfg)" and "rw_avail (cfg_service_repo cfg)"
    and "authorize_device L t = Ok dev" and "uid = ctx_user_id (dv_cert_access_context dev)" and "uid \<noteq> 0"
    and "entitled cfg uid sid" and "parse_alpn_protocol (gl_digits L) (tls_alpn_protocol t) = Ok (Service sid)"
    and "get_service_proxy (gws_mgr st) sid = Some vis" and "opening_task N cfg t (sp_service vis) = Some task"
  shows "\<exists>st'. hand_over (gateway_visitor B L N cfg) t st = (Ok (), st') \<and>
    sessions (gws_mgr st') = insert (sid, uid, task_key task) (sessions (gws_mgr st)) \<and>
    queue (gs_proxy_tasks (gm_shared (gws_mgr st'))) = queue (gs_proxy_tasks (gm_shared (gws_mgr st))) @ [task]"
proof -
  let ?mgr = "gws_mgr st"
  note v = gw_inv_visitor[OF assms(1,9)]
  let ?vis1 = "vis\<lparr>sp_users_by_proxy_addrs := hm_insert (create_proxy_addrs t) uid (sp_users_by_proxy_addrs vis)\<rparr>"
  obtain c where c: "svc_create_client_conn L cfg t vis = (Ok c, ?vis1)" "cn_stream c = t" "cn_alpn c = Some (Service sid)"
    using create_entitled_user[OF assms(4-6), of cfg vis] assms(2,3,7,8) v(1) by metis
  let ?sh = "(gm_shared ?mgr)\<lparr>gs_proxy_tasks := (gs_proxy_tasks (gm_shared ?mgr))\<lparr>queue := queue (gs_proxy_tasks (gm_shared ?mgr)) @ [task]\<rparr>\<rparr>"
  obtain vis2 sh2 where r: "register_proxy (task_key task) (create_proxy_addrs t) (?vis1, ?sh) = (Ok (), vis2, sh2)"
    and q: "gs_proxy_tasks sh2 = gs_proxy_tasks ?sh"
    by (auto simp: register_proxy_def Let_def)
  have a: "gsp_on_conn_accepted N cfg c (?vis1, gm_shared ?mgr) = (Ok (), vis2, sh2)"
    using accept_reachable[of N cfg c ?vis1 task "gm_shared ?mgr"] assms(10) c(2) v(2) r by simp
  let ?mgr1 = "set_visitor sid ?vis1 ?mgr"
  let ?st' = "st\<lparr>gws_mgr := (set_visitor sid vis2 ?mgr1)\<lparr>gm_shared := sh2\<rparr>\<rparr>"
  have g: "get_service_proxy ?mgr1 sid = Some ?vis1" "gm_shared ?mgr1 = gm_shared ?mgr"
    by (simp_all add: get_service_proxy_def set_visitor_def)
  have ca: "create_at L cfg sid t st = (Ok c, st\<lparr>gws_mgr := ?mgr1\<rparr>)"
    by (simp add: create_at_def gw_get_service_proxy_def assms(9) c(1))
  have ac: "accept_at N cfg sid c (st\<lparr>gws_mgr := ?mgr1\<rparr>) = (Ok (), ?st')"
    by (simp add: accept_at_def gw_get_service_proxy_def g a)
  have "hand_over (gateway_visitor B L N cfg) t st = (Ok (), ?st')"
    by (simp add: hand_over_def gateway_visitor_def sop_bind_def gw_create_client_conn_def gw_on_conn_accepted_def assms(8) c(3) ca ac)
  moreover have "sessions (gws_mgr ?st') = insert (sid, uid, task_key task) (sessions ?mgr)"
  proof -
    have k: "set (keys_of vis2 u) = set (keys_of vis u) \<union> (if u = uid then {task_key task} else {})" for u
      using keys_of_register[OF r, of uid u] by (simp add: keys_of_def)
    have m1: "sessions ?mgr1 = sessions ?mgr"
      using sessions_set_same[OF assms(9), of ?vis1 "gm_shared ?mgr"] by (simp add: keys_of_def set_visitor_def)
    have here: "(sid, u, j) \<in> sessions ?mgr \<longleftrightarrow> j \<in> set (keys_of vis u)" for u j using assms(9) by (simp add: in_sessions)
    have "(i, u, j) \<in> sessions (gws_mgr ?st') \<longleftrightarrow> (i, u, j) = (sid, uid, task_key task) \<or> (i, u, j) \<in> sessions ?mgr" for i u j
      by (cases "i = sid"; cases "u = uid") (simp_all add: sessions_set[OF g(1)] m1 k here disj_commute)
    then show ?thesis by auto
  qed
  ultimately show ?thesis using q by auto
qed

text \<open>
  C5: whoever is entitled to a started service gets a session: when the certificate names a known and
  active user with an access record for the service, the protocol name asks for that service, and the
  service can be reached, the gateway accepts the connection, files the session under the user, the service
  and the key of its proxy, keeps every other session as it was, and hands the executor the task to open
  the proxy.
\<close>

theorem entitled_user_gets_session:
  assumes "gw_inv cfg st" and "user_inv (cfg_user_repo cfg)" and "rw_avail (cfg_service_repo cfg)"
    and "authorize_device L t = Ok dev" and "uid = ctx_user_id (dv_cert_access_context dev)" and "uid \<noteq> 0"
    and "entitled cfg uid sid" and "parse_alpn_protocol (gl_digits L) (tls_alpn_protocol t) = Ok (Service sid)"
    and "get_service_proxy (gws_mgr st) sid = Some vis" and "opening_task N cfg t (sp_service vis) = Some task"
  shows "\<exists>st'. hand_over (gateway_visitor B L N cfg) t st = (Ok (), st') \<and>
    sessions (gws_mgr st') = insert (sid, uid, task_key task) (sessions (gws_mgr st)) \<and>
    queue (gs_proxy_tasks (gm_shared (gws_mgr st'))) = queue (gs_proxy_tasks (gm_shared (gws_mgr st))) @ [task]"
  using assms by (rule entitled_user_session)

lemma demo_opening_task:
  "\<exists>s1 s2. opening_task demo_reachable_net demo_config (demo_tls 100) demo_service = Some (OpenTcpAndTcpProxy demo_session_key s1 s2)"
  by (simp add: opening_task_def demo_service_def new_service_def resolve_host_def demo_reachable_net_def demo_net_def demo_tls_def
      demo_stream_def demo_session_key_def)

lemma demo_entitled: "entitled demo_config 100 203"
  by (simp add: entitled_def user_get_def access_get_def repo_defs demo_config_def hm_get_def new_user_def new_access_def)

theorem entitled_user_gets_session_witness:
  "\<exists>st st'. gw_inv demo_config st \<and> (203, 100, demo_session_key) \<notin> sessions (gws_mgr st) \<and>
     hand_over (gateway_visitor (\<lambda>_. sop_lift (Ok ())) demo_gw_lib demo_reachable_net demo_config) (demo_tls 100) st = (Ok (), st') \<and>
     (203, 100, demo_session_key) \<in> sessions (gws_mgr st')"
proof -
  obtain ch where r: "gw_reachable True demo_gw_lib demo_reachable_net demo_json demo_cli demo_config
      \<lparr>gws_mgr = demo_started_mgr, gws_shutdown_requested = False, gws_crl = (None, []), gws_conns = [demo_control_conn\<lparr>cn_events := ch\<rparr>]\<rparr>" (is "gw_reachable _ _ _ _ _ _ ?st")
    by (rule demo_started_reachable)
  note i = reachable_inv[OF r demo_user_inv]
  have a: "rw_avail (cfg_service_repo demo_config)" by (simp add: rw_avail_def demo_config_def)
  have u: "100 = ctx_user_id (dv_cert_access_context (demo_device 100))" "(100 :: u64) \<noteq> 0" by (simp_all add: demo_device_def)
  have p: "parse_alpn_protocol (gl_digits demo_gw_lib) (tls_alpn_protocol (demo_tls 100)) = Ok (Service 203)"
    by (simp add: demo_gw_lib_def demo_tls_def)
  have v: "get_service_proxy (gws_mgr ?st) 203 = Some (svc_visitor_new demo_service (Some ''gw'') 8500)" by (simp add: demo_started_visitor)
  obtain s1 s2 where t: "opening_task demo_reachable_net demo_config (demo_tls 100) (sp_service (svc_visitor_new demo_service (Some ''gw'') 8500)) =
      Some (OpenTcpAndTcpProxy demo_session_key s1 s2)"
    using demo_opening_task by (auto simp: svc_visitor_new_def)
  have n: "(203, 100, demo_session_key) \<notin> sessions (gws_mgr ?st)"
    by (simp add: in_sessions demo_started_visitor keys_of_def svc_visitor_new_def hm_get_def)
  from entitled_user_gets_session[where B = "\<lambda>_. sop_lift (Ok ())", OF i demo_user_inv a demo_authorize_device(1) u demo_entitled p v t] i n show ?thesis by auto
qed

section \<open>The end of a control connection\<close>

text \<open>
  C9: when a control connection goes away, the sessions of its user end: all of them, at every service, and
  those of no other user; the executor is told to close each of their proxies.
\<close>

theorem lost_control_connection_ends_sessions:
  assumes "gw_reachable chk L N S C cfg st" and "user_inv (cfg_user_repo cfg)" and "c \<in> set (gws_conns st)"
    and "cv_on_shutdown (cn_visitor c, cn_events c, gws_mgr st) = (r, v', ch', mgr')"
  shows "\<exists>u. cv_user (cn_visitor c) = Some u \<and> r = Ok () \<and>
    sessions mgr' = {(i, u', k). (i, u', k) \<in> sessions (gws_mgr st) \<and> u' \<noteq> u_user_id u} \<and>
    (\<forall>i k. (i, u_user_id u, k) \<in> sessions (gws_mgr st) \<longrightarrow> CloseProxy k \<in> set (queue (gs_proxy_tasks (gm_shared mgr'))))"
proof -
  let ?mgr = "gws_mgr st"
  have g: "gw_inv cfg st" using assms(1,2) by (rule reachable_inv)
  then have ready: "mgr_ready ?mgr" by (simp add: gw_inv_def)
  obtain u where u: "cv_user (cn_visitor c) = Some u" using g assms(3) by (auto simp: gw_inv_def)
  have sd: "mgr_shutdown_connections (Some (u_user_id u)) None ?mgr = (r, mgr')"
    using assms(4) u by (auto simp: cv_on_shutdown_def split: prod.splits)
  from mgr_shutdown_closes[of ?mgr "Some (u_user_id u)" None] ready sd have q: "r = Ok ()"
    "queue (gs_proxy_tasks (gm_shared mgr')) = queue (gs_proxy_tasks (gm_shared ?mgr)) @ close_tasks (Some (u_user_id u)) None (gm_service_proxy_visitors ?mgr)"
    by (auto simp: mgr_ready_def)
  have s: "sessions mgr' = {(i, u', k). (i, u', k) \<in> sessions ?mgr \<and> u' \<noteq> u_user_id u}" using sessions_shutdown[OF ready sd] by simp
  obtain keys where keys: "close_tasks (Some (u_user_id u)) None (gm_service_proxy_visitors ?mgr) = map CloseProxy keys"
    "\<And>i v k. (i, v) \<in> set (gm_service_proxy_visitors ?mgr) \<Longrightarrow> k \<in> set (keys_of v (u_user_id u)) \<Longrightarrow> k \<in> set keys"
    using close_tasks_keys[of "Some (u_user_id u)" None "gm_service_proxy_visitors ?mgr"] by auto
  have "CloseProxy k \<in> set (queue (gs_proxy_tasks (gm_shared mgr')))" if "(i, u_user_id u, k) \<in> sessions ?mgr" for i k
    using that keys by (auto simp: q(2) in_sessions get_service_proxy_def dest!: hm_get_set)
  with u q(1) s show ?thesis by blast
qed

theorem lost_control_connection_ends_sessions_witness:
  "\<exists>st c r v' ch' mgr'. gw_reachable True demo_gw_lib demo_reachable_net demo_json demo_cli demo_config st \<and> c \<in> set (gws_conns st) \<and>
     (203, 100, demo_session_key) \<in> sessions (gws_mgr st) \<and> cv_on_shutdown (cn_visitor c, cn_events c, gws_mgr st) = (r, v', ch', mgr') \<and>
     (203, 100, demo_session_key) \<notin> sessions mgr' \<and> CloseProxy demo_session_key \<in> set (queue (gs_proxy_tasks (gm_shared mgr')))"
proof -
  obtain st vis ch where r: "gw_reachable True demo_gw_lib demo_reachable_net demo_json demo_cli demo_config st"
    and v: "get_service_proxy (gws_mgr st) 203 = Some vis" "keys_of vis 100 = [demo_session_key]"
    and conns: "gws_conns st = [demo_control_conn\<lparr>cn_events := ch\<rparr>]" using demo_session by metis
  define c where "c = demo_control_conn\<lparr>cn_events := ch\<rparr>"
  have c: "c \<in> set (gws_conns st)" by (simp add: conns c_def)
  have u: "cv_user (cn_visitor c) = Some (new_user 100 ''ann'' Active)" by (simp add: c_def demo_control_conn_def)
  obtain x v' ch' mgr' where sd: "cv_on_shutdown (cn_visitor c, cn_events c, gws_mgr st) = (x, v', ch', mgr')" by (metis prod.exhaust)
  have s: "(203, 100, demo_session_key) \<in> sessions (gws_mgr st)" by (simp add: in_sessions v)
  have "u_user_id (new_user 100 ''ann'' Active) = 100" by (simp add: new_user_def)
  with lost_control_connection_ends_sessions[OF r demo_user_inv c sd] u s have
    "(203, 100, demo_session_key) \<notin> sessions mgr'" "CloseProxy demo_session_key \<in> set (queue (gs_proxy_tasks (gm_shared mgr')))" by auto
  with r c s sd show ?thesis by blast
qed

end
