(* ===== verification/T0_Listeners.thy ===== *)
theory T0_Listeners
  imports T0_Availability
begin

text \<open>
  The threads that listen for a service: \<open>TcpGatewayProxy\<close> and \<open>UdpGatewayProxy\<close> of \<open>crates/gateway/src/service/proxy\<close>,
  \<open>TcpClientProxy\<close> and \<open>UdpClientProxy\<close> of \<open>crates/client/src/service/proxy\<close>.  Each is a server (\<open>T0_Server\<close>) with the visitor of
  the service; \<open>startup\<close> binds it and polls until the visitor asks for a shutdown.  The service managers run
  \<open>startup\<close> in a thread of its own and do not look at its result.
\<close>

definition listen_then ::
  "unit res \<times> server \<times> 'w \<Rightarrow> (server \<Rightarrow> 'w \<Rightarrow> (unit res \<times> server \<times> 'w) option) \<Rightarrow> (unit res \<times> server \<times> 'w) option" where
  "listen_then bound poll =
     (case bound of (Ok _, s, w) \<Rightarrow> poll s w | (Err e, s, w) \<Rightarrow> Some (Err e, s, w) | (Panic m, s, w) \<Rightarrow> Some (Panic m, s, w))"

section \<open>The gateway\<close>

definition tcp_gateway_proxy_new :: "u16 \<Rightarrow> server" where "tcp_gateway_proxy_new port = server_new port"
definition udp_gateway_proxy_new :: "u16 \<Rightarrow> server" where "udp_gateway_proxy_new port = server_new port"

definition tcp_gateway_proxy_startup ::
  "(tls_stream \<Rightarrow> (crl_state, unit) sop) \<Rightarrow> 'a gw_lib \<Rightarrow> net_env \<Rightarrow> app_config \<Rightarrow> u64 \<Rightarrow> nat \<Rightarrow> dyn_error option \<Rightarrow> dyn_error option \<Rightarrow>
   ((io_error + tls_stream incoming) \<times> (gw_state \<Rightarrow> gw_state)) list \<Rightarrow> server \<Rightarrow> gw_state \<Rightarrow> (unit res \<times> server \<times> gw_state) option" where
  "tcp_gateway_proxy_startup B L N cfg sid fuel bind nonblocking cycles s st =
     (let V = service_port_visitor B L N cfg sid in
      listen_then (bind_listener V bind nonblocking (s, st)) (tls_server_poll_new V fuel cycles))"

definition udp_gateway_proxy_startup where "udp_gateway_proxy_startup = tcp_gateway_proxy_startup"

definition tcp_gateway_proxy_shutdown :: "server \<Rightarrow> server" where "tcp_gateway_proxy_shutdown = server_shutdown"
definition udp_gateway_proxy_shutdown :: "server \<Rightarrow> server" where "udp_gateway_proxy_shutdown = server_shutdown"

section \<open>The client\<close>

text \<open>\<open>E\<close> gives the answers of the network to the connection that is made to the gateway for a local one.\<close>

definition tcp_client_visitor :: "((unit, net_stream) conn \<Rightarrow> connect_env) \<Rightarrow> (net_stream, (unit, net_stream) conn, cli_state) server_visitor" where
  "tcp_client_visitor E =
     \<lparr>create_client_conn = (\<lambda>stream st. (cli_tcp_create_client_conn stream, st)),
      on_listening = (\<lambda>st. (Ok (), st)),
      on_tls_handshaking = (\<lambda>_ st. (Ok (), st)),
      on_conn_accepted = (\<lambda>c. cli_tcp_on_conn_accepted (E c) c),
      get_shutdown_requested = (\<lambda>st. xv_shutdown_requested (fst st))\<rparr>"

definition tcp_client_proxy_new :: "u16 \<Rightarrow> server" where "tcp_client_proxy_new port = tcp_srv_new port"

definition tcp_client_proxy_startup ::
  "((unit, net_stream) conn \<Rightarrow> connect_env) \<Rightarrow> dyn_error option \<Rightarrow> dyn_error option \<Rightarrow>
   ((io_error + net_stream incoming) \<times> (cli_state \<Rightarrow> cli_state)) list \<Rightarrow> server \<Rightarrow> cli_state \<Rightarrow> (unit res \<times> server \<times> cli_state) option" where
  "tcp_client_proxy_startup E bind nonblocking cycles s st =
     (let V = tcp_client_visitor E in
      listen_then (tcp_srv_bind_listener V bind nonblocking (s, st)) (tcp_server_poll_new V cycles))"

definition udp_client_visitor :: "(string \<Rightarrow> connect_env) \<Rightarrow> cli_state udp_visitor" where
  "udp_client_visitor E =
     \<lparr>on_message_received = (\<lambda>local_addr peer_addr. cli_udp_on_message_received (E peer_addr) local_addr peer_addr),
      udp_on_listening = (\<lambda>st. (Ok (), st)),
      udp_get_shutdown_requested = (\<lambda>st. xv_shutdown_requested (fst st))\<rparr>"

definition udp_client_proxy_new :: "u16 \<Rightarrow> server res" where "udp_client_proxy_new port = udp_server_new port"

text \<open>
  \<open>sock\<close> is the socket that was bound.  Its clone goes to the thread that sends the answers to the local peers
  (\<open>client_bound_message_processor\<close>); it is the third part of the result, \<open>None\<close> when the thread was not started.
\<close>

definition udp_client_proxy_startup ::
  "(string \<Rightarrow> connect_env) \<Rightarrow> udp_sock \<Rightarrow> dyn_error option \<Rightarrow> dyn_error option \<Rightarrow> dyn_error option \<Rightarrow> dyn_error option \<Rightarrow> dyn_error option \<Rightarrow>
   ((io_error + (io_error + string \<times> bytes)) \<times> (cli_state \<Rightarrow> cli_state)) list \<Rightarrow> server \<Rightarrow> cli_state \<Rightarrow>
   ((unit res \<times> server \<times> cli_state) \<times> udp_sock option) option" where
  "udp_client_proxy_startup E sock bind nonblocking clone_err poll_err register_err cycles s st =
     (let V = udp_client_visitor E in
      case udp_bind_listener V bind nonblocking (s, st) of
        (Err e, s', w) \<Rightarrow> Some ((Err e, s', w), None)
      | (Panic m, s', w) \<Rightarrow> Some ((Panic m, s', w), None)
      | (Ok _, s', w) \<Rightarrow>
          (case clone_server_socket (Some sock) of
             Err e \<Rightarrow> Some ((Err e, s', w), None)
           | Panic m \<Rightarrow> Some ((Panic m, s', w), None)
           | Ok clone \<Rightarrow>
               map_option (\<lambda>r. (r, Some clone)) (poll_new_messages V (us_local_addr sock) clone_err poll_err register_err cycles s' w)))"

section \<open>Properties\<close>

lemma cli_tcp_accept_no_panic: "cli_tcp_on_conn_accepted E c st \<noteq> (Panic m, st')"
  by (auto simp: cli_tcp_on_conn_accepted_def connect_gateway_no_panic sop_bind_def sop_lift_def cli_send_task_def cli_register_def map_err_def
      Let_def split: res.splits prod.splits option.splits sum.splits)

lemma cli_tcp_create_no_panic: "cli_tcp_create_client_conn s \<noteq> Panic m"
  by (auto simp: cli_tcp_create_client_conn_def tcp_conn_new_def clone_std_tcp_stream_def map_err_def split: option.splits sum.splits res.splits)

lemma cli_udp_receive_no_panic: "cli_udp_on_message_received E a p d st \<noteq> (Panic m, st')"
proof -
  have o: "cli_udp_open E k p st \<noteq> (Panic m, st')" for k st st'
    by (auto simp: cli_udp_open_def connect_gateway_no_panic sop_bind_def cli_send_task_def cli_register_def
        split: res.splits prod.splits option.splits)
  have s: "cli_udp_send k p d st \<noteq> (Panic m, st')" for k st st'
    by (auto simp: cli_udp_send_def split: prod.splits option.splits)
  show ?thesis
    by (auto simp: cli_udp_on_message_received_def sop_bind_def o s Let_def split: prod.splits res.splits if_splits)
qed

lemma tcp_accept_returns: "\<exists>r w'. tcp_accept (tcp_client_visitor E) inc s w = Some (r, w') \<and> (\<forall>m. r \<noteq> Panic m)"
proof (cases inc)
  case (Inr x)
  obtain r w' where h: "hand_over (tcp_client_visitor E) (in_stream x) w = (r, w')" by (metis prod.exhaust)
  have "\<forall>m. r \<noteq> Panic m"
    using h cli_tcp_create_no_panic cli_tcp_accept_no_panic
    by (cases w; cases w') (auto simp: hand_over_def tcp_client_visitor_def sop_bind_def split: res.splits)
  with Inr h show ?thesis by (auto simp: tcp_accept_def sop_bind_def sop_lift_def fail_if_def split: option.splits)
qed (simp add: tcp_accept_def)

text \<open>
  C19: the client's listening threads stop when they are told to.  Whatever local connections or datagrams arrive
  before and meanwhile, as long as the poll of the UDP socket reports no error but \<open>WouldBlock\<close>, once the client's
  service manager has asked the visitor to shut down, the thread that listens for the service ends well
  and drops the listener.  For TCP this releases the port.  For UDP it does not: the clone of the socket is
  left to the thread that sends the answers, and that thread never returns, whatever it receives.
\<close>

theorem client_listeners_stop:
  assumes "\<And>st. xv_shutdown_requested (fst (others st))" and "(inc, others) \<in> set tcps" and "(msg, others) \<in> set udps"
    and "us_local_addr sock = Some addr" and "us_clone_err sock = None" and "\<And>e f. (Inl e, f) \<in> set udps \<Longrightarrow> io_kind_of e = KWouldBlock"
  shows "(\<exists>s' st'. tcp_client_proxy_startup E None None tcps (tcp_client_proxy_new port) st = Some (Ok (), s', st') \<and> server_down s') \<and>
    (\<exists>s' st'. udp_client_proxy_startup F sock None None None None None udps (server_new port) st = Some ((Ok (), s', st'), Some sock) \<and> server_down s') \<and>
    (\<forall>received n u. client_bound_message_processor received n u = None)"
proof -
  let ?s = "(server_new port)\<lparr>sr_listener := True, sr_closing := False, sr_closed := False, sr_polling := True\<rparr>"
  have "\<exists>s' st'. poll_cycles (tcp_client_visitor E) (tcp_accept (tcp_client_visitor E)) tcps ?s st = Some (Ok (), s', st') \<and> server_down s'"
    using poll_cycles_ends[where V = "tcp_client_visitor E" and acc = "tcp_accept (tcp_client_visitor E)", OF tcp_accept_returns assms(2)] assms(1)
    by (simp add: tcp_client_visitor_def)
  moreover have "\<exists>s' st'. udp_cycles (udp_client_visitor F) (us_local_addr sock) udps ?s st = Some (Ok (), s', st') \<and> server_down s'"
    using udp_cycles_ends[where V = "udp_client_visitor F", OF _ assms(4,3)] assms(1,6) cli_udp_receive_no_panic
    by (simp add: udp_client_visitor_def)
  moreover have "tcp_client_proxy_startup E None None tcps (tcp_client_proxy_new port) st =
      poll_cycles (tcp_client_visitor E) (tcp_accept (tcp_client_visitor E)) tcps ?s st"
  proof -
    have "on_listening (tcp_client_visitor E) st = (Ok (), st)" by (simp add: tcp_client_visitor_def)
    then show ?thesis
      by (simp add: tcp_client_proxy_startup_def listen_then_def tcp_srv_bind_listener_def bind_listener_def tcp_client_proxy_new_def
          tcp_srv_new_def tcp_server_poll_new_def poll_new_connections_def assert_listening_def Let_def)
  qed
  moreover have "udp_client_proxy_startup F sock None None None None None udps (server_new port) st =
      map_option (\<lambda>r. (r, Some sock)) (udp_cycles (udp_client_visitor F) (us_local_addr sock) udps ?s st)"
  proof -
    have "udp_on_listening (udp_client_visitor F) st = (Ok (), st)" by (simp add: udp_client_visitor_def)
    then show ?thesis using assms(5)
      by (simp add: udp_client_proxy_startup_def udp_bind_listener_def fail_if_def clone_server_socket_def map_err_def
          poll_new_messages_def udp_assert_listening_def Let_def)
  qed
  ultimately show ?thesis using message_processor_never_returns by fastforce
qed

definition demo_udp_socket :: udp_sock where
  "demo_udp_socket = \<lparr>us_local_addr = Some ''[::]:8501'', us_recvs = [], us_sends = [], us_sent = [], us_clone_err = None, us_debug = ''UdpSocket''\<rparr>"

theorem client_listeners_stop_witness:
  "let asked = (\<lambda>st. (cli_set_shutdown_requested (fst st), snd st)) in
   (\<exists>s' st'. tcp_client_proxy_startup (\<lambda>_. demo_connect) None None [(Inl would_block_error, \<lambda>st. st), (Inl would_block_error, asked)]
       (tcp_client_proxy_new 8501) (demo_cli_visitor, demo_cli_shared) = Some (Ok (), s', st') \<and> server_down s') \<and>
   (\<exists>s' st'. udp_client_proxy_startup (\<lambda>_. demo_connect) demo_udp_socket None None None None None [(Inl would_block_error, asked)]
       (server_new 8501) (demo_cli_visitor, demo_cli_shared) = Some ((Ok (), s', st'), Some demo_udp_socket) \<and> server_down s') \<and>
   client_bound_message_processor (\<lambda>_. None) 0 demo_udp_socket = None"
  using client_listeners_stop[of "\<lambda>st. (cli_set_shutdown_requested (fst st), snd st)" "Inl would_block_error"
      "[(Inl would_block_error, \<lambda>st. st), (Inl would_block_error, \<lambda>st. (cli_set_shutdown_requested (fst st), snd st))]"
      "Inl would_block_error" "[(Inl would_block_error, \<lambda>st. (cli_set_shutdown_requested (fst st), snd st))]" demo_udp_socket "''[::]:8501''"
      "\<lambda>_. demo_connect" 8501 "(demo_cli_visitor, demo_cli_shared)" "\<lambda>_. demo_connect"]
  unfolding Let_def by (simp add: demo_udp_socket_def would_block_error_def cli_set_shutdown_requested_def)

text \<open>
  The service manager does not look at the result of the thread that listens for a service: when the bind
  fails, the thread ends and leaves no trace in the gateway's state, and every later start of the
  service is answered with the same port and starts no thread.
\<close>

lemma failed_listener_leaves_no_trace:
  assumes "mgr_startup chk cfg svc mgr = (Ok (host, port), mgr')"
  shows "\<exists>err. tcp_gateway_proxy_startup B L N cfg (sv_service_id svc) fuel (Some e) nonblocking cycles (tcp_gateway_proxy_new port) st =
      Some (Err err, tcp_gateway_proxy_new port, st)"
    and "mgr_startup chk cfg svc mgr' = (Ok (host, port), mgr')"
proof -
  show "mgr_startup chk cfg svc mgr' = (Ok (host, port), mgr')"
    using assms by (auto simp: mgr_startup_def Let_def split: option.splits prod.splits res.splits)
  show "\<exists>err. tcp_gateway_proxy_startup B L N cfg (sv_service_id svc) fuel (Some e) nonblocking cycles (tcp_gateway_proxy_new port) st =
      Some (Err err, tcp_gateway_proxy_new port, st)"
    by (simp add: tcp_gateway_proxy_startup_def listen_then_def bind_listener_def Let_def)
qed

end
