(* ===== verification/T0_Cli_Control.thy ===== *)
theory T0_Cli_Control
  imports T0_Cli_Manager T0_Response
begin

text \<open>
  The interactive side of the client: \<open>crates/client/src/console.rs\<close> (the shell's output and input),
  \<open>gateway/controller.rs\<close> (validation of commands and processing of the gateway's answers) and
  \<open>gateway/connection.rs\<close> (the handlers of the control connection).
\<close>

section \<open>Console\<close>

definition SHELL_MSG_APP_TITLE :: string where "SHELL_MSG_APP_TITLE = ''Trust0 SDP Platform''"
definition SHELL_MSG_APP_VERSION :: string where "SHELL_MSG_APP_VERSION = ''0.2.0-alpha''"
definition SHELL_MSG_APP_HELP :: string where "SHELL_MSG_APP_HELP = ''(enter '' @ [CHR 0x27] @ ''help'' @ [CHR 0x27] @ '' for commands)''"
definition SHELL_PROMPT :: string where "SHELL_PROMPT = ''> ''"

text \<open>
  The output, with the answers of the calls to come: \<open>None\<close> or the end of the list for success, an
  error with the number of characters that went out before it otherwise.
\<close>

record shell_writer =
  sw_out :: string
  sw_answers :: "(dyn_error \<times> nat) option list"

definition sw_write_all :: "string \<Rightarrow> shell_writer \<Rightarrow> (dyn_error + unit) \<times> shell_writer" where
  "sw_write_all txt w =
     (case sw_answers w of
        Some (e, n) # r \<Rightarrow> (Inl e, w\<lparr>sw_answers := r, sw_out := sw_out w @ take n txt\<rparr>)
      | None # r \<Rightarrow> (Inr (), w\<lparr>sw_answers := r, sw_out := sw_out w @ txt\<rparr>)
      | [] \<Rightarrow> (Inr (), w\<lparr>sw_out := sw_out w @ txt\<rparr>))"

definition sw_flush :: "shell_writer \<Rightarrow> (dyn_error + unit) \<times> shell_writer" where
  "sw_flush w = sw_write_all [] w"

definition sw_try :: "string \<Rightarrow> (dyn_error + unit) \<times> shell_writer \<Rightarrow> unit res \<times> shell_writer" where
  "sw_try msg rw = (case rw of (r, w) \<Rightarrow> (map_err (GenWithMsgAndErr msg) r, w))"

definition write_shell_prompt :: "bool \<Rightarrow> (shell_writer, unit) sop" where
  "write_shell_prompt include_welcome =
     sop_bind (\<lambda>w. if include_welcome
         then sw_try ''Error writing welcome msg'' (sw_write_all (SHELL_MSG_APP_TITLE @ '' v'' @ SHELL_MSG_APP_VERSION @ '' '' @
                SHELL_MSG_APP_HELP @ [CHR 0x0A]) w)
         else (Ok (), w))
       (\<lambda>_. sop_bind (\<lambda>w. sw_try ''Error writing prompt'' (sw_write_all SHELL_PROMPT w))
       (\<lambda>_ w. sw_try ''Error flushing STDOUT'' (sw_flush w)))"

text \<open>The input: the lines the reader thread has queued, or the errors it met.\<close>

record shell_input =
  si_channel :: "(dyn_error + string) chan"
  si_sender_alive :: bool

definition shell_input_new :: shell_input where
  "shell_input_new = \<lparr>si_channel = new_chan, si_sender_alive = True\<rparr>"

fun lines_connector_processor :: "(dyn_error + string) list \<Rightarrow> (dyn_error + string) chan \<Rightarrow> (dyn_error + string) chan" where
  "lines_connector_processor [] ch = ch"
| "lines_connector_processor (line # lines) ch =
     (case chan_send line ch of None \<Rightarrow> ch | Some ch' \<Rightarrow> lines_connector_processor lines ch')"

definition next_line :: "(shell_input, string option) sop" where
  "next_line inp =
     (case queue (si_channel inp) of
        Inr line # rest \<Rightarrow> (Ok (Some (line @ [CHR 0x0A])), inp\<lparr>si_channel := (si_channel inp)\<lparr>queue := rest\<rparr>\<rparr>)
      | Inl e # rest \<Rightarrow> (Err (GenWithMsgAndErr ''Error processing input'' e), inp\<lparr>si_channel := (si_channel inp)\<lparr>queue := rest\<rparr>\<rparr>)
      | [] \<Rightarrow> (if si_sender_alive inp then (Ok None, inp) else (Err (General ''Input channel sender disconnected''), inp)))"

section \<open>Responses of the gateway\<close>

text \<open>The local port of each proxy that this client has started is filled in.\<close>

definition with_client_port :: "cli_mgr \<Rightarrow> resp_proxy \<Rightarrow> resp_proxy" where
  "with_client_port mgr p =
     (case get_proxy_addrs_for_service mgr (rs_id (rp_service p)) of
        Some (client_port, _, _) \<Rightarrow> p\<lparr>rp_client_port := Some client_port\<rparr>
      | None \<Rightarrow> p)"

definition process_response_proxies :: "'v serde \<Rightarrow> cli_mgr \<Rightarrow> 'v response \<Rightarrow> 'v response res" where
  "process_response_proxies S mgr resp =
     and_then (unwrap_opt (rsp_data resp)) (\<lambda>data.
     and_then (proxies_from_value S data) (\<lambda>proxies.
     and_then (map_err (GenWithMsgAndErr ''Failed converting Proxies vector to serde Value::Array'')
       (to_value_proxies S (map (with_client_port mgr) proxies))) (\<lambda>v.
     Ok (resp\<lparr>rsp_data := Some v\<rparr>))))"

definition process_response_start :: "'v serde \<Rightarrow> 'v response \<Rightarrow> (cli_mgr, unit) sop" where
  "process_response_start S resp mgr =
     (case and_then (unwrap_opt (rsp_data resp)) (proxies_from_value S) of
        Err e \<Rightarrow> (Err e, mgr)
      | Panic m \<Rightarrow> (Panic m, mgr)
      | Ok proxies \<Rightarrow>
          (case (case proxies of [] \<Rightarrow> unwrap_opt None | p # _ \<Rightarrow>
                   and_then (unwrap_opt (rp_client_port p)) (\<lambda>client_port.
                   and_then (unwrap_opt (rp_gateway_host p)) (\<lambda>host.
                   Ok (service_from_response (rp_service p), client_port, host, rp_gateway_port p)))) of
             Err e \<Rightarrow> (Err e, mgr)
           | Panic m \<Rightarrow> (Panic m, mgr)
           | Ok (svc, addrs) \<Rightarrow>
               (case cli_startup svc addrs mgr of
                  (Ok _, mgr') \<Rightarrow> (Ok (), mgr') | (Err e, mgr') \<Rightarrow> (Err e, mgr') | (Panic m, mgr') \<Rightarrow> (Panic m, mgr'))))"

definition process_response_quit :: "(cli_mgr, unit) sop" where
  "process_response_quit mgr = cli_shutdown mgr"

definition validate_request :: "cli_lib \<Rightarrow> string \<Rightarrow> request res" where
  "validate_request C command_line =
     (case parse_request C command_line of Ok ReqNone \<Rightarrow> Ok ReqNone | Err e \<Rightarrow> Err e | Ok r \<Rightarrow> Ok r | Panic m \<Rightarrow> Panic m)"

type_synonym cli_world = "shell_writer \<times> cli_mgr"

text \<open>What an answer with code 200 does to the service manager and to the answer that is shown.\<close>

definition apply_response :: "'v serde \<Rightarrow> 'v response \<Rightarrow> (cli_mgr, 'v response) sop" where
  "apply_response S resp mgr =
     (if rsp_code resp \<noteq> CODE_OK then (Ok resp, mgr)
      else case rsp_request resp of
        ReqProxies \<Rightarrow> (process_response_proxies S mgr resp, mgr)
      | ReqStart _ _ \<Rightarrow> sop_bind (process_response_start S resp) (\<lambda>_. sop_lift (Ok resp)) mgr
      | ReqQuit \<Rightarrow> sop_bind process_response_quit (\<lambda>_. sop_lift (Ok resp)) mgr
      | _ \<Rightarrow> (Ok resp, mgr))"

definition process_response :: "'v serde \<Rightarrow> string \<Rightarrow> (cli_world, 'v response) sop" where
  "process_response S response_line st =
     (case st of (out, mgr) \<Rightarrow>
      case parse_response S response_line of
        Err e \<Rightarrow> (Err e, out, mgr)
      | Panic m \<Rightarrow> (Panic m, out, mgr)
      | Ok resp0 \<Rightarrow>
          (case apply_response S resp0 mgr of
             (Err e, mgr') \<Rightarrow> (Err e, out, mgr')
           | (Panic m, mgr') \<Rightarrow> (Panic m, out, mgr')
           | (Ok resp, mgr') \<Rightarrow>
               (case map_err (GenWithMsgAndErr ''error serializing response'') (response_to_string_pretty S resp) of
                  Err e \<Rightarrow> (Err e, out, mgr')
                | Panic m \<Rightarrow> (Panic m, out, mgr')
                | Ok txt \<Rightarrow>
                    (case sw_try ''Error writing response to STDOUT'' (sw_write_all (txt @ [CHR 0x0A]) out) of
                       (Ok _, out') \<Rightarrow> (Ok resp, out', mgr')
                     | (Err e, out') \<Rightarrow> (Err e, out', mgr')
                     | (Panic m, out') \<Rightarrow> (Panic m, out', mgr')))))"

section \<open>The handlers of the control connection\<close>

record srv_visitor =
  sx_stdin_connector :: "shell_input option"
  sx_event_channel_sender :: bool

definition srv_visitor_new :: srv_visitor where
  "srv_visitor_new = \<lparr>sx_stdin_connector = None, sx_event_channel_sender = False\<rparr>"

definition on_out :: "(shell_writer, 'a) sop \<Rightarrow> ((srv_visitor, cli_world) vstate, 'a) sop" where
  "on_out f st = (case st of (v, ch, out, mgr) \<Rightarrow> case f out of (r, out') \<Rightarrow> (r, v, ch, out', mgr))"

definition srv_on_connected :: "((srv_visitor, cli_world) vstate, unit) sop" where
  "srv_on_connected = sop_bind (on_out (write_shell_prompt True))
     (\<lambda>_ (v, ch, w). (Ok (), v\<lparr>sx_stdin_connector := Some shell_input_new\<rparr>, ch, w))"

definition srv_set_event_channel_sender :: "((srv_visitor, cli_world) vstate, unit) sop" where
  "srv_set_event_channel_sender st = (case st of (v, ch, w) \<Rightarrow> (Ok (), v\<lparr>sx_event_channel_sender := True\<rparr>, ch, w))"

fun process_lines :: "'v serde \<Rightarrow> string list \<Rightarrow> (cli_world, unit) sop" where
  "process_lines S [] st = (Ok (), st)"
| "process_lines S (line # lines) st = sop_bind (process_response S line) (\<lambda>_. process_lines S lines) st"

definition srv_on_connection_read :: "'v serde \<Rightarrow> bytes \<Rightarrow> ((srv_visitor, cli_world) vstate, unit) sop" where
  "srv_on_connection_read S data st =
     (case map_err (GenWithMsgAndErr ''Error converting gateway response data as UTF8'') (from_utf8 data) of
        Err e \<Rightarrow> (Err e, st)
      | Panic m \<Rightarrow> (Panic m, st)
      | Ok txt \<Rightarrow>
          sop_bind (\<lambda>(v, ch, w). case process_lines S (lines_of txt) w of (r, w') \<Rightarrow> (r, v, ch, w'))
            (\<lambda>_. on_out (write_shell_prompt False)) st)"

definition srv_send_command :: "string \<Rightarrow> ((srv_visitor, cli_world) vstate, unit) sop" where
  "srv_send_command line st =
     (case st of (v, ch, w) \<Rightarrow>
      if \<not> sx_event_channel_sender v then (Panic ''called `Option::unwrap()` on a `None` value'', v, ch, w)
      else case chan_send (Write (bytes_of_text line)) ch of
        Some ch' \<Rightarrow> (Ok (), v, ch', w)
      | None \<Rightarrow> (Err (GenWithMsgAndErr ''Error sending write event'' send_error), v,
                  (case chan_send Closing ch of Some ch' \<Rightarrow> ch' | None \<Rightarrow> ch), w))"

definition srv_on_polling_cycle :: "cli_lib \<Rightarrow> ((srv_visitor, cli_world) vstate, unit) sop" where
  "srv_on_polling_cycle C st =
     (case st of (v, ch, w) \<Rightarrow>
      case sx_stdin_connector v of
        None \<Rightarrow> (Panic ''called `Option::unwrap()` on a `None` value'', v, ch, w)
      | Some inp \<Rightarrow>
          (case next_line inp of (r, inp') \<Rightarrow>
             (let v' = v\<lparr>sx_stdin_connector := Some inp'\<rparr> in
              case r of
                Err e \<Rightarrow> (Err e, v', ch, w)
              | Panic m \<Rightarrow> (Panic m, v', ch, w)
              | Ok None \<Rightarrow> (Ok (), v', ch, w)
              | Ok (Some line) \<Rightarrow>
                  (case validate_request C line of
                     Ok ReqNone \<Rightarrow> on_out (write_shell_prompt False) (v', ch, w)
                   | Err err \<Rightarrow>
                       sop_bind (on_out (\<lambda>out. sw_try ''Error writing invalid command response to STDOUT''
                           (sw_write_all (err_to_string err @ [CHR 0x0A]) out)))
                         (\<lambda>_. on_out (write_shell_prompt False)) (v', ch, w)
                   | Panic m \<Rightarrow> (Panic m, v', ch, w)
                   | Ok _ \<Rightarrow> srv_send_command line (v', ch, w)))))"

definition server_conn_visitor :: "'v serde \<Rightarrow> cli_lib \<Rightarrow> (srv_visitor, cli_world) conn_visitor" where
  "server_conn_visitor S C = \<lparr>set_event_channel_sender = srv_set_event_channel_sender, on_connected = srv_on_connected,
     on_connection_read = srv_on_connection_read S, on_polling_cycle = srv_on_polling_cycle C, on_shutdown = default_handler,
     send_error_response = (\<lambda>_. default_handler)\<rparr>"

end
