(* ===== verification/T0_Client.thy ===== *)
theory T0_Client
  imports T0_Cli_Control
begin

text \<open>
  \<open>crates/client/src/client.rs\<close> and \<open>lib.rs\<close>: the client process.  It connects to the gateway's control
  plane, polls that connection until it is closed, and then shuts its service proxies down.
\<close>

record cli_config =
  cc_gateway_host :: string
  cc_gateway_port :: u16

type_synonym srv_conn = "(srv_visitor, tls_stream) conn"

definition client_new :: "cli_config \<Rightarrow> srv_conn tls_client" where
  "client_new cfg = tls_client_new [bytes_of_text (protocol_to_string ControlPlane)] (cc_gateway_host cfg) (cc_gateway_port cfg)"

definition create_control_conn :: "'v serde \<Rightarrow> cli_lib \<Rightarrow> tls_stream \<Rightarrow> (cli_world, srv_conn) sop" where
  "create_control_conn S C = tls_client_conn_new (server_conn_visitor S C) srv_visitor_new"

definition control_client_visitor :: "'v serde \<Rightarrow> cli_lib \<Rightarrow> (srv_conn, cli_world) tls_client_visitor" where
  "control_client_visitor S C = \<lparr>create_server_conn = create_control_conn S C, on_session_connected = (\<lambda>w. (Ok (), w))\<rparr>"

type_synonym client_state = "srv_conn tls_client \<times> cli_world"

definition client_connect :: "connect_env \<Rightarrow> 'v serde \<Rightarrow> cli_lib \<Rightarrow> (client_state, unit) sop" where
  "client_connect E S C = tls_client_connect E (control_client_visitor S C)"

definition client_poll_connection :: "'v serde \<Rightarrow> cli_lib \<Rightarrow> nat \<Rightarrow> nat \<Rightarrow> client_state \<Rightarrow> (unit res \<times> client_state) option" where
  "client_poll_connection S C = tls_client_poll_connection (server_conn_visitor S C)"

section \<open>The main processor\<close>

definition cli_main_new :: "cli_config \<Rightarrow> client_state" where
  "cli_main_new cfg = (client_new cfg, \<lparr>sw_out = [], sw_answers = []\<rparr>, cli_mgr_new new_chan)"

definition cli_shutdown_function :: "client_state \<Rightarrow> unit res \<times> client_state" where
  "cli_shutdown_function st =
     (case st of (cl, out, mgr) \<Rightarrow>
      case cli_shutdown mgr of (Panic m, mgr') \<Rightarrow> (Panic m, cl, out, mgr') | (_, mgr') \<Rightarrow> (Ok (), cl, out, mgr'))"

definition cli_main_stop :: "(client_state, unit) sop" where
  "cli_main_stop st = (case st of (cl, out, mgr) \<Rightarrow> case cli_shutdown mgr of (r, mgr') \<Rightarrow> (r, cl, out, mgr'))"

text \<open>\<open>start\<close>; \<open>None\<close> when the connection is still being polled after \<open>n\<close> cycles.\<close>

definition cli_main_start ::
  "connect_env \<Rightarrow> 'v serde \<Rightarrow> cli_lib \<Rightarrow> nat \<Rightarrow> nat \<Rightarrow> client_state \<Rightarrow> (unit res \<times> client_state) option" where
  "cli_main_start E S C fuel n st =
     (case client_connect E S C st of
        (Err e, st') \<Rightarrow> Some (Err e, st')
      | (Panic m, st') \<Rightarrow> Some (Panic m, st')
      | (Ok _, st1) \<Rightarrow>
          (case client_poll_connection S C fuel n st1 of
             None \<Rightarrow> None
           | Some (Err e, st') \<Rightarrow> Some (Err e, st')
           | Some (Panic m, st') \<Rightarrow> Some (Panic m, st')
           | Some (Ok _, st') \<Rightarrow> Some (cli_main_stop st')))"

section \<open>Lemmas\<close>

lemma validate_request_eq: "validate_request C line = parse_request C line"
  by (auto simp: validate_request_def split: res.splits request.splits)

lemma write_prompt_ok:
  assumes "sw_answers out = []"
  shows "write_shell_prompt False out = (Ok (), out\<lparr>sw_out := sw_out out @ SHELL_PROMPT\<rparr>)"
  using assms by (simp add: write_shell_prompt_def sop_bind_def sw_try_def sw_write_all_def sw_flush_def)

text \<open>A response line of the gateway, from its bytes to its effect.\<close>

lemma process_response_ok:
  assumes "response_from_str S txt = Inr resp" and "apply_response S resp mgr = (Ok resp', mgr')"
    and "response_to_string_pretty S resp' = Inr shown" and "sw_answers out = []"
  shows "process_response S txt (out, mgr) = (Ok resp', out\<lparr>sw_out := sw_out out @ shown @ [CHR 0x0A]\<rparr>, mgr')"
  using assms by (simp add: process_response_def parse_response_def sw_try_def sw_write_all_def)

lemma srv_read_line:
  assumes "from_utf8 (bytes_of_text (txt @ [CHR 0x0A])) = Inr (txt @ [CHR 0x0A])"
    and "CHR 0x0A \<notin> set txt" and "CHR 0x0D \<notin> set txt"
    and "process_response S txt (out, mgr) = (Ok resp, out', mgr')" and "sw_answers out' = []"
  shows "srv_on_connection_read S (bytes_of_text (txt @ [CHR 0x0A])) (v, ch, out, mgr) =
    (Ok (), v, ch, out'\<lparr>sw_out := sw_out out' @ SHELL_PROMPT\<rparr>, mgr')"
  using assms lines_of_one[OF assms(2,3)]
  by (simp add: srv_on_connection_read_def sop_bind_def on_out_def write_prompt_ok)

text \<open>The commands that reach the gateway are those the client's own parser accepts.\<close>

lemma polling_cycle_sends:
  assumes "srv_on_polling_cycle C (v, ch, w) = (r, v', ch', w')" and "receiver_alive ch"
  shows "queue ch' = queue ch \<or> (\<exists>line req. parse_request C line = Ok req \<and> req \<noteq> ReqNone \<and>
    queue ch' = queue ch @ [Write (bytes_of_text line)])"
proof -
  have out: "on_out f (a, ch, b) = (r, v', ch', w') \<Longrightarrow> ch' = ch" for f :: "(shell_writer, unit) sop" and a b
    by (auto simp: on_out_def split: prod.splits)
  have out2: "sop_bind (on_out f) (\<lambda>_. on_out g) (a, ch, b) = (r, v', ch', w') \<Longrightarrow> ch' = ch"
    for f g :: "(shell_writer, unit) sop" and a b
    by (auto simp: sop_bind_def on_out_def split: prod.splits res.splits)
  have send: "srv_send_command line (a, ch, b) = (r, v', ch', w') \<Longrightarrow>
      queue ch' = queue ch \<or> queue ch' = queue ch @ [Write (bytes_of_text line)]" for line a b
    using assms(2) by (auto simp: srv_send_command_def chan_send_def split: if_splits)
  from assms(1) show ?thesis
    by (auto simp: srv_on_polling_cycle_def Let_def validate_request_eq split: option.splits prod.splits res.splits request.splits
        dest!: out out2 send)
qed

end
