(* ===== verification/T0_Tls_Config.thy ===== *)
theory T0_Tls_Config
  imports T0_Config T0_Crypto T0_Client
begin

text \<open>
  The TLS parts of \<open>crates/gateway/src/config.rs\<close> and \<open>crates/client/src/config.rs\<close>: loading the certificates, keys and
  the revocation list, the gateway's \<open>TlsServerConfigBuilder\<close>, which makes a server configuration for every handshake,
  and the client's configuration.  What \<open>rustls\<close> says of the material it is given is a parameter, and so is the set of
  its cipher suites; a configuration is the record of what was handed to it.  The flag \<open>crl\<close> is the build's feature
  \<open>experimental-crl\<close>.
\<close>

record 's rustls =
  rl_all_suites :: "'s list"
  rl_all_versions :: "tls_version list"
  rl_root_add :: "bytes list \<Rightarrow> bytes \<Rightarrow> dyn_error option"
  rl_versions :: "'s list \<Rightarrow> tls_version list \<Rightarrow> dyn_error option"
  rl_client_verifier :: "bytes list \<Rightarrow> bytes list \<Rightarrow> dyn_error option"
  rl_own_cert :: "bytes list \<Rightarrow> bytes \<Rightarrow> dyn_error option"

definition unwrap_res :: "'a res \<Rightarrow> 'a res" where
  "unwrap_res r =
     (case r of Err e \<Rightarrow> Panic (''called `Result::unwrap()` on an `Err` value: '' @ err_debug e) | Ok x \<Rightarrow> Ok x | Panic m \<Rightarrow> Panic m)"

definition expect :: "string \<Rightarrow> dyn_error option \<Rightarrow> unit res" where
  "expect msg r = (case r of Some e \<Rightarrow> Panic (msg @ '': '' @ debug_of e) | None \<Rightarrow> Ok ())"

fun add_roots :: "'s rustls \<Rightarrow> bytes list \<Rightarrow> bytes list \<Rightarrow> dyn_error + bytes list" where
  "add_roots R store [] = Inr store"
| "add_roots R store (cert # certs) =
     (case rl_root_add R store cert of Some e \<Rightarrow> Inl e | None \<Rightarrow> add_roots R (store @ [cert]) certs)"

section \<open>The gateway\<close>

record 's tls_args =
  ta_cert_file :: string
  ta_key_file :: string
  ta_auth_cert_file :: string
  ta_crl_file :: "string option"
  ta_protocol_version :: "tls_version list option"
  ta_cipher_suite :: "'s list option"
  ta_session_resumption :: bool

record 's tls_builder =
  tb_certs :: "bytes list"
  tb_key :: bytes
  tb_cipher_suites :: "'s list"
  tb_protocol_versions :: "tls_version list"
  tb_auth_root_certs :: "bytes list"
  tb_crl_file :: "crl_file option"
  tb_session_resumption :: bool
  tb_alpn_protocols :: "bytes list"

record 's server_tls =
  sc_cipher_suites :: "'s list"
  sc_protocol_versions :: "tls_version list"
  sc_client_roots :: "bytes list"
  sc_client_crls :: "bytes list"
  sc_certs :: "bytes list"
  sc_key :: bytes
  sc_session_cache :: "nat option"
  sc_alpn_protocols :: "bytes list"

text \<open>\<open>build_client_cert_verifier\<close>, in both builds: the roots and the revocation lists a client certificate is checked with.\<close>

definition build_client_cert_verifier :: "bool \<Rightarrow> file_env \<Rightarrow> 's rustls \<Rightarrow> ('s tls_builder \<times> crl_cells, bytes list \<times> bytes list) sop" where
  "build_client_cert_verifier crl F R st =
     (case st of (b, cells) \<Rightarrow>
      case (if crl then
              (case tb_crl_file b of
                 Some f \<Rightarrow>
                   (case crl_list F (f, cells) of
                      (Ok l, f', cells') \<Rightarrow> (Ok [l], b\<lparr>tb_crl_file := Some f'\<rparr>, cells')
                    | (Err e, f', cells') \<Rightarrow> (Err e, b\<lparr>tb_crl_file := Some f'\<rparr>, cells')
                    | (Panic m, f', cells') \<Rightarrow> (Panic m, b\<lparr>tb_crl_file := Some f'\<rparr>, cells'))
               | None \<Rightarrow> (Ok [], b, cells))
            else (Ok [], b, cells)) of
        (Ok crls, st') \<Rightarrow>
          (case rl_client_verifier R (tb_auth_root_certs b) crls of
             Some e \<Rightarrow> (Panic (''called `Result::unwrap()` on an `Err` value: '' @ debug_of e), st')
           | None \<Rightarrow> (Ok (tb_auth_root_certs b, crls), st'))
      | (Err e, st') \<Rightarrow> (Err e, st')
      | (Panic m, st') \<Rightarrow> (Panic m, st'))"

text \<open>\<open>build\<close>, which the gateway's visitors call in \<open>on_tls_handshaking\<close>.\<close>

definition tls_build :: "bool \<Rightarrow> file_env \<Rightarrow> 's rustls \<Rightarrow> ('s tls_builder \<times> crl_cells, 's server_tls) sop" where
  "tls_build crl F R st =
     sop_bind (sop_lift (expect ''inconsistent cipher-suites/versions specified''
         (rl_versions R (tb_cipher_suites (fst st)) (tb_protocol_versions (fst st)))))
       (\<lambda>_. sop_bind (build_client_cert_verifier crl F R)
       (\<lambda>(roots, crls) (b, cells).
         sop_bind (sop_lift (expect ''bad certificates/private key'' (rl_own_cert R (tb_certs b) (tb_key b))))
           (\<lambda>_. sop_lift (Ok \<lparr>sc_cipher_suites = tb_cipher_suites b, sc_protocol_versions = tb_protocol_versions b,
               sc_client_roots = roots, sc_client_crls = crls, sc_certs = tb_certs b, sc_key = tb_key b,
               sc_session_cache = (if tb_session_resumption b then Some 256 else None),
               sc_alpn_protocols = tb_alpn_protocols b\<rparr>)) (b, cells))) st"

text \<open>\<open>AppConfig::new\<close>, after the command line has been parsed.\<close>

definition load_tls_material :: "file_env \<Rightarrow> 's tls_args \<Rightarrow> (bytes list \<times> bytes list \<times> bytes) res" where
  "load_tls_material F ta =
     and_then (unwrap_res (load_certificates F (ta_auth_cert_file ta))) (\<lambda>auth_certs.
     and_then (unwrap_res (load_certificates F (ta_cert_file ta))) (\<lambda>certs.
     and_then (unwrap_res (load_private_key F (ta_key_file ta))) (\<lambda>key.
     Ok (auth_certs, certs, key))))"

definition open_crl_file :: "bool \<Rightarrow> string option \<Rightarrow> (crl_cells, crl_file option) sop" where
  "open_crl_file crl path cells =
     (if crl then
        (case path of Some p \<Rightarrow> (case crl_file_new p cells of (f, cells') \<Rightarrow> (Ok (Some f), cells')) | None \<Rightarrow> (Ok None, cells))
      else (Ok None, cells))"

definition root_store :: "'s rustls \<Rightarrow> bytes list \<Rightarrow> bytes list res" where
  "root_store R certs =
     (case add_roots R [] certs of
        Inl e \<Rightarrow> Panic (''called `Result::unwrap()` on an `Err` value: '' @ debug_of e)
      | Inr roots \<Rightarrow> Ok roots)"

definition gateway_config_new ::
  "bool \<Rightarrow> db_env \<Rightarrow> file_env \<Rightarrow> 's rustls \<Rightarrow> dyn_error + unit \<Rightarrow> config_args \<Rightarrow> 's tls_args \<Rightarrow>
   (crl_cells, app_config \<times> 's tls_builder) sop" where
  "gateway_config_new crl E F R dns args ta =
     sop_bind (sop_lift (create_datasource_repositories E (ca_datasource args) repository_factories)) (\<lambda>repos.
     sop_bind (sop_lift (load_tls_material F ta)) (\<lambda>m.
     sop_bind (open_crl_file crl (ta_crl_file ta)) (\<lambda>crl_file.
     sop_bind (sop_lift (root_store R (fst m))) (\<lambda>auth_roots.
     sop_bind (sop_lift (server_alpn_protocols (fst (snd repos)))) (\<lambda>alpns.
     sop_bind (sop_lift (map_err (GenWithMsgAndErr ''Error instantiating DNSClient'') dns)) (\<lambda>_.
     sop_lift (Ok (assemble_app_config args repos alpns,
       \<lparr>tb_certs = fst (snd m), tb_key = snd (snd m),
        tb_cipher_suites = (case ta_cipher_suite ta of Some s \<Rightarrow> s | None \<Rightarrow> rl_all_suites R),
        tb_protocol_versions = (case ta_protocol_version ta of Some v \<Rightarrow> v | None \<Rightarrow> rl_all_versions R),
        tb_auth_root_certs = auth_roots, tb_crl_file = crl_file,
        tb_session_resumption = ta_session_resumption ta, tb_alpn_protocols = alpns\<rparr>))))))))"

section \<open>The client\<close>

record 's cli_args =
  la_gateway_host :: string
  la_gateway_port :: u16
  la_auth_key_file :: string
  la_auth_cert_file :: string
  la_ca_root_cert_file :: string
  la_protocol_version :: "tls_version list option"
  la_cipher_suite :: "'s list option"
  la_max_frag_size :: "nat option"
  la_session_resumption :: bool
  la_no_tickets :: bool
  la_no_sni :: bool
  la_insecure :: bool
  la_verbose :: bool

record 's client_tls =
  kc_cipher_suites :: "'s list"
  kc_protocol_versions :: "tls_version list"
  kc_roots :: "bytes list"
  kc_certs :: "bytes list"
  kc_key :: bytes
  kc_tickets :: bool
  kc_enable_sni :: bool
  kc_alpn_protocols :: "bytes list"
  kc_max_fragment_size :: "nat option"
  kc_verifies_server :: bool

text \<open>\<open>AppConfig\<close>: what the rest of the client reads, the TLS configuration and the logging flag.\<close>

record 's cli_app_config = cli_config +
  kf_tls_client_config :: "'s client_tls"
  kf_verbose_logging :: bool

definition client_config_new :: "file_env \<Rightarrow> 's rustls \<Rightarrow> 's cli_args \<Rightarrow> 's cli_app_config res" where
  "client_config_new F R args =
     and_then (load_certificates F (la_auth_cert_file args)) (\<lambda>auth_certs.
     and_then (load_certificates F (la_ca_root_cert_file args)) (\<lambda>ca_root_certs.
     and_then (map_err (GenWithMsgAndErr ''Error adding CA root cert'') (add_roots R [] ca_root_certs)) (\<lambda>roots.
     and_then (unwrap_res (load_private_key F (la_auth_key_file args))) (\<lambda>auth_key.
     let suites = (case la_cipher_suite args of Some s \<Rightarrow> s | None \<Rightarrow> rl_all_suites R);
         versions = (case la_protocol_version args of Some v \<Rightarrow> v | None \<Rightarrow> rl_all_versions R) in
     and_then (expect ''Inconsistent cipher-suite/versions selected'' (rl_versions R suites versions)) (\<lambda>_.
     and_then (expect ''Invalid client auth certs/key'' (rl_own_cert R auth_certs auth_key)) (\<lambda>_.
     Ok \<lparr>cc_gateway_host = la_gateway_host args, cc_gateway_port = la_gateway_port args,
         kf_tls_client_config =
           \<lparr>kc_cipher_suites = suites, kc_protocol_versions = versions, kc_roots = roots, kc_certs = auth_certs, kc_key = auth_key,
            kc_tickets = (\<not> la_no_tickets args), kc_enable_sni = (\<not> la_no_sni args), kc_alpn_protocols = [],
            kc_max_fragment_size = la_max_frag_size args, kc_verifies_server = (\<not> la_insecure args)\<rparr>,
         kf_verbose_logging = la_verbose args\<rparr>))))))"

text \<open>
  How the client checks the gateway's certificate: with the verifier of \<open>rustls\<close> for its root certificates, or, with the option
  \<open>--insecure\<close>, with the module \<open>danger\<close>, which takes every certificate and leaves the signatures to \<open>rustls\<close>.
  The library's verifier and its checks of signatures are parameters.
\<close>

record server_cert_verifier =
  verify_server_cert :: "bytes \<Rightarrow> bytes list \<Rightarrow> string \<Rightarrow> bytes \<Rightarrow> nat \<Rightarrow> dyn_error option"
  verify_tls12_signature :: "bytes \<Rightarrow> bytes \<Rightarrow> bytes \<Rightarrow> dyn_error option"
  verify_tls13_signature :: "bytes \<Rightarrow> bytes \<Rightarrow> bytes \<Rightarrow> dyn_error option"
  supported_verify_schemes :: "string list"

record verify_lib =
  vl_default :: "bytes list \<Rightarrow> server_cert_verifier"
  vl_tls12_signature :: "bytes \<Rightarrow> bytes \<Rightarrow> bytes \<Rightarrow> dyn_error option"
  vl_tls13_signature :: "bytes \<Rightarrow> bytes \<Rightarrow> bytes \<Rightarrow> dyn_error option"
  vl_schemes :: "string list"

definition no_certificate_verification :: "verify_lib \<Rightarrow> server_cert_verifier" where
  "no_certificate_verification V =
     \<lparr>verify_server_cert = (\<lambda>end_entity intermediates server_name ocsp now. None),
      verify_tls12_signature = (\<lambda>message cert dss. vl_tls12_signature V message cert dss),
      verify_tls13_signature = (\<lambda>message cert dss. vl_tls13_signature V message cert dss),
      supported_verify_schemes = vl_schemes V\<rparr>"

definition certificate_verifier :: "verify_lib \<Rightarrow> 's client_tls \<Rightarrow> server_cert_verifier" where
  "certificate_verifier V tls = (if kc_verifies_server tls then vl_default V (kc_roots tls) else no_certificate_verification V)"

section \<open>Lemmas\<close>

lemma sop_lift_Ok [simp]: "sop_lift r s = (Ok x, s') \<longleftrightarrow> r = Ok x \<and> s' = s"
  by (auto simp: sop_lift_def)

lemma unwrap_res_Ok [simp]: "unwrap_res r = Ok x \<longleftrightarrow> r = Ok x"
  by (cases r) (simp_all add: unwrap_res_def)

lemma expect_Ok [simp]: "expect msg r = Ok x \<longleftrightarrow> r = None"
  by (cases r) (simp_all add: expect_def)

lemma add_roots_Inr: "add_roots R store certs = Inr roots \<Longrightarrow> roots = store @ certs"
  by (induction R store certs rule: add_roots.induct) (auto split: option.splits)

lemma root_store_Ok: "root_store R certs = Ok roots \<Longrightarrow> roots = certs"
  using add_roots_Inr[of R "[]" certs roots] by (simp add: root_store_def split: sum.splits)

lemma load_tls_material_Ok:
  "load_tls_material F ta = Ok m \<longleftrightarrow>
     load_certificates F (ta_auth_cert_file ta) = Ok (fst m) \<and> load_certificates F (ta_cert_file ta) = Ok (fst (snd m)) \<and>
     load_private_key F (ta_key_file ta) = Ok (snd (snd m))"
  by (cases m) (auto simp: load_tls_material_def res_simps)

lemma gateway_config_new_Ok:
  assumes "gateway_config_new crl E F R dns args ta cells = (Ok (cfg, b), cells')"
  shows "new_app_config E args = Ok cfg \<and> load_certificates F (ta_auth_cert_file ta) = Ok (tb_auth_root_certs b) \<and>
    load_certificates F (ta_cert_file ta) = Ok (tb_certs b) \<and> load_private_key F (ta_key_file ta) = Ok (tb_key b) \<and>
    tb_alpn_protocols b = cfg_alpn_protocols cfg \<and> open_crl_file crl (ta_crl_file ta) cells = (Ok (tb_crl_file b), cells')"
proof -
  from assms[unfolded gateway_config_new_def sop_bind_Ok sop_lift_Ok] obtain repos m roots alpns where
    s: "create_datasource_repositories E (ca_datasource args) repository_factories = Ok repos"
      "load_tls_material F ta = Ok m" "root_store R (fst m) = Ok roots" "server_alpn_protocols (fst (snd repos)) = Ok alpns"
    and c: "cfg = assemble_app_config args repos alpns"
    and b: "tb_certs b = fst (snd m)" "tb_key b = snd (snd m)" "tb_auth_root_certs b = roots" "tb_alpn_protocols b = alpns"
      "open_crl_file crl (ta_crl_file ta) cells = (Ok (tb_crl_file b), cells')"
    by (auto simp del: assemble_app_config_def)
  have "roots = fst m" using root_store_Ok[OF s(3)] .
  moreover have "cfg_alpn_protocols cfg = alpns" by (cases repos) (simp add: c)
  moreover have "new_app_config E args = Ok cfg" using s by (simp add: new_app_config_def c del: assemble_app_config_def)
  ultimately show ?thesis using s(2) b by (simp add: load_tls_material_Ok)
qed

lemma tls_build_Ok:
  assumes "tls_build crl F R (b, cells) = (Ok sc, b', cells')"
  shows "sc_client_roots sc = tb_auth_root_certs b \<and> sc_certs sc = tb_certs b \<and> sc_key sc = tb_key b \<and>
    sc_alpn_protocols sc = tb_alpn_protocols b \<and> sc_cipher_suites sc = tb_cipher_suites b \<and>
    sc_protocol_versions sc = tb_protocol_versions b \<and> b' = b\<lparr>tb_crl_file := tb_crl_file b'\<rparr> \<and>
    (case (if crl then tb_crl_file b else None) of
       None \<Rightarrow> sc_client_crls sc = [] \<and> cells' = cells \<and> b' = b
     | Some f \<Rightarrow> \<exists>l f'. crl_list F (f, cells) = (Ok l, f', cells') \<and> sc_client_crls sc = [l] \<and> tb_crl_file b' = Some f')"
  using assms
  by (auto simp: tls_build_def sop_bind_Ok build_client_cert_verifier_def split: if_splits option.splits prod.splits res.splits)

section \<open>Properties\<close>

text \<open>
  The life of the revocation list: handshakes of the gateway's visitors, which share one builder, and rounds of the
  reloading thread that \<open>AppConfig::new\<close> has started, each with the file system as it is then.  \<open>f0\<close> is the file
  object when the thread was started.
\<close>

datatype crl_event = Handshake file_env | Reload file_env

fun crl_step :: "bool \<Rightarrow> (app_error \<Rightarrow> string option) option \<Rightarrow> 's rustls \<Rightarrow> crl_file option \<Rightarrow> crl_event \<Rightarrow>
    's tls_builder \<times> nat \<times> crl_cells \<Rightarrow> 's tls_builder \<times> nat \<times> crl_cells" where
  "crl_step crl h R f0 (Handshake F) (b, m, cells) = (case tls_build crl F R (b, cells) of (r, b', cells') \<Rightarrow> (b', m, cells'))"
| "crl_step crl h R f0 (Reload F) (b, m, cells) =
     (case f0 of
        Some f \<Rightarrow> (case process_list_reload F h (cf_path f) (cf_cell f) (m, cells) of (r, m', cells') \<Rightarrow> (b, m', cells'))
      | None \<Rightarrow> (b, m, cells))"

definition crl_run :: "bool \<Rightarrow> (app_error \<Rightarrow> string option) option \<Rightarrow> 's rustls \<Rightarrow> crl_file option \<Rightarrow> crl_event list \<Rightarrow>
    's tls_builder \<times> nat \<times> crl_cells \<Rightarrow> 's tls_builder \<times> nat \<times> crl_cells" where
  "crl_run crl h R f0 evs s = foldl (\<lambda>s ev. crl_step crl h R f0 ev s) s evs"

text \<open>
  What a handshake goes by, without cells and references: it follows the reloading thread, with the
  modification time the thread remembers and the list it has loaded, if any; or it is bound for good to one list.
\<close>

datatype crl_view = Follows nat "bytes option" | Bound bytes

fun view_step :: "string \<Rightarrow> crl_view \<Rightarrow> crl_event \<Rightarrow> crl_view" where
  "view_step path (Follows m None) (Handshake F) = (case load_crl_list F path of Ok l \<Rightarrow> Bound l | _ \<Rightarrow> Follows m None)"
| "view_step path (Follows m cur) (Reload F) =
     (case file_mtime F path of
        Ok mtime \<Rightarrow>
          if m = mtime then Follows m cur
          else Follows mtime (case load_crl_list F path of Ok l \<Rightarrow> Some l | _ \<Rightarrow> cur)
      | _ \<Rightarrow> Follows m cur)"
| "view_step path v _ = v"

definition list_in_force :: "string \<Rightarrow> crl_event list \<Rightarrow> file_env \<Rightarrow> bytes res" where
  "list_in_force path evs F =
     (case foldl (view_step path) (Follows 0 None) evs of
        Bound l \<Rightarrow> Ok l
      | Follows _ (Some l) \<Rightarrow> Ok l
      | Follows _ None \<Rightarrow> load_crl_list F path)"

text \<open>The cells and the file object against the view.\<close>

fun view_of :: "crl_view \<Rightarrow> string \<Rightarrow> nat \<Rightarrow> crl_file option \<Rightarrow> nat \<Rightarrow> crl_cells \<Rightarrow> bool" where
  "view_of (Follows m' cur) path cell f m cells \<longleftrightarrow> m' = m \<and> cell < length cells \<and> cell_get cells cell = cur \<and>
     (\<exists>rl. f = Some \<lparr>cf_path = path, cf_cell = cell, cf_reloading = rl\<rparr>)"
| "view_of (Bound l) path cell f m cells \<longleftrightarrow> cell < length cells \<and>
     (\<exists>own rl. f = Some \<lparr>cf_path = path, cf_cell = own, cf_reloading = rl\<rparr> \<and> own \<noteq> cell \<and> cell_get cells own = Some l)"

definition same_material :: "'s tls_builder \<Rightarrow> 's tls_builder \<Rightarrow> bool" where
  "same_material b b' \<longleftrightarrow> b' = b\<lparr>tb_crl_file := tb_crl_file b'\<rparr>"

lemma tls_build_state:
  assumes "tls_build crl F R (b, cells) = (r, b', cells')"
  shows "same_material b b'"
    and "rl_versions R (tb_cipher_suites b) (tb_protocol_versions b) = None \<Longrightarrow> crl \<Longrightarrow> tb_crl_file b = Some f \<Longrightarrow>
      \<exists>l. crl_list F (f, cells) = (l, the (tb_crl_file b'), cells') \<and> tb_crl_file b' \<noteq> None"
    and "\<not> crl \<or> tb_crl_file b = None \<Longrightarrow> b' = b \<and> cells' = cells"
proof -
  show "same_material b b'"
    using assms
    by (cases b) (auto simp: same_material_def tls_build_def sop_bind_def sop_lift_def build_client_cert_verifier_def
        split: if_splits option.splits prod.splits res.splits)
  show "\<exists>l. crl_list F (f, cells) = (l, the (tb_crl_file b'), cells') \<and> tb_crl_file b' \<noteq> None"
    if "rl_versions R (tb_cipher_suites b) (tb_protocol_versions b) = None" "crl" "tb_crl_file b = Some f"
    using assms that
    by (auto simp: tls_build_def sop_bind_def sop_lift_def expect_def build_client_cert_verifier_def split: option.splits prod.splits res.splits)
  show "b' = b \<and> cells' = cells" if "\<not> crl \<or> tb_crl_file b = None"
    using assms that
    by (auto simp: tls_build_def sop_bind_def sop_lift_def build_client_cert_verifier_def split: if_splits option.splits prod.splits res.splits)
qed

lemma same_material_trans: "same_material a b \<Longrightarrow> same_material b c \<Longrightarrow> same_material a c"
  unfolding same_material_def by (metis tls_builder.update_convs(6) tls_builder.surjective)

lemma same_materialD:
  assumes "same_material b b'"
  shows "tb_certs b' = tb_certs b" "tb_key b' = tb_key b" "tb_cipher_suites b' = tb_cipher_suites b"
    "tb_protocol_versions b' = tb_protocol_versions b" "tb_auth_root_certs b' = tb_auth_root_certs b" "tb_alpn_protocols b' = tb_alpn_protocols b"
  using assms by (cases b; cases b'; simp add: same_material_def)+

lemma crl_run_snoc:
  assumes "crl_run crl h R f0 (evs @ [ev]) s = s'"
  obtains b1 m1 cells1 where "crl_run crl h R f0 evs s = (b1, m1, cells1)" "crl_step crl h R f0 ev (b1, m1, cells1) = s'"
  using assms that by (cases "crl_run crl h R f0 evs s") (auto simp: crl_run_def)

lemma crl_run_material: "crl_run crl h R f0 evs (b, m, cells) = (b', m', cells') \<Longrightarrow> same_material b b'"
proof (induction evs arbitrary: b' m' cells' rule: rev_induct)
  case (snoc ev evs)
  from snoc.prems obtain b1 m1 cells1 where r: "crl_run crl h R f0 evs (b, m, cells) = (b1, m1, cells1)"
    "crl_step crl h R f0 ev (b1, m1, cells1) = (b', m', cells')" by (rule crl_run_snoc)
  then have "same_material b1 b'"
    using tls_build_state(1)[of crl _ R b1 cells1] by (cases ev) (auto simp: same_material_def split: prod.splits option.splits)
  with snoc.IH[OF r(1)] show ?case by (rule same_material_trans)
qed (simp add: crl_run_def same_material_def)

lemma cell_get_append: "i < length cells \<Longrightarrow> cell_get (cells @ xs) i = cell_get cells i"
  by (simp add: cell_get_def nth_append)

lemma cell_get_Some: "cell_get cells i = Some l \<Longrightarrow> i < length cells"
  by (simp add: cell_get_def split: if_splits)

lemma view_handshake:
  assumes "view_of v path cell (Some f) m cells" and "crl_list F (f, cells) = (r, f', cells')"
  shows "view_of (view_step path v (Handshake F)) path cell (Some f') m cells'"
proof (cases v)
  case (Follows m' cur)
  then show ?thesis using assms
    by (cases cur) (auto simp: crl_list_def cell_get_append split: res.splits, auto simp: cell_get_def)
next
  case (Bound l)
  with assms show ?thesis by (auto simp: crl_list_def)
qed

lemma view_reload:
  assumes "view_of v path cell f m cells" and "process_list_reload F h path cell (m, cells) = (r, m', cells')"
  shows "view_of (view_step path v (Reload F)) path cell f m' cells'"
proof (cases v)
  case (Follows m1 cur)
  then show ?thesis using assms
    by (cases cur) (auto simp: process_list_reload_def cell_get_def split: res.splits option.splits if_splits)
next
  case (Bound l)
  with assms show ?thesis
    by (auto simp: process_list_reload_def cell_update_other split: res.splits option.splits if_splits)
qed

lemma crl_run_view:
  assumes "crl" and "tb_crl_file b = Some \<lparr>cf_path = path, cf_cell = cell, cf_reloading = rl\<rparr>" and "cell < length cells" and "cell_get cells cell = None"
    and "rl_versions R (tb_cipher_suites b) (tb_protocol_versions b) = None"
    and "crl_run crl h R (tb_crl_file b) evs (b, 0, cells) = (b', m', cells')"
  shows "view_of (foldl (view_step path) (Follows 0 None) evs) path cell (tb_crl_file b') m' cells'"
  using assms(6)
proof (induction evs arbitrary: b' m' cells' rule: rev_induct)
  case Nil
  with assms show ?case by (simp add: crl_run_def)
next
  case (snoc ev evs)
  let ?v = "foldl (view_step path) (Follows 0 None) evs"
  from snoc.prems obtain b1 m1 cells1 where r: "crl_run crl h R (tb_crl_file b) evs (b, 0, cells) = (b1, m1, cells1)"
    "crl_step crl h R (tb_crl_file b) ev (b1, m1, cells1) = (b', m', cells')" by (rule crl_run_snoc)
  note ih = snoc.IH[OF r(1)]
  show ?case
  proof (cases ev)
    case (Handshake F)
    with r(2) obtain x where t: "tls_build crl F R (b1, cells1) = (x, b', cells')" "m' = m1" by (auto split: prod.splits)
    have v: "rl_versions R (tb_cipher_suites b1) (tb_protocol_versions b1) = None"
      using assms(5) by (simp add: same_materialD[OF crl_run_material[OF r(1)]])
    obtain f where f: "tb_crl_file b1 = Some f" using ih by (cases ?v) auto
    obtain l f' where "crl_list F (f, cells1) = (l, f', cells')" "tb_crl_file b' = Some f'"
      using tls_build_state(2)[OF t(1) v assms(1) f] by auto
    with view_handshake[of ?v path cell f m1 cells1] ih f t(2) Handshake show ?thesis by simp
  next
    case (Reload F)
    with r(2) assms(2) obtain x where p: "process_list_reload F h path cell (m1, cells1) = (x, m', cells')" "b' = b1" by (auto split: prod.splits)
    with view_reload[OF _ p(1)] ih Reload show ?thesis by simp
  qed
qed

lemma crl_run_none:
  assumes "\<not> crl \<or> tb_crl_file b = None" and "crl_run crl h R f0 evs (b, m, cells) = (b', m', cells')"
  shows "b' = b"
  using assms(2)
proof (induction evs arbitrary: b' m' cells' rule: rev_induct)
  case (snoc ev evs)
  from snoc.prems obtain b1 m1 cells1 where r: "crl_run crl h R f0 evs (b, m, cells) = (b1, m1, cells1)"
    "crl_step crl h R f0 ev (b1, m1, cells1) = (b', m', cells')" by (rule crl_run_snoc)
  with snoc.IH have "crl_step crl h R f0 ev (b, m1, cells1) = (b', m', cells')" by metis
  then show ?case using tls_build_state(3)[of crl _ R b] assms(1) by (cases ev) (auto split: prod.splits option.splits)
qed (simp add: crl_run_def)

text \<open>
  C16: every handshake of the gateway, at any point of any sequence of handshakes and rounds of the reloading thread,
  is made with a configuration that demands a client certificate under the roots of the file named at the
  start, presents the gateway's own certificate and key, and offers the protocol names of the control plane and
  the known services.  When the build supports it and a revocation list is named, client certificates are
  checked against exactly one list, \<open>list_in_force\<close>: the one the reloading thread has last loaded, if it had
  loaded one before the first handshake that needed it; otherwise the one the file held at that first
  handshake, for ever, whatever the thread loads afterwards.
\<close>

theorem handshake_checks_clients:
  assumes "gateway_config_new crl E F R dns args ta cells = (Ok (cfg, b), cells1)"
    and "crl_run crl h R (tb_crl_file b) evs (b, 0, cells1) = (b2, m2, cells2)"
    and "tls_build crl G R (b2, cells2) = (Ok sc, b3, cells3)"
  shows "load_certificates F (ta_auth_cert_file ta) = Ok (sc_client_roots sc) \<and>
    load_certificates F (ta_cert_file ta) = Ok (sc_certs sc) \<and> load_private_key F (ta_key_file ta) = Ok (sc_key sc) \<and>
    sc_alpn_protocols sc = cfg_alpn_protocols cfg \<and>
    (case (if crl then ta_crl_file ta else None) of
       None \<Rightarrow> sc_client_crls sc = []
     | Some path \<Rightarrow> \<exists>l. sc_client_crls sc = [l] \<and> list_in_force path evs G = Ok l)"
proof -
  note g = gateway_config_new_Ok[OF assms(1)] and t = tls_build_Ok[OF assms(3)] and mat = same_materialD[OF crl_run_material[OF assms(2)]]
  show ?thesis
  proof (cases "if crl then ta_crl_file ta else None")
    case None
    have "\<not> crl \<or> tb_crl_file b = None" using g None by (auto simp: open_crl_file_def split: if_splits option.splits)
    moreover from crl_run_none[OF this assms(2)] have "b2 = b" .
    ultimately have "(if crl then tb_crl_file b2 else None) = None" by auto
    with \<open>b2 = b\<close> g t None show ?thesis by simp
  next
    case (Some path)
    then have c: crl "ta_crl_file ta = Some path" by (auto split: if_splits)
    have f: "tb_crl_file b = Some \<lparr>cf_path = path, cf_cell = length cells, cf_reloading = False\<rparr>" "cells1 = cells @ [None]"
      using g c by (auto simp: open_crl_file_def crl_file_new_def)
    have n: "length cells < length cells1" "cell_get cells1 (length cells) = None" by (simp_all add: f(2) cell_get_def)
    have "rl_versions R (tb_cipher_suites b2) (tb_protocol_versions b2) = None"
      using assms(3) by (auto simp: tls_build_def sop_bind_Ok)
    then have v: "rl_versions R (tb_cipher_suites b) (tb_protocol_versions b) = None" by (simp add: mat)
    from crl_run_view[OF c(1) f(1) n v assms(2)]
    have view: "view_of (foldl (view_step path) (Follows 0 None) evs) path (length cells) (tb_crl_file b2) m2 cells2" by blast
    then obtain f2 where f2: "tb_crl_file b2 = Some f2" by (cases "foldl (view_step path) (Follows 0 None) evs") auto
    with t c(1) obtain l f' where l: "crl_list G (f2, cells2) = (Ok l, f', cells3)" "sc_client_crls sc = [l]" by auto
    have "list_in_force path evs G = Ok l"
      using view l(1) f2
      by (auto simp: list_in_force_def crl_list_def split: crl_view.splits option.splits res.splits)
    with g t l(2) Some show ?thesis by (simp add: mat)
  qed
qed

definition demo_rustls :: "nat rustls" where
  "demo_rustls = \<lparr>rl_all_suites = [0, 1], rl_all_versions = [TLS13, TLS12], rl_root_add = (\<lambda>_ _. None),
     rl_versions = (\<lambda>_ _. None), rl_client_verifier = (\<lambda>_ _. None), rl_own_cert = (\<lambda>_ _. None)\<rparr>"

definition demo_tls_args :: "nat tls_args" where
  "demo_tls_args = \<lparr>ta_cert_file = ''c.pem'', ta_key_file = ''k.pem'', ta_auth_cert_file = ''a.pem'', ta_crl_file = Some ''r.der'',
     ta_protocol_version = None, ta_cipher_suite = None, ta_session_resumption = True\<rparr>"

definition demo_builder :: "nat tls_builder" where
  "demo_builder = \<lparr>tb_certs = [[7]], tb_key = [7], tb_cipher_suites = [0, 1], tb_protocol_versions = [TLS13, TLS12],
     tb_auth_root_certs = [[7]], tb_crl_file = Some \<lparr>cf_path = ''r.der'', cf_cell = 0, cf_reloading = False\<rparr>,
     tb_session_resumption = True, tb_alpn_protocols = cfg_alpn_protocols demo_config\<rparr>"

lemma demo_gateway_config:
  "gateway_config_new True demo_db (demo_files [7] 1) demo_rustls (Inr ()) demo_args demo_tls_args [] = (Ok (demo_config, demo_builder), [None])"
proof -
  from demo_config_new obtain repos alpns where
    r: "create_datasource_repositories demo_db (ca_datasource demo_args) repository_factories = Ok repos"
      "server_alpn_protocols (fst (snd repos)) = Ok alpns" "assemble_app_config demo_args repos alpns = demo_config"
    by (auto simp: new_app_config_def res_simps simp del: assemble_app_config_def)
  have a: "alpns = cfg_alpn_protocols demo_config" using r(3) by (cases repos) (auto simp flip: r(3))
  have m: "load_tls_material (demo_files [7] 1) demo_tls_args = Ok ([[7]], [[7]], [7])"
    by (simp add: load_tls_material_Ok load_certificates_def load_private_key_def demo_files_def pem_items_def map_err_def)
  show ?thesis
    using r m a
    by (simp add: gateway_config_new_def sop_bind_def sop_lift_def open_crl_file_def crl_file_new_def root_store_def demo_rustls_def
        demo_tls_args_def demo_builder_def map_err_def del: assemble_app_config_def)
qed

theorem handshake_checks_clients_witness:
  "\<exists>b2 m2 cells2 sc b3 cells3. crl_run True None demo_rustls (tb_crl_file demo_builder)
       [Reload (demo_files [9] 1), Handshake (demo_files [9] 1), Reload (demo_files [5] 2)] (demo_builder, 0, [None]) = (b2, m2, cells2) \<and>
     tls_build True (demo_files [5] 2) demo_rustls (b2, cells2) = (Ok sc, b3, cells3) \<and>
     sc_client_crls sc = [[5]] \<and> load_certificates (demo_files [7] 1) ''a.pem'' = Ok (sc_client_roots sc)"
proof -
  let ?evs = "[Reload (demo_files [9] 1), Handshake (demo_files [9] 1), Reload (demo_files [5] 2)]"
  have r: "crl_run True None demo_rustls (tb_crl_file demo_builder) ?evs (demo_builder, 0, [None]) = (demo_builder, 2, [Some [5]])"
    by (simp add: crl_run_def process_list_reload_def file_mtime_def load_crl_list_def demo_files_def demo_builder_def tls_build_def sop_bind_def
        sop_lift_def build_client_cert_verifier_def crl_list_def cell_get_def demo_rustls_def expect_def)
  obtain sc b3 cells3 where b: "tls_build True (demo_files [5] 2) demo_rustls (demo_builder, [Some [5]]) = (Ok sc, b3, cells3)"
    by (simp add: tls_build_def sop_bind_def sop_lift_def build_client_cert_verifier_def crl_list_def cell_get_def demo_builder_def
        demo_rustls_def expect_def)
  have "list_in_force ''r.der'' ?evs (demo_files [5] 2) = Ok [5]"
    by (simp add: list_in_force_def file_mtime_def load_crl_list_def demo_files_def)
  with handshake_checks_clients[OF demo_gateway_config r b] r b show ?thesis by (auto simp: demo_tls_args_def)
qed

text \<open>
  C17: the client checks the gateway it talks to: unless it was started with the insecure option, its TLS
  configuration verifies the server's certificate with the library's verifier and exactly the root certificates of
  the configured file.  With that option any certificate is taken, but the signatures of the handshake are still
  checked by the library.
\<close>

theorem client_checks_gateway:
  assumes "client_config_new F R args = Ok cfg"
  shows "if la_insecure args
    then (\<forall>e is n ocsp now. verify_server_cert (certificate_verifier V (kf_tls_client_config cfg)) e is n ocsp now = None) \<and>
      verify_tls12_signature (certificate_verifier V (kf_tls_client_config cfg)) = vl_tls12_signature V \<and>
      verify_tls13_signature (certificate_verifier V (kf_tls_client_config cfg)) = vl_tls13_signature V
    else \<exists>roots. load_certificates F (la_ca_root_cert_file args) = Ok roots \<and>
      certificate_verifier V (kf_tls_client_config cfg) = vl_default V roots"
proof -
  from assms obtain roots store where l: "load_certificates F (la_ca_root_cert_file args) = Ok roots" "add_roots R [] roots = Inr store"
    "kc_roots (kf_tls_client_config cfg) = store" "kc_verifies_server (kf_tls_client_config cfg) = (\<not> la_insecure args)"
    by (auto simp: client_config_new_def res_simps map_err_Ok Let_def)
  from add_roots_Inr[OF l(2)] l show ?thesis by (auto simp: certificate_verifier_def no_certificate_verification_def)
qed

definition demo_cli_args :: "bool \<Rightarrow> nat cli_args" where
  "demo_cli_args insecure = \<lparr>la_gateway_host = ''gw'', la_gateway_port = 8400, la_auth_key_file = ''k.pem'', la_auth_cert_file = ''c.pem'',
     la_ca_root_cert_file = ''a.pem'', la_protocol_version = None, la_cipher_suite = None, la_max_frag_size = None,
     la_session_resumption = False, la_no_tickets = False, la_no_sni = False, la_insecure = insecure, la_verbose = False\<rparr>"

definition demo_verify_lib :: verify_lib where
  "demo_verify_lib = \<lparr>vl_default = (\<lambda>roots. \<lparr>verify_server_cert = (\<lambda>e _ _ _ _. if e \<in> set roots then None else Some \<lparr>display_of = ''UnknownIssuer'', debug_of = ''UnknownIssuer''\<rparr>),
       verify_tls12_signature = (\<lambda>_ _ _. None), verify_tls13_signature = (\<lambda>_ _ _. None), supported_verify_schemes = []\<rparr>),
     vl_tls12_signature = (\<lambda>_ _ _. None), vl_tls13_signature = (\<lambda>_ _ _. None), vl_schemes = []\<rparr>"

theorem client_checks_gateway_witness:
  "\<exists>cfg e. client_config_new (demo_files [7] 1) demo_rustls (demo_cli_args False) = Ok cfg \<and>
     verify_server_cert (certificate_verifier demo_verify_lib (kf_tls_client_config cfg)) [8] [] ''gw'' [] 0 = Some e"
proof -
  have "\<exists>cfg. client_config_new (demo_files [7] 1) demo_rustls (demo_cli_args False) = Ok cfg"
    by (simp add: client_config_new_def load_certificates_def load_private_key_def demo_files_def pem_items_def map_err_def demo_cli_args_def
        demo_rustls_def expect_def unwrap_res_def Let_def)
  then obtain cfg where c: "client_config_new (demo_files [7] 1) demo_rustls (demo_cli_args False) = Ok cfg" ..
  have l: "load_certificates (demo_files [7] 1) (la_ca_root_cert_file (demo_cli_args False)) = Ok [[7]]"
    by (simp add: load_certificates_def demo_files_def pem_items_def map_err_def)
  from client_checks_gateway[OF c, of demo_verify_lib] c l show ?thesis by (auto simp: demo_cli_args_def demo_verify_lib_def)
qed

end
