(* ===== verification/T0_Process.thy ===== *)
theory T0_Process
  imports T0_Listeners T0_Tls_Config
begin

text \<open>
  The two processes: \<open>crates/common/src/logging.rs\<close> and the \<open>main.rs\<close> of the gateway and of the client, which read the
  configuration, set the logger up, install the handler of the interrupt signal, and run the main processor.
  The logging library, the signal library and the parsed command line are parameters.
\<close>

section \<open>Logging\<close>

datatype log_level = DEBUG | INFO | WARN | ERROR

datatype level_filter = FilterDebug | FilterInfo | FilterWarn | FilterError

text \<open>
  What the logging library does: building a configuration, installing it, and whether a level is enabled
  under the filter that is installed (\<open>None\<close> before that).
\<close>

record log_lib =
  ll_build :: "level_filter \<Rightarrow> dyn_error option"
  ll_init_config :: "level_filter \<Rightarrow> dyn_error option"
  ll_enabled :: "level_filter option \<Rightarrow> log_level \<Rightarrow> bool"

text \<open>\<open>Logger\<close>; the visitor acts on \<open>'w\<close>, where the process writes.\<close>

record 'w logger =
  lg_handle :: "level_filter option"
  lg_visitor :: "(log_level \<Rightarrow> string \<Rightarrow> 'w \<Rightarrow> 'w) option"

definition LOG :: "'w logger" where "LOG = \<lparr>lg_handle = None, lg_visitor = None\<rparr>"

definition unwrap_err :: "dyn_error option \<Rightarrow> unit res" where
  "unwrap_err r = (case r of Some e \<Rightarrow> Panic (''called `Result::unwrap()` on an `Err` value: '' @ debug_of e) | None \<Rightarrow> Ok ())"

fun level_filter_of :: "log_level \<Rightarrow> level_filter" where
  "level_filter_of DEBUG = FilterDebug"
| "level_filter_of INFO = FilterInfo"
| "level_filter_of WARN = FilterWarn"
| "level_filter_of ERROR = FilterError"

definition logger_configure :: "log_lib \<Rightarrow> log_level \<Rightarrow> (log_level \<Rightarrow> string \<Rightarrow> 'w \<Rightarrow> 'w) option \<Rightarrow> ('w logger, unit) sop" where
  "logger_configure G level visitor lg =
     (let f = level_filter_of level in
      case and_then (unwrap_err (ll_build G f)) (\<lambda>_. unwrap_err (ll_init_config G f)) of
        Ok _ \<Rightarrow> (Ok (), lg\<lparr>lg_handle := Some f, lg_visitor := visitor\<rparr>)
      | Err e \<Rightarrow> (Err e, lg)
      | Panic m \<Rightarrow> (Panic m, lg))"

text \<open>A message goes to the log, as its level, its target and its text, and then to the visitor.\<close>

type_synonym 'w log_out = "(log_level \<times> string \<times> string) list \<times> 'w"

definition log_at :: "log_level \<Rightarrow> log_lib \<Rightarrow> 'w logger \<Rightarrow> string \<Rightarrow> string \<Rightarrow> 'w log_out \<Rightarrow> 'w log_out" where
  "log_at level G lg target msg out =
     (if ll_enabled G (lg_handle lg) level
      then (fst out @ [(level, target, msg)], (case lg_visitor lg of Some f \<Rightarrow> f level msg | None \<Rightarrow> id) (snd out))
      else out)"

definition logger_debug where "logger_debug = log_at DEBUG"
definition logger_info where "logger_info = log_at INFO"
definition logger_warn where "logger_warn = log_at WARN"
definition logger_error where "logger_error = log_at ERROR"

text \<open>The levels in the order of their severity.\<close>

instantiation log_level :: linorder
begin

definition less_eq_log_level :: "log_level \<Rightarrow> log_level \<Rightarrow> bool" where
  "less_eq_log_level a b \<longleftrightarrow> a = DEBUG \<or> b = ERROR \<or> a = b \<or> (a = INFO \<and> b = WARN)"

definition less_log_level :: "log_level \<Rightarrow> log_level \<Rightarrow> bool" where
  "less_log_level a b \<longleftrightarrow> a \<le> b \<and> a \<noteq> b"

instance
proof
  fix x y z :: log_level
  show "(x < y) = (x \<le> y \<and> \<not> y \<le> x)" "x \<le> x" "x \<le> y \<or> y \<le> x"
    by (cases x; cases y; simp add: less_log_level_def less_eq_log_level_def)+
  show "x \<le> y \<Longrightarrow> y \<le> z \<Longrightarrow> x \<le> z" by (cases x; cases y; cases z; simp add: less_eq_log_level_def)
  show "x \<le> y \<Longrightarrow> y \<le> x \<Longrightarrow> x = y" by (cases x; cases y; simp add: less_eq_log_level_def)
qed

end

text \<open>
  What the logging library promises: under a filter the levels from its own upwards are enabled, and none before
  one is installed.
\<close>

definition honest_levels :: "log_lib \<Rightarrow> bool" where
  "honest_levels G \<longleftrightarrow> (\<forall>f l. ll_enabled G (Some (level_filter_of f)) l = (f \<le> l)) \<and> (\<forall>l. \<not> ll_enabled G None l)"

lemma configured_levels:
  assumes "honest_levels G" and "logger_configure G level visitor lg = (Ok (), lg')"
  shows "log_at l G lg' target msg out =
    (if level \<le> l then (fst out @ [(l, target, msg)], (case visitor of Some f \<Rightarrow> f l msg | None \<Rightarrow> id) (snd out)) else out)"
  using assms by (auto simp: honest_levels_def logger_configure_def log_at_def Let_def split: res.splits)

section \<open>The end of a process\<close>

text \<open>
  \<open>main\<close>: what goes to standard error, and the exit code.  A panic of the main thread is reported by the
  language's runtime, which exits with 101.
\<close>

fun main_exit :: "unit res \<Rightarrow> string \<times> nat" where
  "main_exit (Ok _) = ([], 0)"
| "main_exit (Err e) = (err_debug e @ [CHR 0x0A], 1)"
| "main_exit (Panic m) = (m, 101)"

section \<open>The gateway\<close>

text \<open>
  Everything the gateway process meets: its command line and its libraries, the files and the revocation list at the handshake
  of each connection, and the arrivals at its port.
\<close>

record ('a, 's) gw_process =
  gp_crl :: bool
  gp_db :: db_env
  gp_files :: file_env
  gp_rustls :: "'s rustls"
  gp_dns :: "dyn_error + unit"
  gp_args :: config_args
  gp_tls_args :: "'s tls_args"
  gp_log :: log_lib
  gp_set_handler :: "dyn_error option"
  gp_lib :: "'a gw_lib"
  gp_net :: net_env
  gp_files_at :: "tls_stream \<Rightarrow> file_env"
  gp_bind :: "dyn_error option"
  gp_nonblocking :: "dyn_error option"
  gp_fuel :: nat
  gp_cycles :: "((io_error + tls_stream incoming) \<times> (gw_state \<Rightarrow> gw_state)) list"

text \<open>
  \<open>on_tls_handshaking\<close> of the gateway's visitors: the builder makes a configuration, from the files as they
  are then, and keeps the revocation list it has loaded.
\<close>

definition gw_on_tls_handshaking :: "('a, 's) gw_process \<Rightarrow> 's tls_builder \<Rightarrow> tls_stream \<Rightarrow> (crl_state, unit) sop" where
  "gw_on_tls_handshaking P b t crl =
     (case tls_build (gp_crl P) (gp_files_at P t) (gp_rustls P) (b\<lparr>tb_crl_file := fst crl\<rparr>, snd crl) of
        (r, b', cells') \<Rightarrow> (and_then r (\<lambda>_. Ok ()), tb_crl_file b', cells'))"

definition gw_process_runner ::
  "('a, 's) gw_process \<Rightarrow> crl_cells \<Rightarrow> unit logger \<Rightarrow> (unit res \<times> unit logger \<times> gw_state option) option" where
  "gw_process_runner P cells lg =
     (case gateway_config_new (gp_crl P) (gp_db P) (gp_files P) (gp_rustls P) (gp_dns P) (gp_args P) (gp_tls_args P) cells of
        (Err e, _) \<Rightarrow> Some (Err e, lg, None)
      | (Panic m, _) \<Rightarrow> Some (Panic m, lg, None)
      | (Ok (cfg, b), cells') \<Rightarrow>
          (case logger_configure (gp_log P) (if cfg_verbose_logging cfg then DEBUG else INFO) None lg of
             (Err e, lg') \<Rightarrow> Some (Err e, lg', None)
           | (Panic m, lg') \<Rightarrow> Some (Panic m, lg', None)
           | (Ok _, lg') \<Rightarrow>
               (let st = (main_new cfg)\<lparr>gws_crl := (tb_crl_file b, cells')\<rparr> in
                case gp_set_handler P of
                  Some e \<Rightarrow> Some (Err (GenWithMsgAndErr ''Error setting Ctrl-C handler'' e), lg', Some st)
                | None \<Rightarrow> map_option (\<lambda>(r, st'). (r, lg', Some st'))
                    (main_start (gw_on_tls_handshaking P b) (gp_lib P) (gp_net P) cfg (gp_fuel P) (gp_bind P) (gp_nonblocking P)
                       (gp_cycles P) st))))"

definition gw_main :: "('a, 's) gw_process \<Rightarrow> crl_cells \<Rightarrow> ((string \<times> nat) \<times> gw_state option) option" where
  "gw_main P cells = map_option (\<lambda>(r, _, st). (main_exit r, st)) (gw_process_runner P cells LOG)"

text \<open>The handler of the interrupt signal; after three seconds it ends the process with exit code 0.\<close>

definition gw_signal_handler :: "log_lib \<Rightarrow> string \<Rightarrow> unit logger \<Rightarrow> unit log_out \<times> gw_state \<Rightarrow> (unit log_out \<times> gw_state) \<times> nat" where
  "gw_signal_handler G target lg s =
     ((logger_error G lg target ''Signal caught, gateway shutting down...'' (fst s), shutdown_function (snd s)), 0)"

section \<open>The client\<close>

record 's cli_process =
  lp_files :: file_env
  lp_rustls :: "'s rustls"
  lp_args :: "'s cli_args"
  lp_log :: log_lib
  lp_set_handler :: "dyn_error option"

definition cli_log_visitor :: "log_level \<Rightarrow> string \<Rightarrow> shell_writer \<Rightarrow> shell_writer" where
  "cli_log_visitor _ _ w = snd (write_shell_prompt False w)"

definition cli_process_runner ::
  "'s cli_process \<Rightarrow> connect_env \<Rightarrow> 'v serde \<Rightarrow> cli_lib \<Rightarrow> nat \<Rightarrow> nat \<Rightarrow> shell_writer logger \<Rightarrow>
   (unit res \<times> shell_writer logger \<times> client_state option) option" where
  "cli_process_runner P E S C fuel n lg =
     (case client_config_new (lp_files P) (lp_rustls P) (lp_args P) of
        Err e \<Rightarrow> Some (Err e, lg, None)
      | Panic m \<Rightarrow> Some (Panic m, lg, None)
      | Ok cfg \<Rightarrow>
          (case logger_configure (lp_log P) (if kf_verbose_logging cfg then DEBUG else ERROR) (Some cli_log_visitor) lg of
             (Err e, lg') \<Rightarrow> Some (Err e, lg', None)
           | (Panic m, lg') \<Rightarrow> Some (Panic m, lg', None)
           | (Ok _, lg') \<Rightarrow>
               (let st = cli_main_new (cli_config.truncate cfg) in
                case lp_set_handler P of
                  Some e \<Rightarrow> Some (Err (GenWithMsgAndErr ''Error setting Ctrl-C handler'' e), lg', Some st)
                | None \<Rightarrow> map_option (\<lambda>(r, st'). (r, lg', Some st')) (cli_main_start E S C fuel n st))))"

definition cli_main ::
  "'s cli_process \<Rightarrow> connect_env \<Rightarrow> 'v serde \<Rightarrow> cli_lib \<Rightarrow> nat \<Rightarrow> nat \<Rightarrow> ((string \<times> nat) \<times> client_state option) option" where
  "cli_main P E S C fuel n = map_option (\<lambda>(r, _, st). (main_exit r, st)) (cli_process_runner P E S C fuel n LOG)"

text \<open>The handler of the interrupt signal; the process ends with exit code 0, unless the handler panics.\<close>

definition cli_signal_handler ::
  "log_lib \<Rightarrow> string \<Rightarrow> shell_writer logger \<Rightarrow> shell_writer log_out \<times> client_state \<Rightarrow> (shell_writer log_out \<times> client_state) \<times> nat res" where
  "cli_signal_handler G target lg s =
     (case cli_shutdown_function (snd s) of
        (r, st) \<Rightarrow> ((logger_error G lg target ''Signal caught, client shutting down...'' (fst s), st), and_then r (\<lambda>_. Ok 0)))"

section \<open>What the processes log\<close>

lemma runner_logger:
  assumes "gw_process_runner P cells lg = Some (r, lg', Some st)"
  shows "\<exists>cfg b. fst (gateway_config_new (gp_crl P) (gp_db P) (gp_files P) (gp_rustls P) (gp_dns P) (gp_args P) (gp_tls_args P) cells) = Ok (cfg, b) \<and>
    logger_configure (gp_log P) (if cfg_verbose_logging cfg then DEBUG else INFO) None lg = (Ok (), lg')"
  using assms by (auto simp: gw_process_runner_def Let_def split: res.splits prod.splits option.splits)

text \<open>
  A gateway that is not verbose logs no debug message, and everything else; a client that is not verbose logs
  errors only, and shows its prompt again after each.
\<close>

theorem quiet_processes:
  assumes "honest_levels (gp_log P)" and "gw_process_runner P cells lg = Some (r, lg', Some st)" and "\<not> ca_verbose (gp_args P)"
    and "honest_levels (lp_log Q)" and "cli_process_runner Q E S C fuel n lc = Some (rc, lc', Some stc)" and "\<not> la_verbose (lp_args Q)"
  shows "log_at l (gp_log P) lg' target msg out = (if l = DEBUG then out else (fst out @ [(l, target, msg)], snd out))"
    and "log_at l (lp_log Q) lc' target msg outc =
      (if l = ERROR then (fst outc @ [(l, target, msg)], snd (write_shell_prompt False (snd outc))) else outc)"
proof -
  obtain cfg b where c: "fst (gateway_config_new (gp_crl P) (gp_db P) (gp_files P) (gp_rustls P) (gp_dns P) (gp_args P) (gp_tls_args P) cells) = Ok (cfg, b)"
    "logger_configure (gp_log P) (if cfg_verbose_logging cfg then DEBUG else INFO) None lg = (Ok (), lg')"
    using runner_logger[OF assms(2)] by blast
  have "\<not> cfg_verbose_logging cfg"
    using c(1) assms(3) by (auto simp: gateway_config_new_def sop_bind_def sop_lift_def assemble_app_config_def split: prod.splits res.splits)
  with configured_levels[OF assms(1) c(2)] show "log_at l (gp_log P) lg' target msg out = (if l = DEBUG then out else (fst out @ [(l, target, msg)], snd out))"
    by (cases l) (simp_all add: less_eq_log_level_def)
  obtain cc where d: "client_config_new (lp_files Q) (lp_rustls Q) (lp_args Q) = Ok cc"
    "logger_configure (lp_log Q) (if kf_verbose_logging cc then DEBUG else ERROR) (Some cli_log_visitor) lc = (Ok (), lc')"
    using assms(5) by (auto simp: cli_process_runner_def Let_def split: res.splits prod.splits option.splits)
  have "\<not> kf_verbose_logging cc"
    using d(1) assms(6) by (auto simp: client_config_new_def res_simps Let_def)
  with configured_levels[OF assms(4) d(2)] show "log_at l (lp_log Q) lc' target msg outc =
      (if l = ERROR then (fst outc @ [(l, target, msg)], snd (write_shell_prompt False (snd outc))) else outc)"
    by (cases l) (simp_all add: less_eq_log_level_def cli_log_visitor_def)
qed

section \<open>Stopping the gateway\<close>

lemma shutdown_all_sessions:
  assumes "mgr_ready mgr"
  shows "\<exists>mgr'. mgr_shutdown_connections None None mgr = (Ok (), mgr') \<and> mgr_ready mgr' \<and> sessions mgr' = {} \<and>
    (\<forall>i u k. (i, u, k) \<in> sessions mgr \<longrightarrow> CloseProxy k \<in> set (queue (gs_proxy_tasks (gm_shared mgr'))))"
proof -
  have inv: "mgr_inv mgr" using assms by (simp add: mgr_ready_def)
  from mgr_shutdown_closes[of mgr None None] assms obtain mgr' where
    m: "mgr_shutdown_connections None None mgr = (Ok (), mgr')" "mgr_ready mgr'"
      "list_all2 (closed_for None None) (gm_service_proxy_visitors mgr) (gm_service_proxy_visitors mgr')"
      "queue (gs_proxy_tasks (gm_shared mgr')) = queue (gs_proxy_tasks (gm_shared mgr)) @ close_tasks None None (gm_service_proxy_visitors mgr)"
    by (auto simp: mgr_ready_def)
  have "k \<notin> set (keys_of w u)" if "get_service_proxy mgr' i = Some w" for i u k w
  proof (cases "get_service_proxy mgr i")
    case None
    with shutdown_new_proxy[OF m(1), of i] that show ?thesis by simp
  next
    case (Some v)
    from list_all2_hm_get[OF m(3), of i v] Some that obtain sh sh' where f: "forgets (set (keys_for v None)) (v, sh) (w, sh')"
      by (auto simp: get_service_proxy_def closed_for_def)
    have "set (keys_of v u) \<subseteq> set (keys_for v None)" using keys_for_None[OF mgr_invD(1)[OF inv Some]] by blast
    then show ?thesis using forgetsD(5)[OF f, of u] by (auto simp: keys_of_def split: option.splits)
  qed
  then have "sessions mgr' = {}" by (auto simp: sessions_def)
  moreover obtain keys where keys: "close_tasks None None (gm_service_proxy_visitors mgr) = map CloseProxy keys"
    "\<And>i v k. (i, v) \<in> set (gm_service_proxy_visitors mgr) \<Longrightarrow> k \<in> set (keys_for v None) \<Longrightarrow> k \<in> set keys"
    using close_tasks_keys[of None None "gm_service_proxy_visitors mgr"] by auto
  have "CloseProxy k \<in> set (queue (gs_proxy_tasks (gm_shared mgr')))" if "(i, u, k) \<in> sessions mgr" for i u k
  proof -
    from that obtain v where v: "get_service_proxy mgr i = Some v" "k \<in> set (keys_of v u)" by (auto simp: in_sessions)
    then have "k \<in> set (keys_for v None)" using keys_for_None[OF mgr_invD(1)[OF inv v(1)]] by blast
    with keys v(1) show ?thesis by (auto simp: m(4) get_service_proxy_def dest!: hm_get_set)
  qed
  ultimately show ?thesis using m(1,2) by blast
qed

text \<open>
  What the other threads do between two looks at the shutdown request: steps of the gateway, the signal
  handler, the thread that reloads the revocation list.
\<close>

inductive other_step :: "bool \<Rightarrow> 'a gw_lib \<Rightarrow> net_env \<Rightarrow> 'v serde \<Rightarrow> cli_lib \<Rightarrow> app_config \<Rightarrow> gw_state \<Rightarrow> gw_state \<Rightarrow> bool"
  for chk L N S C cfg where
  gateway: "gw_step chk L N S C cfg st st' \<Longrightarrow> other_step chk L N S C cfg st st'"
| signal: "other_step chk L N S C cfg st (shutdown_function st)"
| reload: "other_step chk L N S C cfg st (st\<lparr>gws_crl := crl\<rparr>)"

text \<open>
  A run of the polling loop that meets a shutdown request: every accept up to then returns, without panic, the
  connections that arrive are fresh, and the other threads do steps of theirs.
\<close>

fun signalled_run ::
  "bool \<Rightarrow> 'v serde \<Rightarrow> cli_lib \<Rightarrow> (tls_stream \<Rightarrow> (crl_state, unit) sop) \<Rightarrow> 'a gw_lib \<Rightarrow> net_env \<Rightarrow> app_config \<Rightarrow> nat \<Rightarrow>
   ((io_error + tls_stream incoming) \<times> (gw_state \<Rightarrow> gw_state)) list \<Rightarrow> server \<Rightarrow> gw_state \<Rightarrow> bool" where
  "signalled_run chk S C B L N cfg fuel [] s st \<longleftrightarrow> False"
| "signalled_run chk S C B L N cfg fuel ((inc, others) # rest) s st \<longleftrightarrow>
     (\<exists>r st'. tls_accept (gateway_visitor B L N cfg) fuel inc s st = Some (r, st') \<and> (\<forall>m. r \<noteq> Panic m) \<and>
        (\<forall>x. inc = Inr x \<longrightarrow> fresh_arrival (in_stream x) (gws_mgr st) (gws_mgr st')) \<and>
        (other_step chk L N S C cfg)\<^sup>*\<^sup>* st' (others st') \<and>
        (gws_shutdown_requested (others st') \<or> signalled_run chk S C B L N cfg fuel rest s (others st')))"

lemma gw_inv_crl [simp]: "gw_inv cfg (st\<lparr>gws_crl := crl\<rparr>) = gw_inv cfg st" "gw_inv cfg (shutdown_function st) = gw_inv cfg st"
  by (simp_all add: gw_inv_def shutdown_function_def)

lemma other_steps_inv:
  assumes "(other_step chk L N S C cfg)\<^sup>*\<^sup>* st st'" and "gw_inv cfg st" and "user_inv (cfg_user_repo cfg)"
  shows "gw_inv cfg st'"
  using assms(1,2)
proof (induction rule: rtranclp_induct)
  case (step y z)
  from step(2) step.IH[OF step.prems] show ?case by cases (auto intro: gw_step_inv[OF _ _ assms(3)])
qed

lemma accept_inv:
  assumes "tls_accept (gateway_visitor B L N cfg) fuel inc s st = Some (r, st')"
    and "\<And>x. inc = Inr x \<Longrightarrow> fresh_arrival (in_stream x) (gws_mgr st) (gws_mgr st')" and "gw_inv cfg st" and "user_inv (cfg_user_repo cfg)"
  shows "gw_inv cfg st'"
proof (cases inc)
  case (Inl e)
  with assms(1,3) show ?thesis by (simp add: tls_accept_def)
next
  case (Inr x)
  obtain rb crl where h: "B (in_stream x) (gws_crl st) = (rb, crl)" by (cases "B (in_stream x) (gws_crl st)")
  let ?V = "gateway_visitor B L N cfg"
  have "on_tls_handshaking ?V (in_stream x) st = (rb, st\<lparr>gws_crl := crl\<rparr>)" by (simp add: gateway_visitor_def on_handshake_def h)
  then have b: "sop_bind (on_tls_handshaking ?V (in_stream x)) g st =
      (case rb of Ok y \<Rightarrow> g y (st\<lparr>gws_crl := crl\<rparr>) | Err e \<Rightarrow> (Err e, st\<lparr>gws_crl := crl\<rparr>) | Panic m \<Rightarrow> (Panic m, st\<lparr>gws_crl := crl\<rparr>))"
    for g :: "unit \<Rightarrow> (gw_state, unit) sop" by (simp add: sop_bind_def)
  have "st' = st \<or> st' = st\<lparr>gws_crl := crl\<rparr> \<or> hand_over ?V (in_stream x) (st\<lparr>gws_crl := crl\<rparr>) = (r, st')"
    using assms(1) Inr by (auto simp: tls_accept_def Let_def lift_accept b split: option.splits res.splits)
  then show ?thesis
  proof (elim disjE)
    assume "hand_over (gateway_visitor B L N cfg) (in_stream x) (st\<lparr>gws_crl := crl\<rparr>) = (r, st')"
    moreover have "fresh_arrival (in_stream x) (gws_mgr (st\<lparr>gws_crl := crl\<rparr>)) (gws_mgr st')" using assms(2)[OF Inr] by simp
    ultimately have "\<And>chk S C. gw_step chk L N S C cfg (st\<lparr>gws_crl := crl\<rparr>) st'" by (rule gw_step.arrival)
    then show ?thesis using gw_step_inv assms(3,4) gw_inv_crl(1) by metis
  qed (use assms(3) in simp_all)
qed

lemma signalled_run_ends:
  assumes "signalled_run chk S C B L N cfg fuel cycles s st" and "sr_polling s" and "gw_inv cfg st" and "user_inv (cfg_user_repo cfg)"
  shows "\<exists>s' st1. poll_cycles (gateway_visitor B L N cfg) (tls_accept (gateway_visitor B L N cfg) fuel) cycles s st = Some (Ok (), s', st1) \<and>
    server_down s' \<and> gw_inv cfg st1"
  using assms(1-3)
proof (induction cycles arbitrary: st)
  case (Cons x rest)
  obtain inc others where x: "x = (inc, others)" by (cases x)
  from Cons.prems(1) x obtain r st' where a: "tls_accept (gateway_visitor B L N cfg) fuel inc s st = Some (r, st')" "\<forall>m. r \<noteq> Panic m"
    "\<And>y. inc = Inr y \<Longrightarrow> fresh_arrival (in_stream y) (gws_mgr st) (gws_mgr st')" "(other_step chk L N S C cfg)\<^sup>*\<^sup>* st' (others st')"
    "gws_shutdown_requested (others st') \<or> signalled_run chk S C B L N cfg fuel rest s (others st')" by auto
  have i: "gw_inv cfg (others st')"
    using other_steps_inv[OF a(4) accept_inv[OF a(1,3) Cons.prems(3) assms(4)] assms(4)] .
  show ?case
  proof (cases "gws_shutdown_requested (others st')")
    case True
    then have "get_shutdown_requested (gateway_visitor B L N cfg) (others st')" by (simp add: gateway_visitor_def)
    with x a(1,2) i show ?thesis by (cases r) (simp_all add: Let_def)
  next
    case False
    then have "\<not> get_shutdown_requested (gateway_visitor B L N cfg) (others st')" by (simp add: gateway_visitor_def)
    with Cons.IH[of "others st'"] False a(5) i x a(1,2) Cons.prems(2) show ?thesis by (cases r) (simp_all add: Let_def)
  qed
qed simp

definition polling_gateway :: "app_config \<Rightarrow> server" where
  "polling_gateway cfg = (gateway_new cfg)\<lparr>sr_listener := True, sr_closing := False, sr_closed := False, sr_polling := True\<rparr>"

lemma main_start_ends:
  assumes "signalled_run chk S C B L N cfg fuel cycles (polling_gateway cfg) st" and "gw_inv cfg st" and "user_inv (cfg_user_repo cfg)"
  shows "\<exists>st1. main_start B L N cfg fuel None None cycles st = Some (main_stop st1) \<and> gw_inv cfg st1"
proof -
  let ?V = "gateway_visitor B L N cfg"
  from signalled_run_ends[OF assms(1) _ assms(2,3)] obtain s' st1 where
    p: "poll_cycles ?V (tls_accept ?V fuel) cycles (polling_gateway cfg) st = Some (Ok (), s', st1)" "gw_inv cfg st1"
    by (auto simp: polling_gateway_def)
  have "on_listening ?V st = (Ok (), st)" by (simp add: gateway_visitor_def)
  with p(1) have "main_start B L N cfg fuel None None cycles st = Some (main_stop st1)"
    by (simp add: main_start_def gateway_bind_listener_def gateway_poll_new_connections_def bind_listener_def polling_gateway_def gateway_new_def
        server_new_def tls_server_poll_new_def poll_new_connections_def assert_listening_def)
  with p(2) show ?thesis by blast
qed

text \<open>
  C11: an interrupt signal ends the gateway.  When it has started (the configuration could be read, the logger and the
  handler are set up, the port is bound) and its polling loop meets the shutdown request after a run in
  which every accept returned without a panic, every connection was fresh (\<open>fresh_arrival\<close>) and the other
  threads did steps of the gateway (\<open>signalled_run\<close>), then the process ends with exit code 0 and nothing
  on standard error, and no session is left at any service.
\<close>

theorem signal_ends_gateway:
  assumes "gateway_config_new (gp_crl P) (gp_db P) (gp_files P) (gp_rustls P) (gp_dns P) (gp_args P) (gp_tls_args P) cells = (Ok (cfg, b), cells')"
    and "\<And>f. ll_build (gp_log P) f = None" and "\<And>f. ll_init_config (gp_log P) f = None"
    and "gp_set_handler P = None" and "gp_bind P = None" and "gp_nonblocking P = None"
    and "signalled_run chk S C (gw_on_tls_handshaking P b) (gp_lib P) (gp_net P) cfg (gp_fuel P) (gp_cycles P) (polling_gateway cfg)
      ((main_new cfg)\<lparr>gws_crl := (tb_crl_file b, cells')\<rparr>)"
  shows "\<exists>st. gw_main P cells = Some (([], 0), Some st) \<and> gws_shutdown_requested st \<and> sessions (gws_mgr st) = {}"
proof -
  let ?st0 = "(main_new cfg)\<lparr>gws_crl := (tb_crl_file b, cells')\<rparr>"
  have "new_app_config (gp_db P) (gp_args P) = Ok cfg" using gateway_config_new_Ok[OF assms(1)] by blast
  from new_app_config_repos[OF this] have u: "user_inv (cfg_user_repo cfg)" by (auto simp: repos_inv_def)
  have "gw_inv cfg ?st0" by (simp add: gw_inv_new)
  from main_start_ends[OF assms(7) this u] obtain st1 where
    s: "main_start (gw_on_tls_handshaking P b) (gp_lib P) (gp_net P) cfg (gp_fuel P) None None (gp_cycles P) ?st0 = Some (main_stop st1)"
      "gw_inv cfg st1" by blast
  from shutdown_all_sessions[of "gws_mgr st1"] s(2) obtain mgr' where
    m: "mgr_shutdown_connections None None (gws_mgr st1) = (Ok (), mgr')" "sessions mgr' = {}" by (auto simp: gw_inv_def)
  show ?thesis using assms(1-6) s(1) m
    by (simp add: gw_main_def gw_process_runner_def logger_configure_def unwrap_err_def main_stop_def Let_def)
qed

definition demo_log :: log_lib where
  "demo_log = \<lparr>ll_build = (\<lambda>_. None), ll_init_config = (\<lambda>_. None), ll_enabled = (\<lambda>f l. f = Some FilterDebug \<or> l = ERROR)\<rparr>"

definition demo_process :: "((io_error + tls_stream incoming) \<times> (gw_state \<Rightarrow> gw_state)) list \<Rightarrow> (int, nat) gw_process" where
  "demo_process cycles = \<lparr>gp_crl = True, gp_db = demo_db, gp_files = demo_files [7] 1, gp_rustls = demo_rustls, gp_dns = Inr (),
     gp_args = demo_args, gp_tls_args = demo_tls_args, gp_log = demo_log, gp_set_handler = None, gp_lib = demo_gw_lib,
     gp_net = demo_reachable_net, gp_files_at = (\<lambda>_. demo_files [7] 1), gp_bind = None, gp_nonblocking = None, gp_fuel = 1,
     gp_cycles = cycles\<rparr>"

text \<open>
  A run: ann connects to the control plane and starts the service \<open>echo\<close> while the main thread is idle, then connects to
  the service through the main port, and the signal comes.
\<close>

definition demo_incoming :: "tls_stream incoming" where
  "demo_incoming = \<lparr>in_stream = demo_tls 100, in_peer = ''10.0.0.7:4000'', in_hello = (\<lambda>_. Inr (Inr True)), in_into_connection = None,
     in_complete_io = None, in_nonblocking = None\<rparr>"

lemma demo_handshake:
  "gw_on_tls_handshaking (demo_process cycles) demo_builder t (tb_crl_file demo_builder, [None]) =
     (Ok (), Some \<lparr>cf_path = ''r.der'', cf_cell = 1, cf_reloading = False\<rparr>, [None, Some [7]])"
  by (simp add: gw_on_tls_handshaking_def tls_build_def sop_bind_def sop_lift_def build_client_cert_verifier_def crl_list_def cell_get_def
      demo_builder_def demo_rustls_def expect_def demo_process_def load_crl_list_def demo_files_def map_err_def)

lemma demo_arrival:
  obtains st vis where
    "tls_accept (gateway_visitor (gw_on_tls_handshaking (demo_process cycles) demo_builder) demo_gw_lib demo_reachable_net demo_config) 1 (Inr demo_incoming) s
       (demo_at (tb_crl_file demo_builder, [None]) demo_started_mgr cs) = Some (Ok (), st)"
    "fresh_arrival (demo_tls 100) demo_started_mgr (gws_mgr st)" "(203, 100, demo_session_key) \<in> sessions (gws_mgr st)"
proof -
  let ?B = "gw_on_tls_handshaking (demo_process cycles) demo_builder"
  let ?crl = "(Some \<lparr>cf_path = ''r.der'', cf_cell = 1, cf_reloading = False\<rparr>, [None, Some [7]])"
  obtain st vis where h: "hand_over (gateway_visitor ?B demo_gw_lib demo_reachable_net demo_config) (demo_tls 100) (demo_at ?crl demo_started_mgr cs) = (Ok (), st)"
    "fresh_arrival (demo_tls 100) demo_started_mgr (gws_mgr st)" "get_service_proxy (gws_mgr st) 203 = Some vis" "keys_of vis 100 = [demo_session_key]"
    using demo_session_hand_over[where B = ?B and crl = ?crl and cs = cs] by blast
  have "on_tls_handshaking (gateway_visitor ?B demo_gw_lib demo_reachable_net demo_config) (demo_tls 100)
      (demo_at (tb_crl_file demo_builder, [None]) demo_started_mgr cs) = (Ok (), demo_at ?crl demo_started_mgr cs)"
    by (simp add: gateway_visitor_def on_handshake_def demo_handshake)
  with h(1) have "tls_accept (gateway_visitor ?B demo_gw_lib demo_reachable_net demo_config) 1 (Inr demo_incoming) s
      (demo_at (tb_crl_file demo_builder, [None]) demo_started_mgr cs) = Some (Ok (), st)"
    by (simp add: tls_accept_def demo_incoming_def lift_accept fail_if_def sop_bind_def sop_lift_def Let_def)
  moreover have "(203, 100, demo_session_key) \<in> sessions (gws_mgr st)" using h(3,4) by (simp add: in_sessions)
  ultimately show ?thesis using that h(2) by blast
qed

theorem signal_ends_gateway_witness:
  "\<exists>started st1 st. let P = demo_process [(Inl would_block_error, \<lambda>_. started), (Inr demo_incoming, shutdown_function)] in
     (203, 100, demo_session_key) \<in> sessions (gws_mgr st1) \<and>
     tls_accept (gateway_visitor (gw_on_tls_handshaking P demo_builder) demo_gw_lib demo_reachable_net demo_config) 1 (Inr demo_incoming)
       (polling_gateway demo_config) started = Some (Ok (), st1) \<and>
     gw_main P [] = Some (([], 0), Some st) \<and> sessions (gws_mgr st) = {}"
proof -
  let ?crl = "(tb_crl_file demo_builder, [None])"
  obtain ch where step2: "demo_gw_step (demo_at ?crl demo_mgr [demo_control_conn]) (demo_at ?crl demo_started_mgr [demo_control_conn\<lparr>cn_events := ch\<rparr>])"
    using demo_start_arrives by blast
  let ?started = "demo_at ?crl demo_started_mgr [demo_control_conn\<lparr>cn_events := ch\<rparr>]"
  let ?P = "demo_process [(Inl would_block_error, \<lambda>_. ?started), (Inr demo_incoming, shutdown_function)]"
  let ?B = "gw_on_tls_handshaking ?P demo_builder"
  let ?V = "gateway_visitor ?B demo_gw_lib demo_reachable_net demo_config"
  obtain st1 vis where a: "tls_accept ?V 1 (Inr demo_incoming) (polling_gateway demo_config) ?started = Some (Ok (), st1)"
    "fresh_arrival (demo_tls 100) demo_started_mgr (gws_mgr st1)" "(203, 100, demo_session_key) \<in> sessions (gws_mgr st1)"
    by (rule demo_arrival)
  let ?other = "other_step True demo_gw_lib demo_reachable_net demo_json demo_cli demo_config"
  have o1: "?other\<^sup>*\<^sup>* (demo_at ?crl demo_mgr []) ?started"
    by (rule converse_rtranclp_into_rtranclp[where r = ?other, OF other_step.gateway[OF demo_control_arrives[of ?crl]]
        r_into_rtranclp[where r = ?other, OF other_step.gateway[OF step2]]])
  have o2: "?other\<^sup>*\<^sup>* st1 (shutdown_function st1)" using other_step.signal by blast
  have a1: "tls_accept ?V 1 (Inl would_block_error) (polling_gateway demo_config) (demo_at ?crl demo_mgr []) =
      Some (Err (accept_error (polling_gateway demo_config) would_block_error), demo_at ?crl demo_mgr [])" by (simp add: tls_accept_def)
  have run: "signalled_run True demo_json demo_cli ?B demo_gw_lib demo_reachable_net demo_config 1
      [(Inl would_block_error, \<lambda>_. ?started), (Inr demo_incoming, shutdown_function)] (polling_gateway demo_config) (demo_at ?crl demo_mgr [])"
    using a a1 o1 o2 by (simp add: demo_incoming_def shutdown_function_def)
  have st0: "(main_new demo_config)\<lparr>gws_crl := ?crl\<rparr> = demo_at ?crl demo_mgr []" by (simp add: demo_main_new)
  have P: "gp_crl ?P = True" "gp_db ?P = demo_db" "gp_files ?P = demo_files [7] 1" "gp_rustls ?P = demo_rustls" "gp_dns ?P = Inr ()"
    "gp_args ?P = demo_args" "gp_tls_args ?P = demo_tls_args" "gp_log ?P = demo_log" "gp_lib ?P = demo_gw_lib" "gp_net ?P = demo_reachable_net"
    "gp_fuel ?P = 1" "gp_set_handler ?P = None" "gp_bind ?P = None" "gp_nonblocking ?P = None"
    "gp_cycles ?P = [(Inl would_block_error, \<lambda>_. ?started), (Inr demo_incoming, shutdown_function)]"
    by (simp_all add: demo_process_def)
  have "\<exists>st. gw_main ?P [] = Some (([], 0), Some st) \<and> gws_shutdown_requested st \<and> sessions (gws_mgr st) = {}"
    by (rule signal_ends_gateway[where cfg = demo_config and b = demo_builder and cells' = "[None]" and chk = True and S = demo_json and C = demo_cli])
      (simp_all only: P st0 demo_gateway_config run demo_log_def log_lib.select_convs)
  with a show ?thesis unfolding Let_def by blast
qed

text \<open>
  The same signal at the client closes every proxy of every service and asks every listener to stop, before the
  process ends with exit code 0.
\<close>

theorem signal_ends_client:
  assumes "cli_mgr_inv mgr" and "receiver_alive (xs_proxy_tasks (xm_shared mgr))"
  shows "\<exists>out' mgr'. cli_signal_handler G target lg (out, cl, w, mgr) = ((out', cl, w, mgr'), Ok 0) \<and> cli_mgr_inv mgr' \<and>
    (\<forall>k. get_proxy_service_for_proxy_key mgr' k = None) \<and>
    (\<forall>sid v. get_proxy_visitor_for_service mgr' sid = Some v \<longrightarrow> xv_shutdown_requested v)"
  using cli_shutdown_all[OF assms] by (auto simp: cli_signal_handler_def cli_shutdown_function_def)

end
