(* ===== verification/T0_Tunnel.thy ===== *)
theory T0_Tunnel
  imports T0_Proxy_Stream "HOL-Library.Sublist"
begin

text \<open>
  The tunnel from a local application to a service: the proxy of the client, the connection between
  client and gateway, and the proxy of the gateway.  A TCP service has a \<open>TcpAndTcp\<close> proxy at both ends; a UDP
  service has a \<open>ChannelAndTcp\<close> proxy at the client and a \<open>TcpAndUdp\<close> proxy at the gateway.  The threads are those of
  \<open>T0_Proxy_Stream\<close>; this theory adds what the \<open>ChannelAndTcp\<close> proxy relays and composes the two ends.
\<close>

section \<open>The channel and TCP proxy\<close>

text \<open>The content of the messages among the rounds of the thread that copies from the channel.\<close>

fun round_data :: "bool \<times> proxy_event option \<Rightarrow> bytes" where
  "round_data (_, Some (ProxyMessage _ _ data)) = data"
| "round_data _ = []"

definition message_data :: "(bool \<times> proxy_event option) list \<Rightarrow> bytes" where
  "message_data rounds = concat (map round_data rounds)"

lemma message_data_simps [simp]:
  "message_data [] = []" "message_data (rd # rounds) = round_data rd @ message_data rounds"
  by (simp_all add: message_data_def)

lemma channel_loop_relays:
  assumes "channel_to_tcp_loop rounds s = Some (r, s', closing)" and "st_writes s = []"
  shows "\<exists>used rest. rounds = used @ rest \<and> st_sent s' = st_sent s @ message_data used \<and>
    st_reads s' = st_reads s \<and> st_writes s' = [] \<and> (\<forall>m. r \<noteq> Panic m)"
  using assms
proof (induction rounds s rule: channel_to_tcp_loop.induct)
  case (1 s)
  then show ?case by simp
next
  case (2 cl received rounds s)
  consider (stop) "s' = s" "\<forall>m. r \<noteq> Panic m"
    | (closed) k where "received = Some (ProxyClosed k)" "\<not> cl" "channel_to_tcp_loop rounds s = Some (r, s', closing)"
    | (msg) k a data where "received = Some (ProxyMessage k a data)" "\<not> cl"
      "channel_to_tcp_loop rounds (s\<lparr>st_sent := st_sent s @ data\<rparr>) = Some (r, s', closing)"
    using "2.prems"
    by (auto simp: write_tcp_stream_free split: if_splits option.splits proxy_event.splits)
  then show ?case
  proof cases
    case stop
    then show ?thesis using "2.prems"(2) by (intro exI[of _ "[]"] exI[of _ "(cl, received) # rounds"]) simp
  next
    case closed
    from "2.IH"(1)[OF closed(2,1)] closed(3) "2.prems"(2) obtain used rest where "rounds = used @ rest"
      "st_sent s' = st_sent s @ message_data used" "st_reads s' = st_reads s" "st_writes s' = []" "\<forall>m. r \<noteq> Panic m" by blast
    then show ?thesis using closed(1) by (intro exI[of _ "(cl, received) # used"] exI[of _ rest]) simp
  next
    case msg
    have "write_tcp_stream data s = (Ok (), s\<lparr>st_sent := st_sent s @ data\<rparr>)" using "2.prems"(2) by (rule write_tcp_stream_free)
    with msg "2.IH"(2) "2.prems"(2) obtain used rest where "rounds = used @ rest"
      "st_sent s' = st_sent s @ data @ message_data used" "st_reads s' = st_reads s" "st_writes s' = []" "\<forall>m. r \<noteq> Panic m"
      by fastforce
    then show ?thesis using msg(1) by (intro exI[of _ "(cl, received) # used"] exI[of _ rest]) simp
  qed
qed

lemma ct_channel_thread_sent:
  assumes "ct_channel_thread rounds p ch = Some (r, p', ch')" and "st_writes (ct_stream p) = []"
  shows "\<exists>used rest. rounds = used @ rest \<and> st_sent (ct_stream p') = st_sent (ct_stream p) @ message_data used"
proof -
  from assms(1) obtain s closing where c: "channel_to_tcp_loop rounds (ct_stream p) = Some (r, s, closing)"
    "st_sent (ct_stream p') = st_sent s"
    by (auto simp: ct_channel_thread_def ct_perform_shutdown_def Let_def split: option.splits prod.splits res.splits)
  from channel_loop_relays[OF c(1) assms(2)] c(2) show ?thesis by metis
qed

text \<open>
  The other direction: what is taken from the stream goes out as non-empty messages to the peer's
  address, followed by \<open>l\<close> bytes that were read and not sent.
\<close>

definition ct_relayed :: "string \<Rightarrow> string \<Rightarrow> bytes \<Rightarrow> net_stream \<times> proxy_event chan \<Rightarrow> net_stream \<times> proxy_event chan \<Rightarrow> bool" where
  "ct_relayed key addr l s s' \<longleftrightarrow>
     (receiver_alive (snd s) \<longrightarrow> receiver_alive (snd s') \<and>
        (\<exists>ds. pending (st_reads (fst s)) = concat ds @ l @ pending (st_reads (fst s')) \<and> [] \<notin> set ds \<and>
           queue (snd s') = queue (snd s) @ map (ProxyMessage key addr) ds))"

lemma ct_relayedI:
  assumes "receiver_alive ch \<Longrightarrow> receiver_alive ch' \<and> pending (st_reads t) = concat ds @ l @ pending (st_reads t') \<and> [] \<notin> set ds \<and>
    queue ch' = queue ch @ map (ProxyMessage key addr) ds"
  shows "ct_relayed key addr l (t, ch) (t', ch')"
  using assms unfolding ct_relayed_def fst_conv snd_conv by blast

lemma channel_write_alive:
  "receiver_alive ch \<Longrightarrow> channel_write key addr data ch =
     (Ok (), ch\<lparr>queue := queue ch @ map (ProxyMessage key addr) (if data = [] then [] else [data])\<rparr>)"
  by (simp add: channel_write_def chan_send_def)

lemma channel_write_no_panic: "channel_write key addr data ch \<noteq> (Panic m, ch')"
  by (auto simp: channel_write_def split: option.splits)

lemma ct_copy_relays:
  assumes "ct_copy key addr tok s = Some (fl, s')"
  shows "\<exists>l. ct_relayed key addr l s s' \<and> ((\<forall>e. fl \<noteq> Failed e) \<longrightarrow> l = []) \<and> (\<forall>m. fl \<noteq> Aborted m)"
proof -
  obtain t ch t' ch' where s: "s = (t, ch)" "s' = (t', ch')" by (cases s; cases s') auto
  have c: "copy_data read_tcp_stream (channel_write key addr) t ch = (fl, t', ch')"
    using assms s by (auto simp: ct_copy_def split: if_splits)
  obtain r t1 where r: "read_tcp_stream t = (r, t1)" by fastforce
  from r show ?thesis
  proof (cases rule: read_tcp_stream_cases)
    case (ok data)
    obtain w ch1 where w: "channel_write key addr data ch = (w, ch1)" by fastforce
    with ok c r have e: "fl = write_flow w" "t' = t1" "ch' = ch1" by (auto simp: copy_data_def)
    have "\<forall>m. fl \<noteq> Aborted m" using e(1) w channel_write_no_panic[of key addr data ch] by auto
    moreover have "ct_relayed key addr [] s s'"
      unfolding s using w e ok(2) channel_write_alive[of ch key addr data]
      by (intro ct_relayedI[where ds = "if data = [] then [] else [data]"]) auto
    ultimately show ?thesis by blast
  next
    case (err e lost)
    with c r have e: "fl = Failed e" "t' = t1" "ch' = ch" by (auto simp: copy_data_def)
    then have "ct_relayed key addr lost s s'"
      unfolding s using err(2) by (intro ct_relayedI[where ds = "[]"]) auto
    with e show ?thesis by blast
  qed
qed

lemma ct_relayed_refl: "ct_relayed key addr [] s s"
  using ct_relayedI[where ds = "[]"] by (cases s) auto

lemma ct_relayed_trans:
  assumes "ct_relayed key addr [] a b" and "ct_relayed key addr l b c"
  shows "ct_relayed key addr l a c"
proof (cases "receiver_alive (snd a)")
  case True
  with assms(1) obtain ds where ab: "receiver_alive (snd b)" "pending (st_reads (fst a)) = concat ds @ pending (st_reads (fst b))"
    "[] \<notin> set ds" "queue (snd b) = queue (snd a) @ map (ProxyMessage key addr) ds" by (auto simp: ct_relayed_def)
  with assms(2) obtain ds' where bc: "receiver_alive (snd c)" "pending (st_reads (fst b)) = concat ds' @ l @ pending (st_reads (fst c))"
    "[] \<notin> set ds'" "queue (snd c) = queue (snd b) @ map (ProxyMessage key addr) ds'" by (auto simp: ct_relayed_def)
  from ab bc show ?thesis by (auto simp: ct_relayed_def intro!: exI[of _ "ds @ ds'"])
qed (simp add: ct_relayed_def)

interpretation ct_relay: relay "ct_copy key addr" "ct_relayed key addr []" "\<lambda>s s'. \<exists>l. ct_relayed key addr l s s'"
proof unfold_locales
  fix tok s fl s' e m
  show "ct_copy key addr tok s = Some (fl, s') \<Longrightarrow> (\<forall>e. fl \<noteq> Failed e) \<Longrightarrow> ct_relayed key addr [] s s'"
    using ct_copy_relays by fastforce
  show "ct_copy key addr tok s = Some (Failed e, s') \<Longrightarrow> \<exists>l. ct_relayed key addr l s s'"
    using ct_copy_relays by blast
  show "ct_copy key addr tok s \<noteq> Some (Aborted m, s')"
    using ct_copy_relays by blast
qed (auto intro: ct_relayed_refl ct_relayed_trans)

lemma ct_stream_thread_relays:
  assumes "ct_stream_thread E p sc ch = Some (r, (p', ch'), sc')" and "receiver_alive sc"
  shows "\<exists>ds l. pending (st_reads (ct_stream p)) = concat ds @ l @ pending (st_reads (ct_stream p')) \<and>
    queue sc' = queue sc @ map (ProxyMessage (ct_key p) (ct_addr p)) ds \<and> [] \<notin> set ds \<and> (r = Ok () \<longrightarrow> l = [])"
proof (cases "ie_poll_new E = None \<and> ie_register1 E = None")
  case True
  with assms(1) obtain s closing where cl: "copy_loop (ct_copy (ct_key p) (ct_addr p)) tu_reregister_msg (ie_rounds E) (ct_stream p, sc) =
      Some (r, (s, sc'), closing)" "st_reads (ct_stream p') = st_reads s"
    by (auto simp: ct_stream_thread_def ct_perform_shutdown_def Let_def split: option.splits prod.splits res.splits)
  from ct_relay.copy_loop_keeps[OF cl(1)] obtain l where "ct_relayed (ct_key p) (ct_addr p) l (ct_stream p, sc) (s, sc')"
    "r = Ok () \<longrightarrow> l = []" by blast
  with assms(2) cl(2) show ?thesis by (auto simp: ct_relayed_def)
next
  case False
  with assms(1) have "sc' = sc" "st_reads (ct_stream p') = st_reads (ct_stream p)"
    by (auto simp: ct_stream_thread_def ct_perform_shutdown_def split: option.splits)
  then show ?thesis by (intro exI[of _ "[]"]) simp
qed

section \<open>Hops and tunnels\<close>

text \<open>
  A hop is a machine that puts out, in order, an initial part of what it is given.  Two hops in a row
  make a tunnel: when what the second is given is an initial part of what the first has put out, the
  tunnel is a hop again.
\<close>

locale hop =
  fixes run :: "'s \<Rightarrow> 's \<Rightarrow> bool" and given :: "'s \<Rightarrow> bytes" and put_out :: "'s \<Rightarrow> bytes"
  assumes forwards: "run s s' \<Longrightarrow> prefix (put_out s') (given s)"

locale tunnel = first: hop run1 given1 out1 + second: hop run2 given2 out2
  for run1 :: "'s \<Rightarrow> 's \<Rightarrow> bool" and given1 out1 :: "'s \<Rightarrow> bytes"
    and run2 :: "'t \<Rightarrow> 't \<Rightarrow> bool" and given2 out2 :: "'t \<Rightarrow> bytes"
begin

lemma end_to_end: "run1 s s' \<Longrightarrow> run2 t t' \<Longrightarrow> prefix (given2 t) (out1 s') \<Longrightarrow> prefix (out2 t') (given1 s)"
  using first.forwards second.forwards prefix_order.trans by metis

end

text \<open>A stream that takes everything that is written to it (no write is refused or fails) and on which nothing has been sent yet.\<close>

definition fresh_stream :: "net_stream \<Rightarrow> bool" where
  "fresh_stream s \<longleftrightarrow> st_writes s = [] \<and> st_sent s = []"

text \<open>What TCP promises: the bytes a stream receives are an initial part of those its peer has sent.\<close>

definition delivered :: "net_stream \<Rightarrow> net_stream \<Rightarrow> bool" where
  "delivered sender receiver \<longleftrightarrow> prefix (pending (st_reads receiver)) (st_sent sender)"

definition tt_run :: "tt_proxy \<Rightarrow> tt_proxy \<Rightarrow> bool" where
  "tt_run p p' \<longleftrightarrow> fresh_stream (tt_stream1 p) \<and> fresh_stream (tt_stream2 p) \<and> (\<exists>E ch r ch'. tt_thread E p ch = Some (r, p', ch'))"

definition ct_channel_run :: "(bool \<times> proxy_event option) list \<times> ct_proxy \<Rightarrow> (bool \<times> proxy_event option) list \<times> ct_proxy \<Rightarrow> bool" where
  "ct_channel_run s s' \<longleftrightarrow> fresh_stream (ct_stream (snd s)) \<and>
     (\<exists>ch r ch'. ct_channel_thread (fst s) (snd s) ch = Some (r, snd s', ch'))"

definition ct_stream_run :: "ct_proxy \<times> proxy_event chan \<Rightarrow> ct_proxy \<times> proxy_event chan \<Rightarrow> bool" where
  "ct_stream_run s s' \<longleftrightarrow> receiver_alive (snd s) \<and> queue (snd s) = [] \<and>
     (\<exists>E ch r ch'. ct_stream_thread E (fst s) (snd s) ch = Some (r, (fst s', ch'), snd s'))"

definition tu_run :: "tu_proxy \<Rightarrow> tu_proxy \<Rightarrow> bool" where
  "tu_run p p' \<longleftrightarrow> fresh_stream (tu_stream p) \<and> us_sends (tu_socket p) = [] \<and> us_sent (tu_socket p) = [] \<and>
     (\<exists>E ch r ch'. tu_thread E p ch = Some (r, p', ch'))"

text \<open>The bytes in the messages for the server socket, and in the datagrams sent to a service.\<close>

definition channel_data :: "proxy_event chan \<Rightarrow> bytes" where
  "channel_data ch = message_data (map (\<lambda>ev. (False, Some ev)) (queue ch))"

definition sent_data :: "udp_sock \<Rightarrow> bytes" where
  "sent_data u = concat (map snd (us_sent u))"

lemma message_data_messages: "message_data (map (\<lambda>ev. (False, Some ev)) (map (ProxyMessage key addr) ds)) = concat ds"
  by (simp add: message_data_def comp_def)

lemma tt_run_relays:
  assumes "tt_run p p'"
  shows "prefix (st_sent (tt_stream2 p')) (pending (st_reads (tt_stream1 p))) \<and>
    prefix (st_sent (tt_stream1 p')) (pending (st_reads (tt_stream2 p)))"
proof -
  from assms obtain E ch r ch' where "tt_thread E p ch = Some (r, p', ch')" "fresh_stream (tt_stream1 p)" "fresh_stream (tt_stream2 p)"
    by (auto simp: tt_run_def)
  with tt_thread_relays show ?thesis by (fastforce simp: fresh_stream_def)
qed

lemma tu_run_relays:
  assumes "tu_run p p'"
  shows "prefix (sent_data (tu_socket p')) (pending (st_reads (tu_stream p))) \<and>
    prefix (st_sent (tu_stream p')) (datagram_data (us_recvs (tu_socket p)))"
proof -
  from assms obtain E ch r ch' where t: "tu_thread E p ch = Some (r, p', ch')" and f: "st_writes (tu_stream p) = []" "st_sent (tu_stream p) = []"
    "us_sends (tu_socket p) = []" "us_sent (tu_socket p) = []" by (auto simp: tu_run_def fresh_stream_def)
  from tu_thread_ends[OF t] obtain l s where "tu_relayed l (tu_stream p, tu_socket p) s" "tu_stream p' = snd (sock_shutdown (fst s))"
    "tu_socket p' = snd s" by blast
  with f obtain ds rs where "pending (st_reads (tu_stream p)) = concat ds @ l @ pending (st_reads (fst s))"
    "us_sent (tu_socket p') = map (\<lambda>d. (None, d)) ds" "us_recvs (tu_socket p) = rs @ us_recvs (snd s)"
    "st_sent (tu_stream p') = datagram_data rs" by (auto simp: tu_relayed_def)
  then show ?thesis by (simp add: sent_data_def comp_def datagram_data_def)
qed

interpretation tt_up: hop tt_run "\<lambda>p. pending (st_reads (tt_stream1 p))" "\<lambda>p. st_sent (tt_stream2 p)"
  by unfold_locales (simp add: tt_run_relays)

interpretation tt_down: hop tt_run "\<lambda>p. pending (st_reads (tt_stream2 p))" "\<lambda>p. st_sent (tt_stream1 p)"
  by unfold_locales (simp add: tt_run_relays)

interpretation tu_up: hop tu_run "\<lambda>p. pending (st_reads (tu_stream p))" "\<lambda>p. sent_data (tu_socket p)"
  by unfold_locales (simp add: tu_run_relays)

interpretation tu_down: hop tu_run "\<lambda>p. datagram_data (us_recvs (tu_socket p))" "\<lambda>p. st_sent (tu_stream p)"
  by unfold_locales (simp add: tu_run_relays)

interpretation ct_up: hop ct_channel_run "\<lambda>s. message_data (fst s)" "\<lambda>s. st_sent (ct_stream (snd s))"
proof unfold_locales
  fix s s'
  assume "ct_channel_run s s'"
  then obtain ch r ch' where "ct_channel_thread (fst s) (snd s) ch = Some (r, snd s', ch')" "fresh_stream (ct_stream (snd s))"
    by (auto simp: ct_channel_run_def)
  with ct_channel_thread_sent show "prefix (st_sent (ct_stream (snd s'))) (message_data (fst s))"
    by (fastforce simp: fresh_stream_def message_data_def)
qed

interpretation ct_down: hop ct_stream_run "\<lambda>s. pending (st_reads (ct_stream (fst s)))" "\<lambda>s. channel_data (snd s)"
proof unfold_locales
  fix s s'
  assume "ct_stream_run s s'"
  then obtain E ch r ch' where "ct_stream_thread E (fst s) (snd s) ch = Some (r, (fst s', ch'), snd s')" "receiver_alive (snd s)" "queue (snd s) = []"
    by (auto simp: ct_stream_run_def)
  with ct_stream_thread_relays obtain ds l where "pending (st_reads (ct_stream (fst s))) = concat ds @ l @ pending (st_reads (ct_stream (fst s')))"
    "queue (snd s') = map (ProxyMessage (ct_key (fst s)) (ct_addr (fst s))) ds" by fastforce
  then show "prefix (channel_data (snd s')) (pending (st_reads (ct_stream (fst s))))"
    by (simp add: channel_data_def message_data_messages del: map_map)
qed

interpretation tcp_up: tunnel tt_run "\<lambda>p. pending (st_reads (tt_stream1 p))" "\<lambda>p. st_sent (tt_stream2 p)"
  tt_run "\<lambda>p. pending (st_reads (tt_stream1 p))" "\<lambda>p. st_sent (tt_stream2 p)" ..

interpretation tcp_down: tunnel tt_run "\<lambda>p. pending (st_reads (tt_stream2 p))" "\<lambda>p. st_sent (tt_stream1 p)"
  tt_run "\<lambda>p. pending (st_reads (tt_stream2 p))" "\<lambda>p. st_sent (tt_stream1 p)" ..

interpretation udp_up: tunnel ct_channel_run "\<lambda>s. message_data (fst s)" "\<lambda>s. st_sent (ct_stream (snd s))"
  tu_run "\<lambda>p. pending (st_reads (tu_stream p))" "\<lambda>p. sent_data (tu_socket p)" ..

interpretation udp_down: tunnel tu_run "\<lambda>p. datagram_data (us_recvs (tu_socket p))" "\<lambda>p. st_sent (tu_stream p)"
  ct_stream_run "\<lambda>s. pending (st_reads (ct_stream (fst s)))" "\<lambda>s. channel_data (snd s)" ..

section \<open>The tunnels of the program\<close>

text \<open>
  C7: as long as no socket refuses a write, the tunnel of a TCP service is faithful end to end.  When the proxies
  of the client and of the gateway have ended, no write to any of their four sockets was refused
  (\<open>fresh_stream\<close>), and the connection between them delivered an initial part of what each had sent to the
  other, the service was sent an initial part of what the application wrote, in order and without a gap,
  and the application an initial part of what the service wrote.  When both proxies ended well and nothing
  was left on the way, the service was sent everything.  (A block whose write is refused with
  \<open>WouldBlock\<close> is lost: \<open>refused_block_is_dropped\<close> in \<open>T0_Proxy_Stream\<close>.)
\<close>

theorem tcp_tunnel_faithful:
  assumes "tt_thread Ec pc chc = Some (rc, pc', chc')" and "tt_thread Eg pg chg = Some (rg, pg', chg')"
    and "fresh_stream (tt_stream1 pc)" and "fresh_stream (tt_stream2 pc)" and "fresh_stream (tt_stream1 pg)" and "fresh_stream (tt_stream2 pg)"
    and "delivered (tt_stream2 pc') (tt_stream1 pg)" and "delivered (tt_stream1 pg') (tt_stream2 pc)"
  shows "prefix (st_sent (tt_stream2 pg')) (pending (st_reads (tt_stream1 pc))) \<and>
    prefix (st_sent (tt_stream1 pc')) (pending (st_reads (tt_stream2 pg))) \<and>
    (rc = Ok () \<and> rg = Ok () \<and> pending (st_reads (tt_stream1 pc')) = [] \<and> pending (st_reads (tt_stream1 pg')) = [] \<and>
       pending (st_reads (tt_stream1 pg)) = st_sent (tt_stream2 pc') \<longrightarrow>
     st_sent (tt_stream2 pg') = pending (st_reads (tt_stream1 pc)))"
proof -
  have runs: "tt_run pc pc'" "tt_run pg pg'" using assms by (auto simp: tt_run_def)
  have "prefix (st_sent (tt_stream2 pg')) (pending (st_reads (tt_stream1 pc)))"
    using tcp_up.end_to_end[OF runs] assms(7) by (simp add: delivered_def)
  moreover have "prefix (st_sent (tt_stream1 pc')) (pending (st_reads (tt_stream2 pg)))"
    using tcp_down.end_to_end[OF runs(2,1)] assms(8) by (simp add: delivered_def)
  moreover have "st_sent (tt_stream2 p') = pending (st_reads (tt_stream1 p))"
    if "tt_thread E p ch = Some (Ok (), p', ch')" "fresh_stream (tt_stream1 p)" "fresh_stream (tt_stream2 p)" "pending (st_reads (tt_stream1 p')) = []"
    for E p p' ch ch' using tt_thread_relays[OF that(1)] that(2-4) by (auto simp: fresh_stream_def)
  ultimately show ?thesis using assms(1-6) by metis
qed

lemma demo_streams: "fresh_stream (tt_stream1 demo_tt)" "fresh_stream (tt_stream2 demo_tt)"
  by (simp_all add: fresh_stream_def demo_tt_def demo_stream_def)

theorem tcp_tunnel_faithful_witness:
  "\<exists>p' ch'. tt_thread demo_io demo_tt new_chan = Some (Ok (), p', ch') \<and> delivered (tt_stream2 p') (tt_stream1 demo_tt) \<and>
     st_sent (tt_stream2 p') = [1, 2]"
proof -
  obtain p' ch' where r: "tt_thread demo_io demo_tt new_chan = Some (Ok (), p', ch')" and
    p': "st_sent (tt_stream2 p') = [1, 2]" "st_reads (tt_stream1 p') = []" "st_sent (tt_stream1 p') = []"
    using demo_tt_run by (auto simp: demo_stream_def)
  have d: "delivered (tt_stream2 p') (tt_stream1 demo_tt)" "delivered (tt_stream1 p') (tt_stream2 demo_tt)"
    by (simp_all add: delivered_def p' demo_tt_def demo_stream_def)
  from tcp_tunnel_faithful[OF r r demo_streams demo_streams d] r d p' show ?thesis by (auto simp: demo_tt_def)
qed

text \<open>The contents of the datagrams the operating system has for a socket, whole; and whether each fits the receive buffer.\<close>

definition answer_data :: "(io_error + string \<times> bytes) list \<Rightarrow> bytes" where
  "answer_data rs = concat (map (case_sum (\<lambda>_. []) snd) rs)"

definition answers_fit :: "(io_error + string \<times> bytes) list \<Rightarrow> bool" where
  "answers_fit rs \<longleftrightarrow> list_all (case_sum (\<lambda>_. True) (\<lambda>(_, d). length d \<le> UDP_RECV_BUFFER_SIZE)) rs"

lemma datagrams_whole: "answers_fit rs \<Longrightarrow> datagram_data rs = answer_data rs"
  by (induction rs) (auto simp: datagram_data_def answer_data_def answers_fit_def split: sum.splits)

text \<open>
  C20: as long as no socket refuses a write, the tunnel of a UDP service keeps the bytes and their order, in both directions:
  the datagrams the gateway has sent to the service, put together, are an initial part of the contents of
  the datagrams the client had received, put together; and the messages handed to the client's server socket, put
  together, are an initial part of the contents of the service's answers, put together.  It is assumed that
  no write to the two TCP streams and no send of the gateway's UDP socket is refused, that the connection
  between client and gateway delivers an initial part of what was sent, that the server socket's channel is alive, and
  that each answer fits the receive buffer of the gateway, which cuts off the rest of a longer one.
\<close>

theorem udp_tunnel_keeps_bytes:
  assumes "ct_channel_thread rounds pc ch = Some (r, pc', ch')" and "tu_thread Eg pg chg = Some (rg, pg', chg')"
    and "ct_stream_thread Ec pc sc chs = Some (rs, (ps', chs'), sc')" and "receiver_alive sc" and "queue sc = []"
    and "fresh_stream (ct_stream pc)" and "fresh_stream (tu_stream pg)" and "us_sends (tu_socket pg) = []" and "us_sent (tu_socket pg) = []"
    and "delivered (ct_stream pc') (tu_stream pg)" and "delivered (tu_stream pg') (ct_stream pc)"
    and "answers_fit (us_recvs (tu_socket pg))"
  shows "prefix (sent_data (tu_socket pg')) (message_data rounds) \<and> prefix (channel_data sc') (answer_data (us_recvs (tu_socket pg)))"
proof -
  have runs: "ct_channel_run (rounds, pc) (rounds, pc')" "tu_run pg pg'" "ct_stream_run (pc, sc) (ps', sc')"
    using assms by (auto simp: ct_channel_run_def tu_run_def ct_stream_run_def)
  show ?thesis
    using udp_up.end_to_end[OF runs(1,2)] udp_down.end_to_end[OF runs(2,3)] assms(10,11)
    by (simp add: delivered_def flip: datagrams_whole[OF assms(12)])
qed

definition demo_socket :: udp_sock where
  "demo_socket = \<lparr>us_local_addr = Some ''127.0.0.1:9000'', us_recvs = [], us_sends = [], us_sent = [], us_clone_err = None, us_debug = ''UdpSocket''\<rparr>"

definition demo_ct :: ct_proxy where
  "demo_ct = \<lparr>ct_key = ''k'', ct_addr = ''10.0.0.9:999'', ct_stream = demo_stream, ct_closing = False, ct_closed = False\<rparr>"

definition demo_tunnel_tu :: tu_proxy where
  "demo_tunnel_tu = \<lparr>tu_key = ''k'', tu_stream = demo_stream\<lparr>st_reads := [Inr [1, 2]]\<rparr>, tu_socket = demo_socket,
     tu_closing = False, tu_closed = False\<rparr>"

definition demo_messages :: "(bool \<times> proxy_event option) list" where
  "demo_messages = [(False, Some (ProxyMessage ''k'' ''10.0.0.9:999'' [1])), (False, Some (ProxyMessage ''k'' ''10.0.0.9:999'' [2])), (True, None)]"

lemma shutdown_free: "st_shutdowns s = [] \<Longrightarrow> snd (sock_shutdown s) = s"
  by (simp add: sock_shutdown_def)

lemma demo_channel_run:
  "ct_channel_thread demo_messages demo_ct new_chan = Some (Ok (),
     demo_ct\<lparr>ct_stream := demo_stream\<lparr>st_sent := [1, 2]\<rparr>, ct_closing := True, ct_closed := True\<rparr>, new_chan\<lparr>queue := [ProxyClosed ''k'']\<rparr>)"
proof -
  have "channel_to_tcp_loop demo_messages demo_stream = Some (Ok (), demo_stream\<lparr>st_sent := [1, 2]\<rparr>, True)"
    by (simp add: demo_messages_def demo_stream_def write_tcp_stream_free)
  then show ?thesis
    by (simp add: ct_channel_thread_def demo_ct_def ct_perform_shutdown_def report_closed_def chan_send_def new_chan_def shutdown_free
        demo_stream_def Let_def)
qed

lemma demo_stream_run:
  "ct_stream_thread (demo_io\<lparr>ie_rounds := [\<lparr>pr_closing = True, pr_poll = Inr []\<rparr>]\<rparr>) demo_ct new_chan new_chan = Some (Ok (),
     (demo_ct\<lparr>ct_closing := True, ct_closed := True\<rparr>, new_chan\<lparr>queue := [ProxyClosed ''k'']\<rparr>), new_chan)"
  by (simp add: ct_stream_thread_def demo_io_def demo_ct_def ct_perform_shutdown_def report_closed_def chan_send_def new_chan_def shutdown_free
      demo_stream_def Let_def)

lemma demo_tu_run:
  "tu_thread demo_io demo_tunnel_tu new_chan = Some (Ok (),
     demo_tunnel_tu\<lparr>tu_stream := demo_stream, tu_socket := demo_socket\<lparr>us_sent := [(None, [1, 2])]\<rparr>, tu_closing := True, tu_closed := True\<rparr>,
     new_chan\<lparr>queue := [ProxyClosed ''k'']\<rparr>)"
proof -
  have r: "read_tcp_stream (demo_stream\<lparr>st_reads := [Inr [1, 2]]\<rparr>) = (Ok [1, 2], demo_stream)"
    using read_tcp_stream_short[of "demo_stream\<lparr>st_reads := [Inr [1, 2]]\<rparr>" "[1, 2]" "[]"]
    by (simp add: demo_stream_def TCP_READ_BLOCK_SIZE_def)
  have "tu_copy STREAM1_TOKEN (demo_stream\<lparr>st_reads := [Inr [1, 2]]\<rparr>, demo_socket) =
      Some (Forwarded, demo_stream, demo_socket\<lparr>us_sent := [(None, [1, 2])]\<rparr>)"
    by (simp add: tu_copy_def copy_data_def r write_udp_free demo_socket_def STREAM1_TOKEN_def TCP_STREAM_TOKEN_def)
  then show ?thesis
    by (simp add: tu_thread_def demo_io_def demo_tunnel_tu_def tu_perform_shutdown_def report_closed_def chan_send_def new_chan_def
        shutdown_free Let_def) (simp add: demo_stream_def shutdown_free)
qed

theorem udp_tunnel_keeps_bytes_witness:
  "\<exists>p' ch'. tu_thread demo_io demo_tunnel_tu new_chan = Some (Ok (), p', ch') \<and> sent_data (tu_socket p') = [1, 2] \<and>
     prefix (sent_data (tu_socket p')) (message_data demo_messages)"
proof -
  let ?p' = "demo_tunnel_tu\<lparr>tu_stream := demo_stream, tu_socket := demo_socket\<lparr>us_sent := [(None, [1, 2])]\<rparr>, tu_closing := True, tu_closed := True\<rparr>"
  have f: "fresh_stream (ct_stream demo_ct)" "fresh_stream (tu_stream demo_tunnel_tu)" "us_sends (tu_socket demo_tunnel_tu) = []"
    "us_sent (tu_socket demo_tunnel_tu) = []"
    by (simp_all add: fresh_stream_def demo_ct_def demo_tunnel_tu_def demo_stream_def demo_socket_def)
  have a: "receiver_alive (new_chan :: proxy_event chan)" "queue (new_chan :: proxy_event chan) = []" by (simp_all add: new_chan_def)
  have d: "delivered (ct_stream (demo_ct\<lparr>ct_stream := demo_stream\<lparr>st_sent := [1, 2]\<rparr>, ct_closing := True, ct_closed := True\<rparr>)) (tu_stream demo_tunnel_tu)"
    "delivered (tu_stream ?p') (ct_stream demo_ct)"
    by (simp_all add: delivered_def demo_ct_def demo_tunnel_tu_def demo_stream_def)
  have w: "answers_fit (us_recvs (tu_socket demo_tunnel_tu))" by (simp add: answers_fit_def demo_tunnel_tu_def demo_socket_def)
  have "sent_data (tu_socket ?p') = [1, 2]" by (simp add: sent_data_def)
  with udp_tunnel_keeps_bytes[OF demo_channel_run demo_tu_run demo_stream_run a f d w] demo_tu_run show ?thesis by blast
qed

text \<open>
  it does not keep the boundaries of the datagrams: two datagrams of the application whose bytes reach
  the gateway before it reads the stream leave it as one datagram.
\<close>

theorem udp_tunnel_merges_datagrams:
  assumes "st_writes s = []" and "st_reads t = [Inr (a @ b)]" and "length (a @ b) < TCP_READ_BLOCK_SIZE" and "us_sends u = []"
  shows "channel_to_tcp_loop [(False, Some (ProxyMessage key addr a)), (False, Some (ProxyMessage key addr b)), (True, None)] s =
      Some (Ok (), s\<lparr>st_sent := st_sent s @ a @ b\<rparr>, True) \<and>
    tu_copy TCP_STREAM_TOKEN (t, u) = Some (Forwarded, t\<lparr>st_reads := []\<rparr>, u\<lparr>us_sent := us_sent u @ [(None, a @ b)]\<rparr>)"
  using assms read_tcp_stream_short[OF assms(2,3)]
  by (simp add: write_tcp_stream_free tu_copy_def copy_data_def write_udp_free)

theorem udp_tunnel_merges_datagrams_witness:
  "tu_copy TCP_STREAM_TOKEN (demo_stream\<lparr>st_reads := [Inr ([1] @ [2])]\<rparr>, demo_socket) =
     Some (Forwarded, demo_stream\<lparr>st_reads := []\<rparr>, demo_socket\<lparr>us_sent := [(None, [1, 2])]\<rparr>)"
  using udp_tunnel_merges_datagrams[of demo_stream "demo_stream\<lparr>st_reads := [Inr ([1] @ [2])]\<rparr>" "[1]" "[2]" demo_socket "''k''" "''10.0.0.9:999''"]
  by (simp add: demo_stream_def TCP_READ_BLOCK_SIZE_def demo_socket_def)

end
