(* ===== verification/T0_Account.thy ===== *)
theory T0_Account
  imports T0_Executor
begin

text \<open>
  The traffic between a service manager, the executor and the threads of the proxies, for the gateway and the
  client alike: the manager sends the executor tasks (\<open>ProxyExecutorEvent\<close>), the threads send the manager
  events (\<open>ProxyEvent\<close>).  An abstract transition system, \<open>tunnel_step\<close>, keeps the account of it; its
  invariant says that every live tunnel has a session or is about to be closed.
\<close>

section \<open>The thread of a proxy\<close>

fun stream_closed :: "proxy_stream \<Rightarrow> bool" where
  "stream_closed (TcpAndTcpStream p) = tt_closed p"
| "stream_closed (TcpAndUdpStream p) = tu_closed p"
| "stream_closed (ChannelAndTcpStream p) = ct_closed p"

fun stream_key :: "proxy_stream \<Rightarrow> string" where
  "stream_key (TcpAndTcpStream p) = tt_key p"
| "stream_key (TcpAndUdpStream p) = tu_key p"
| "stream_key (ChannelAndTcpStream p) = ct_key p"

text \<open>A stream whose thread copies data and has not been told to stop.\<close>

definition stream_live :: "proxy_stream \<Rightarrow> bool" where
  "stream_live s \<longleftrightarrow> \<not> stream_closing s \<and> \<not> stream_closed s"

text \<open>No thread of the stream will report anything any more; of a channel proxy, one of two may still.\<close>

fun thread_ended :: "proxy_stream \<Rightarrow> bool" where
  "thread_ended (ChannelAndTcpStream p) = False"
| "thread_ended s = stream_closed s"

text \<open>A thread runs to its end: its proxy afterwards, and what it has reported.\<close>

inductive thread_run :: "proxy_stream \<Rightarrow> proxy_event chan \<Rightarrow> proxy_stream \<Rightarrow> proxy_event chan \<Rightarrow> bool" where
  tcp: "tt_thread io p ch = Some (r, p', ch') \<Longrightarrow> thread_run (TcpAndTcpStream p) ch (TcpAndTcpStream p') ch'"
| udp: "tu_thread io p ch = Some (r, p', ch') \<Longrightarrow> thread_run (TcpAndUdpStream p) ch (TcpAndUdpStream p') ch'"
| channel: "ct_channel_thread rounds p ch = Some (r, p', ch') \<Longrightarrow> thread_run (ChannelAndTcpStream p) ch (ChannelAndTcpStream p') ch'"
| stream: "ct_stream_thread io p out ch = Some (r, (p', ch'), out') \<Longrightarrow> thread_run (ChannelAndTcpStream p) ch (ChannelAndTcpStream p') ch'"

definition ended_as :: "proxy_stream \<Rightarrow> proxy_event chan \<Rightarrow> proxy_stream \<Rightarrow> proxy_event chan \<Rightarrow> bool" where
  "ended_as s ch s' ch' \<longleftrightarrow> stream_key s' = stream_key s \<and> (stream_live s' \<longrightarrow> stream_live s) \<and>
     (ch' = ch \<or> ch' = report_closed (stream_key s) ch \<and> stream_closed s')"

lemmas perform_shutdown_defs = tt_perform_shutdown_def tu_perform_shutdown_def ct_perform_shutdown_def

lemma thread_run_ended: "thread_run s ch s' ch' \<Longrightarrow> ended_as s ch s' ch'"
proof (induction rule: thread_run.induct)
  case (tcp io p ch r p' ch')
  then show ?case
    by (auto simp: tt_thread_def perform_shutdown_defs ended_as_def stream_live_def Let_def split: option.splits res.splits)
next
  case (udp io p ch r p' ch')
  then show ?case
    by (auto simp: tu_thread_def perform_shutdown_defs ended_as_def stream_live_def Let_def split: option.splits res.splits)
next
  case (channel rounds p ch r p' ch')
  then show ?case
    by (auto simp: ct_channel_thread_def perform_shutdown_defs ended_as_def stream_live_def Let_def split: option.splits res.splits)
next
  case (stream io p out ch r p' ch' out')
  then show ?case
    by (auto simp: ct_stream_thread_def perform_shutdown_defs ended_as_def stream_live_def Let_def split: option.splits res.splits)
qed

section \<open>The account of the tunnels\<close>

text \<open>
  The keys of the sessions, the tasks the executor has not taken yet, and the executor.  A key is free
  when no session, no task, no event and no running thread has it.
\<close>

type_synonym account = "string set \<times> proxy_task list \<times> proxy_executor"

fun opens_proxy :: "proxy_task \<Rightarrow> bool" where
  "opens_proxy (CloseProxy k) = False"
| "opens_proxy t = True"

definition opening_keys :: "proxy_task list \<Rightarrow> string list" where
  "opening_keys Q = map task_key (filter opens_proxy Q)"

definition key_free :: "string \<Rightarrow> account \<Rightarrow> bool" where
  "key_free k acc = (case acc of (K, Q, ex) \<Rightarrow> k \<notin> K \<and> k \<notin> set (opening_keys Q) \<and>
     ProxyClosed k \<notin> set (queue (ex_events ex)) \<and> (\<forall>s. hm_get (ex_streams ex) k = Some s \<longrightarrow> thread_ended s))"

text \<open>
  Its steps: a session with a free key and the task that opens its proxy; the end of some sessions, with
  the tasks that close their proxies; the executor takes a task; a thread ends; an event ends a session,
  or comes before the session is entered and is taken without effect.
\<close>

inductive tunnel_step :: "account \<Rightarrow> account \<Rightarrow> bool" where
  idle: "tunnel_step acc acc"
| admit: "opens_proxy t \<Longrightarrow> key_free (task_key t) (K, Q, ex) \<Longrightarrow> tunnel_step (K, Q, ex) (insert (task_key t) K, Q @ [t], ex)"
| revoke: "K' \<subseteq> K \<Longrightarrow> K \<subseteq> K' \<union> set ks \<Longrightarrow> tunnel_step (K, Q, ex) (K', Q @ map CloseProxy ks, ex)"
| execute: "executor_task E t ex = (r, ex') \<Longrightarrow> tunnel_step (K, t # Q, ex) (K, Q, ex')"
| finish: "hm_get (ex_streams ex) k = Some s \<Longrightarrow> \<not> thread_ended s \<Longrightarrow> thread_run s (ex_events ex) s' ch' \<Longrightarrow>
    tunnel_step (K, Q, ex) (K, Q, ex\<lparr>ex_streams := hm_insert k s' (ex_streams ex), ex_events := ch'\<rparr>)"
| forget: "queue (ex_events ex) = ProxyClosed k # evs \<Longrightarrow> K - {k} \<subseteq> K' \<Longrightarrow> K' \<subseteq> K \<Longrightarrow>
    tunnel_step (K, Q, ex) (K', Q, ex\<lparr>ex_events := (ex_events ex)\<lparr>queue := evs\<rparr>\<rparr>)"

text \<open>
  The invariant: each stream is filed under its own key, and if it is live it has a session or a task to
  close it; the same holds of a proxy still to be opened, with a closing task behind the opening one; a
  reported end is that of a stream that is not live, and of no proxy still to be opened.
\<close>

definition owned :: "string set \<Rightarrow> proxy_task list \<Rightarrow> string \<Rightarrow> bool" where
  "owned K Q k \<longleftrightarrow> k \<in> K \<or> CloseProxy k \<in> set Q"

fun tasks_owned :: "string set \<Rightarrow> proxy_task list \<Rightarrow> bool" where
  "tasks_owned K [] \<longleftrightarrow> True"
| "tasks_owned K (t # Q) \<longleftrightarrow> (opens_proxy t \<longrightarrow> owned K Q (task_key t)) \<and> tasks_owned K Q"

definition streams_owned :: "account \<Rightarrow> bool" where
  "streams_owned acc = (case acc of (K, Q, ex) \<Rightarrow>
     \<forall>k s. hm_get (ex_streams ex) k = Some s \<longrightarrow> stream_key s = k \<and> (stream_live s \<longrightarrow> owned K Q k))"

definition openings_fresh :: "account \<Rightarrow> bool" where
  "openings_fresh acc = (case acc of (K, Q, ex) \<Rightarrow> distinct (opening_keys Q) \<and>
     (\<forall>k \<in> set (opening_keys Q). \<forall>s. hm_get (ex_streams ex) k = Some s \<longrightarrow> thread_ended s))"

definition reports_true :: "account \<Rightarrow> bool" where
  "reports_true acc = (case acc of (K, Q, ex) \<Rightarrow>
     \<forall>k. ProxyClosed k \<in> set (queue (ex_events ex)) \<longrightarrow> k \<notin> set (opening_keys Q) \<and>
       (\<forall>s. hm_get (ex_streams ex) k = Some s \<longrightarrow> \<not> stream_live s))"

definition account_inv :: "account \<Rightarrow> bool" where
  "account_inv acc \<longleftrightarrow> tasks_owned (fst acc) (fst (snd acc)) \<and> streams_owned acc \<and> openings_fresh acc \<and> reports_true acc"

section \<open>The account keeps its invariant\<close>

lemma opening_keys_simps [simp]:
  "opening_keys [] = []" "opening_keys (t # Q) = (if opens_proxy t then task_key t # opening_keys Q else opening_keys Q)"
  "opening_keys (Q @ R) = opening_keys Q @ opening_keys R" "opening_keys (map CloseProxy ks) = []"
  by (simp_all add: opening_keys_def filter_map comp_def)

lemma thread_ended_not_live: "thread_ended s \<Longrightarrow> \<not> stream_live s"
  by (cases s) (simp_all add: stream_live_def)

lemma report_closed_events: "set (queue (report_closed k ch)) \<subseteq> insert (ProxyClosed k) (set (queue ch))"
  by (auto simp: report_closed_def chan_send_def)

lemma owned_mono: "owned K Q k \<Longrightarrow> K \<subseteq> K' \<union> {k. CloseProxy k \<in> set R} \<Longrightarrow> owned K' (Q @ R) k"
  by (auto simp: owned_def)

lemma tasks_owned_append:
  assumes "tasks_owned K Q" and "K \<subseteq> K' \<union> {k. CloseProxy k \<in> set R}" and "tasks_owned K' R"
  shows "tasks_owned K' (Q @ R)"
  using assms by (induction Q) (auto intro: owned_mono)

lemma tasks_owned_closes: "tasks_owned K (map CloseProxy ks)"
  by (induction ks) auto

lemma tasks_owned_forget:
  assumes "tasks_owned K Q" and "k \<notin> set (opening_keys Q)" and "K - {k} \<subseteq> K'"
  shows "tasks_owned K' Q"
  using assms by (induction Q) (auto simp: owned_def split: if_splits)

text \<open>What one task does to the executor.\<close>

lemma opened_stream:
  assumes "executor_task E t ex = (r, ex')" and "opens_proxy t"
  shows "(\<exists>s. ex' = ex\<lparr>ex_streams := hm_insert (task_key t) s (ex_streams ex)\<rparr> \<and> stream_key s = task_key t) \<or>
    ex' = ex\<lparr>ex_events := report_closed (task_key t) (ex_events ex)\<rparr> \<or> ex' = ex"
  using assms
  by (cases t) (auto simp: open_proxy_def tt_new_def tu_new_def ct_new_def tt_connect_def tu_connect_def ct_connect_def res_simps Let_def
      split: res.splits prod.splits)

lemma closed_stream:
  assumes "executor_task E (CloseProxy k) ex = (r, ex')"
  shows "ex' = ex \<and> hm_get (ex_streams ex) k = None \<or>
    (\<exists>s s'. hm_get (ex_streams ex) k = Some s \<and> ex' = ex\<lparr>ex_streams := hm_insert k s' (ex_streams ex)\<rparr> \<and>
       stream_key s' = stream_key s \<and> \<not> stream_live s' \<and> (thread_ended s \<longrightarrow> thread_ended s'))"
proof (cases "hm_get (ex_streams ex) k")
  case (Some s)
  let ?s' = "snd (disconnect s)"
  have "stream_key ?s' = stream_key s" "thread_ended s \<longrightarrow> thread_ended ?s'"
    by (cases s; simp add: tt_disconnect_def tu_disconnect_def ct_disconnect_def)+
  moreover have "\<not> stream_live ?s'" by (simp add: stream_live_def disconnect_closing)
  ultimately show ?thesis using assms Some by auto
qed (use assms in simp)

lemmas account_defs = account_inv_def streams_owned_def openings_fresh_def reports_true_def

lemma admit_inv:
  assumes "account_inv (K, Q, ex)" and "opens_proxy t" and "key_free (task_key t) (K, Q, ex)"
  shows "account_inv (insert (task_key t) K, Q @ [t], ex)"
proof -
  have "tasks_owned (insert (task_key t) K) (Q @ [t])"
    using assms(1) by (intro tasks_owned_append[of K]) (auto simp: account_inv_def owned_def)
  with assms show ?thesis by (auto simp: account_defs key_free_def owned_def)
qed

lemma revoke_inv:
  assumes "account_inv (K, Q, ex)" and "K \<subseteq> K' \<union> set ks"
  shows "account_inv (K', Q @ map CloseProxy ks, ex)"
proof -
  have "tasks_owned K' (Q @ map CloseProxy ks)"
    using assms by (intro tasks_owned_append[of K]) (auto simp: account_inv_def tasks_owned_closes)
  with assms show ?thesis by (auto simp: account_defs owned_def)
qed

lemma open_inv:
  assumes "account_inv (K, t # Q, ex)" and "opens_proxy t" and "executor_task E t ex = (r, ex')"
  shows "account_inv (K, Q, ex')"
proof -
  let ?k = "task_key t"
  from assms(1,2) have o: "owned K Q ?k" "tasks_owned K Q" "?k \<notin> set (opening_keys Q)" "distinct (opening_keys Q)"
    "ProxyClosed ?k \<notin> set (queue (ex_events ex))" "hm_get (ex_streams ex) ?k = Some s \<Longrightarrow> \<not> stream_live s" for s
    by (auto simp: account_defs dest: thread_ended_not_live)
  have rest: "account_inv (K, Q, ex)" using assms(1,2) o(1) by (cases t) (auto simp: account_defs owned_def)
  from opened_stream[OF assms(3,2)] show ?thesis
  proof (elim disjE exE conjE)
    fix s
    assume "ex' = ex\<lparr>ex_streams := hm_insert ?k s (ex_streams ex)\<rparr>" "stream_key s = ?k"
    then show ?thesis using rest o by (auto simp: account_defs)
  next
    assume "ex' = ex\<lparr>ex_events := report_closed ?k (ex_events ex)\<rparr>"
    then show ?thesis using rest o report_closed_events[of ?k "ex_events ex"] by (auto simp: account_defs)
  qed (use rest in simp)
qed

lemma close_inv:
  assumes "account_inv (K, CloseProxy k # Q, ex)" and "executor_task E (CloseProxy k) ex = (r, ex')"
  shows "account_inv (K, Q, ex')"
proof -
  have rest: "hm_get (ex_streams ex) j = Some s \<Longrightarrow> stream_live s \<Longrightarrow> j \<noteq> k \<Longrightarrow> owned K Q j" for j s
    using assms(1) by (auto simp: account_defs owned_def)
  from closed_stream[OF assms(2)] show ?thesis
  proof (elim disjE exE conjE)
    assume "ex' = ex" "hm_get (ex_streams ex) k = None"
    with rest assms(1) show ?thesis by (auto simp: account_defs) (metis option.distinct(1))
  next
    fix s s'
    assume "hm_get (ex_streams ex) k = Some s" "ex' = ex\<lparr>ex_streams := hm_insert k s' (ex_streams ex)\<rparr>"
      "stream_key s' = stream_key s" "\<not> stream_live s'" "thread_ended s \<longrightarrow> thread_ended s'"
    with rest assms(1) show ?thesis by (auto simp: account_defs)
  qed
qed

lemma finish_inv:
  assumes "account_inv (K, Q, ex)" and "hm_get (ex_streams ex) k = Some s" and "\<not> thread_ended s" and "thread_run s (ex_events ex) s' ch'"
  shows "account_inv (K, Q, ex\<lparr>ex_streams := hm_insert k s' (ex_streams ex), ex_events := ch'\<rparr>)"
proof -
  have e: "stream_key s' = k" "stream_live s' \<Longrightarrow> stream_live s" "ch' = ex_events ex \<or> ch' = report_closed k (ex_events ex) \<and> \<not> stream_live s'"
    using thread_run_ended[OF assms(4)] assms(1,2) by (auto simp: ended_as_def account_defs stream_live_def)
  have "k \<notin> set (opening_keys Q)" using assms(1-3) by (auto simp: account_defs)
  with e assms(1,2) report_closed_events[of k "ex_events ex"] show ?thesis by (auto simp: account_defs)
qed

lemma forget_inv:
  assumes "account_inv (K, Q, ex)" and "queue (ex_events ex) = ProxyClosed k # evs" and "K - {k} \<subseteq> K'"
  shows "account_inv (K', Q, ex\<lparr>ex_events := (ex_events ex)\<lparr>queue := evs\<rparr>\<rparr>)"
proof -
  have "k \<notin> set (opening_keys Q)" and dead: "hm_get (ex_streams ex) k = Some s \<Longrightarrow> \<not> stream_live s" for s
    using assms by (auto simp: account_defs)
  then have "tasks_owned K' Q" using assms(1,3) tasks_owned_forget by (auto simp: account_inv_def)
  moreover have "owned K' Q j" if "hm_get (ex_streams ex) j = Some s" "stream_live s" for j s
    using assms(1,3) dead[of s] that by (cases "j = k") (auto simp: account_defs owned_def)
  ultimately show ?thesis using assms(1,2) dead by (auto simp: account_defs)
qed

lemma tunnel_step_inv: "tunnel_step a b \<Longrightarrow> account_inv a \<Longrightarrow> account_inv b"
proof (induction rule: tunnel_step.induct)
  case (execute E t ex r ex' K Q)
  then show ?case by (cases "opens_proxy t") (auto elim!: opens_proxy.elims(3) intro: open_inv close_inv)
qed (auto intro: admit_inv revoke_inv finish_inv forget_inv)

section \<open>Sessions without a proxy\<close>

text \<open>
  A session whose proxy is gone, with no report of it left: it is not told of again, and only an order to
  close its proxy, of a shutdown, goes with its end.
\<close>

definition stale :: "string \<Rightarrow> account \<Rightarrow> bool" where
  "stale k acc = (case acc of (K, Q, ex) \<Rightarrow> k \<in> K \<and> k \<notin> set (opening_keys Q) \<and>
     ProxyClosed k \<notin> set (queue (ex_events ex)) \<and> (\<forall>s. hm_get (ex_streams ex) k = Some s \<longrightarrow> thread_ended s))"

lemma execute_stale:
  assumes "executor_task E t ex = (r, ex')" and "stale k (K, t # Q, ex)"
  shows "stale k (K, Q, ex')"
proof (cases "opens_proxy t")
  case True
  with assms(2) have "task_key t \<noteq> k" by (auto simp: stale_def)
  with opened_stream[OF assms(1) True] assms(2) True report_closed_events[of "task_key t" "ex_events ex"] show ?thesis
    by (auto simp: stale_def)
next
  case False
  then obtain j where t: "t = CloseProxy j" by (cases t) auto
  from closed_stream[of E j ex r ex'] assms show ?thesis unfolding t by (auto simp: stale_def split: if_splits)
qed

lemma stale_step:
  assumes "tunnel_step acc acc'" and "account_inv acc" and "stale k acc" and "CloseProxy k \<notin> set (fst (snd acc'))"
  shows "stale k acc'"
  using assms
proof (induction rule: tunnel_step.induct)
  case (execute E t ex r ex' K Q)
  then show ?case by (blast intro: execute_stale)
next
  case (finish ex j s s' ch' K Q)
  have "j \<noteq> k" using finish(1,2,5) by (auto simp: stale_def)
  moreover have "stream_key s = j" using finish(1,4) by (auto simp: account_defs)
  ultimately show ?case using thread_run_ended[OF finish(3)] finish(5) report_closed_events[of j "ex_events ex"]
    by (auto simp: stale_def ended_as_def)
qed (auto simp: stale_def key_free_def)

section \<open>A proxy that opens\<close>

definition demo_proxy_env :: proxy_env where
  "demo_proxy_env = \<lparr>pe_nonblocking1 = None, pe_nonblocking2 = None, pe_clone1 = None, pe_clone2 = None\<rparr>"

lemma demo_opened:
  assumes "st_clone_err s1 = None" and "st_clone_err s2 = None"
  obtains s where "executor_task demo_proxy_env (OpenTcpAndTcpProxy key s1 s2) (executor_new new_chan) =
    (Ok (), (executor_new new_chan)\<lparr>ex_streams := [(key, s)]\<rparr>)" "stream_live s"
proof -
  let ?p = "\<lparr>tt_key = key, tt_stream1 = s1, tt_stream2 = s2, tt_closing = False, tt_closed = False\<rparr>"
  have "executor_task demo_proxy_env (OpenTcpAndTcpProxy key s1 s2) (executor_new new_chan) =
      (Ok (), (executor_new new_chan)\<lparr>ex_streams := [(key, TcpAndTcpStream ?p)]\<rparr>)"
    using assms by (simp add: open_proxy_def tt_new_def tt_connect_def clone_std_tcp_stream_def answered_def demo_proxy_env_def
        executor_new_def hm_insert_def)
  then show ?thesis using that by (simp add: stream_live_def)
qed

end
