(* ===== verification/T0_Arrival.thy ===== *)
theory T0_Arrival
  imports T0_Account T0_Availability
begin

text \<open>
  The phases of an arrival at the gateway, between which other threads run: the connection is created
  and its address pair listed for the user, the task that opens its proxy goes to the executor, the proxy is
  registered.  What the gateway does in between keeps what the next phase relies on.
\<close>

section \<open>What a pending connection relies on\<close>

text \<open>An address pair that is listed for a user of a service, and no proxy is registered for it yet.\<close>

definition listed :: "gw_mgr \<Rightarrow> u64 \<Rightarrow> proxy_addrs \<Rightarrow> bool" where
  "listed mgr sid a \<longleftrightarrow> (\<exists>vis uid. get_service_proxy mgr sid = Some vis \<and> addrs_user vis a = Some uid \<and> addrs_free vis a)"

definition keeps_pending :: "gw_mgr \<Rightarrow> gw_mgr \<Rightarrow> bool" where
  "keeps_pending mgr mgr' \<longleftrightarrow> (\<forall>sid a. listed mgr sid a \<longrightarrow> listed mgr' sid a) \<and>
     (\<forall>k. get_service_id_by_proxy_key mgr k = None \<longrightarrow> get_service_id_by_proxy_key mgr' k = None)"

lemma keeps_pendingD:
  assumes "keeps_pending mgr mgr'"
  shows "listed mgr sid a \<Longrightarrow> listed mgr' sid a"
    "get_service_id_by_proxy_key mgr k = None \<Longrightarrow> get_service_id_by_proxy_key mgr' k = None"
  using assms unfolding keeps_pending_def by blast+

lemma keeps_pending_refl: "keeps_pending mgr mgr"
  by (simp add: keeps_pending_def)

lemma listed_entitled:
  assumes "only_entitled cfg mgr" and "listed mgr sid a"
  obtains uid vis where "get_service_proxy mgr sid = Some vis" "addrs_user vis a = Some uid" "entitled cfg uid sid"
  using assms only_entitledD unfolding listed_def by blast

lemma listed_forgets:
  assumes "get_service_proxy mgr sid = Some vis" and "get_service_proxy mgr' sid = Some vis'" and "forgets K (vis, sh) (vis', sh')"
    and "listed mgr sid a"
  shows "listed mgr' sid a"
proof -
  from assms(1,4) obtain uid where u: "addrs_user vis a = Some uid" "addrs_free vis a" by (auto simp: listed_def)
  have "addrs_user vis' a = Some uid" using forgetsD(4)[OF assms(3), of a] u by (auto simp: addrs_free_def)
  moreover have "addrs_free vis' a" using forgetsD(3)[OF assms(3)] u(2) by (simp add: addrs_free_def)
  ultimately show ?thesis using assms(2) by (auto simp: listed_def)
qed

text \<open>A key no session has is not registered either.\<close>

lemma unregistered:
  assumes "mgr_inv mgr" and "k \<notin> session_keys mgr"
  shows "get_service_id_by_proxy_key mgr k = None"
proof (rule ccontr)
  assume "get_service_id_by_proxy_key mgr k \<noteq> None"
  then obtain sid vis a where v: "get_service_proxy mgr sid = Some vis" "key_addrs vis k = Some a"
    using assms(1) by (auto simp: mgr_inv_def visitors_inv_def get_service_proxy_def get_service_id_by_proxy_key_def)
  from svc_invD(1)[OF mgr_invD(1)[OF assms(1) v(1)] v(2)] obtain uid ks where
    "user_keys vis uid = Some ks" "k \<in> set ks" by blast
  then have "k \<in> set (keys_of vis uid)" by (simp add: keys_of_def)
  with v(1) have "k \<in> session_keys mgr" unfolding session_keys_def in_sessions by blast
  with assms(2) show False by blast
qed

lemma unregistered_mono:
  assumes "mgr_inv mgr" and "mgr_inv mgr'" and "session_keys mgr' \<subseteq> session_keys mgr" and "get_service_id_by_proxy_key mgr k = None"
  shows "get_service_id_by_proxy_key mgr' k = None"
proof (rule unregistered[OF assms(2)])
  have "k \<notin> session_keys mgr" using session_key[OF assms(1)] assms(4) by (auto simp: session_keys_def)
  with assms(3) show "k \<notin> session_keys mgr'" by blast
qed

section \<open>What happens in between\<close>

lemma startup_keeps_pending:
  assumes "mgr_inv mgr" and "mgr_startup chk cfg svc mgr = (r, mgr')"
  shows "keeps_pending mgr mgr'"
proof -
  have "get_service_proxy mgr' i = get_service_proxy mgr i" if "get_service_proxy mgr i \<noteq> None" for i
    using assms that
    by (auto simp: mgr_startup_def allocate_port_def get_service_proxy_def mgr_inv_def Let_def split: option.splits prod.splits res.splits if_splits)
  moreover have "gm_shared mgr' = gm_shared mgr" by (rule startup_shared[OF assms(2)])
  ultimately show ?thesis by (auto simp: keeps_pending_def listed_def get_service_id_by_proxy_key_def)
qed

lemma shutdown_keeps_pending:
  assumes "mgr_ready mgr" and "mgr_shutdown_connections uo sid mgr = (r, mgr')"
  shows "keeps_pending mgr mgr'"
proof -
  from mgr_shutdown_closes[of mgr uo sid] assms have i: "mgr_inv mgr" "mgr_inv mgr'"
    and c: "list_all2 (closed_for uo sid) (gm_service_proxy_visitors mgr) (gm_service_proxy_visitors mgr')" by (auto simp: mgr_ready_def)
  have "listed mgr' j a" if l: "listed mgr j a" for j a
  proof -
    from l obtain v where v: "get_service_proxy mgr j = Some v" by (auto simp: listed_def)
    with list_all2_hm_get[OF c] obtain w where w: "get_service_proxy mgr' j = Some w" "closed_for uo sid (j, v) (j, w)"
      by (auto simp: get_service_proxy_def)
    then consider "w = v" | sh sh' where "forgets (set (keys_for v uo)) (v, sh) (w, sh')" by (auto simp: closed_for_def split: if_splits)
    then show ?thesis using l v w(1) listed_forgets[OF v w(1)] by cases (auto simp: listed_def)
  qed
  moreover obtain ks where "session_keys mgr' \<subseteq> session_keys mgr" using shutdown_revokes[OF assms] by metis
  ultimately show ?thesis using unregistered_mono[OF i] unfolding keeps_pending_def by blast
qed

lemma closed_keeps_pending:
  assumes "mgr_inv mgr" and "on_closed_proxy key mgr = (r, mgr')"
  shows "keeps_pending mgr mgr'"
proof -
  have "listed mgr' sid a" if l: "listed mgr sid a" for sid a
    using closed_forgets[OF assms, of sid]
  proof (elim disjE exE conjE)
    fix vis vis' sh sh'
    assume "get_service_proxy mgr sid = Some vis" "get_service_proxy mgr' sid = Some vis'" "forgets {key} (vis, sh) (vis', sh')"
    then show ?thesis using l by (rule listed_forgets)
  qed (use l in \<open>simp add: listed_def\<close>)
  moreover from on_closed_proxy_inv[OF assms(1), of key] assms(2) have
    "get_service_id_by_proxy_key mgr' k = (if k = key then None else get_service_id_by_proxy_key mgr k)" for k by auto
  ultimately show ?thesis by (simp add: keeps_pending_def)
qed

lemma request_keeps_pending:
  assumes "mgr_ready mgr" and "cv_on_connection_read chk S C cfg bs (v, ch, mgr) = (r, v', ch', mgr')"
  shows "keeps_pending mgr mgr'"
  using read_keeps_visitor[OF assms(2)]
proof (elim conjE disjE exE)
  fix cp line x c0
  assume "process_request chk S C cfg cp line (c0, mgr) = (x, ch', mgr')"
  from process_request_mgr[OF this] assms(1) show ?thesis
    by (auto simp: mgr_ready_def keeps_pending_refl intro: startup_keeps_pending shutdown_keeps_pending)
qed (simp add: keeps_pending_refl)

section \<open>The phases themselves\<close>

lemma create_at_pending:
  assumes "create_at L cfg sid t st = (r, st')" and "user_inv (cfg_user_repo cfg)"
  shows "keeps_pending (gws_mgr st) (gws_mgr st')"
proof (cases "get_service_proxy (gws_mgr st) sid")
  case (Some vis)
  then obtain vis' where c: "svc_create_client_conn L cfg t vis = (r, vis')" and st': "st' = st\<lparr>gws_mgr := set_visitor sid vis' (gws_mgr st)\<rparr>"
    using assms(1) by (auto simp: create_at_def gw_get_service_proxy_def split: prod.splits)
  from create_entitled[OF c assms(2)] have "addrs_user vis a = Some uid \<Longrightarrow> \<exists>u. addrs_user vis' a = Some u" "key_addrs vis' k = key_addrs vis k"
    for a uid k by auto
  with Some show ?thesis by (auto simp: st' keeps_pending_def listed_def addrs_free_def get_service_id_by_proxy_key_def)
qed (use assms(1) in \<open>auto simp: create_at_def gw_get_service_proxy_def keeps_pending_refl\<close>)

text \<open>The task is sent: nothing is registered, and the task is the last of the queue.\<close>

lemma open_at_cases:
  assumes "open_at N cfg sid c st = (r, st')" and "get_service_proxy (gws_mgr st) sid = Some vis"
  shows "(\<exists>e. r = Err e) \<and> gw_tasks st' = gw_tasks st \<or>
      (\<exists>task. r = Ok (task_key task) \<and> opens_proxy task \<and> gw_tasks st' = gw_tasks st @ [task])" (is ?tasks)
    and "keeps_pending (gws_mgr st) (gws_mgr st')" "sessions (gws_mgr st') = sessions (gws_mgr st)" "gws_conns st' = gws_conns st"
    and "mgr_ready (gws_mgr st) \<Longrightarrow> mgr_ready (gws_mgr st')" "only_entitled cfg (gws_mgr st) \<Longrightarrow> only_entitled cfg (gws_mgr st')"
proof -
  let ?mgr = "gws_mgr st"
  obtain vis' sh' where o: "gsp_open_proxy N cfg c (vis, gm_shared ?mgr) = (r, vis', sh')"
    and st': "st' = st\<lparr>gws_mgr := (set_visitor sid vis' ?mgr)\<lparr>gm_shared := sh'\<rparr>\<rparr>"
    using assms by (auto simp: open_at_def gw_get_service_proxy_def split: prod.splits)
  have v: "vis' = vis" "gs_services_by_proxy_key sh' = gs_services_by_proxy_key (gm_shared ?mgr)"
    "receiver_alive (gs_proxy_tasks sh') = receiver_alive (gs_proxy_tasks (gm_shared ?mgr))"
    using open_cases[OF o] by (auto simp: enqueued_def)
  have g: "get_service_proxy (gws_mgr st') i = get_service_proxy ?mgr i" for i using assms(2) v(1) by (auto simp: st')
  have hg: "hm_get (hm_insert sid vis (gm_service_proxy_visitors ?mgr)) i = hm_get (gm_service_proxy_visitors ?mgr) i" for i
    using assms(2) by (auto simp: get_service_proxy_def)
  have "opens_proxy task" if "\<forall>k. task \<noteq> CloseProxy k" for task using that by (cases task) auto
  then show ?tasks using open_cases[OF o] by (auto simp: st' enqueued_def)
  show "keeps_pending ?mgr (gws_mgr st')"
    using g by (simp add: keeps_pending_def listed_def get_service_id_by_proxy_key_def) (simp add: st' v(2))
  show "sessions (gws_mgr st') = sessions ?mgr" using g by (simp add: sessions_def)
  show "gws_conns st' = gws_conns st" by (simp add: st')
  show "only_entitled cfg (gws_mgr st')" if "only_entitled cfg ?mgr" using that g by (simp add: only_entitled_def)
  show "mgr_ready (gws_mgr st')" if "mgr_ready ?mgr"
    using that hg by (simp add: st' v mgr_ready_def mgr_inv_def visitors_inv_def set_visitor_def)
qed

text \<open>The proxy is registered: the session is there, and what other connections rely on stays.\<close>

lemma register_at_effect:
  assumes "register_at sid key a st = (r, st')" and "mgr_ready (gws_mgr st)" and "only_entitled cfg (gws_mgr st)"
    and "listed (gws_mgr st) sid a" and "get_service_id_by_proxy_key (gws_mgr st) key = None"
  shows "mgr_ready (gws_mgr st')" "only_entitled cfg (gws_mgr st')" "gws_conns st' = gws_conns st" "gw_tasks st' = gw_tasks st"
    and "\<exists>uid. entitled cfg uid sid \<and> sessions (gws_mgr st') = insert (sid, uid, key) (sessions (gws_mgr st))"
    and "listed (gws_mgr st) i b \<Longrightarrow> b \<noteq> a \<Longrightarrow> listed (gws_mgr st') i b"
    and "get_service_id_by_proxy_key (gws_mgr st) k = None \<Longrightarrow> k \<noteq> key \<Longrightarrow> get_service_id_by_proxy_key (gws_mgr st') k = None"
proof -
  let ?mgr = "gws_mgr st"
  obtain vis uid where v: "get_service_proxy ?mgr sid = Some vis" "addrs_user vis a = Some uid" "addrs_free vis a"
    using assms(4) by (auto simp: listed_def)
  obtain vis' sh' where reg: "register_proxy key a (vis, gm_shared ?mgr) = (r, vis', sh')"
    and st': "st' = st\<lparr>gws_mgr := (set_visitor sid vis' ?mgr)\<lparr>gm_shared := sh'\<rparr>\<rparr>"
    using assms(1) v(1) by (auto simp: register_at_def gw_get_service_proxy_def split: prod.splits)
  have vi: "visitors_inv (gm_service_proxy_visitors ?mgr) (gm_shared ?mgr)" "hm_get (gm_service_proxy_visitors ?mgr) sid = Some vis"
    and ports: "\<And>i. hm_get (gm_service_ports ?mgr) i = None \<longleftrightarrow> hm_get (gm_service_proxy_visitors ?mgr) i = None"
    using assms(2) v(1) by (auto simp: mgr_ready_def mgr_inv_def get_service_proxy_def)
  have reg': "register_proxy key a (vis, (gm_shared ?mgr)\<lparr>gs_proxy_tasks := gs_proxy_tasks (gm_shared ?mgr)\<rparr>) = (r, vis', sh')" using reg by simp
  have k: "key_service (gm_shared ?mgr) key = None" using assms(5) by (simp add: get_service_id_by_proxy_key_def)
  from visitors_inv_register[OF vi v(3) k v(2) reg'] have
    w: "visitors_inv (hm_insert sid vis' (gm_service_proxy_visitors ?mgr)) sh'" "addrs_user vis' b = addrs_user vis b"
      "gs_proxy_tasks sh' = gs_proxy_tasks (gm_shared ?mgr)" for b by blast+
  have m: "key_addrs vis' j = (if j = key then Some a else key_addrs vis j)" "key_service sh' j = (if j = key then Some (sv_service_id (sp_service vis)) else key_service (gm_shared ?mgr) j)"
    for j using reg v(2) by (auto simp: register_proxy_def Let_def)
  show "mgr_ready (gws_mgr st')" using w(1,3) assms(2) ports vi(2) by (auto simp: st' mgr_ready_def mgr_inv_def set_visitor_def)
  show "only_entitled cfg (gws_mgr st')" using only_entitled_set[OF assms(3), of vis' sid sh'] only_entitledD[OF assms(3) v(1)] w(2) by (simp add: st')
  show "gws_conns st' = gws_conns st" "gw_tasks st' = gw_tasks st" by (simp_all add: st' w(3))
  show "\<exists>uid. entitled cfg uid sid \<and> sessions (gws_mgr st') = insert (sid, uid, key) (sessions ?mgr)"
  proof (intro exI[of _ uid] conjI)
    show "entitled cfg uid sid" using only_entitledD[OF assms(3) v(1,2)] .
    have "(i, u, j) \<in> sessions (gws_mgr st') \<longleftrightarrow> (i, u, j) = (sid, uid, key) \<or> (i, u, j) \<in> sessions ?mgr" for i u j
      using v(1) by (auto simp: st' sessions_set[OF v(1)] keys_of_register[OF reg v(2)] in_sessions)
    then show "sessions (gws_mgr st') = insert (sid, uid, key) (sessions ?mgr)" by auto
  qed
  show "listed (gws_mgr st') i b" if "listed ?mgr i b" "b \<noteq> a"
    using that v(1) m(1) w(2) by (auto simp: st' listed_def addrs_free_def)
  show "get_service_id_by_proxy_key (gws_mgr st') k = None" if "get_service_id_by_proxy_key ?mgr k = None" "k \<noteq> key"
    using that m(2) by (simp add: st' get_service_id_by_proxy_key_def)
qed

end
