(* ===== verification/T0_System.thy ===== *)
theory T0_System
  imports T0_Arrival
begin

text \<open>
  The gateway as a whole: the threads that accept connections, its service manager, the executor of its
  proxies and the threads of the proxies work side by side and talk through two queues.  The composed gateway
  (\<open>system_step\<close>) implements the account of \<open>T0_Account\<close>, so that whatever order the steps come in, data
  only flow for users who are entitled to the service.
\<close>

section \<open>The composed gateway\<close>

text \<open>
  An arrival takes three steps, and every other step can come between them: the connection is created
  (\<open>sys_created\<close>), the task that opens its proxy is sent (\<open>sys_opened\<close>: the service, the key and the address
  pair), the proxy is registered.
\<close>

record gw_system =
  sys_gw :: gw_state
  sys_ex :: proxy_executor
  sys_created :: "gw_conn list"
  sys_opened :: "(u64 \<times> string \<times> proxy_addrs) list"

abbreviation sys_mgr :: "gw_system \<Rightarrow> gw_mgr" where
  "sys_mgr sys \<equiv> gws_mgr (sys_gw sys)"

abbreviation conn_addrs :: "gw_conn \<Rightarrow> proxy_addrs" where
  "conn_addrs c \<equiv> create_proxy_addrs (cn_stream c)"

definition pending_addrs :: "gw_system \<Rightarrow> proxy_addrs list" where
  "pending_addrs sys = map conn_addrs (sys_created sys) @ map (snd \<circ> snd) (sys_opened sys)"

definition opened_keys :: "gw_system \<Rightarrow> string list" where
  "opened_keys sys = map (fst \<circ> snd) (sys_opened sys)"

definition take_task :: "gw_state \<Rightarrow> gw_state" where
  "take_task st = (let mgr = gws_mgr st; sh = gm_shared mgr; ch = gs_proxy_tasks sh in
     st\<lparr>gws_mgr := mgr\<lparr>gm_shared := sh\<lparr>gs_proxy_tasks := ch\<lparr>queue := tl (queue ch)\<rparr>\<rparr>\<rparr>\<rparr>)"

definition system_new :: "app_config \<Rightarrow> gw_system" where
  "system_new cfg = \<lparr>sys_gw = main_new cfg, sys_ex = executor_new new_chan, sys_created = [], sys_opened = []\<rparr>"

definition account_of :: "gw_system \<Rightarrow> account" where
  "account_of sys = (session_keys (sys_mgr sys) \<union> set (opened_keys sys), gw_tasks (sys_gw sys), sys_ex sys)"

text \<open>
  The runs that are considered, as for \<open>fresh_arrival\<close>: the address pair of a new connection is that of no proxy that is
  registered and of no other connection on its way; and (rule \<open>opened\<close> below) the key of a new proxy is free.
  The second is a condition on the clients and not a guarantee of the operating system: the key of a TCP proxy
  leaves out the gateway's own port (\<open>same_source_port_same_key\<close>), and of two proxies with one key the
  executor would keep the second only (\<open>second_stream_replaces_first\<close>).
\<close>

definition fresh_addrs :: "gw_system \<Rightarrow> tls_stream \<Rightarrow> bool" where
  "fresh_addrs sys t \<longleftrightarrow> create_proxy_addrs t \<notin> set (pending_addrs sys) \<and>
     (\<forall>sid vis. get_service_proxy (sys_mgr sys) sid = Some vis \<longrightarrow> addrs_free vis (create_proxy_addrs t))"

fun outcome :: "'r res \<Rightarrow> 'r list" where
  "outcome (Ok x) = [x]"
| "outcome (Err e) = []"
| "outcome (Panic m) = []"

text \<open>
  A step: a handshake; a connection is created, at the gateway's port or at that of a service; a
  control connection is accepted; the task for a service connection is sent; its proxy is registered; a control
  connection gets data, or goes away; the end of the gateway; the executor takes its next task; the thread of
  a proxy ends; the manager takes the next event.
\<close>

inductive system_step :: "bool \<Rightarrow> 'a gw_lib \<Rightarrow> net_env \<Rightarrow> 'v serde \<Rightarrow> cli_lib \<Rightarrow> app_config \<Rightarrow> gw_system \<Rightarrow> gw_system \<Rightarrow> bool"
  for chk L N S C cfg where
  handshake: "on_handshake B t (sys_gw sys) = (r, st') \<Longrightarrow> system_step chk L N S C cfg sys (sys\<lparr>sys_gw := st'\<rparr>)"
| created: "gw_create_client_conn L cfg t (sys_gw sys) = (r, st') \<Longrightarrow> fresh_addrs sys t \<Longrightarrow>
     system_step chk L N S C cfg sys (sys\<lparr>sys_gw := st', sys_created := sys_created sys @ outcome r\<rparr>)"
| service_created: "create_at L cfg sid t (sys_gw sys) = (r, st') \<Longrightarrow> fresh_addrs sys t \<Longrightarrow>
     system_step chk L N S C cfg sys (sys\<lparr>sys_gw := st', sys_created := sys_created sys @ outcome r\<rparr>)"
| control: "sys_created sys = xs @ c # ys \<Longrightarrow> cn_alpn c = Some ControlPlane \<Longrightarrow> gw_on_conn_accepted N cfg c (sys_gw sys) = (r, st') \<Longrightarrow>
     system_step chk L N S C cfg sys (sys\<lparr>sys_gw := st', sys_created := xs @ ys\<rparr>)"
| opened: "sys_created sys = xs @ c # ys \<Longrightarrow> cn_alpn c = Some (Service sid) \<Longrightarrow> open_at N cfg sid c (sys_gw sys) = (r, st') \<Longrightarrow>
     (\<And>key. r = Ok key \<Longrightarrow> key_free key (account_of sys)) \<Longrightarrow>
     system_step chk L N S C cfg sys (sys\<lparr>sys_gw := st', sys_created := xs @ ys,
       sys_opened := sys_opened sys @ map (\<lambda>key. (sid, key, conn_addrs c)) (outcome r)\<rparr>)"
| registered: "sys_opened sys = xs @ (sid, key, a) # ys \<Longrightarrow> register_at sid key a (sys_gw sys) = (r, st') \<Longrightarrow>
     system_step chk L N S C cfg sys (sys\<lparr>sys_gw := st', sys_opened := xs @ ys\<rparr>)"
| data: "i < length (gws_conns (sys_gw sys)) \<Longrightarrow> c = gws_conns (sys_gw sys) ! i \<Longrightarrow>
     cv_on_connection_read chk S C cfg bs (cn_visitor c, cn_events c, sys_mgr sys) = (r, v', ch', mgr') \<Longrightarrow>
     system_step chk L N S C cfg sys
       (sys\<lparr>sys_gw := (sys_gw sys)\<lparr>gws_mgr := mgr', gws_conns := (gws_conns (sys_gw sys))[i := c\<lparr>cn_visitor := v', cn_events := ch'\<rparr>]\<rparr>\<rparr>)"
| gone: "i < length (gws_conns (sys_gw sys)) \<Longrightarrow> c = gws_conns (sys_gw sys) ! i \<Longrightarrow>
     cv_on_shutdown (cn_visitor c, cn_events c, sys_mgr sys) = (r, v', ch', mgr') \<Longrightarrow>
     system_step chk L N S C cfg sys
       (sys\<lparr>sys_gw := (sys_gw sys)\<lparr>gws_mgr := mgr', gws_conns := take i (gws_conns (sys_gw sys)) @ drop (Suc i) (gws_conns (sys_gw sys))\<rparr>\<rparr>)"
| stop: "main_stop (sys_gw sys) = (r, st') \<Longrightarrow> system_step chk L N S C cfg sys (sys\<lparr>sys_gw := st'\<rparr>)"
| task: "gw_tasks (sys_gw sys) = t # ts \<Longrightarrow> executor_task E t (sys_ex sys) = (r, ex') \<Longrightarrow>
     system_step chk L N S C cfg sys (sys\<lparr>sys_gw := take_task (sys_gw sys), sys_ex := ex'\<rparr>)"
| thread: "hm_get (ex_streams (sys_ex sys)) key = Some s \<Longrightarrow> \<not> thread_ended s \<Longrightarrow> thread_run s (ex_events (sys_ex sys)) s' ch' \<Longrightarrow>
     system_step chk L N S C cfg sys
       (sys\<lparr>sys_ex := (sys_ex sys)\<lparr>ex_streams := hm_insert key s' (ex_streams (sys_ex sys)), ex_events := ch'\<rparr>\<rparr>)"
| event: "queue (ex_events (sys_ex sys)) = ProxyClosed key # evs \<Longrightarrow> on_closed_proxy key (sys_mgr sys) = (r, mgr') \<Longrightarrow>
     system_step chk L N S C cfg sys
       (sys\<lparr>sys_gw := (sys_gw sys)\<lparr>gws_mgr := mgr'\<rparr>, sys_ex := (sys_ex sys)\<lparr>ex_events := (ex_events (sys_ex sys))\<lparr>queue := evs\<rparr>\<rparr>\<rparr>)"

section \<open>The invariant\<close>

definition control_user :: "app_config \<Rightarrow> gw_conn \<Rightarrow> bool" where
  "control_user cfg c \<longleftrightarrow> (\<exists>u. cv_user (cn_visitor c) = Some u \<and> user_get (cfg_user_repo cfg) (u_user_id u) = Ok (Some u) \<and> u_status u = Active)"

fun awaited :: "app_config \<Rightarrow> gw_mgr \<Rightarrow> gw_conn \<Rightarrow> protocol option \<Rightarrow> bool" where
  "awaited cfg mgr c (Some (Service sid)) = listed mgr sid (conn_addrs c)"
| "awaited cfg mgr c (Some ControlPlane) = control_user cfg c"
| "awaited cfg mgr c None = False"

definition sys_inv :: "app_config \<Rightarrow> gw_system \<Rightarrow> bool" where
  "sys_inv cfg sys \<longleftrightarrow> gw_inv cfg (sys_gw sys) \<and> (\<forall>c \<in> set (sys_created sys). awaited cfg (sys_mgr sys) c (cn_alpn c)) \<and>
     (\<forall>(sid, key, a) \<in> set (sys_opened sys). listed (sys_mgr sys) sid a \<and> get_service_id_by_proxy_key (sys_mgr sys) key = None) \<and>
     distinct (pending_addrs sys) \<and> distinct (opened_keys sys)"

lemma gw_inv_conns: "gw_inv cfg st \<longleftrightarrow> mgr_ready (gws_mgr st) \<and> only_entitled cfg (gws_mgr st) \<and> (\<forall>c \<in> set (gws_conns st). control_user cfg c)"
  by (simp add: gw_inv_def control_user_def)

lemma awaited_mono: "keeps_pending mgr mgr' \<Longrightarrow> awaited cfg mgr c p \<Longrightarrow> awaited cfg mgr' c p"
  by (induction cfg mgr c p rule: awaited.induct) (auto dest: keeps_pendingD)

lemma sys_inv_keeps:
  assumes "sys_inv cfg sys" and "gw_inv cfg st'" and "keeps_pending (sys_mgr sys) (gws_mgr st')"
  shows "sys_inv cfg (sys\<lparr>sys_gw := st', sys_ex := ex'\<rparr>)" "sys_inv cfg (sys\<lparr>sys_gw := st'\<rparr>)"
  using assms keeps_pendingD[OF assms(3)] awaited_mono[OF assms(3)] by (auto simp: sys_inv_def pending_addrs_def opened_keys_def)

lemma sys_inv_created:
  assumes "sys_inv cfg sys" and "gw_inv cfg st'" and "keeps_pending (sys_mgr sys) (gws_mgr st')" and "fresh_addrs sys t"
    and "\<And>c. r = Ok c \<Longrightarrow> cn_stream c = t \<and> awaited cfg (gws_mgr st') c (cn_alpn c)"
  shows "sys_inv cfg (sys\<lparr>sys_gw := st', sys_created := sys_created sys @ outcome r\<rparr>)"
  using sys_inv_keeps(2)[OF assms(1-3)] assms(4,5)
  by (cases r) (auto simp: sys_inv_def pending_addrs_def opened_keys_def fresh_addrs_def)

lemma create_keeps:
  assumes "create_at L cfg sid t (sys_gw sys) = (r, st')" and "sys_inv cfg sys" and "user_inv (cfg_user_repo cfg)" and "fresh_addrs sys t"
  shows "sys_inv cfg (sys\<lparr>sys_gw := st', sys_created := sys_created sys @ outcome r\<rparr>)"
proof (rule sys_inv_created[OF assms(2) _ create_at_pending[OF assms(1,3)] assms(4)])
  have i: "mgr_ready (sys_mgr sys)" "only_entitled cfg (sys_mgr sys)" "\<forall>c \<in> set (gws_conns (sys_gw sys)). control_user cfg c"
    using assms(2) by (auto simp: sys_inv_def gw_inv_conns)
  have f: "get_service_proxy (sys_mgr sys) sid = Some vis \<Longrightarrow> addrs_free vis (create_proxy_addrs t)" for vis
    using assms(4) by (auto simp: fresh_addrs_def)
  note c = create_at_inv[OF assms(1,3) i(1,2) f]
  then show "gw_inv cfg st'" using i(3) by (simp add: gw_inv_conns)
  show "cn_stream c = t \<and> awaited cfg (gws_mgr st') c (cn_alpn c)" if "r = Ok c" for c
    using c that by (auto simp: listed_def)
qed

lemma main_create_keeps:
  assumes "gw_create_client_conn L cfg t (sys_gw sys) = (r, st')" and "sys_inv cfg sys" and "user_inv (cfg_user_repo cfg)" and "fresh_addrs sys t"
  shows "sys_inv cfg (sys\<lparr>sys_gw := st', sys_created := sys_created sys @ outcome r\<rparr>)"
proof -
  let ?p = "parse_alpn_protocol (gl_digits L) (tls_alpn_protocol t)"
  consider (service) sid where "?p = Ok (Service sid)" | (control) "?p = Ok ControlPlane" | (bad) "\<forall>p. ?p \<noteq> Ok p"
    by (cases ?p; metis protocol.exhaust res.distinct(1) res.distinct(3))
  then show ?thesis
  proof cases
    case service
    with assms(1) have "create_at L cfg sid t (sys_gw sys) = (r, st')" by (simp add: gw_create_client_conn_def)
    then show ?thesis using assms(2-4) by (rule create_keeps)
  next
    case control
    with assms(1) have c: "cp_create_client_conn L cfg t = r" "st' = sys_gw sys" by (auto simp: gw_create_client_conn_def)
    show ?thesis unfolding c(2)
    proof (rule sys_inv_created[OF assms(2) _ keeps_pending_refl assms(4)])
      show "gw_inv cfg (sys_gw sys)" using assms(2) by (simp add: sys_inv_def)
      show "cn_stream cn = t \<and> awaited cfg (sys_mgr sys) cn (cn_alpn cn)" if "r = Ok cn" for cn
        using cp_create_conn[OF _ control, of cfg cn] cp_create_identity[OF _ assms(3), of L t cn] c(1) that by (simp add: control_user_def)
    qed
  next
    case bad
    with assms(1,2) show ?thesis by (cases ?p) (auto simp: gw_create_client_conn_def)
  qed
qed

lemma control_keeps:
  assumes "sys_created sys = xs @ c # ys" and "cn_alpn c = Some ControlPlane" and "gw_on_conn_accepted N cfg c (sys_gw sys) = (r, st')" and "sys_inv cfg sys"
  shows "sys_inv cfg (sys\<lparr>sys_gw := st', sys_created := xs @ ys\<rparr>)" "gws_mgr st' = sys_mgr sys"
proof -
  have st': "st' = (sys_gw sys)\<lparr>gws_conns := gws_conns (sys_gw sys) @ [c]\<rparr>" using assms(2,3) by (simp add: gw_on_conn_accepted_def)
  have "control_user cfg c" using assms(1,2,4) by (simp add: sys_inv_def)
  with assms(1,4) show "sys_inv cfg (sys\<lparr>sys_gw := st', sys_created := xs @ ys\<rparr>)" "gws_mgr st' = sys_mgr sys"
    by (auto simp: st' sys_inv_def gw_inv_conns pending_addrs_def opened_keys_def)
qed

lemma pending_listed:
  assumes "sys_created sys = xs @ c # ys" and "cn_alpn c = Some (Service sid)" and "sys_inv cfg sys"
  obtains vis where "get_service_proxy (sys_mgr sys) sid = Some vis" "listed (sys_mgr sys) sid (conn_addrs c)"
  using assms that by (auto simp: sys_inv_def listed_def)

lemma key_free_unregistered:
  assumes "sys_inv cfg sys" and "key_free key (account_of sys)"
  shows "get_service_id_by_proxy_key (sys_mgr sys) key = None" "key \<notin> set (opened_keys sys)"
  using assms unregistered[of "sys_mgr sys" key] by (auto simp: key_free_def account_of_def sys_inv_def gw_inv_def mgr_ready_def)

lemma opened_keeps:
  assumes "sys_created sys = xs @ c # ys" and "cn_alpn c = Some (Service sid)" and "open_at N cfg sid c (sys_gw sys) = (r, st')"
    and "\<And>key. r = Ok key \<Longrightarrow> key_free key (account_of sys)" and "sys_inv cfg sys"
  shows "sys_inv cfg (sys\<lparr>sys_gw := st', sys_created := xs @ ys, sys_opened := sys_opened sys @ map (\<lambda>key. (sid, key, conn_addrs c)) (outcome r)\<rparr>)"
proof -
  obtain vis where v: "get_service_proxy (sys_mgr sys) sid = Some vis" "listed (sys_mgr sys) sid (conn_addrs c)"
    using pending_listed[OF assms(1,2,5)] .
  note o = open_at_cases[OF assms(3) v(1)]
  have g: "gw_inv cfg st'" using o(4-6) assms(5) by (simp add: sys_inv_def gw_inv_conns)
  note k = sys_inv_keeps(2)[OF assms(5) g o(2)]
  have l: "listed (gws_mgr st') sid (conn_addrs c)" using keeps_pendingD(1)[OF o(2) v(2)] .
  have d: "distinct (pending_addrs (sys\<lparr>sys_gw := st', sys_created := xs @ ys\<rparr>))" using assms(1,5) by (simp add: sys_inv_def pending_addrs_def)
  have w: "\<forall>d \<in> set (xs @ ys). awaited cfg (gws_mgr st') d (cn_alpn d)" using k assms(1) by (simp add: sys_inv_def)
  have rest: "sys_inv cfg (sys\<lparr>sys_gw := st', sys_created := xs @ ys\<rparr>)" using k d w by (simp add: sys_inv_def opened_keys_def)
  show ?thesis
  proof (cases r)
    case (Ok key)
    note f = key_free_unregistered[OF assms(5) assms(4)[OF Ok]]
    have "get_service_id_by_proxy_key (gws_mgr st') key = None" using keeps_pendingD(2)[OF o(2) f(1)] .
    let ?sys' = "sys\<lparr>sys_gw := st', sys_created := xs @ ys, sys_opened := sys_opened sys @ [(sid, key, conn_addrs c)]\<rparr>"
    have "distinct (pending_addrs sys)" "distinct (opened_keys sys)" using assms(5) by (auto simp: sys_inv_def)
    then have "distinct (pending_addrs ?sys')" "distinct (opened_keys ?sys')"
      using assms(1) f(2) by (auto simp: pending_addrs_def opened_keys_def)
    then show ?thesis using k w l Ok \<open>get_service_id_by_proxy_key (gws_mgr st') key = None\<close> by (simp add: sys_inv_def)
  qed (use rest in simp_all)
qed

lemma opened_entry:
  assumes "(sid, key, a) \<in> set (sys_opened sys)" and "sys_inv cfg sys"
  shows "listed (sys_mgr sys) sid a" "get_service_id_by_proxy_key (sys_mgr sys) key = None" "mgr_ready (sys_mgr sys)" "only_entitled cfg (sys_mgr sys)"
proof -
  from assms have "case (sid, key, a) of (sid, key, a) \<Rightarrow> listed (sys_mgr sys) sid a \<and> get_service_id_by_proxy_key (sys_mgr sys) key = None"
    unfolding sys_inv_def by blast
  then show "listed (sys_mgr sys) sid a" "get_service_id_by_proxy_key (sys_mgr sys) key = None" by simp_all
  show "mgr_ready (sys_mgr sys)" "only_entitled cfg (sys_mgr sys)" using assms(2) by (auto simp: sys_inv_def gw_inv_def)
qed

lemma registered_keeps:
  assumes "sys_opened sys = xs @ (sid, key, a) # ys" and "register_at sid key a (sys_gw sys) = (r, st')" and "sys_inv cfg sys"
  shows "sys_inv cfg (sys\<lparr>sys_gw := st', sys_opened := xs @ ys\<rparr>)"
proof -
  have "(sid, key, a) \<in> set (sys_opened sys)" by (simp add: assms(1))
  note e = opened_entry[OF this assms(3)]
  note reg = register_at_effect[OF assms(2) e(3,4,1,2)]
  have g: "gw_inv cfg st'" using reg(1-3) assms(3) by (simp add: sys_inv_def gw_inv_conns)
  have d: "distinct (pending_addrs sys)" "distinct (opened_keys sys)" using assms(3) by (auto simp: sys_inv_def)
  have "listed (gws_mgr st') i b \<and> get_service_id_by_proxy_key (gws_mgr st') k = None" if "(i, k, b) \<in> set (xs @ ys)" for i k b
  proof -
    have n: "a \<notin> (snd \<circ> snd) ` set (xs @ ys)" "key \<notin> (fst \<circ> snd) ` set (xs @ ys)"
      using d assms(1) by (simp_all add: pending_addrs_def opened_keys_def image_Un)
    have "b \<noteq> a" "k \<noteq> key" using n imageI[OF that, of "snd \<circ> snd"] imageI[OF that, of "fst \<circ> snd"] by auto
    moreover have "listed (sys_mgr sys) i b" "get_service_id_by_proxy_key (sys_mgr sys) k = None" using opened_entry[OF _ assms(3), of i k b] assms(1) that by auto
    ultimately show ?thesis using reg(6,7) by blast
  qed
  then have "\<forall>(i, k, b) \<in> set (xs @ ys). listed (gws_mgr st') i b \<and> get_service_id_by_proxy_key (gws_mgr st') k = None" by blast
  moreover have "awaited cfg (gws_mgr st') c (cn_alpn c)" if "c \<in> set (sys_created sys)" for c
  proof -
    have "conn_addrs c \<noteq> a" using d(1) that assms(1) by (force simp: pending_addrs_def)
    moreover have "awaited cfg (sys_mgr sys) c (cn_alpn c)" using assms(3) that by (auto simp: sys_inv_def)
    ultimately show ?thesis using reg(6) by (cases "(cfg, sys_mgr sys, c, cn_alpn c)" rule: awaited.cases) auto
  qed
  ultimately show ?thesis using g d assms(1) by (simp add: sys_inv_def pending_addrs_def opened_keys_def)
qed


lemma stop_shuts_down:
  assumes "main_stop st = (r, st')"
  shows "mgr_shutdown_connections None None (gws_mgr st) = (r, gws_mgr st')" "gws_conns st' = gws_conns st"
  using assms by (auto simp: main_stop_def split: prod.splits)

lemma take_task_simps [simp]:
  "gw_tasks (take_task st) = tl (gw_tasks st)" "sessions (gws_mgr (take_task st)) = sessions (gws_mgr st)"
  "get_service_proxy (gws_mgr (take_task st)) i = get_service_proxy (gws_mgr st) i"
  "get_service_id_by_proxy_key (gws_mgr (take_task st)) k = get_service_id_by_proxy_key (gws_mgr st) k"
  by (simp_all add: take_task_def Let_def sessions_def get_service_proxy_def get_service_id_by_proxy_key_def)

lemma take_task_inv: "gw_inv cfg (take_task st) = gw_inv cfg st"
  by (simp add: gw_inv_def take_task_def Let_def mgr_ready_def mgr_inv_def only_entitled_def get_service_proxy_def visitors_inv_def)

lemma system_step_inv:
  assumes "system_step chk L N S C cfg sys sys'" and "sys_inv cfg sys" and "user_inv (cfg_user_repo cfg)"
  shows "sys_inv cfg sys'"
proof -
  have g: "gw_inv cfg (sys_gw sys)" and i: "mgr_ready (sys_mgr sys)" "only_entitled cfg (sys_mgr sys)" "mgr_inv (sys_mgr sys)"
    using assms(2) by (auto simp: sys_inv_def gw_inv_def mgr_ready_def)
  note step = gw_step_inv[OF _ g assms(3)]
  from assms(1) show ?thesis
  proof cases
    case (handshake B t r st')
    then have "gws_mgr st' = sys_mgr sys" "gws_conns st' = gws_conns (sys_gw sys)" by (auto simp: on_handshake_def split: prod.splits)
    with g keeps_pending_refl show ?thesis unfolding handshake(1) by (intro sys_inv_keeps(2)[OF assms(2)]) (simp_all add: gw_inv_def)
  next
    case (created t r st')
    from main_create_keeps[OF created(2) assms(2,3) created(3)] show ?thesis by (simp add: created(1))
  next
    case (service_created sid t r st')
    from create_keeps[OF service_created(2) assms(2,3) service_created(3)] show ?thesis by (simp add: service_created(1))
  next
    case (control xs c ys r st')
    from control_keeps(1)[OF control(2-4) assms(2)] show ?thesis by (simp add: control(1))
  next
    case (opened xs c ys sid r st')
    from opened_keeps[OF opened(2-5) assms(2)] show ?thesis by (simp add: opened(1))
  next
    case (registered xs sid key a ys r st')
    from registered_keeps[OF registered(2,3) assms(2)] show ?thesis by (simp add: registered(1))
  next
    case (data j c bs r v' ch' mgr')
    from step[OF gw_step.data[OF data(2-4)]] request_keeps_pending[OF i(1) data(4)] show ?thesis
      unfolding data(1) by (intro sys_inv_keeps(2)[OF assms(2)]) simp_all
  next
    case (gone j c r v' ch' mgr')
    have "c \<in> set (gws_conns (sys_gw sys))" using gone(2,3) by simp
    then obtain uid x where sd: "mgr_shutdown_connections (Some uid) None (sys_mgr sys) = (x, mgr')"
      using gone_shuts_down[OF _ g gone(4)] by metis
    from step[OF gw_step.gone[OF gone(2-4)]] shutdown_keeps_pending[OF i(1) sd] show ?thesis
      unfolding gone(1) by (intro sys_inv_keeps(2)[OF assms(2)]) simp_all
  next
    case (stop r st')
    note sd = stop_shuts_down[OF stop(2)]
    from shutdown_entitled[OF i(1,2) sd(1)] sd(2) g have "gw_inv cfg st'" by (simp add: gw_inv_def)
    then show ?thesis unfolding stop(1) using shutdown_keeps_pending[OF i(1) sd(1)] by (rule sys_inv_keeps(2)[OF assms(2)])
  next
    case (task t ts E r ex')
    have "keeps_pending (sys_mgr sys) (gws_mgr (take_task (sys_gw sys)))" by (simp add: keeps_pending_def listed_def)
    then show ?thesis unfolding task(1) using g by (intro sys_inv_keeps(1)[OF assms(2)]) (simp_all add: take_task_inv)
  next
    case (thread key s s' ch')
    show ?thesis unfolding thread(1) using sys_inv_keeps(1)[OF assms(2) g keeps_pending_refl] by simp
  next
    case (event key evs r mgr')
    from step[OF gw_step.proxy_closed[OF event(3)]] closed_keeps_pending[OF i(3) event(3)] show ?thesis
      unfolding event(1) by (intro sys_inv_keeps(1)[OF assms(2)]) simp_all
  qed
qed

section \<open>The composed gateway keeps the account\<close>

lemma account_idle:
  assumes "session_keys (sys_mgr sys') \<union> set (opened_keys sys') = session_keys (sys_mgr sys) \<union> set (opened_keys sys)"
    and "gw_tasks (sys_gw sys') = gw_tasks (sys_gw sys)" and "sys_ex sys' = sys_ex sys"
  shows "tunnel_step (account_of sys) (account_of sys')"
  using assms by (simp add: account_of_def tunnel_step.idle)

lemma create_same:
  assumes "gw_create_client_conn L cfg t st = (r, st') \<or> create_at L cfg sid t st = (r, st')"
  shows "sessions (gws_mgr st') = sessions (gws_mgr st)" "gw_tasks st' = gw_tasks st"
proof -
  have "st' = st \<or> (\<exists>i. create_at L cfg i t st = (r, st'))"
    using assms by (auto simp: gw_create_client_conn_def split: res.splits protocol.splits)
  moreover have "gw_tasks st' = gw_tasks st" if "create_at L cfg i t st = (r, st')" for i
    using that by (auto simp: create_at_def gw_get_service_proxy_def split: res.splits prod.splits)
  ultimately show "sessions (gws_mgr st') = sessions (gws_mgr st)" "gw_tasks st' = gw_tasks st" using sessions_create_at by blast+
qed

lemma opened_account:
  assumes "sys_created sys = xs @ c # ys" and "cn_alpn c = Some (Service sid)" and "open_at N cfg sid c (sys_gw sys) = (r, st')"
    and "\<And>key. r = Ok key \<Longrightarrow> key_free key (account_of sys)" and "sys_inv cfg sys"
  shows "tunnel_step (account_of sys)
    (account_of (sys\<lparr>sys_gw := st', sys_created := xs @ ys, sys_opened := sys_opened sys @ map (\<lambda>key. (sid, key, conn_addrs c)) (outcome r)\<rparr>))"
proof -
  obtain vis where v: "get_service_proxy (sys_mgr sys) sid = Some vis" using pending_listed[OF assms(1,2,5)] .
  note o = open_at_cases[OF assms(3) v]
  have k: "session_keys (gws_mgr st') = session_keys (sys_mgr sys)" by (simp add: session_keys_def o(3))
  from o(1) show ?thesis
  proof (elim disjE exE conjE)
    fix task
    assume t: "r = Ok (task_key task)" "opens_proxy task" "gw_tasks st' = gw_tasks (sys_gw sys) @ [task]"
    from tunnel_step.admit[OF t(2), of "session_keys (sys_mgr sys) \<union> set (opened_keys sys)" "gw_tasks (sys_gw sys)" "sys_ex sys"] assms(4)[OF t(1)]
    show ?thesis by (simp add: account_of_def opened_keys_def k t(1,3))
  qed (auto simp: opened_keys_def k intro!: account_idle)
qed

lemma registered_account:
  assumes "sys_opened sys = xs @ (sid, key, a) # ys" and "register_at sid key a (sys_gw sys) = (r, st')" and "sys_inv cfg sys"
  shows "tunnel_step (account_of sys) (account_of (sys\<lparr>sys_gw := st', sys_opened := xs @ ys\<rparr>))"
proof -
  have "(sid, key, a) \<in> set (sys_opened sys)" by (simp add: assms(1))
  note e = opened_entry[OF this assms(3)]
  note reg = register_at_effect[OF assms(2) e(3,4,1,2)]
  obtain uid where "sessions (gws_mgr st') = insert (sid, uid, key) (sessions (sys_mgr sys))" using reg(5) by blast
  then have "session_keys (gws_mgr st') = insert key (session_keys (sys_mgr sys))" by (auto simp: session_keys_def)
  with reg(4) assms(1) show ?thesis by (intro account_idle) (simp_all add: opened_keys_def)
qed

lemma shutdown_account:
  assumes "mgr_ready (sys_mgr sys)" and "mgr_shutdown_connections uo sid (sys_mgr sys) = (r, mgr')" and "gws_mgr st' = mgr'"
  shows "tunnel_step (account_of sys) (account_of (sys\<lparr>sys_gw := st'\<rparr>))"
proof -
  obtain ks where ks: "gw_tasks st' = gw_tasks (sys_gw sys) @ map CloseProxy ks" "session_keys mgr' \<subseteq> session_keys (sys_mgr sys)"
    "session_keys (sys_mgr sys) \<subseteq> session_keys mgr' \<union> set ks"
    using shutdown_revokes[OF assms(1,2)] assms(3) by metis
  have "session_keys mgr' \<union> set (opened_keys sys) \<subseteq> session_keys (sys_mgr sys) \<union> set (opened_keys sys)"
    "session_keys (sys_mgr sys) \<union> set (opened_keys sys) \<subseteq> session_keys mgr' \<union> set (opened_keys sys) \<union> set ks" using ks(2,3) by blast+
  from tunnel_step.revoke[OF this] show ?thesis using assms(3) ks(1) by (simp add: account_of_def opened_keys_def)
qed

lemma read_account:
  assumes "mgr_ready (sys_mgr sys)" and "cv_on_connection_read chk S C cfg bs (v, ch, sys_mgr sys) = (r, v', ch', mgr')" and "gws_mgr st' = mgr'"
  shows "tunnel_step (account_of sys) (account_of (sys\<lparr>sys_gw := st'\<rparr>))"
proof -
  have "mgr' = sys_mgr sys \<or> (\<exists>svc x. mgr_startup chk cfg svc (sys_mgr sys) = (x, mgr')) \<or>
      (\<exists>uid sid x. mgr_shutdown_connections (Some uid) (Some sid) (sys_mgr sys) = (x, mgr'))"
    using read_keeps_visitor[OF assms(2)] process_request_mgr by blast
  then show ?thesis
  proof (elim disjE exE)
    fix svc x
    assume st: "mgr_startup chk cfg svc (sys_mgr sys) = (x, mgr')"
    then have "sessions mgr' = sessions (sys_mgr sys)" using assms(1) by (intro sessions_startup) (simp_all add: mgr_ready_def)
    with startup_shared[OF st] assms(3) show ?thesis by (intro account_idle) (simp_all add: session_keys_def opened_keys_def)
  next
    fix uid sid x
    assume "mgr_shutdown_connections (Some uid) (Some sid) (sys_mgr sys) = (x, mgr')"
    then show ?thesis using assms(3) by (rule shutdown_account[OF assms(1)])
  qed (use assms(3) in \<open>simp add: account_of_def opened_keys_def tunnel_step.idle\<close>)
qed

lemma closed_account:
  assumes "mgr_inv (sys_mgr sys)" and "on_closed_proxy key (sys_mgr sys) = (r, mgr')" and "queue (ex_events (sys_ex sys)) = ProxyClosed key # evs"
  shows "tunnel_step (account_of sys)
    (account_of (sys\<lparr>sys_gw := (sys_gw sys)\<lparr>gws_mgr := mgr'\<rparr>, sys_ex := (sys_ex sys)\<lparr>ex_events := (ex_events (sys_ex sys))\<lparr>queue := evs\<rparr>\<rparr>\<rparr>))"
proof -
  have "session_keys mgr' = session_keys (sys_mgr sys) - {key}" by (auto simp: session_keys_def sessions_closed[OF assms(1,2)])
  then have "session_keys (sys_mgr sys) \<union> set (opened_keys sys) - {key} \<subseteq> session_keys mgr' \<union> set (opened_keys sys)"
    "session_keys mgr' \<union> set (opened_keys sys) \<subseteq> session_keys (sys_mgr sys) \<union> set (opened_keys sys)" by blast+
  moreover have "gs_proxy_tasks (gm_shared mgr') = gs_proxy_tasks (gm_shared (sys_mgr sys))" by (rule closed_tasks[OF assms(2)])
  ultimately show ?thesis using tunnel_step.forget[OF assms(3)] by (simp add: account_of_def opened_keys_def)
qed

lemma system_step_account:
  assumes "system_step chk L N S C cfg sys sys'" and "sys_inv cfg sys"
  shows "tunnel_step (account_of sys) (account_of sys')"
proof -
  have g: "gw_inv cfg (sys_gw sys)" and i: "mgr_ready (sys_mgr sys)" "mgr_inv (sys_mgr sys)"
    using assms(2) by (auto simp: sys_inv_def gw_inv_def mgr_ready_def)
  from assms(1) show ?thesis
  proof cases
    case (handshake B t r st')
    then have "gws_mgr st' = sys_mgr sys" by (auto simp: on_handshake_def split: prod.splits)
    then show ?thesis by (simp add: handshake(1) account_of_def opened_keys_def tunnel_step.idle)
  next
    case (created t r st')
    show ?thesis unfolding created(1) using create_same[OF disjI1[OF created(2)]] by (intro account_idle) (simp_all add: session_keys_def opened_keys_def)
  next
    case (service_created sid t r st')
    show ?thesis unfolding service_created(1) using create_same[OF disjI2[OF service_created(2)]]
      by (intro account_idle) (simp_all add: session_keys_def opened_keys_def)
  next
    case (control xs c ys r st')
    from control_keeps(2)[OF control(2-4) assms(2)] show ?thesis by (simp add: control(1) account_of_def opened_keys_def tunnel_step.idle)
  next
    case (opened xs c ys sid r st')
    from opened_account[OF opened(2-5) assms(2)] show ?thesis by (simp only: opened(1))
  next
    case (registered xs sid key a ys r st')
    from registered_account[OF registered(2,3) assms(2)] show ?thesis by (simp only: registered(1))
  next
    case (data k c bs r v' ch' mgr')
    show ?thesis unfolding data(1) by (rule read_account[OF i(1) data(4)]) simp
  next
    case (gone k c r v' ch' mgr')
    have "c \<in> set (gws_conns (sys_gw sys))" using gone(2,3) by simp
    then obtain uid x where sd: "mgr_shutdown_connections (Some uid) None (sys_mgr sys) = (x, mgr')"
      using gone_shuts_down[OF _ g gone(4)] by metis
    show ?thesis unfolding gone(1) by (rule shutdown_account[OF i(1) sd]) simp
  next
    case (stop r st')
    from shutdown_account[OF i(1) stop_shuts_down(1)[OF stop(2)] refl] show ?thesis by (simp only: stop(1))
  next
    case (task t ts E r ex')
    with tunnel_step.execute[OF task(3)] show ?thesis by (simp add: account_of_def session_keys_def opened_keys_def)
  next
    case (thread key s s' ch')
    with tunnel_step.finish[OF thread(2-4)] show ?thesis by (simp add: account_of_def opened_keys_def)
  next
    case (event key evs r mgr')
    from closed_account[OF i(2) event(3,2)] show ?thesis by (simp only: event(1))
  qed
qed

interpretation sys_sim: simulation "system_step chk L N S C cfg" "\<lambda>sys. user_inv (cfg_user_repo cfg) \<and> sys_inv cfg sys" account_of tunnel_step
  by unfold_locales (auto intro: system_step_inv system_step_account)

lemma account_new: "account_inv (account_of (system_new cfg))"
proof -
  have "session_keys (gws_mgr (main_new cfg)) = {}" by (simp add: session_keys_def sessions_new)
  moreover have "gw_tasks (main_new cfg) = []" by (simp add: main_new_def gw_mgr_new_def new_chan_def split: option.splits)
  ultimately show ?thesis by (simp add: account_of_def system_new_def opened_keys_def executor_new_def account_defs new_chan_def hm_get_def)
qed

lemma system_run:
  assumes "(system_step chk L N S C cfg)\<^sup>*\<^sup>* (system_new cfg) sys" and "user_inv (cfg_user_repo cfg)"
  shows "sys_inv cfg sys" "account_inv (account_of sys)"
proof -
  have new: "user_inv (cfg_user_repo cfg) \<and> sys_inv cfg (system_new cfg)"
    using assms(2) gw_inv_new by (simp add: system_new_def sys_inv_def pending_addrs_def opened_keys_def)
  show "sys_inv cfg sys" using sys_sim.run_refines[OF assms(1) new] by blast
  show "account_inv (account_of sys)" using sys_sim.run_promises[OF assms(1) new, of account_inv, OF account_new tunnel_step_inv] .
qed

text \<open>
  C2: data only flow for entitled users, in whatever order the steps come: connections that are created, hand
  their task to the executor and are registered, one step each, requests, lost control connections, the
  end of the gateway, tasks of the executor, ends of proxy threads and their events.  In every state of the composed
  gateway, a proxy whose thread copies data and has not been told to stop belongs to an active user with an
  access record for the service, who has a session with its key or an accepted connection that is about to be
  registered with it; or the executor's queue holds the order to close it.  The runs are those in which
  the key of a new proxy is not in use: clients that connect to one service twice from one source port break this
  (\<open>same_source_port_same_key\<close>).  Handlers other than those of an arrival are single steps.
\<close>

theorem live_tunnels_belong_to_entitled_users:
  assumes "(system_step chk L N S C cfg)\<^sup>*\<^sup>* (system_new cfg) sys" and "user_inv (cfg_user_repo cfg)"
    and "hm_get (ex_streams (sys_ex sys)) key = Some s" and "stream_live s"
  shows "(\<exists>sid uid. (sid, uid, key) \<in> sessions (sys_mgr sys) \<and> entitled cfg uid sid) \<or>
    (\<exists>sid uid vis a. (sid, key, a) \<in> set (sys_opened sys) \<and> get_service_proxy (sys_mgr sys) sid = Some vis \<and>
       addrs_user vis a = Some uid \<and> entitled cfg uid sid) \<or>
    CloseProxy key \<in> set (gw_tasks (sys_gw sys))"
proof -
  note run = system_run[OF assms(1,2)]
  have i: "mgr_inv (sys_mgr sys)" "only_entitled cfg (sys_mgr sys)" using run(1) by (auto simp: sys_inv_def gw_inv_def mgr_ready_def)
  have "owned (session_keys (sys_mgr sys) \<union> set (opened_keys sys)) (gw_tasks (sys_gw sys)) key"
    using run(2) assms(3,4) by (auto simp: account_defs account_of_def)
  then consider (session) sid uid where "(sid, uid, key) \<in> sessions (sys_mgr sys)" | (opened) sid a where "(sid, key, a) \<in> set (sys_opened sys)"
    | (ordered) "CloseProxy key \<in> set (gw_tasks (sys_gw sys))"
    by (fastforce simp: owned_def session_keys_def opened_keys_def)
  then show ?thesis
  proof cases
    case session
    with session_user[OF i] show ?thesis by blast
  next
    case opened
    from opened_entry(1)[OF opened run(1)] show ?thesis using opened listed_entitled[OF i(2)] by metis
  qed blast
qed

text \<open>A run up to the thread that copies the data: ann connects to the control plane, starts \<open>echo\<close>, and connects to it.\<close>

abbreviation demo_system_step :: "gw_system \<Rightarrow> gw_system \<Rightarrow> bool" where
  "demo_system_step \<equiv> system_step True demo_gw_lib demo_reachable_net demo_json demo_cli demo_config"

abbreviation demo_sys :: "gw_mgr \<Rightarrow> gw_conn list \<Rightarrow> gw_conn list \<Rightarrow> (u64 \<times> string \<times> proxy_addrs) list \<Rightarrow> gw_system" where
  "demo_sys mgr cs created opened \<equiv>
     \<lparr>sys_gw = demo_at (None, []) mgr cs, sys_ex = executor_new new_chan, sys_created = created, sys_opened = opened\<rparr>"

abbreviation demo_vis :: svc_visitor where
  "demo_vis \<equiv> svc_visitor_new demo_service (Some ''gw'') 8500"

abbreviation demo_listed_vis :: svc_visitor where
  "demo_listed_vis \<equiv> demo_vis\<lparr>sp_users_by_proxy_addrs := [(create_proxy_addrs (demo_tls 100), 100)]\<rparr>"

abbreviation demo_listed_mgr :: gw_mgr where
  "demo_listed_mgr \<equiv> set_visitor 203 demo_listed_vis demo_started_mgr"

lemma demo_protocols: "parse_alpn_protocol (gl_digits demo_gw_lib) (tls_alpn_protocol demo_control_tls) = Ok ControlPlane"
  "cn_alpn demo_control_conn = Some ControlPlane" "parse_alpn_protocol (gl_digits demo_gw_lib) (tls_alpn_protocol (demo_tls 100)) = Ok (Service 203)"
  by (simp_all add: demo_gw_lib_def demo_control_tls_def demo_control_conn_def demo_tls_def)

lemma demo_system_started:
  obtains ch where "demo_system_step\<^sup>*\<^sup>* (system_new demo_config) (demo_sys demo_started_mgr [demo_control_conn\<lparr>cn_events := ch\<rparr>] [] [])"
proof -
  have new: "system_new demo_config = demo_sys demo_mgr [] [] []" by (simp add: system_new_def demo_main_new)
  have "gw_create_client_conn demo_gw_lib demo_config demo_control_tls (demo_at (None, []) demo_mgr []) = (Ok demo_control_conn, demo_at (None, []) demo_mgr [])"
    by (simp add: gw_create_client_conn_def demo_protocols demo_control_created)
  from system_step.created[of demo_gw_lib demo_config demo_control_tls "demo_sys demo_mgr [] [] []", simplified, OF this]
  have s1: "demo_system_step (demo_sys demo_mgr [] [] []) (demo_sys demo_mgr [] [demo_control_conn] [])"
    by (simp add: fresh_addrs_def pending_addrs_def demo_mgr_no_service)
  have s2: "demo_system_step (demo_sys demo_mgr [] [demo_control_conn] []) (demo_sys demo_mgr [demo_control_conn] [] [])"
    using system_step.control[of "demo_sys demo_mgr [] [demo_control_conn] []" "[]" demo_control_conn "[]" demo_reachable_net demo_config "Ok ()"
      "demo_at (None, []) demo_mgr [demo_control_conn]"]
    by (simp add: gw_on_conn_accepted_def demo_protocols)
  obtain r ch where "cv_on_connection_read True demo_json demo_cli demo_config (bytes_of_text ''start -s echo -p 8501'')
      (cn_visitor demo_control_conn, cn_events demo_control_conn, demo_mgr) = (r, cn_visitor demo_control_conn, ch, demo_started_mgr)"
    using demo_start_read by blast
  then have "demo_system_step (demo_sys demo_mgr [demo_control_conn] [] []) (demo_sys demo_started_mgr [demo_control_conn\<lparr>cn_events := ch\<rparr>] [] [])"
    using system_step.data[of 0 "demo_sys demo_mgr [demo_control_conn] [] []" demo_control_conn True demo_json demo_cli demo_config
      "bytes_of_text ''start -s echo -p 8501''" r "cn_visitor demo_control_conn" ch demo_started_mgr demo_gw_lib demo_reachable_net] by simp
  with s1 s2 that[of ch] new show ?thesis by (metis (no_types, lifting) rtranclp.rtrancl_into_rtrancl rtranclp.rtrancl_refl)
qed

lemma demo_system_created:
  obtains cs c where "demo_system_step\<^sup>*\<^sup>* (system_new demo_config) (demo_sys demo_listed_mgr cs [c] [])"
    "cn_stream c = demo_tls 100" "cn_alpn c = Some (Service 203)"
proof -
  obtain ch where run: "demo_system_step\<^sup>*\<^sup>* (system_new demo_config) (demo_sys demo_started_mgr [demo_control_conn\<lparr>cn_events := ch\<rparr>] [] [])"
    by (rule demo_system_started)
  let ?cs = "[demo_control_conn\<lparr>cn_events := ch\<rparr>]"
  let ?sys = "demo_sys demo_started_mgr ?cs [] []"
  have v: "sv_service_id (sp_service demo_vis) = 203" by (simp add: svc_visitor_new_def demo_service_def new_service_def)
  have u: "100 = ctx_user_id (dv_cert_access_context (demo_device 100))" "(100 :: u64) \<noteq> 0" by (simp_all add: demo_device_def)
  have a: "rw_avail (cfg_service_repo demo_config)" by (simp add: rw_avail_def demo_config_def)
  obtain c where c: "svc_create_client_conn demo_gw_lib demo_config (demo_tls 100) demo_vis = (Ok c, demo_listed_vis)"
    "cn_stream c = demo_tls 100" "cn_alpn c = Some (Service 203)"
    using create_entitled_user[OF demo_authorize_device(1) u, of demo_config demo_vis] demo_entitled demo_protocols(3) demo_user_inv a v
    by (auto simp: hm_insert_def svc_visitor_new_def)
  have "gw_create_client_conn demo_gw_lib demo_config (demo_tls 100) (sys_gw ?sys) = (Ok c, demo_at (None, []) demo_listed_mgr ?cs)"
    by (simp add: gw_create_client_conn_def demo_protocols create_at_def gw_get_service_proxy_def demo_started_visitor c(1))
  moreover have "fresh_addrs ?sys (demo_tls 100)"
    by (simp add: fresh_addrs_def pending_addrs_def demo_started_visitor addrs_free_def svc_visitor_new_def hm_get_def)
  ultimately have "demo_system_step ?sys (demo_sys demo_listed_mgr ?cs [c] [])"
    using system_step.created[of demo_gw_lib demo_config "demo_tls 100" ?sys "Ok c" "demo_at (None, []) demo_listed_mgr ?cs"] by simp
  with run have "demo_system_step\<^sup>*\<^sup>* (system_new demo_config) (demo_sys demo_listed_mgr ?cs [c] [])" by (rule rtranclp.rtrancl_into_rtrancl)
  then show ?thesis using c(2,3) by (rule that)
qed

lemma opening_task_clones:
  assumes "opening_task N cfg t svc = Some (OpenTcpAndTcpProxy key s1 s2)"
  shows "st_clone_err s1 = None \<and> st_clone_err s2 = None"
  using assms by (auto simp: opening_task_def net_stream.defs split: if_splits transport.splits res.splits option.splits prod.splits)

text \<open>The task of the connection, and its key, which nothing uses yet.\<close>

lemma demo_open_at:
  assumes "cn_stream c = demo_tls 100"
  obtains s1 s2 where "open_at demo_reachable_net demo_config 203 c (demo_at crl demo_listed_mgr cs) = (Ok demo_session_key,
      demo_at crl (demo_listed_mgr\<lparr>gm_shared := enqueued (OpenTcpAndTcpProxy demo_session_key s1 s2) (gm_shared demo_started_mgr)\<rparr>) cs)"
    "st_clone_err s1 = None" "st_clone_err s2 = None"
proof -
  obtain s1 s2 where t: "opening_task demo_reachable_net demo_config (cn_stream c) (sp_service demo_listed_vis) =
      Some (OpenTcpAndTcpProxy demo_session_key s1 s2)" "st_clone_err s1 = None" "st_clone_err s2 = None"
    using demo_opening_task opening_task_clones assms by (auto simp: svc_visitor_new_def)
  have "receiver_alive (gs_proxy_tasks (gm_shared demo_started_mgr))" by (simp add: demo_started_shared new_chan_def)
  from open_reachable[OF t(1) this] have "open_at demo_reachable_net demo_config 203 c (demo_at crl demo_listed_mgr cs) = (Ok demo_session_key,
      demo_at crl (demo_listed_mgr\<lparr>gm_shared := enqueued (OpenTcpAndTcpProxy demo_session_key s1 s2) (gm_shared demo_started_mgr)\<rparr>) cs)"
    by (simp add: open_at_def gw_get_service_proxy_def) (simp add: set_visitor_def hm_insert_twice)
  then show ?thesis using t(2,3) by (rule that)
qed

lemma demo_key_free: "key_free k (account_of (demo_sys demo_listed_mgr cs [c] []))"
proof -
  have "session_keys demo_listed_mgr = {}"
    by (auto simp: session_keys_def in_sessions demo_started_visitor keys_of_def svc_visitor_new_def hm_get_def split: if_splits)
  then show ?thesis
    by (simp add: key_free_def account_of_def opened_keys_def demo_started_shared executor_new_def new_chan_def hm_get_def)
qed

lemma demo_system_session:
  obtains sys s1 s2 where "demo_system_step\<^sup>*\<^sup>* (system_new demo_config) sys" "gw_tasks (sys_gw sys) = [OpenTcpAndTcpProxy demo_session_key s1 s2]"
    "sys_opened sys = []" "sys_ex sys = executor_new new_chan" "st_clone_err s1 = None" "st_clone_err s2 = None"
proof -
  obtain cs c where run: "demo_system_step\<^sup>*\<^sup>* (system_new demo_config) (demo_sys demo_listed_mgr cs [c] [])" (is "rtranclp _ _ ?sys")
    and c: "cn_stream c = demo_tls 100" "cn_alpn c = Some (Service 203)" by (rule demo_system_created)
  obtain s1 s2 where o: "open_at demo_reachable_net demo_config 203 c (demo_at (None, []) demo_listed_mgr cs) = (Ok demo_session_key,
      demo_at (None, []) (demo_listed_mgr\<lparr>gm_shared := enqueued (OpenTcpAndTcpProxy demo_session_key s1 s2) (gm_shared demo_started_mgr)\<rparr>) cs)"
      (is "_ = (_, ?st1)")
    and e: "st_clone_err s1 = None" "st_clone_err s2 = None" by (rule demo_open_at[OF c(1)])
  let ?sys1 = "?sys\<lparr>sys_gw := ?st1, sys_created := [], sys_opened := [(203, demo_session_key, conn_addrs c)]\<rparr>"
  have "demo_system_step ?sys ?sys1"
    using system_step.opened[of ?sys "[]" c "[]" 203 demo_reachable_net demo_config "Ok demo_session_key" ?st1] c(2) o demo_key_free by simp
  with run have run1: "demo_system_step\<^sup>*\<^sup>* (system_new demo_config) ?sys1" by (rule rtranclp.rtrancl_into_rtrancl)
  obtain r st2 where reg: "register_at 203 demo_session_key (conn_addrs c) ?st1 = (r, st2)" by fastforce
  have "sys_opened ?sys1 = [] @ (203, demo_session_key, conn_addrs c) # []" by simp
  note entry = this
  have "(203, demo_session_key, conn_addrs c) \<in> set (sys_opened ?sys1)" by simp
  note en = opened_entry[OF this system_run(1)[OF run1 demo_user_inv]]
  have "gw_tasks st2 = [OpenTcpAndTcpProxy demo_session_key s1 s2]"
    using register_at_effect(4)[OF reg] en by (simp add: enqueued_def demo_started_shared new_chan_def)
  moreover have "demo_system_step ?sys1 (?sys1\<lparr>sys_gw := st2, sys_opened := []\<rparr>)"
    using system_step.registered[OF entry, where r = r and st' = st2] reg by simp
  with run1 have "demo_system_step\<^sup>*\<^sup>* (system_new demo_config) (?sys1\<lparr>sys_gw := st2, sys_opened := []\<rparr>)" by (rule rtranclp.rtrancl_into_rtrancl)
  ultimately show ?thesis using that[of "?sys1\<lparr>sys_gw := st2, sys_opened := []\<rparr>" s1 s2] e by simp
qed

theorem live_tunnels_belong_to_entitled_users_witness:
  "\<exists>sys s sid uid. demo_system_step\<^sup>*\<^sup>* (system_new demo_config) sys \<and> gw_tasks (sys_gw sys) = [] \<and>
     hm_get (ex_streams (sys_ex sys)) demo_session_key = Some s \<and> stream_live s \<and>
     (sid, uid, demo_session_key) \<in> sessions (sys_mgr sys) \<and> entitled demo_config uid sid"
proof -
  obtain sys s1 s2 where run: "demo_system_step\<^sup>*\<^sup>* (system_new demo_config) sys"
    and q: "gw_tasks (sys_gw sys) = [OpenTcpAndTcpProxy demo_session_key s1 s2]" "sys_opened sys = []"
    and e: "sys_ex sys = executor_new new_chan" "st_clone_err s1 = None" "st_clone_err s2 = None"
    by (rule demo_system_session)
  obtain s where o: "executor_task demo_proxy_env (OpenTcpAndTcpProxy demo_session_key s1 s2) (sys_ex sys) =
      (Ok (), (executor_new new_chan)\<lparr>ex_streams := [(demo_session_key, s)]\<rparr>)" "stream_live s"
    using demo_opened[OF e(2,3)] e(1) by metis
  let ?sys = "sys\<lparr>sys_gw := take_task (sys_gw sys), sys_ex := (executor_new new_chan)\<lparr>ex_streams := [(demo_session_key, s)]\<rparr>\<rparr>"
  have r: "demo_system_step\<^sup>*\<^sup>* (system_new demo_config) ?sys" using run system_step.task[OF q(1) o(1)] by (rule rtranclp.rtrancl_into_rtrancl)
  have g: "hm_get (ex_streams (sys_ex ?sys)) demo_session_key = Some s" by (simp add: hm_get_def)
  have t: "gw_tasks (sys_gw ?sys) = []" "sys_opened ?sys = []" using q by simp_all
  from live_tunnels_belong_to_entitled_users[OF r demo_user_inv g o(2)] t have
    "\<exists>sid uid. (sid, uid, demo_session_key) \<in> sessions (sys_mgr ?sys) \<and> entitled demo_config uid sid" by simp
  with r g t(1) o(2) show ?thesis by blast
qed

section \<open>The order of opening and registering\<close>

text \<open>The later states of a session whose proxy is gone, as long as nobody orders its end.\<close>

lemma opened_keys_step:
  assumes "system_step chk L N S C cfg sys sys'"
  shows "set (opened_keys sys') \<subseteq> set (opened_keys sys) \<union> {key. key_free key (account_of sys)}"
  using assms
proof cases
  case (opened xs c ys sid r st')
  then show ?thesis by (cases r) (auto simp: opened_keys_def)
qed (auto simp: opened_keys_def)

lemma left_over_step:
  assumes "system_step chk L N S C cfg sys sys'" and "sys_inv cfg sys" and "account_inv (account_of sys)"
    and "stale key (account_of sys)" and "key \<notin> set (opened_keys sys)" and "CloseProxy key \<notin> set (gw_tasks (sys_gw sys'))"
  shows "stale key (account_of sys') \<and> key \<notin> set (opened_keys sys')"
proof
  note step = system_step_account[OF assms(1,2)]
  show "stale key (account_of sys')" using stale_step[OF step assms(3,4)] assms(6) by (simp add: account_of_def)
  show "key \<notin> set (opened_keys sys')" using opened_keys_step[OF assms(1)] assms(4,5) by (auto simp: stale_def key_free_def account_of_def)
qed

abbreviation unordered_step ::
  "string \<Rightarrow> bool \<Rightarrow> 'a gw_lib \<Rightarrow> net_env \<Rightarrow> 'v serde \<Rightarrow> cli_lib \<Rightarrow> app_config \<Rightarrow> gw_system \<Rightarrow> gw_system \<Rightarrow> bool" where
  "unordered_step key chk L N S C cfg sys sys' \<equiv> system_step chk L N S C cfg sys sys' \<and> CloseProxy key \<notin> set (gw_tasks (sys_gw sys'))"

lemma left_over_run:
  assumes "(unordered_step key chk L N S C cfg)\<^sup>*\<^sup>* sys sys'" and "sys_inv cfg sys" and "user_inv (cfg_user_repo cfg)"
    and "account_inv (account_of sys)" and "stale key (account_of sys)" and "key \<notin> set (opened_keys sys)"
  shows "key \<in> session_keys (sys_mgr sys')"
proof -
  have "sys_inv cfg sys' \<and> account_inv (account_of sys') \<and> stale key (account_of sys') \<and> key \<notin> set (opened_keys sys')"
    using assms(1)
  proof induction
    case (step a b)
    then have s: "system_step chk L N S C cfg a b" "CloseProxy key \<notin> set (gw_tasks (sys_gw b))"
      and i: "sys_inv cfg a" "account_inv (account_of a)" "stale key (account_of a)" "key \<notin> set (opened_keys a)" by auto
    from system_step_inv[OF s(1) i(1) assms(3)] tunnel_step_inv[OF system_step_account[OF s(1) i(1)] i(2)] left_over_step[OF s(1) i s(2)]
    show ?case by simp
  qed (use assms in simp)
  then show ?thesis by (auto simp: stale_def account_of_def)
qed

text \<open>The handler of a service connection that succeeds is its two phases.\<close>

lemma accept_at_split:
  assumes "accept_at N cfg sid c st = (Ok (), st1)" and "get_service_proxy (gws_mgr st) sid = Some vis" and "gw_tasks st = []" and "gw_tasks st1 = [task]"
  obtains st0 where "open_at N cfg sid c st = (Ok (task_key task), st0)" "register_at sid (task_key task) (conn_addrs c) st0 = (Ok (), st1)"
    "gw_tasks st0 = [task]" "opens_proxy task"
proof -
  obtain key st0 where h: "open_at N cfg sid c st = (Ok key, st0)" "register_at sid key (conn_addrs c) st0 = (Ok (), st1)"
    using assms(1) unfolding accept_at_phases by (auto simp: sop_bind_def split: prod.splits res.splits)
  obtain task0 where t0: "key = task_key task0" "opens_proxy task0" "gw_tasks st0 = [task0]"
    using open_at_cases(1)[OF h(1) assms(2)] assms(3) by auto
  moreover have "gw_tasks st1 = gw_tasks st0" using h(2)
    by (auto simp: register_at_def register_proxy_def Let_def gw_get_service_proxy_def split: res.splits prod.splits option.splits)
  ultimately show ?thesis using that h assms(4) by auto
qed

text \<open>
  The report of a proxy that could not be opened, taken between the two phases: nothing is there to be
  removed.
\<close>

lemma report_between:
  assumes "sys_inv cfg sys" and "sys_opened sys = xs @ (sid, key, a) # ys" and "queue (ex_events (sys_ex sys)) = [ProxyClosed key]"
    and "key \<notin> set (opening_keys (gw_tasks (sys_gw sys)))" and "\<forall>s. hm_get (ex_streams (sys_ex sys)) key = Some s \<longrightarrow> thread_ended s"
    and "user_inv (cfg_user_repo cfg)"
  obtains sys' uid where "(system_step chk L N S C cfg)\<^sup>*\<^sup>* sys sys'" "(sid, uid, key) \<in> sessions (sys_mgr sys')" "sys_opened sys' = xs @ ys"
    "stale key (account_of sys')" "key \<notin> set (opened_keys sys')"
proof -
  obtain r mgr1 where c: "on_closed_proxy key (sys_mgr sys) = (r, mgr1)" by fastforce
  let ?sys1 = "sys\<lparr>sys_gw := (sys_gw sys)\<lparr>gws_mgr := mgr1\<rparr>, sys_ex := (sys_ex sys)\<lparr>ex_events := (ex_events (sys_ex sys))\<lparr>queue := []\<rparr>\<rparr>\<rparr>"
  have s1: "system_step chk L N S C cfg sys ?sys1" using system_step.event[OF assms(3) c] .
  have i1: "sys_inv cfg ?sys1" using system_step_inv[OF s1 assms(1,6)] .
  have o1: "sys_opened ?sys1 = xs @ (sid, key, a) # ys" using assms(2) by simp
  obtain r' st2 where reg: "register_at sid key a (sys_gw ?sys1) = (r', st2)" by fastforce
  let ?sys2 = "?sys1\<lparr>sys_gw := st2, sys_opened := xs @ ys\<rparr>"
  have s2: "system_step chk L N S C cfg ?sys1 ?sys2" using system_step.registered[OF o1 reg] .
  have "(sid, key, a) \<in> set (sys_opened ?sys1)" by (simp add: assms(2))
  note en = opened_entry[OF this i1]
  note eff = register_at_effect[OF reg en(3,4,1,2)]
  obtain uid where u: "sessions (gws_mgr st2) = insert (sid, uid, key) (sessions (sys_mgr ?sys1))" using eff(5) by blast
  have t: "gw_tasks st2 = gw_tasks (sys_gw sys)" using eff(4) closed_tasks[OF c] by simp
  have d: "key \<notin> set (opened_keys ?sys2)" using assms(1,2) by (auto simp: sys_inv_def opened_keys_def)
  have "stale key (account_of ?sys2)" using assms(4,5) by (auto simp: stale_def account_of_def t session_keys_def u)
  moreover have "(system_step chk L N S C cfg)\<^sup>*\<^sup>* sys ?sys2" using s1 s2 by (meson rtranclp.rtrancl_into_rtrancl rtranclp.rtrancl_refl)
  ultimately show ?thesis using that[of ?sys2 uid] u d by simp
qed


text \<open>The run of above, with an executor that cannot make the client's stream non-blocking.\<close>

lemma demo_not_opened:
  assumes "st_clone_err s1 = None" and "st_clone_err s2 = None"
  shows "executor_task (demo_proxy_env\<lparr>pe_nonblocking1 := Some err\<rparr>) (OpenTcpAndTcpProxy key s1 s2) ex = (Ok (), ex\<lparr>ex_events := report_closed key (ex_events ex)\<rparr>)"
  using assms by (simp add: open_proxy_def tt_new_def clone_std_tcp_stream_def answered_def demo_proxy_env_def map_err_def)


end
