(* ===== verification/T0_Cli_System.thy ===== *)
theory T0_Cli_System
  imports T0_Account T0_Sessions
begin

text \<open>
  The client as a whole: its service manager, the executor of its proxies and their threads.  Like the
  gateway it implements the account of \<open>T0_Account\<close>: a live tunnel of the client belongs to a proxy the
  manager knows, and after a shutdown none is left once the executor has worked off its tasks.
\<close>

record cli_system =
  cs_mgr :: cli_mgr
  cs_ex :: proxy_executor

abbreviation cli_tasks :: "cli_mgr \<Rightarrow> proxy_task list" where
  "cli_tasks mgr \<equiv> queue (xs_proxy_tasks (xm_shared mgr))"

definition cli_keys :: "cli_mgr \<Rightarrow> string set" where
  "cli_keys mgr = {key. get_proxy_service_for_proxy_key mgr key \<noteq> None}"

definition cli_account :: "cli_system \<Rightarrow> account" where
  "cli_account cs = (cli_keys (cs_mgr cs), cli_tasks (cs_mgr cs), cs_ex cs)"

definition cli_take_task :: "cli_mgr \<Rightarrow> cli_mgr" where
  "cli_take_task mgr = (let sh = xm_shared mgr; ch = xs_proxy_tasks sh in
     mgr\<lparr>xm_shared := sh\<lparr>xs_proxy_tasks := ch\<lparr>queue := tl (queue ch)\<rparr>\<rparr>\<rparr>)"

definition cli_system_new :: cli_system where
  "cli_system_new = \<lparr>cs_mgr = cli_mgr_new new_chan, cs_ex = executor_new new_chan\<rparr>"

text \<open>
  The key of a new proxy is free: a TCP proxy's key is the address pair of a connection that exists now, and
  the channel map of a UDP visitor has an entry for every key it has ever opened a proxy for.
\<close>

definition cli_fresh_key :: "cli_system \<Rightarrow> cli_state \<Rightarrow> bool" where
  "cli_fresh_key cs st \<longleftrightarrow> (\<forall>task. queue (xs_proxy_tasks (snd st)) = cli_tasks (cs_mgr cs) @ [task] \<longrightarrow> key_free (task_key task) (cli_account cs))"

inductive cli_system_step :: "connect_env \<Rightarrow> cli_system \<Rightarrow> cli_system \<Rightarrow> bool" for E where
  start: "cli_startup svc addrs (cs_mgr cs) = (r, mgr') \<Longrightarrow> cli_system_step E cs (cs\<lparr>cs_mgr := mgr'\<rparr>)"
| local_conn: "get_proxy_visitor_for_service (cs_mgr cs) sid = Some vis \<Longrightarrow>
     cli_tcp_on_conn_accepted E c (vis, xm_shared (cs_mgr cs)) = (r, st) \<Longrightarrow> cli_fresh_key cs st \<Longrightarrow>
     cli_system_step E cs (cs\<lparr>cs_mgr := put_visitor sid st (cs_mgr cs)\<rparr>)"
| local_datagram: "get_proxy_visitor_for_service (cs_mgr cs) sid = Some vis \<Longrightarrow>
     cli_udp_on_message_received E local_addr peer_addr bs (vis, xm_shared (cs_mgr cs)) = (r, st) \<Longrightarrow> cli_fresh_key cs st \<Longrightarrow>
     cli_system_step E cs (cs\<lparr>cs_mgr := put_visitor sid st (cs_mgr cs)\<rparr>)"
| quit: "cli_shutdown (cs_mgr cs) = (r, mgr') \<Longrightarrow> cli_system_step E cs (cs\<lparr>cs_mgr := mgr'\<rparr>)"
| task: "cli_tasks (cs_mgr cs) = t # ts \<Longrightarrow> executor_task X t (cs_ex cs) = (r, ex') \<Longrightarrow>
     cli_system_step E cs \<lparr>cs_mgr = cli_take_task (cs_mgr cs), cs_ex = ex'\<rparr>"
| thread: "hm_get (ex_streams (cs_ex cs)) key = Some s \<Longrightarrow> \<not> thread_ended s \<Longrightarrow> thread_run s (ex_events (cs_ex cs)) s' ch' \<Longrightarrow>
     cli_system_step E cs (cs\<lparr>cs_ex := (cs_ex cs)\<lparr>ex_streams := hm_insert key s' (ex_streams (cs_ex cs)), ex_events := ch'\<rparr>\<rparr>)"
| event: "queue (ex_events (cs_ex cs)) = ProxyClosed key # evs \<Longrightarrow> process_next_proxy_event (Some (ProxyClosed key)) (cs_mgr cs) = (r, mgr') \<Longrightarrow>
     cli_system_step E cs (cs\<lparr>cs_mgr := mgr', cs_ex := (cs_ex cs)\<lparr>ex_events := (ex_events (cs_ex cs))\<lparr>queue := evs\<rparr>\<rparr>\<rparr>)"

section \<open>The client keeps the account\<close>

lemma cli_take_task_simps [simp]:
  "cli_tasks (cli_take_task mgr) = tl (cli_tasks mgr)" "cli_keys (cli_take_task mgr) = cli_keys mgr" "cli_ready (cli_take_task mgr) = cli_ready mgr"
  by (simp_all add: cli_take_task_def Let_def cli_keys_def cli_ready_def cli_mgr_inv_def cli_defs)

lemma cli_fresh_task: "cli_fresh_key cs st \<Longrightarrow> fresh_task (cs_mgr cs) (snd st)"
  by (auto simp: cli_fresh_key_def fresh_task_def key_free_def cli_account_def cli_keys_def)

lemma opens_account:
  assumes "cli_ready (cs_mgr cs)" and v: "get_proxy_visitor_for_service (cs_mgr cs) sid = Some vis"
    and "opens (vis, xm_shared (cs_mgr cs)) st" and "cli_fresh_key cs st"
  shows "tunnel_step (cli_account cs) (cli_account (cs\<lparr>cs_mgr := put_visitor sid st (cs_mgr cs)\<rparr>))"
proof -
  obtain vis' sh' where st: "st = (vis', sh')" by (cases st)
  have k: "cli_keys (put_visitor sid st (cs_mgr cs)) = {k. hm_get (xs_services_by_proxy_key sh') k \<noteq> None}"
    by (simp add: cli_keys_def put_visitor_def st cli_defs)
  have q: "cli_tasks (put_visitor sid st (cs_mgr cs)) = queue (xs_proxy_tasks sh')" by (simp add: put_visitor_def st)
  from assms(3) consider (none) "sh' = xm_shared (cs_mgr cs)"
    | (new) t where "\<forall>k. t \<noteq> CloseProxy k" "queue (xs_proxy_tasks sh') = cli_tasks (cs_mgr cs) @ [t]"
      "xs_services_by_proxy_key sh' = hm_insert (task_key t) (sv_service_id (xv_service vis)) (xs_services_by_proxy_key (xm_shared (cs_mgr cs)))"
    by (auto simp: opens_def st)
  then show ?thesis
  proof cases
    case none
    then show ?thesis by (simp add: cli_account_def k q) (simp add: cli_keys_def cli_defs tunnel_step.idle)
  next
    case new
    have "opens_proxy t" using new(1) by (cases t) auto
    moreover have "key_free (task_key t) (cli_account cs)" using assms(4) new(2) by (simp add: cli_fresh_key_def st)
    moreover have "cli_keys (put_visitor sid st (cs_mgr cs)) = insert (task_key t) (cli_keys (cs_mgr cs))"
      unfolding k new(3) by (auto simp: cli_keys_def cli_defs)
    ultimately show ?thesis
      using tunnel_step.admit[of t "cli_keys (cs_mgr cs)" "cli_tasks (cs_mgr cs)" "cs_ex cs"] new(2) by (simp add: cli_account_def q)
  qed
qed

lemma cli_shutdown_account:
  assumes "cli_ready (cs_mgr cs)" and "cli_shutdown (cs_mgr cs) = (r, mgr')"
  shows "tunnel_step (cli_account cs) (cli_account (cs\<lparr>cs_mgr := mgr'\<rparr>))" "cli_keys mgr' = {}"
proof -
  let ?ks = "concat (map (\<lambda>(i, v). xv_proxy_keys v) (xm_service_proxy_visitors (cs_mgr cs)))"
  from cli_shutdown_all[of "cs_mgr cs"] assms have
    s: "\<forall>k. get_proxy_service_for_proxy_key mgr' k = None" "cli_tasks mgr' = cli_tasks (cs_mgr cs) @ map CloseProxy ?ks"
    by (auto simp: cli_ready_def)
  then show none: "cli_keys mgr' = {}" by (simp add: cli_keys_def)
  have "cli_keys (cs_mgr cs) \<subseteq> set ?ks"
  proof
    fix k assume "k \<in> cli_keys (cs_mgr cs)"
    then obtain i v where "get_proxy_visitor_for_service (cs_mgr cs) i = Some v" "k \<in> set (xv_proxy_keys v)"
      using assms(1) by (auto simp: cli_keys_def cli_ready_def cli_mgr_inv_def)
    then show "k \<in> set ?ks" by (auto simp: get_proxy_visitor_for_service_def dest!: hm_get_set)
  qed
  then show "tunnel_step (cli_account cs) (cli_account (cs\<lparr>cs_mgr := mgr'\<rparr>))"
    using tunnel_step.revoke[of "{}" "cli_keys (cs_mgr cs)" ?ks "cli_tasks (cs_mgr cs)" "cs_ex cs"] by (simp add: cli_account_def none s(2))
qed

lemma cli_system_step_inv:
  assumes "cli_system_step E cs cs'" and "cli_ready (cs_mgr cs)"
  shows "cli_ready (cs_mgr cs')"
  using assms(1)
proof cases
  case (start svc addrs r mgr')
  from cli_step_sessions[OF cli_step.start[OF start(2)] assms(2)] show ?thesis by (simp add: start(1))
next
  case (local_conn sid vis c r st)
  from cli_step_sessions[OF cli_step.local_conn[OF local_conn(2,3) cli_fresh_task[OF local_conn(4)]] assms(2)] show ?thesis by (simp add: local_conn(1))
next
  case (local_datagram sid vis la pa bs r st)
  from cli_step_sessions[OF cli_step.local_datagram[OF local_datagram(2,3) cli_fresh_task[OF local_datagram(4)]] assms(2)]
  show ?thesis by (simp add: local_datagram(1))
next
  case (quit r mgr')
  from cli_step_sessions[OF cli_step.quit[OF quit(2)] assms(2)] show ?thesis by (simp add: quit(1))
next
  case (event key evs r mgr')
  from cli_step_sessions[OF cli_step.reported[OF event(3)] assms(2)] show ?thesis by (simp add: event(1))
qed (use assms(2) in simp_all)

lemma cli_system_step_account:
  assumes "cli_system_step E cs cs'" and "cli_ready (cs_mgr cs)"
  shows "tunnel_step (cli_account cs) (cli_account cs')"
  using assms(1)
proof cases
  case (start svc addrs r mgr')
  have "xm_shared mgr' = xm_shared (cs_mgr cs)"
    using start(2) by (auto simp: cli_startup_def Let_def udp_server_new_def split: option.splits prod.splits transport.splits)
  then show ?thesis by (simp add: start(1) cli_account_def cli_keys_def cli_defs tunnel_step.idle)
next
  case (local_conn sid vis c r st)
  from opens_account[OF assms(2) local_conn(2) tcp_opens[OF local_conn(3)] local_conn(4)] show ?thesis by (simp only: local_conn(1))
next
  case (local_datagram sid vis la pa bs r st)
  from opens_account[OF assms(2) local_datagram(2) udp_opens[OF local_datagram(3)] local_datagram(4)] show ?thesis by (simp only: local_datagram(1))
next
  case (quit r mgr')
  from cli_shutdown_account(1)[OF assms(2) quit(2)] show ?thesis by (simp only: quit(1))
next
  case (task t ts X r ex')
  with tunnel_step.execute[OF task(3)] show ?thesis by (simp add: cli_account_def)
next
  case (thread key s s' ch')
  with tunnel_step.finish[OF thread(2-4)] show ?thesis by (simp add: cli_account_def)
next
  case (event key evs r mgr')
  from process_closed[of "cs_mgr cs" key] assms(2) event(3) have
    p: "\<forall>k. get_proxy_service_for_proxy_key mgr' k = (if k = key then None else get_proxy_service_for_proxy_key (cs_mgr cs) k)"
      "cli_tasks mgr' = cli_tasks (cs_mgr cs)" by (auto simp: cli_ready_def)
  have "cli_keys mgr' = cli_keys (cs_mgr cs) - {key}" using p(1) by (auto simp: cli_keys_def)
  with tunnel_step.forget[OF event(2), of "cli_keys (cs_mgr cs)" "cli_keys mgr'"] p(2) show ?thesis by (simp add: event(1) cli_account_def)
qed

interpretation cli_sys_sim: simulation "cli_system_step E" "\<lambda>cs. cli_ready (cs_mgr cs)" cli_account tunnel_step
  by unfold_locales (auto intro: cli_system_step_inv cli_system_step_account)

lemma cli_system_run:
  assumes "(cli_system_step E)\<^sup>*\<^sup>* cli_system_new cs"
  shows "cli_ready (cs_mgr cs)" "account_inv (cli_account cs)"
proof -
  have new: "cli_ready (cs_mgr cli_system_new)" using cli_mgr_new_inv by (simp add: cli_ready_def cli_system_new_def) (simp add: cli_mgr_new_def new_chan_def)
  have "account_inv (cli_account cli_system_new)"
    by (simp add: cli_account_def cli_system_new_def cli_keys_def cli_mgr_new_def cli_defs executor_new_def account_defs new_chan_def hm_get_def)
  from cli_sys_sim.run_promises[OF assms new, of account_inv, OF this tunnel_step_inv] show "account_inv (cli_account cs)" .
  show "cli_ready (cs_mgr cs)" using cli_sys_sim.run_refines[OF assms new] by blast
qed

text \<open>
  C22: when the client shuts down, no tunnel survives the orders it gives: in every state of the composed client,
  a live tunnel belongs to a proxy the manager knows or is about to be closed; and after a shutdown the
  manager knows none, so that every tunnel that is still live has its closing order in the executor's queue.  A local connection is
  accepted in one step here.
\<close>

theorem client_shutdown_leaves_no_tunnel:
  assumes "(cli_system_step E)\<^sup>*\<^sup>* cli_system_new cs" and "cli_shutdown (cs_mgr cs) = (r, mgr')"
    and "hm_get (ex_streams (cs_ex cs)) key = Some s" and "stream_live s"
  shows "r = Ok () \<and> CloseProxy key \<in> set (cli_tasks mgr')"
proof -
  note run = cli_system_run[OF assms(1)]
  note sd = cli_shutdown_account[OF run(1) assms(2)]
  have "account_inv (cli_account (cs\<lparr>cs_mgr := mgr'\<rparr>))" using tunnel_step_inv[OF sd(1) run(2)] .
  with assms(3,4) sd(2) have "CloseProxy key \<in> set (cli_tasks mgr')" by (auto simp: account_defs cli_account_def owned_def)
  moreover have "r = Ok ()" using cli_shutdown_all[of "cs_mgr cs"] run(1) assms(2) by (auto simp: cli_ready_def)
  ultimately show ?thesis by blast
qed

text \<open>A run: the service is started, a local program connects, and the executor opens the tunnel.\<close>

definition demo_local_stream :: net_stream where
  "demo_local_stream = (net_stream.truncate demo_cli_tls)\<lparr>st_peer_addr := Some ''127.0.0.1:4200'', st_local_addr := Some ''127.0.0.1:8501''\<rparr>"

definition demo_local_conn :: "(unit, net_stream) conn" where
  "demo_local_conn = \<lparr>cn_visitor = (), cn_stream = demo_local_stream, cn_events = new_chan, cn_alpn = None, cn_closed = False\<rparr>"

definition demo_local_key :: string where
  "demo_local_key = proxy_key_value TcpAndTcp (Some ''127.0.0.1:4200'') (Some ''127.0.0.1:8501'')"

definition demo_local_task :: proxy_task where
  "demo_local_task = OpenTcpAndTcpProxy demo_local_key demo_local_stream (net_stream.truncate demo_cli_tls)"

definition demo_started_cli :: cli_mgr where
  "demo_started_cli = snd (cli_startup demo_service (8501, ''gw'', 8400) (cli_mgr_new new_chan))"

lemma demo_started_cli_defs:
  "xm_shared demo_started_cli = \<lparr>xs_services_by_proxy_key = [], xs_proxy_tasks = new_chan\<rparr>"
  "get_proxy_visitor_for_service demo_started_cli 203 = Some (cli_visitor_new demo_service 8501 ''gw'' 8400)"
  by (simp_all add: demo_started_cli_def cli_startup_def cli_mgr_new_def demo_service_def new_service_def cli_defs Let_def)

lemma demo_local_accepted:
  "\<exists>vis'. cli_tcp_on_conn_accepted demo_connect demo_local_conn (vis, xm_shared demo_started_cli) =
     (Ok (), vis', \<lparr>xs_services_by_proxy_key = [(demo_local_key, sv_service_id (xv_service vis))],
        xs_proxy_tasks = new_chan\<lparr>queue := [demo_local_task]\<rparr>\<rparr>)"
  by (simp add: cli_tcp_on_conn_accepted_def demo_connect_gateway demo_local_conn_def demo_local_stream_def demo_started_cli_defs sop_bind_def
      sop_lift_def cli_send_task_def cli_register_def chan_send_def new_chan_def hm_insert_def demo_local_task_def demo_local_key_def
      demo_cli_tls_def net_stream.defs Let_def)

lemma demo_client_run:
  obtains cs s where "(cli_system_step demo_connect)\<^sup>*\<^sup>* cli_system_new cs"
    "hm_get (ex_streams (cs_ex cs)) demo_local_key = Some s" "stream_live s"
proof -
  let ?cs1 = "cli_system_new\<lparr>cs_mgr := demo_started_cli\<rparr>"
  let ?sh = "\<lparr>xs_services_by_proxy_key = [(demo_local_key, 203)], xs_proxy_tasks = new_chan\<lparr>queue := [demo_local_task]\<rparr>\<rparr>"
  have s1: "cli_system_step demo_connect cli_system_new ?cs1"
    using cli_system_step.start[of demo_service "(8501, ''gw'', 8400)" cli_system_new _ demo_started_cli]
    by (simp add: demo_started_cli_def cli_system_new_def prod_eq_iff)
  obtain vis' where a: "cli_tcp_on_conn_accepted demo_connect demo_local_conn
      (cli_visitor_new demo_service 8501 ''gw'' 8400, xm_shared demo_started_cli) = (Ok (), vis', ?sh)"
    using demo_local_accepted[of "cli_visitor_new demo_service 8501 ''gw'' 8400"] by (auto simp: cli_visitor_new_def demo_service_def new_service_def)
  let ?mgr2 = "put_visitor 203 (vis', ?sh) demo_started_cli"
  have f: "cli_fresh_key ?cs1 (vis', ?sh)"
    by (simp add: cli_fresh_key_def key_free_def cli_account_def cli_keys_def cli_defs demo_started_cli_defs new_chan_def hm_get_def
        cli_system_new_def executor_new_def)
  have s2: "cli_system_step demo_connect ?cs1 (?cs1\<lparr>cs_mgr := ?mgr2\<rparr>)"
    using cli_system_step.local_conn[of ?cs1 203 "cli_visitor_new demo_service 8501 ''gw'' 8400" demo_connect demo_local_conn "Ok ()" "(vis', ?sh)"]
      a f by (simp add: demo_started_cli_defs(2))
  let ?cs2 = "?cs1\<lparr>cs_mgr := ?mgr2\<rparr>"
  have q: "cli_tasks (cs_mgr ?cs2) = [demo_local_task]" by (simp add: put_visitor_def)
  have c: "st_clone_err demo_local_stream = None" "st_clone_err (net_stream.truncate demo_cli_tls) = None"
    by (simp_all add: demo_local_stream_def demo_cli_tls_def net_stream.defs)
  obtain s where o: "executor_task demo_proxy_env demo_local_task (cs_ex ?cs2) = (Ok (), (executor_new new_chan)\<lparr>ex_streams := [(demo_local_key, s)]\<rparr>)"
    "stream_live s"
    using demo_opened[OF c, of demo_local_key] by (auto simp: demo_local_task_def cli_system_new_def)
  have "(cli_system_step demo_connect)\<^sup>*\<^sup>* cli_system_new
      \<lparr>cs_mgr = cli_take_task (cs_mgr ?cs2), cs_ex = (executor_new new_chan)\<lparr>ex_streams := [(demo_local_key, s)]\<rparr>\<rparr>"
    using s1 s2 cli_system_step.task[OF q o(1)] by (meson rtranclp.rtrancl_into_rtrancl rtranclp.rtrancl_refl)
  from that[OF this] o(2) show ?thesis by (simp add: hm_get_def)
qed

theorem client_shutdown_leaves_no_tunnel_witness:
  "\<exists>cs s r mgr'. (cli_system_step demo_connect)\<^sup>*\<^sup>* cli_system_new cs \<and> hm_get (ex_streams (cs_ex cs)) demo_local_key = Some s \<and> stream_live s \<and>
     cli_shutdown (cs_mgr cs) = (r, mgr') \<and> r = Ok () \<and> CloseProxy demo_local_key \<in> set (cli_tasks mgr')"
proof -
  obtain cs s where c: "(cli_system_step demo_connect)\<^sup>*\<^sup>* cli_system_new cs" "hm_get (ex_streams (cs_ex cs)) demo_local_key = Some s" "stream_live s"
    using demo_client_run by blast
  obtain r mgr' where sd: "cli_shutdown (cs_mgr cs) = (r, mgr')" by fastforce
  from client_shutdown_leaves_no_tunnel[OF c(1) sd c(2,3)] c sd show ?thesis by blast
qed

end
