(* ===== verification/T0_Conformance.thy ===== *)
theory T0_Conformance
  imports T0_Gw_Manager "HOL-Library.Sublist"
begin

text \<open>
  Unit tests of the repository as statements about the model: the in-memory
  repositories, the protocol names, the range of service ports, the authorization of a connection and the start
  of services.  The vocabulary of the other theories of tests is here, too.  Each test is the boolean of its assertions, under the name of the test function.

  A mock that answers is replaced by an object with the same answers, and a mock that must not be called by one whose
  answer would make the test fail: a repository whose lock is poisoned.
\<close>

section \<open>Vocabulary of the tests\<close>

text \<open>\<open>passes r P\<close>: the call returned a value, and the assertions on it hold; \<open>fails r\<close>: it returned an error.\<close>

fun passes :: "'a res \<Rightarrow> ('a \<Rightarrow> bool) \<Rightarrow> bool" where
  "passes (Ok x) P = P x"
| "passes (Err e) P = False"
| "passes (Panic m) P = False"

fun fails :: "'a res \<Rightarrow> bool" where
  "fails (Err e) = True"
| "fails (Ok x) = False"
| "fails (Panic m) = False"

fun fails_with_code :: "u16 \<Rightarrow> 'a res \<Rightarrow> bool" where
  "fails_with_code code (Err (GenWithCodeAndMsg c msg)) = (c = code)"
| "fails_with_code code r = False"

definition is_some :: "'a option \<Rightarrow> 'a \<Rightarrow> bool" where "is_some r x = (r = Some x)"

text \<open>The data put into a repository past its interface.\<close>

definition filled :: "('k \<times> 'e) list \<Rightarrow> ('k, 'e) rwmap" where
  "filled es = \<lparr>rw_data = fold (\<lambda>(k, e) m. hm_insert k e m) es [], rw_poisoned = False\<rparr>"

definition uncallable :: "('k, 'e) rwmap" where
  "uncallable = \<lparr>rw_data = [], rw_poisoned = True\<rparr>"

text \<open>Equal sizes, and no key outside the expected ones.\<close>

definition same_keys :: "('k, 'e) hashmap \<Rightarrow> 'k list \<Rightarrow> bool" where
  "same_keys actual expected \<longleftrightarrow> length actual = length expected \<and> filter (\<lambda>e. fst e \<notin> set expected) actual = []"

text \<open>The file system of the tests: one valid data base file and its records.\<close>

definition no_such_file :: dyn_error where
  "no_such_file = \<lparr>display_of = ''No such file or directory (os error 2)'', debug_of = ''Os { code: 2, kind: NotFound }''\<rparr>"

definition test_file :: "string \<Rightarrow> string \<Rightarrow> dyn_error + string" where
  "test_file valid path = (if path = valid then Inr path else Inl no_such_file)"

definition test_json :: "'e list \<Rightarrow> string \<Rightarrow> dyn_error + 'e list" where
  "test_json records text = Inr records"

lemmas test_defs = is_some_def filled_def uncallable_def same_keys_def no_such_file_def test_file_def test_json_def
  repo_defs user_put_def user_get_def user_get_all_def user_delete_def user_connect_def new_user_repo_def
  service_put_def service_get_def service_get_all_def service_delete_def service_connect_def new_service_repo_def
  access_put_def access_get_def access_get_all_for_user_def access_delete_def access_connect_def new_access_repo_def
  load_datasource_def hm_insert_def hm_get_def hm_remove_def hm_values_def map_err_def

section \<open>The user repository\<close>

definition users_1_3 :: "(u64 \<times> user) list" where
  "users_1_3 = [(1, new_user 1 ''user1'' Active), (2, new_user 2 ''user2'' Active), (3, new_user 3 ''user3'' Inactive)]"

definition db_user :: "user list" where
  "db_user = [new_user 100 ''User100'' Active, new_user 101 ''User101'' Active]"

definition inmemuserrepo_connect_to_datasource_when_invalid_filepath :: bool where
  "inmemuserrepo_connect_to_datasource_when_invalid_filepath =
     fails (fst (user_connect (test_file ''testdata/db-user.json'') (test_json db_user) ''testdata/db-user-INVALID.json'' new_user_repo))"

definition inmemuserrepo_connect_to_datasource_when_valid_filepath :: bool where
  "inmemuserrepo_connect_to_datasource_when_valid_filepath =
     (case user_connect (test_file ''testdata/db-user.json'') (test_json db_user) ''testdata/db-user.json'' new_user_repo of
        (r, repo) \<Rightarrow> passes r (\<lambda>_. same_keys (rw_data repo) [100, 101]))"

definition inmemuserrepo_put :: bool where
  "inmemuserrepo_put =
     (let user = new_user 1 ''user1'' Active in
      case user_put user new_user_repo of (r, repo) \<Rightarrow> passes r (\<lambda>_. is_some (hm_get (rw_data repo) 1) user))"

definition inmemuserrepo_get_when_invalid_user :: bool where
  "inmemuserrepo_get_when_invalid_user = passes (user_get (filled (take 1 users_1_3)) 10) (\<lambda>r. r = None)"

definition inmemuserrepo_get_when_valid_user :: bool where
  "inmemuserrepo_get_when_valid_user = passes (user_get (filled users_1_3) 2) (\<lambda>r. is_some r (snd (users_1_3 ! 1)))"

definition inmemuserrepo_get_all :: bool where
  "inmemuserrepo_get_all = passes (user_get_all (filled users_1_3))
     (\<lambda>us. length us = 3 \<and> filter (\<lambda>u. u_user_id u \<notin> set [1, 2, 3]) us = [])"

definition inmemuserrepo_delete_when_invalid_user :: bool where
  "inmemuserrepo_delete_when_invalid_user = passes (fst (user_delete 10 (filled (take 1 users_1_3)))) (\<lambda>r. r = None)"

definition inmemuserrepo_delete_when_valid_user :: bool where
  "inmemuserrepo_delete_when_valid_user =
     passes (fst (user_delete 1 (filled (take 1 users_1_3)))) (\<lambda>r. is_some r (new_user 1 ''user1'' Active))"

lemmas user_tests = inmemuserrepo_connect_to_datasource_when_invalid_filepath_def inmemuserrepo_connect_to_datasource_when_valid_filepath_def
  inmemuserrepo_put_def inmemuserrepo_get_when_invalid_user_def inmemuserrepo_get_when_valid_user_def inmemuserrepo_get_all_def
  inmemuserrepo_delete_when_invalid_user_def inmemuserrepo_delete_when_valid_user_def

theorem user_repository_tests_pass:
  "inmemuserrepo_connect_to_datasource_when_invalid_filepath" "inmemuserrepo_connect_to_datasource_when_valid_filepath"
  "inmemuserrepo_put" "inmemuserrepo_get_when_invalid_user" "inmemuserrepo_get_when_valid_user" "inmemuserrepo_get_all"
  "inmemuserrepo_delete_when_invalid_user" "inmemuserrepo_delete_when_valid_user"
  by (simp_all add: user_tests users_1_3_def db_user_def new_user_def test_defs)

section \<open>The service repository\<close>

definition services_1_3 :: "(u64 \<times> service) list" where
  "services_1_3 = [(1, new_service 1 ''svc1'' TCP ''site1'' 100), (2, new_service 2 ''svc2'' TCP ''site2'' 200),
     (3, new_service 3 ''svc3'' UDP ''site3'' 300)]"

definition db_service :: "service list" where
  "db_service = [new_service 200 ''Service200'' TCP ''localhost'' 8200, new_service 201 ''Service201'' TCP ''localhost'' 8201,
     new_service 202 ''Service202'' TCP ''localhost'' 8202, new_service 203 ''chat-tcp'' TCP ''localhost'' 8500,
     new_service 204 ''echo-udp'' UDP ''localhost'' 8600]"

definition inmemsvcrepo_connect_to_datasource_when_invalid_filepath :: bool where
  "inmemsvcrepo_connect_to_datasource_when_invalid_filepath =
     fails (fst (service_connect (test_file ''testdata/db-service.json'') (test_json db_service) ''testdata/db-service-INVALID.json'' new_service_repo))"

definition inmemsvcrepo_connect_to_datasource_when_valid_filepath :: bool where
  "inmemsvcrepo_connect_to_datasource_when_valid_filepath =
     (case service_connect (test_file ''testdata/db-service.json'') (test_json db_service) ''testdata/db-service.json'' new_service_repo of
        (r, repo) \<Rightarrow> passes r (\<lambda>_. same_keys (rw_data repo) [200, 201, 202, 203, 204]))"

definition inmemsvcrepo_put :: bool where
  "inmemsvcrepo_put =
     (let svc = new_service 1 ''svc1'' TCP ''site1'' 100 in
      case service_put svc new_service_repo of (r, repo) \<Rightarrow> passes r (\<lambda>_. is_some (hm_get (rw_data repo) 1) svc))"

definition inmemsvcrepo_get_when_invalid_service :: bool where
  "inmemsvcrepo_get_when_invalid_service = passes (service_get (filled (take 1 services_1_3)) 10) (\<lambda>r. r = None)"

definition inmemsvcrepo_get_when_valid_service :: bool where
  "inmemsvcrepo_get_when_valid_service = passes (service_get (filled services_1_3) 2) (\<lambda>r. is_some r (snd (services_1_3 ! 1)))"

definition inmemsvcrepo_get_all :: bool where
  "inmemsvcrepo_get_all = passes (service_get_all (filled services_1_3))
     (\<lambda>ss. length ss = 3 \<and> filter (\<lambda>s. sv_service_id s \<notin> set [1, 2, 3]) ss = [])"

definition inmemsvcrepo_delete_when_invalid_service :: bool where
  "inmemsvcrepo_delete_when_invalid_service = passes (fst (service_delete 10 (filled (take 1 services_1_3)))) (\<lambda>r. r = None)"

definition inmemsvcrepo_delete_when_valid_service :: bool where
  "inmemsvcrepo_delete_when_valid_service =
     passes (fst (service_delete 1 (filled (take 1 services_1_3)))) (\<lambda>r. is_some r (new_service 1 ''svc1'' TCP ''site1'' 100))"

lemmas service_tests = inmemsvcrepo_connect_to_datasource_when_invalid_filepath_def inmemsvcrepo_connect_to_datasource_when_valid_filepath_def
  inmemsvcrepo_put_def inmemsvcrepo_get_when_invalid_service_def inmemsvcrepo_get_when_valid_service_def inmemsvcrepo_get_all_def
  inmemsvcrepo_delete_when_invalid_service_def inmemsvcrepo_delete_when_valid_service_def

theorem service_repository_tests_pass:
  "inmemsvcrepo_connect_to_datasource_when_invalid_filepath" "inmemsvcrepo_connect_to_datasource_when_valid_filepath"
  "inmemsvcrepo_put" "inmemsvcrepo_get_when_invalid_service" "inmemsvcrepo_get_when_valid_service" "inmemsvcrepo_get_all"
  "inmemsvcrepo_delete_when_invalid_service" "inmemsvcrepo_delete_when_valid_service"
  by (simp_all add: service_tests services_1_3_def db_service_def new_service_def test_defs)

section \<open>The access repository\<close>

definition accesses_1_2 :: "((u64 \<times> u64) \<times> service_access) list" where
  "accesses_1_2 = [((1, 2), new_access 1 2)]"

definition accesses_3 :: "((u64 \<times> u64) \<times> service_access) list" where
  "accesses_3 = [((1, 2), new_access 1 2), ((3, 4), new_access 3 4), ((1, 5), new_access 1 5)]"

definition db_access :: "service_access list" where
  "db_access = [new_access 100 200, new_access 100 203, new_access 100 204, new_access 101 202, new_access 101 203]"

definition inmemaccessrepo_connect_to_datasource_when_invalid_filepath :: bool where
  "inmemaccessrepo_connect_to_datasource_when_invalid_filepath =
     fails (fst (access_connect (test_file ''testdata/db-access.json'') (test_json db_access) ''testdata/db-access-INVALID.json'' new_access_repo))"

definition inmemaccessrepo_connect_to_datasource_when_valid_filepath :: bool where
  "inmemaccessrepo_connect_to_datasource_when_valid_filepath =
     (case access_connect (test_file ''testdata/db-access.json'') (test_json db_access) ''testdata/db-access.json'' new_access_repo of
        (r, repo) \<Rightarrow> passes r (\<lambda>_. same_keys (rw_data repo) [(100, 200), (100, 203), (100, 204), (101, 202), (101, 203)]))"

definition inmemaccessrepo_put :: bool where
  "inmemaccessrepo_put =
     (let access = new_access 1 2 in
      case access_put access new_access_repo of (r, repo) \<Rightarrow> passes r (\<lambda>_. is_some (hm_get (rw_data repo) (1, 2)) access))"

definition inmemaccessrepo_get_when_invalid_user :: bool where
  "inmemaccessrepo_get_when_invalid_user = passes (access_get (filled accesses_1_2) 10 2) (\<lambda>r. r = None)"

definition inmemaccessrepo_get_when_invalid_service :: bool where
  "inmemaccessrepo_get_when_invalid_service = passes (access_get (filled accesses_1_2) 1 20) (\<lambda>r. r = None)"

definition inmemaccessrepo_get_when_valid_user_and_service :: bool where
  "inmemaccessrepo_get_when_valid_user_and_service =
     passes (access_get (filled (take 2 accesses_3)) 1 2) (\<lambda>r. is_some r (new_access 1 2))"

definition inmemaccessrepo_get_all_for_user_when_invalid_user :: bool where
  "inmemaccessrepo_get_all_for_user_when_invalid_user = passes (access_get_all_for_user (filled accesses_3) 10) (\<lambda>as. length as = 0)"

definition inmemaccessrepo_get_all_for_user_when_valid_user :: bool where
  "inmemaccessrepo_get_all_for_user_when_valid_user = passes (access_get_all_for_user (filled accesses_3) 1)
     (\<lambda>as. length as = 2 \<and> filter (\<lambda>a. (ac_user_id a, ac_service_id a) \<notin> set [(1, 2), (1, 5)]) as = [])"

definition inmemaccessrepo_delete_when_invalid_user :: bool where
  "inmemaccessrepo_delete_when_invalid_user = passes (fst (access_delete 10 2 (filled accesses_1_2))) (\<lambda>r. r = None)"

definition inmemaccessrepo_delete_when_invalid_service :: bool where
  "inmemaccessrepo_delete_when_invalid_service = passes (fst (access_delete 1 20 (filled accesses_1_2))) (\<lambda>r. r = None)"

definition inmemaccessrepo_delete_when_valid_user_and_service :: bool where
  "inmemaccessrepo_delete_when_valid_user_and_service =
     passes (fst (access_delete 1 2 (filled accesses_1_2))) (\<lambda>r. is_some r (new_access 1 2))"

lemmas access_tests = inmemaccessrepo_connect_to_datasource_when_invalid_filepath_def inmemaccessrepo_connect_to_datasource_when_valid_filepath_def
  inmemaccessrepo_put_def inmemaccessrepo_get_when_invalid_user_def inmemaccessrepo_get_when_invalid_service_def
  inmemaccessrepo_get_when_valid_user_and_service_def inmemaccessrepo_get_all_for_user_when_invalid_user_def
  inmemaccessrepo_get_all_for_user_when_valid_user_def inmemaccessrepo_delete_when_invalid_user_def
  inmemaccessrepo_delete_when_invalid_service_def inmemaccessrepo_delete_when_valid_user_and_service_def

theorem access_repository_tests_pass:
  "inmemaccessrepo_connect_to_datasource_when_invalid_filepath" "inmemaccessrepo_connect_to_datasource_when_valid_filepath"
  "inmemaccessrepo_put" "inmemaccessrepo_get_when_invalid_user" "inmemaccessrepo_get_when_invalid_service"
  "inmemaccessrepo_get_when_valid_user_and_service" "inmemaccessrepo_get_all_for_user_when_invalid_user"
  "inmemaccessrepo_get_all_for_user_when_valid_user" "inmemaccessrepo_delete_when_invalid_user"
  "inmemaccessrepo_delete_when_invalid_service" "inmemaccessrepo_delete_when_valid_user_and_service"
  by (simp_all add: access_tests accesses_1_2_def accesses_3_def db_access_def new_access_def test_defs)

section \<open>Protocol names and the port range\<close>

text \<open>The digit classes of the regular expressions are parameters, as in \<open>T0_Alpn\<close> and \<open>T0_Config\<close>.\<close>

definition protocol_parse_when_valid_control_plane :: "(string \<Rightarrow> bool) \<Rightarrow> bool" where
  "protocol_parse_when_valid_control_plane nd = passes (parse_protocol nd PROTOCOL_CONTROL_PLANE) (\<lambda>p. is_some p ControlPlane)"

definition protocol_parse_when_valid_service :: "(string \<Rightarrow> bool) \<Rightarrow> bool" where
  "protocol_parse_when_valid_service nd = passes (parse_protocol nd (PROTOCOL_SERVICE @ show_u64 200)) (\<lambda>p. is_some p (Service 200))"

definition protocol_parse_when_invalid_service :: "(string \<Rightarrow> bool) \<Rightarrow> bool" where
  "protocol_parse_when_invalid_service nd = passes (parse_protocol nd (PROTOCOL_SERVICE @ ''NaN'')) (\<lambda>p. p = None)"

definition protocol_create_service_protocol :: bool where
  "protocol_create_service_protocol \<longleftrightarrow> create_service_protocol 200 = PROTOCOL_SERVICE @ show_u64 200"

definition cliconnvis_parse_alpn_protocol_fn_when_invalid_value :: "(string \<Rightarrow> bool) \<Rightarrow> bool" where
  "cliconnvis_parse_alpn_protocol_fn_when_invalid_value nd = fails (parse_alpn_protocol nd (Some (bytes_of_text ''INVALID'')))"

definition cliconnvis_parse_alpn_protocol_fn_when_no_value :: "(string \<Rightarrow> bool) \<Rightarrow> bool" where
  "cliconnvis_parse_alpn_protocol_fn_when_no_value nd = fails (parse_alpn_protocol nd None)"

definition cliconnvis_parse_alpn_protocol_fn_when_control_plane :: "(string \<Rightarrow> bool) \<Rightarrow> bool" where
  "cliconnvis_parse_alpn_protocol_fn_when_control_plane nd =
     passes (parse_alpn_protocol nd (Some (bytes_of_text PROTOCOL_CONTROL_PLANE))) (\<lambda>p. p = ControlPlane)"

definition cliconnvis_parse_alpn_protocol_fn_when_valid_service :: "(string \<Rightarrow> bool) \<Rightarrow> bool" where
  "cliconnvis_parse_alpn_protocol_fn_when_valid_service nd =
     passes (parse_alpn_protocol nd (Some (bytes_of_text (create_service_protocol 123)))) (\<lambda>p. p = Service 123)"

definition cliconnvis_parse_alpn_protocol_fn_when_invalid_service :: "(string \<Rightarrow> bool) \<Rightarrow> bool" where
  "cliconnvis_parse_alpn_protocol_fn_when_invalid_service nd =
     fails (parse_alpn_protocol nd (Some (bytes_of_text (PROTOCOL_SERVICE @ ''INVALID''))))"

definition appconfig_parse_gateway_service_ports_when_invalid_range :: "(string \<Rightarrow> nat) \<Rightarrow> bool" where
  "appconfig_parse_gateway_service_ports_when_invalid_range run = fails (parse_gateway_service_ports run ''20-NAN'')"

definition appconfig_parse_gateway_service_ports_when_valid_range :: "(string \<Rightarrow> nat) \<Rightarrow> bool" where
  "appconfig_parse_gateway_service_ports_when_valid_range run =
     passes (parse_gateway_service_ports run ''20-40'') (\<lambda>range. range = (20, 40))"

lemma parse_names:
  assumes "regex_digits nd"
  shows "parse_protocol nd PROTOCOL_CONTROL_PLANE = Ok (Some ControlPlane)"
    "parse_protocol nd (PROTOCOL_SERVICE @ show_u64 n) = Ok (Some (Service n))"
    "parse_protocol nd (PROTOCOL_SERVICE @ ''NaN'') = Ok None" "parse_protocol nd (PROTOCOL_SERVICE @ ''INVALID'') = Ok None"
    "parse_protocol nd ''INVALID'' = Ok None"
proof -
  have "\<not> nd ''NaN''" "\<not> nd ''INVALID''" using assms by (simp_all add: regex_digits_def is_ascii_def is_digit_def)
  then show "parse_protocol nd (PROTOCOL_SERVICE @ ''NaN'') = Ok None" "parse_protocol nd (PROTOCOL_SERVICE @ ''INVALID'') = Ok None"
    "parse_protocol nd ''INVALID'' = Ok None" "parse_protocol nd PROTOCOL_CONTROL_PLANE = Ok (Some ControlPlane)"
    by (simp_all add: parse_protocol_def service_regex_def PROTOCOL_SERVICE_def PROTOCOL_CONTROL_PLANE_def)
  show "parse_protocol nd (PROTOCOL_SERVICE @ show_u64 n) = Ok (Some (Service n))"
    by (simp add: parse_protocol_service_text[OF assms] show_u64_digits)
qed

lemma alpn_of_text:
  assumes "is_ascii t"
  shows "parse_alpn_protocol nd (Some (bytes_of_text t)) = and_then (parse_protocol nd t) (\<lambda>p. ok_or
    (GenWithCodeAndMsg RESPCODE_0424_INVALID_ALPN_PROTOCOL (''Invalid ALPN protocol: proto='' @ t)) p)"
proof -
  have "from_utf8_lossy (bytes_of_text t) = t" using assms by (simp add: from_utf8_lossy_ascii ascii_bytes_of_text is_ascii_def)
  then show ?thesis unfolding parse_alpn_protocol_def Let_def option.case by (auto split: res.splits option.splits)
qed

lemma alpn_names:
  assumes "regex_digits nd"
  shows "parse_alpn_protocol nd (Some (bytes_of_text PROTOCOL_CONTROL_PLANE)) = Ok ControlPlane"
    "parse_alpn_protocol nd (Some (bytes_of_text (PROTOCOL_SERVICE @ show_u64 n))) = Ok (Service n)"
    "fails (parse_alpn_protocol nd (Some (bytes_of_text (PROTOCOL_SERVICE @ ''INVALID''))))"
    "fails (parse_alpn_protocol nd (Some (bytes_of_text ''INVALID'')))" "fails (parse_alpn_protocol nd None)"
proof -
  have a: "is_ascii PROTOCOL_CONTROL_PLANE" "is_ascii (PROTOCOL_SERVICE @ show_u64 n)" "is_ascii (PROTOCOL_SERVICE @ ''INVALID'')" "is_ascii ''INVALID''"
    using digits_ascii[of "show_u64 n"] show_u64_digits[of n] by (auto simp: is_ascii_def PROTOCOL_CONTROL_PLANE_def PROTOCOL_SERVICE_def)
  note p = parse_names[OF assms]
  show "parse_alpn_protocol nd (Some (bytes_of_text PROTOCOL_CONTROL_PLANE)) = Ok ControlPlane"
    "parse_alpn_protocol nd (Some (bytes_of_text (PROTOCOL_SERVICE @ show_u64 n))) = Ok (Service n)"
    "fails (parse_alpn_protocol nd (Some (bytes_of_text (PROTOCOL_SERVICE @ ''INVALID''))))"
    "fails (parse_alpn_protocol nd (Some (bytes_of_text ''INVALID'')))"
    unfolding alpn_of_text[OF a(1)] alpn_of_text[OF a(2)] alpn_of_text[OF a(3)] alpn_of_text[OF a(4)] p by simp_all
  show "fails (parse_alpn_protocol nd None)" by (simp add: parse_alpn_protocol_def)
qed

lemmas name_tests = protocol_parse_when_valid_control_plane_def protocol_parse_when_valid_service_def
  protocol_parse_when_invalid_service_def protocol_create_service_protocol_def
  cliconnvis_parse_alpn_protocol_fn_when_invalid_value_def cliconnvis_parse_alpn_protocol_fn_when_no_value_def
  cliconnvis_parse_alpn_protocol_fn_when_control_plane_def cliconnvis_parse_alpn_protocol_fn_when_valid_service_def
  cliconnvis_parse_alpn_protocol_fn_when_invalid_service_def

theorem protocol_name_tests_pass:
  assumes "regex_digits nd"
  shows "protocol_parse_when_valid_control_plane nd" "protocol_parse_when_valid_service nd" "protocol_parse_when_invalid_service nd"
    "protocol_create_service_protocol" "cliconnvis_parse_alpn_protocol_fn_when_invalid_value nd"
    "cliconnvis_parse_alpn_protocol_fn_when_no_value nd" "cliconnvis_parse_alpn_protocol_fn_when_control_plane nd"
    "cliconnvis_parse_alpn_protocol_fn_when_valid_service nd" "cliconnvis_parse_alpn_protocol_fn_when_invalid_service nd"
  using parse_names[OF assms] alpn_names[OF assms]
  by (simp_all add: name_tests is_some_def create_service_protocol_def)

lemma test_ranges:
  assumes "regex_digit_run run"
  shows "range_regex run ''20-40'' = Some (''20'', ''40'')" "range_regex run ''20-NAN'' = None"
proof -
  have run: "run s = length (takeWhile is_digit s)" if "is_ascii s" for s using assms that by (simp add: regex_digit_run_def)
  show "range_regex run ''20-40'' = Some (''20'', ''40'')"
    using range_regex_here[OF assms, of "''20''" "''40''" "[]"] by (simp add: is_digit_def is_ascii_def)
  show "range_regex run ''20-NAN'' = None"
    by (simp add: run is_ascii_def is_digit_def Let_def)
qed

theorem port_range_tests_pass:
  assumes "regex_digit_run run"
  shows "appconfig_parse_gateway_service_ports_when_invalid_range run" "appconfig_parse_gateway_service_ports_when_valid_range run"
proof -
  have n: "parse_u16 ''20'' = Some 20" "parse_u16 ''40'' = Some 40"
    by (simp_all add: parse_u16_def parse_uint_def digits_val_def digit_val_def is_digit_def)
  show "appconfig_parse_gateway_service_ports_when_invalid_range run" "appconfig_parse_gateway_service_ports_when_valid_range run"
    unfolding appconfig_parse_gateway_service_ports_when_invalid_range_def appconfig_parse_gateway_service_ports_when_valid_range_def
      parse_gateway_service_ports_def test_ranges[OF assms] by (simp_all add: n Let_def)
qed

section \<open>Authorization\<close>

text \<open>\<open>create_app_config_with_repos\<close> and \<open>create_cliconnvis\<close>.\<close>

definition create_app_config_with_repos :: "user_repo \<Rightarrow> service_repo \<Rightarrow> access_repo \<Rightarrow> app_config" where
  "create_app_config_with_repos users services accesses =
     \<lparr>cfg_server_mode = ModeControlPlane, cfg_server_port = 2000,
      cfg_alpn_protocols = [bytes_of_text (protocol_to_string ControlPlane)], cfg_verbose_logging = False,
      cfg_access_repo = accesses, cfg_service_repo = services, cfg_user_repo = users,
      cfg_gateway_service_host = None, cfg_gateway_service_ports = None, cfg_gateway_service_reply_host = [], cfg_mask_addresses = False\<rparr>"

definition authorization_of ::
  "'a gw_lib \<Rightarrow> bytes list \<Rightarrow> bytes option \<Rightarrow> user_repo \<Rightarrow> access_repo \<Rightarrow> u64 option \<Rightarrow> protocol res" where
  "authorization_of L certs alpn users accesses service_id =
     (let cfg = create_app_config_with_repos users uncallable accesses in
      fst (process_authorization L cfg (demo_tls 0\<lparr>tls_peer_certificates := Some certs, tls_alpn_protocol := alpn\<rparr>) service_id
        (client_visitor_new cfg)))"

definition user_100 :: "user_status \<Rightarrow> user_repo" where
  "user_100 status = filled [(100, new_user 100 [] status)]"

definition cliconnvis_process_authorization_fn_when_nosvc_and_gooduser_and_goodproto :: "'a gw_lib \<Rightarrow> bytes list \<Rightarrow> bool" where
  "cliconnvis_process_authorization_fn_when_nosvc_and_gooduser_and_goodproto L certs =
     passes (authorization_of L certs (Some (bytes_of_text PROTOCOL_CONTROL_PLANE)) (user_100 Active) uncallable None)
       (\<lambda>p. p = ControlPlane)"

definition cliconnvis_process_authorization_fn_when_goodsvc_and_gooduser_and_goodproto :: "'a gw_lib \<Rightarrow> bytes list \<Rightarrow> bool" where
  "cliconnvis_process_authorization_fn_when_goodsvc_and_gooduser_and_goodproto L certs =
     passes (authorization_of L certs (Some (bytes_of_text (create_service_protocol 200))) (user_100 Active)
         (filled [((100, 200), new_access 100 200)]) (Some 200))
       (\<lambda>p. p = Service 200)"

definition cliconnvis_process_authorization_fn_when_wrongsvc_and_gooduser_and_goodproto :: "'a gw_lib \<Rightarrow> bytes list \<Rightarrow> bool" where
  "cliconnvis_process_authorization_fn_when_wrongsvc_and_gooduser_and_goodproto L certs =
     fails_with_code RESPCODE_0424_INVALID_ALPN_PROTOCOL
       (authorization_of L certs (Some (bytes_of_text (create_service_protocol 200))) (user_100 Active) uncallable (Some 201))"

definition cliconnvis_process_authorization_fn_when_goodsvc_and_gooduser_and_wrongproto :: "'a gw_lib \<Rightarrow> bytes list \<Rightarrow> bool" where
  "cliconnvis_process_authorization_fn_when_goodsvc_and_gooduser_and_wrongproto L certs =
     fails_with_code RESPCODE_0424_INVALID_ALPN_PROTOCOL
       (authorization_of L certs (Some (bytes_of_text PROTOCOL_CONTROL_PLANE)) (user_100 Active) uncallable (Some 200))"

definition cliconnvis_process_authorization_fn_when_nosvc_and_badcert :: "'a gw_lib \<Rightarrow> bytes list \<Rightarrow> bool" where
  "cliconnvis_process_authorization_fn_when_nosvc_and_badcert L certs =
     fails_with_code RESPCODE_0420_INVALID_CLIENT_CERTIFICATE (authorization_of L certs None uncallable uncallable (Some 200))"

definition cliconnvis_process_authorization_fn_when_nosvc_and_baduid :: "'a gw_lib \<Rightarrow> bytes list \<Rightarrow> bool" where
  "cliconnvis_process_authorization_fn_when_nosvc_and_baduid L certs =
     fails_with_code RESPCODE_0421_UNKNOWN_USER (authorization_of L certs None (filled []) uncallable None)"

definition cliconnvis_process_authorization_fn_when_nosvc_and_inactiveuser :: "'a gw_lib \<Rightarrow> bytes list \<Rightarrow> bool" where
  "cliconnvis_process_authorization_fn_when_nosvc_and_inactiveuser L certs =
     fails_with_code RESPCODE_0422_INACTIVE_USER (authorization_of L certs None (user_100 Inactive) uncallable None)"

lemmas authorization_tests = cliconnvis_process_authorization_fn_when_nosvc_and_gooduser_and_goodproto_def
  cliconnvis_process_authorization_fn_when_goodsvc_and_gooduser_and_goodproto_def
  cliconnvis_process_authorization_fn_when_wrongsvc_and_gooduser_and_goodproto_def
  cliconnvis_process_authorization_fn_when_goodsvc_and_gooduser_and_wrongproto_def
  cliconnvis_process_authorization_fn_when_nosvc_and_badcert_def cliconnvis_process_authorization_fn_when_nosvc_and_baduid_def
  cliconnvis_process_authorization_fn_when_nosvc_and_inactiveuser_def

text \<open>What the certificate files of the tests hold: that of a client names user 100, the other one names no user.\<close>

theorem authorization_tests_pass:
  assumes "regex_digits (gl_digits L)"
    and "device_new (gl_cert L) client_uid100 = Ok dev" and "ctx_user_id (dv_cert_access_context dev) = 100"
    and "device_new (gl_cert L) non_client = Ok other" and "ctx_user_id (dv_cert_access_context other) = 0"
  shows "cliconnvis_process_authorization_fn_when_nosvc_and_gooduser_and_goodproto L client_uid100"
    "cliconnvis_process_authorization_fn_when_goodsvc_and_gooduser_and_goodproto L client_uid100"
    "cliconnvis_process_authorization_fn_when_wrongsvc_and_gooduser_and_goodproto L client_uid100"
    "cliconnvis_process_authorization_fn_when_goodsvc_and_gooduser_and_wrongproto L client_uid100"
    "cliconnvis_process_authorization_fn_when_nosvc_and_badcert L non_client"
    "cliconnvis_process_authorization_fn_when_nosvc_and_baduid L client_uid100"
    "cliconnvis_process_authorization_fn_when_nosvc_and_inactiveuser L client_uid100"
  using assms alpn_names[OF assms(1)]
  by (simp_all add: authorization_tests authorization_of_def create_service_protocol_def process_authorization_def authorize_device_def authorize_user_def authorize_service_def
      create_app_config_with_repos_def user_100_def new_user_def new_access_def test_defs Let_def)

section \<open>The service manager\<close>

definition create_gw_service_mgr :: "bool \<Rightarrow> app_config \<times> gw_mgr" where
  "create_gw_service_mgr use_shared_port =
     (let base = create_app_config_with_repos uncallable uncallable uncallable;
          cfg = base\<lparr>cfg_gateway_service_host := Some ''gwhost1'',
                     cfg_gateway_service_ports := (if use_shared_port then None else Some (4100, 4102))\<rparr>;
          mgr = gw_mgr_new cfg \<lparr>queue = [], receiver_alive = False\<rparr> in
      (cfg, if use_shared_port then mgr\<lparr>gm_shared_service_port := Some 4000\<rparr> else mgr))"

definition sizes :: "gw_mgr \<Rightarrow> nat list" where
  "sizes mgr = [length (gm_service_ports mgr), length (gm_service_proxies mgr), length (gm_service_proxy_visitors mgr)]"

definition service_200 :: "transport \<Rightarrow> service" where
  "service_200 tr = new_service 200 ''Service200'' tr ''localhost'' 8200"

definition gwsvcmgr_startup_when_already_started :: "bool \<Rightarrow> bool" where
  "gwsvcmgr_startup_when_already_started chk =
     (case create_gw_service_mgr True of (cfg, mgr0) \<Rightarrow>
      let mgr = mgr0\<lparr>gm_service_ports := hm_insert 200 4000 (gm_service_ports mgr0)\<rparr> in
      case mgr_startup chk cfg (service_200 TCP) mgr of
        (r, mgr') \<Rightarrow> passes r (\<lambda>(host, port). host = Some ''gwhost1'' \<and> port = 4000) \<and> sizes mgr' = sizes mgr)"

definition gwsvcmgr_startup_when_exhausted_ports :: "bool \<Rightarrow> bool" where
  "gwsvcmgr_startup_when_exhausted_ports chk =
     (case create_gw_service_mgr False of (cfg, mgr0) \<Rightarrow>
      let mgr = mgr0\<lparr>gm_next_service_port := 4102 + 1\<rparr> in
      case mgr_startup chk cfg (service_200 TCP) mgr of
        (r, mgr') \<Rightarrow> (case r of Err e \<Rightarrow> sublist ''exhausted'' (err_to_string e) | _ \<Rightarrow> False) \<and> sizes mgr' = sizes mgr)"

definition gwsvcmgr_startup_when_tcp_service :: "bool \<Rightarrow> bool" where
  "gwsvcmgr_startup_when_tcp_service chk =
     (case create_gw_service_mgr True of (cfg, mgr) \<Rightarrow>
      case mgr_startup chk cfg (service_200 TCP) mgr of
        (r, mgr') \<Rightarrow> passes r (\<lambda>(host, port). host = Some ''gwhost1'' \<and> port = 4000) \<and> sizes mgr' = map Suc (sizes mgr))"

definition gwsvcmgr_startup_when_udp_service :: "bool \<Rightarrow> bool" where
  "gwsvcmgr_startup_when_udp_service chk =
     (case create_gw_service_mgr True of (cfg, mgr) \<Rightarrow>
      case mgr_startup chk cfg (service_200 UDP) mgr of
        (r, mgr') \<Rightarrow> passes r (\<lambda>(host, port). host = Some ''gwhost1'' \<and> port = 4000) \<and> sizes mgr' = map Suc (sizes mgr))"

text \<open>The visitor of service 200 in the tests of \<open>has_proxy_for_user_and_service\<close>: user 100 has one connection.\<close>

definition with_visitor :: gw_mgr where
  "with_visitor =
     (let mgr = snd (create_gw_service_mgr True) in
      mgr\<lparr>gm_service_proxy_visitors := hm_insert 200
        ((svc_visitor_new (service_200 TCP) None 4000)\<lparr>sp_users_by_proxy_addrs := [((''addr1'', ''addr2''), 100)]\<rparr>)
        (gm_service_proxy_visitors mgr)\<rparr>)"

definition gwsvcmgr_has_proxy_for_user_and_service_when_valid_user_and_svc :: bool where
  "gwsvcmgr_has_proxy_for_user_and_service_when_valid_user_and_svc = has_proxy_for_user_and_service with_visitor 100 200"

definition gwsvcmgr_has_proxy_for_user_and_service_when_invalid_user :: bool where
  "gwsvcmgr_has_proxy_for_user_and_service_when_invalid_user = (\<not> has_proxy_for_user_and_service with_visitor 101 200)"

definition gwsvcmgr_has_proxy_for_user_and_service_when_invalid_service :: bool where
  "gwsvcmgr_has_proxy_for_user_and_service_when_invalid_service = (\<not> has_proxy_for_user_and_service with_visitor 100 201)"

lemmas manager_tests = gwsvcmgr_startup_when_already_started_def gwsvcmgr_startup_when_exhausted_ports_def
  gwsvcmgr_startup_when_tcp_service_def gwsvcmgr_startup_when_udp_service_def
  gwsvcmgr_has_proxy_for_user_and_service_when_valid_user_and_svc_def gwsvcmgr_has_proxy_for_user_and_service_when_invalid_user_def
  gwsvcmgr_has_proxy_for_user_and_service_when_invalid_service_def

theorem manager_tests_pass:
  "gwsvcmgr_startup_when_already_started chk" "gwsvcmgr_startup_when_exhausted_ports chk"
  "gwsvcmgr_startup_when_tcp_service chk" "gwsvcmgr_startup_when_udp_service chk"
  "gwsvcmgr_has_proxy_for_user_and_service_when_valid_user_and_svc" "gwsvcmgr_has_proxy_for_user_and_service_when_invalid_user"
  "gwsvcmgr_has_proxy_for_user_and_service_when_invalid_service"
  by (simp_all add: manager_tests create_gw_service_mgr_def gw_mgr_new_def mgr_startup_def allocate_port_def sizes_def service_200_def
      new_service_def create_app_config_with_repos_def with_visitor_def has_proxy_for_user_and_service_def get_proxy_addrs_for_user_def
      svc_visitor_new_def hm_insert_def hm_get_def Let_def sublist_Cons_right)

end
