(* ===== verification/T0_Clap.thy ===== *)
theory T0_Clap
  imports T0_Request
begin

text \<open>
  An instance of the parameter \<open>cli_lib\<close> of \<open>T0_Request\<close>: a command line is split at blanks, and its words are
  matched against a command description the way \<open>clap\<close> documents it.  Options are given as \<open>-s VALUE\<close> or
  \<open>--service VALUE\<close>, each at most once; \<open>help\<close> displays the list of commands.
\<close>

definition find_sub :: "command_spec \<Rightarrow> string \<Rightarrow> sub_spec option" where
  "find_sub spec name = find (\<lambda>ss. ss_name ss = name \<or> name \<in> set (ss_alias ss)) (cs_subcommands spec)"

definition find_arg :: "arg_spec list \<Rightarrow> string \<Rightarrow> arg_spec option" where
  "find_arg args flag = find (\<lambda>a. flag = [CHR ''-'', as_short a] \<or> flag = ''--'' @ as_long a) args"

text \<open>The values of the options, by their long names; a value has to fit the range that is declared for it.\<close>

definition value_ok :: "arg_spec \<Rightarrow> string \<Rightarrow> bool" where
  "value_ok a v = (case as_u16_range_from a of None \<Rightarrow> True | Some lo \<Rightarrow> (case parse_u16 v of Some p \<Rightarrow> lo \<le> unat p | None \<Rightarrow> False))"

fun match_args :: "arg_spec list \<Rightarrow> string list \<Rightarrow> (string \<times> string) list option" where
  "match_args args [] = Some []"
| "match_args args [flag] = None"
| "match_args args (flag # v # rest) =
     (case find_arg args flag of
        None \<Rightarrow> None
      | Some a \<Rightarrow>
          (case match_args args rest of
             None \<Rightarrow> None
           | Some m \<Rightarrow> if value_ok a v \<and> map_of m (as_long a) = None then Some ((as_long a, v) # m) else None))"

definition matches_of :: "(string \<times> string) list \<Rightarrow> arg_matches" where
  "matches_of m = \<lparr>arg_service = map_of m ''service'', arg_port = Option.bind (map_of m ''port'') parse_u16\<rparr>"

definition help_line :: "nat \<Rightarrow> string \<Rightarrow> string \<Rightarrow> string" where
  "help_line w name about = ''  '' @ name @ replicate (w - length name) (CHR '' '') @ ''  '' @ about @ [CHR 0x0A]"

definition help_text :: "command_spec \<Rightarrow> string" where
  "help_text spec =
     (let cmds = map (\<lambda>ss. (ss_name ss, ss_about ss)) (cs_subcommands spec) @
            [(''help'', ''Print this message or the help of the given subcommand(s)'')];
          w = foldl max 0 (map (length \<circ> fst) cmds) in
      cs_subcommand_help_heading spec @ '':'' @ [CHR 0x0A] @ concat (map (\<lambda>(n, a). help_line w n a) cmds))"

definition clap_matches :: "command_spec \<Rightarrow> string list \<Rightarrow> (clap_error_kind \<times> string) + (string \<times> arg_matches) option" where
  "clap_matches spec words =
     (case words of
        [] \<Rightarrow> if cs_subcommand_required spec then Inl (OtherKind, help_text spec) else Inr None
      | name # rest \<Rightarrow>
          (case find_sub spec name of
             Some ss \<Rightarrow>
               (case match_args (ss_args ss) rest of
                  Some m \<Rightarrow> Inr (Some (ss_name ss, matches_of m))
                | None \<Rightarrow> Inl (OtherKind, ''error: invalid arguments'' @ [CHR 0x0A]))
           | None \<Rightarrow>
               if words = [''help''] then Inl (DisplayHelp, help_text spec)
               else Inl (OtherKind, ''error: unrecognized subcommand'' @ [CHR 0x0A])))"

definition clap_lib :: "command_spec \<Rightarrow> cli_lib" where
  "clap_lib spec = \<lparr>shlex_split = (\<lambda>s. Some (filter (\<lambda>w. w \<noteq> []) (split_on (CHR '' '') s))), try_get_matches_from = clap_matches spec\<rparr>"

section \<open>The instance is what the program relies on\<close>

lemma match_args_value:
  assumes "match_args args ws = Some m" and "map_of m k = Some v"
  shows "\<exists>a \<in> set args. as_long a = k \<and> value_ok a v"
  using assms
proof (induction args ws arbitrary: m rule: match_args.induct)
  case (3 args flag w rest)
  then obtain a m' where a: "find_arg args flag = Some a" "match_args args rest = Some m'" "value_ok a w" "m = (as_long a, w) # m'"
    by (auto split: option.splits if_splits)
  have "a \<in> set args" using a(1) by (auto simp: find_arg_def find_Some_iff)
  with 3 a show ?case by (cases "k = as_long a") auto
qed auto

lemma clap_matches_sub:
  assumes "clap_matches spec ws = Inr (Some (n, m))"
  obtains ss vs where "ss \<in> set (cs_subcommands spec)" "ss_name ss = n" "match_args (ss_args ss) (tl ws) = Some vs" "m = matches_of vs"
  using assms that by (auto simp: clap_matches_def find_sub_def find_Some_iff split: list.splits option.splits if_splits dest: nth_mem)

text \<open>In a description whose options have different names, one range belongs to each name.\<close>

definition args_distinct :: "command_spec \<Rightarrow> bool" where
  "args_distinct spec \<longleftrightarrow> list_all (\<lambda>ss. distinct (map as_long (ss_args ss))) (cs_subcommands spec)"

lemma clap_lib_ok:
  assumes "args_distinct spec"
  shows "clap_ok spec (clap_lib spec)"
  unfolding clap_ok_def
proof (intro conjI allI impI)
  fix ws n m
  assume "try_get_matches_from (clap_lib spec) ws = Inr (Some (n, m))"
  then have "clap_matches spec ws = Inr (Some (n, m))" by (simp add: clap_lib_def)
  then obtain ss vs where s: "ss \<in> set (cs_subcommands spec)" "ss_name ss = n" "match_args (ss_args ss) (tl ws) = Some vs" "m = matches_of vs"
    by (rule clap_matches_sub)
  have "lo \<le> unat p" if "a \<in> set (ss_args ss)" "as_long a = ''port''" "as_u16_range_from a = Some lo" "arg_port m = Some p" for a lo p
  proof -
    from that(4) s(4) obtain v where v: "map_of vs ''port'' = Some v" "parse_u16 v = Some p"
      by (auto simp: matches_of_def split: bind_splits)
    from match_args_value[OF s(3) v(1)] obtain b where b: "b \<in> set (ss_args ss)" "as_long b = ''port''" "value_ok b v" by blast
    have "distinct (map as_long (ss_args ss))" using assms s(1) by (simp add: args_distinct_def list_all_iff)
    with that(1,2) b(1,2) have "b = a" by (metis distinct_map inj_onD)
    with b(3) that(3) v(2) show ?thesis by (simp add: value_ok_def)
  qed
  with s(1,2) show "\<exists>ss\<in>set (cs_subcommands spec). ss_name ss = n \<and> (\<forall>a\<in>set (ss_args ss). \<forall>lo p. as_long a = ''port'' \<longrightarrow>
      as_u16_range_from a = Some lo \<longrightarrow> arg_port m = Some p \<longrightarrow> lo \<le> unat p)" by blast
qed (auto simp: clap_lib_def clap_matches_def split: list.splits option.splits)

lemma command_lib_ok: "clap_ok create_command (clap_lib create_command)"
  by (rule clap_lib_ok) (simp add: args_distinct_def create_command_def subcommand_def service_arg_def port_arg_def)

text \<open>The definitions to evaluate a command line with.\<close>

lemmas line_defs = clap_lib_def clap_matches_def find_sub_def find_arg_def value_ok_def matches_of_def create_command_def subcommand_def
  service_arg_def port_arg_def request_names trim_def is_white_def parse_u16_def parse_uint_def digits_val_def digit_val_def is_digit_def
  parse_request_def dispatch_subcommand_def parse_start_request_def parse_stop_request_def

end
