(* ===== verification/T0_Json.thy ===== *)
theory T0_Json
  imports T0_Response T0_Text
begin

text \<open>
  An instance of the parameter \<open>serde\<close> of \<open>T0_Response\<close>: JSON texts as RFC 8259 describes them, and the
  implementations that \<open>#[derive(Serialize, Deserialize)]\<close> gives the structures of \<open>response.rs\<close> and the
  enumeration of \<open>request.rs\<close>.  Every value the program sends is a value here: its numbers are natural
  numbers, and an object is the list of its members, which \<open>to_value\<close> sorts by name.  Texts are lists of bytes; of the
  escapes \<open>\u\<close>, only those of control characters are read, since no other is written.
\<close>

datatype json = JNull | JBool bool | JNum nat | JStr string | JArr "json list" | JObj "(string \<times> json) list"

section \<open>Writing\<close>

definition escape_json :: "char \<Rightarrow> string" where
  "escape_json c =
     (if c = CHR 0x22 then [CHR 0x5C, CHR 0x22]
      else if c = CHR 0x5C then [CHR 0x5C, CHR 0x5C]
      else if c = CHR 0x08 then [CHR 0x5C, CHR ''b'']
      else if c = CHR 0x09 then [CHR 0x5C, CHR ''t'']
      else if c = CHR 0x0A then [CHR 0x5C, CHR ''n'']
      else if c = CHR 0x0C then [CHR 0x5C, CHR ''f'']
      else if c = CHR 0x0D then [CHR 0x5C, CHR ''r'']
      else (let n = (of_char c :: nat) in
            if n < 32 then [CHR 0x5C, CHR ''u'', CHR ''0'', CHR ''0'', hex_char (n div 16), hex_char (n mod 16)] else [c]))"

definition quote_json :: "string \<Rightarrow> string" where
  "quote_json s = CHR 0x22 # concat (map escape_json s) @ [CHR 0x22]"

fun print_json :: "json \<Rightarrow> string" and print_elems :: "json list \<Rightarrow> string" and print_members :: "(string \<times> json) list \<Rightarrow> string" where
  "print_json JNull = ''null''"
| "print_json (JBool b) = (if b then ''true'' else ''false'')"
| "print_json (JNum n) = show_nat n"
| "print_json (JStr s) = quote_json s"
| "print_json (JArr []) = ''[]''"
| "print_json (JArr (v # vs)) = CHR ''['' # print_json v @ print_elems vs"
| "print_json (JObj []) = ''{}''"
| "print_json (JObj ((k, v) # kvs)) = CHR ''{'' # quote_json k @ CHR '':'' # print_json v @ print_members kvs"
| "print_elems [] = '']''"
| "print_elems (v # vs) = CHR '','' # print_json v @ print_elems vs"
| "print_members [] = ''}''"
| "print_members ((k, v) # kvs) = CHR '','' # quote_json k @ CHR '':'' # print_json v @ print_members kvs"

text \<open>\<open>to_string_pretty\<close>: two blanks per level.\<close>

definition new_line :: "nat \<Rightarrow> string" where
  "new_line d = CHR 0x0A # replicate (2 * d) (CHR '' '')"

fun pretty_json :: "nat \<Rightarrow> json \<Rightarrow> string" and pretty_elems :: "nat \<Rightarrow> json list \<Rightarrow> string" and pretty_members :: "nat \<Rightarrow> (string \<times> json) list \<Rightarrow> string" where
  "pretty_json d (JArr (v # vs)) = CHR ''['' # new_line (Suc d) @ pretty_json (Suc d) v @ pretty_elems d vs"
| "pretty_json d (JObj ((k, v) # kvs)) = CHR ''{'' # new_line (Suc d) @ quote_json k @ '': '' @ pretty_json (Suc d) v @ pretty_members d kvs"
| "pretty_json d v = print_json v"
| "pretty_elems d [] = new_line d @ '']''"
| "pretty_elems d (v # vs) = CHR '','' # new_line (Suc d) @ pretty_json (Suc d) v @ pretty_elems d vs"
| "pretty_members d [] = new_line d @ ''}''"
| "pretty_members d ((k, v) # kvs) = CHR '','' # new_line (Suc d) @ quote_json k @ '': '' @ pretty_json (Suc d) v @ pretty_members d kvs"

section \<open>Reading\<close>

definition is_json_white :: "char \<Rightarrow> bool" where
  "is_json_white c \<longleftrightarrow> c = CHR '' '' \<or> c = CHR 0x09 \<or> c = CHR 0x0A \<or> c = CHR 0x0D"

definition skip_white :: "string \<Rightarrow> string" where
  "skip_white s = dropWhile is_json_white s"

definition unescape :: "char \<Rightarrow> char option" where
  "unescape c =
     (if c = CHR 0x22 then Some (CHR 0x22) else if c = CHR 0x5C then Some (CHR 0x5C) else if c = CHR ''/'' then Some (CHR ''/'')
      else if c = CHR ''b'' then Some (CHR 0x08) else if c = CHR ''t'' then Some (CHR 0x09) else if c = CHR ''n'' then Some (CHR 0x0A)
      else if c = CHR ''f'' then Some (CHR 0x0C) else if c = CHR ''r'' then Some (CHR 0x0D) else None)"

definition hex_val :: "char \<Rightarrow> nat option" where
  "hex_val c = (let n = (of_char c :: nat) in
     if 48 \<le> n \<and> n \<le> 57 then Some (n - 48) else if 97 \<le> n \<and> n \<le> 102 then Some (n - 87) else if 65 \<le> n \<and> n \<le> 70 then Some (n - 55) else None)"

text \<open>The rest of a string, behind its opening quote.\<close>

fun read_string :: "string \<Rightarrow> (string \<times> string) option" where
  "read_string [] = None"
| "read_string (c # s) =
     (if c = CHR 0x22 then Some ([], s)
      else if c = CHR 0x5C then
        (case s of
           [] \<Rightarrow> None
         | e # t \<Rightarrow>
             (case unescape e of
                Some x \<Rightarrow> map_option (\<lambda>(r, u). (x # r, u)) (read_string t)
              | None \<Rightarrow>
                  (case t of
                     a # b # h # l # t' \<Rightarrow>
                       (case (hex_val h, hex_val l) of
                          (Some x, Some y) \<Rightarrow>
                            if e = CHR ''u'' \<and> a = CHR ''0'' \<and> b = CHR ''0'' \<and> x < 2
                            then map_option (\<lambda>(r, u). (char_of (16 * x + y) # r, u)) (read_string t') else None
                        | _ \<Rightarrow> None)
                   | _ \<Rightarrow> None)))
      else if (of_char c :: nat) < 32 then None
      else map_option (\<lambda>(r, u). (c # r, u)) (read_string s))"

definition read_number :: "string \<Rightarrow> (json \<times> string) option" where
  "read_number s = (let ds = takeWhile is_digit s in
     if ds = [] \<or> (hd ds = CHR ''0'' \<and> tl ds \<noteq> []) then None else Some (JNum (digits_val ds), dropWhile is_digit s))"

definition read_word :: "string \<Rightarrow> (json \<times> string) option" where
  "read_word s =
     (if take 4 s = ''null'' then Some (JNull, drop 4 s)
      else if take 4 s = ''true'' then Some (JBool True, drop 4 s)
      else if take 5 s = ''false'' then Some (JBool False, drop 5 s) else None)"

text \<open>The name of a member, with the colon behind it.\<close>

definition read_key :: "string \<Rightarrow> (string \<times> string) option" where
  "read_key s =
     (case skip_white s of
        [] \<Rightarrow> None
      | c # t \<Rightarrow>
          if c \<noteq> CHR 0x22 then None
          else (case read_string t of
             None \<Rightarrow> None
           | Some (k, u) \<Rightarrow> (case skip_white u of [] \<Rightarrow> None | c' # u' \<Rightarrow> if c' = CHR '':'' then Some (k, u') else None)))"

text \<open>Every call behind another has consumed a character, so that the length of the text is enough fuel.\<close>

fun read_json :: "nat \<Rightarrow> string \<Rightarrow> (json \<times> string) option"
  and read_elems :: "nat \<Rightarrow> string \<Rightarrow> (json list \<times> string) option"
  and read_members :: "nat \<Rightarrow> string \<Rightarrow> ((string \<times> json) list \<times> string) option" where
  "read_json 0 s = None"
| "read_json (Suc n) s =
     (case skip_white s of
        [] \<Rightarrow> None
      | c # t \<Rightarrow>
          if c = CHR 0x22 then map_option (\<lambda>(x, u). (JStr x, u)) (read_string t)
          else if c = CHR ''['' then
            (if take 1 (skip_white t) = '']'' then Some (JArr [], drop 1 (skip_white t))
             else (case read_json n t of
                     None \<Rightarrow> None
                   | Some (v, u) \<Rightarrow> map_option (\<lambda>(vs, u'). (JArr (v # vs), u')) (read_elems n u)))
          else if c = CHR ''{'' then
            (if take 1 (skip_white t) = ''}'' then Some (JObj [], drop 1 (skip_white t))
             else (case read_key t of
                     None \<Rightarrow> None
                   | Some (k, u) \<Rightarrow>
                       (case read_json n u of
                          None \<Rightarrow> None
                        | Some (v, u') \<Rightarrow> map_option (\<lambda>(kvs, u''). (JObj ((k, v) # kvs), u'')) (read_members n u'))))
          else if is_digit c then read_number (c # t)
          else read_word (c # t))"
| "read_elems 0 s = None"
| "read_elems (Suc n) s =
     (case skip_white s of
        [] \<Rightarrow> None
      | c # t \<Rightarrow>
          if c = CHR '']'' then Some ([], t)
          else if c = CHR '','' then
            (case read_json n t of
               None \<Rightarrow> None
             | Some (v, u) \<Rightarrow> map_option (\<lambda>(vs, u'). (v # vs, u')) (read_elems n u))
          else None)"
| "read_members 0 s = None"
| "read_members (Suc n) s =
     (case skip_white s of
        [] \<Rightarrow> None
      | c # t \<Rightarrow>
          if c = CHR ''}'' then Some ([], t)
          else if c = CHR '','' then
            (case read_key t of
               None \<Rightarrow> None
             | Some (k, u) \<Rightarrow>
                 (case read_json n u of
                    None \<Rightarrow> None
                  | Some (v, u') \<Rightarrow> map_option (\<lambda>(kvs, u''). ((k, v) # kvs, u'')) (read_members n u')))
          else None)"

definition parse_json :: "string \<Rightarrow> json option" where
  "parse_json s =
     (case read_json (length s) s of
        Some (v, u) \<Rightarrow> if skip_white u = [] then Some v else None
      | None \<Rightarrow> None)"

text \<open>More fuel gives the same value, so that a shallow value can be read with little of it.\<close>

definition opt_le :: "'a option \<Rightarrow> 'a option \<Rightarrow> bool" where
  "opt_le a b \<longleftrightarrow> (a = None \<or> a = b)"

lemma opt_le_refl: "opt_le a a" "opt_le None a"
  by (simp_all add: opt_le_def)

lemma opt_le_bind: "opt_le a b \<Longrightarrow> (\<And>x y. opt_le (f x y) (g x y)) \<Longrightarrow>
    opt_le (case a of None \<Rightarrow> None | Some (x, y) \<Rightarrow> f x y) (case b of None \<Rightarrow> None | Some (x, y) \<Rightarrow> g x y)"
  by (auto simp: opt_le_def split: option.splits)

lemma opt_le_map: "opt_le a b \<Longrightarrow> opt_le (map_option f a) (map_option f b)"
  by (auto simp: opt_le_def)

lemma opt_le_if: "opt_le a b \<Longrightarrow> opt_le c d \<Longrightarrow> opt_le (if P then a else c) (if P then b else d)"
  by simp

lemma opt_le_list: "(\<And>c t. opt_le (f c t) (g c t)) \<Longrightarrow> opt_le (case s of [] \<Rightarrow> None | c # t \<Rightarrow> f c t) (case s of [] \<Rightarrow> None | c # t \<Rightarrow> g c t)"
  by (simp add: opt_le_refl split: list.splits)

lemmas opt_le_intros = opt_le_list opt_le_if opt_le_bind opt_le_map opt_le_refl

lemma read_step:
  assumes "\<And>s. opt_le (read_json n s) (read_json m s)" "\<And>s. opt_le (read_elems n s) (read_elems m s)" "\<And>s. opt_le (read_members n s) (read_members m s)"
  shows "opt_le (read_json (Suc n) s) (read_json (Suc m) s)" "opt_le (read_elems (Suc n) s) (read_elems (Suc m) s)"
    "opt_le (read_members (Suc n) s) (read_members (Suc m) s)"
  unfolding read_json.simps read_elems.simps read_members.simps by (intro opt_le_intros assms)+

lemma read_mono:
  assumes "n \<le> m"
  shows "opt_le (read_json n s) (read_json m s) \<and> opt_le (read_elems n s) (read_elems m s) \<and> opt_le (read_members n s) (read_members m s)"
  using assms
proof (induction n arbitrary: m s)
  case (Suc n)
  then obtain k where m: "m = Suc k" "n \<le> k" by (cases m) auto
  with Suc.IH show ?case using read_step[of n k] by simp
qed (simp add: opt_le_refl)

lemma parse_with:
  assumes "read_json n s = Some (v, u)" and "n \<le> length s" and "skip_white u = []"
  shows "parse_json s = Some v"
proof -
  have "read_json (length s) s = Some (v, u)" using read_mono[OF assms(2), of s] assms(1) by (auto simp: opt_le_def)
  then show ?thesis using assms(3) by (simp add: parse_json_def)
qed

section \<open>What is written is read\<close>

lemma hex_val_hex_char: "d < 16 \<Longrightarrow> hex_val (hex_char d) = Some d"
  by (auto simp: hex_val_def hex_char_def Let_def)

lemma escape_json_plain: "\<not> (of_char c :: nat) < 32 \<Longrightarrow> c \<noteq> CHR 0x22 \<Longrightarrow> c \<noteq> CHR 0x5C \<Longrightarrow> escape_json c = [c]"
  by (auto simp: escape_json_def Let_def)

lemma read_escaped: "read_string (escape_json c @ s) = map_option (\<lambda>(r, u). (c # r, u)) (read_string s)"
proof -
  consider (named) "c \<in> {CHR 0x22, CHR 0x5C, CHR 0x08, CHR 0x09, CHR 0x0A, CHR 0x0C, CHR 0x0D}"
    | (control) "c \<notin> {CHR 0x22, CHR 0x5C, CHR 0x08, CHR 0x09, CHR 0x0A, CHR 0x0C, CHR 0x0D}" "(of_char c :: nat) < 32"
    | (plain) "c \<noteq> CHR 0x22" "c \<noteq> CHR 0x5C" "\<not> (of_char c :: nat) < 32" by blast
  then show ?thesis
  proof cases
    case named
    then show ?thesis by (auto simp: escape_json_def unescape_def)
  next
    case control
    define n where "n = (of_char c :: nat)"
    have e: "escape_json c = [CHR 0x5C, CHR ''u'', CHR ''0'', CHR ''0'', hex_char (n div 16), hex_char (n mod 16)]"
      using control by (simp add: escape_json_def n_def Let_def)
    have h: "hex_val (hex_char (n div 16)) = Some (n div 16)" "hex_val (hex_char (n mod 16)) = Some (n mod 16)" "n div 16 < 2"
      using control(2) by (auto simp: n_def intro!: hex_val_hex_char)
    have "char_of (16 * (n div 16) + n mod 16) = c" by (simp add: n_def)
    then show ?thesis by (simp add: e unescape_def h)
  next
    case plain
    then show ?thesis by (simp add: escape_json_plain)
  qed
qed

lemma read_quoted: "read_string (concat (map escape_json s) @ CHR 0x22 # u) = Some (s, u)"
  by (induction s) (simp_all add: read_escaped)

lemma show_nat_hd: "hd (show_nat n) = CHR ''0'' \<longleftrightarrow> n = 0"
proof (induction n rule: show_nat.induct)
  case (1 n)
  show ?case
  proof (cases "n < 10")
    case True
    then have "show_nat n = [digit_char n]" by (subst show_nat.simps) simp
    moreover have "digit_char n = CHR ''0'' \<longleftrightarrow> (of_char (digit_char n) :: nat) = of_char (CHR ''0'')" by (simp only: of_char_eq_iff)
    then have "digit_char n = CHR ''0'' \<longleftrightarrow> n = 0" by (simp add: of_char_digit_char[OF True])
    ultimately show ?thesis by simp
  next
    case False
    then have "show_nat n = show_nat (n div 10) @ [digit_char (n mod 10)]" by (subst show_nat.simps) simp
    with False 1 show ?thesis by simp
  qed
qed

definition ends_number :: "string \<Rightarrow> bool" where
  "ends_number u \<longleftrightarrow> (case u of [] \<Rightarrow> True | c # _ \<Rightarrow> \<not> is_digit c)"

lemma read_show_nat:
  assumes "ends_number u"
  shows "read_number (show_nat n @ u) = Some (JNum n, u)"
proof -
  have d: "\<And>c. c \<in> set (show_nat n) \<Longrightarrow> is_digit c" using show_nat_digits[of n] by (simp add: list_all_iff)
  have u: "takeWhile is_digit u = []" "dropWhile is_digit u = u" using assms by (cases u; simp add: ends_number_def)+
  have "takeWhile is_digit (show_nat n @ u) = show_nat n" "dropWhile is_digit (show_nat n @ u) = u"
    using d u by (simp_all add: takeWhile_append dropWhile_append)
  moreover have "n = 0 \<longrightarrow> tl (show_nat n) = []" by (subst show_nat.simps) simp
  ultimately show ?thesis by (cases "n = 0") (simp_all add: read_number_def show_nat_hd Let_def)
qed

text \<open>The first character of a written value.\<close>

definition opens_value :: "char \<Rightarrow> bool" where
  "opens_value c \<longleftrightarrow> c \<in> {CHR 0x22, CHR ''['', CHR ''{'', CHR ''n'', CHR ''t'', CHR ''f''} \<or> is_digit c"

lemma digit_white: "is_digit c \<Longrightarrow> \<not> is_json_white c"
  by (auto simp: is_digit_def is_json_white_def)

lemma opens_value_white: "opens_value c \<Longrightarrow> \<not> is_json_white c"
  using digit_white by (auto simp: opens_value_def is_json_white_def)

lemma digit_distinct: "is_digit c \<Longrightarrow> c \<notin> {CHR 0x22, CHR ''['', CHR ''{'', CHR '']'', CHR ''}''}"
  by (auto simp: is_digit_def)

lemma print_json_opens: "\<exists>c t. print_json v = c # t \<and> opens_value c"
proof (cases v)
  case (JNum n)
  have "opens_value (hd (show_nat n))" using show_nat_digits[of n] by (cases "show_nat n") (auto simp: opens_value_def)
  with JNum show ?thesis by (cases "show_nat n") auto
next
  case (JArr vs)
  then show ?thesis by (cases vs) (simp_all add: opens_value_def)
next
  case (JObj kvs)
  then show ?thesis by (cases kvs rule: list.exhaust; auto simp: opens_value_def)
qed (auto simp: opens_value_def quote_json_def)

lemma skip_print: "skip_white (print_json v @ u) = print_json v @ u"
  using print_json_opens[of v] opens_value_white by (auto simp: skip_white_def)

lemma skip_marks [simp]:
  "skip_white (CHR 0x22 # u) = CHR 0x22 # u" "skip_white (CHR '':'' # u) = CHR '':'' # u" "skip_white (CHR '','' # u) = CHR '','' # u"
  "skip_white (CHR ''['' # u) = CHR ''['' # u" "skip_white (CHR '']'' # u) = CHR '']'' # u"
  "skip_white (CHR ''{'' # u) = CHR ''{'' # u" "skip_white (CHR ''}'' # u) = CHR ''}'' # u"
  by (simp_all add: skip_white_def is_json_white_def)

lemma read_key_quoted: "read_key (quote_json k @ CHR '':'' # u) = Some (k, u)"
  by (simp add: read_key_def quote_json_def read_quoted is_json_white_def)

lemma take_print: "take 1 (skip_white (print_json v @ u)) \<noteq> '']''" "take 1 (skip_white (quote_json k @ u)) \<noteq> ''}''"
  using print_json_opens[of v] by (auto simp: skip_print opens_value_def quote_json_def is_json_white_def is_digit_def)

text \<open>The characters behind a value in an array or an object do not continue a number.\<close>

lemma ends_elems [simp]: "ends_number (print_elems vs @ u)" "ends_number (print_members kvs @ u)"
  by (cases vs; simp add: ends_number_def is_digit_def) (cases kvs rule: print_members.cases; simp add: ends_number_def is_digit_def)

lemma read_print:
  "ends_number u \<Longrightarrow> length (print_json v) \<le> n \<Longrightarrow> read_json n (print_json v @ u) = Some (v, u)"
  "length (print_elems vs) \<le> n \<Longrightarrow> read_elems n (print_elems vs @ u) = Some (vs, u)"
  "length (print_members kvs) \<le> n \<Longrightarrow> read_members n (print_members kvs @ u) = Some (kvs, u)"
proof (induction v and vs and kvs arbitrary: n u and n u and n u rule: print_json_print_elems_print_members.induct)
  case 1
  then show ?case by (cases n) (auto simp: skip_white_def is_json_white_def is_digit_def read_word_def)
next
  case (2 b)
  then show ?case by (cases n; cases b) (auto simp: skip_white_def is_json_white_def is_digit_def read_word_def)
next
  case (3 k)
  then obtain m where n: "n = Suc m" by (cases n; cases "show_nat k") auto
  obtain c t where c: "show_nat k = c # t" "is_digit c" using show_nat_digits[of k] by (cases "show_nat k") auto
  with read_show_nat[OF 3(1), of k] digit_distinct[OF c(2)] digit_white[OF c(2)] show ?case by (simp add: n skip_white_def)
next
  case (4 s)
  then show ?case by (cases n) (simp_all add: quote_json_def read_quoted)
next
  case 5
  then show ?case by (cases n) simp_all
next
  case (6 v vs)
  then obtain m where n: "n = Suc m" by (cases n) auto
  with 6 have "read_json m (print_json v @ print_elems vs @ u) = Some (v, print_elems vs @ u)" "read_elems m (print_elems vs @ u) = Some (vs, u)"
    by simp_all
  then show ?case using take_print(1)[of v "print_elems vs @ u"] by (simp add: n)
next
  case 7
  then show ?case by (cases n) simp_all
next
  case (8 k v kvs)
  then obtain m where n: "n = Suc m" by (cases n) auto
  with 8 have "read_json m (print_json v @ print_members kvs @ u) = Some (v, print_members kvs @ u)" "read_members m (print_members kvs @ u) = Some (kvs, u)"
    by simp_all
  then show ?case using take_print(2)[of k "CHR '':'' # print_json v @ print_members kvs @ u"] by (simp add: n read_key_quoted)
next
  case 9
  then show ?case by (cases n) simp_all
next
  case (10 v vs)
  then obtain m where n: "n = Suc m" by (cases n) auto
  with 10 show ?case by simp
next
  case 11
  then show ?case by (cases n) simp_all
next
  case (12 k v kvs)
  then obtain m where n: "n = Suc m" by (cases n) auto
  with 12 show ?case by (simp add: read_key_quoted)
qed

lemma parse_print: "parse_json (print_json v) = Some v"
  using read_print(1)[of "[]" v "length (print_json v)"] by (simp add: parse_json_def ends_number_def skip_white_def)

section \<open>The derived implementations\<close>

definition json_of_opt :: "('a \<Rightarrow> json) \<Rightarrow> 'a option \<Rightarrow> json" where
  "json_of_opt f x = (case x of None \<Rightarrow> JNull | Some y \<Rightarrow> f y)"

definition json_of_user :: "resp_user \<Rightarrow> json" where
  "json_of_user u = JObj [(''name'', JStr (ru_name u)), (''status'', JStr (ru_status u)), (''user_id'', JNum (unat (ru_user_id u)))]"

definition json_of_about :: "about \<Rightarrow> json" where
  "json_of_about a = JObj [(''cert_alt_subj'', json_of_opt JStr (ab_cert_alt_subj a)), (''cert_context'', json_of_opt JStr (ab_cert_context a)),
     (''cert_subject'', json_of_opt JStr (ab_cert_subject a)), (''user'', json_of_opt json_of_user (ab_user a))]"

definition json_of_service :: "resp_service \<Rightarrow> json" where
  "json_of_service s = JObj [(''address'', json_of_opt JStr (rs_address s)), (''id'', JNum (unat (rs_id s))), (''name'', JStr (rs_name s)),
     (''transport'', JStr (transport_debug (rs_transport s)))]"

definition json_of_proxy :: "resp_proxy \<Rightarrow> json" where
  "json_of_proxy p = JObj [(''client_port'', json_of_opt (\<lambda>q. JNum (unat q)) (rp_client_port p)), (''gateway_host'', json_of_opt JStr (rp_gateway_host p)),
     (''gateway_port'', JNum (unat (rp_gateway_port p))), (''service'', json_of_service (rp_service p))]"

definition json_of_connection :: "resp_connection \<Rightarrow> json" where
  "json_of_connection c = JObj [(''binds'', JArr (map (\<lambda>b. JArr (map JStr b)) (rc_binds c))), (''service_name'', JStr (rc_service_name c))]"

fun json_of_request :: "request \<Rightarrow> json" where
  "json_of_request ReqNone = JStr ''None''"
| "json_of_request ReqAbout = JStr ''About''"
| "json_of_request ReqConnections = JStr ''Connections''"
| "json_of_request ReqPing = JStr ''Ping''"
| "json_of_request ReqProxies = JStr ''Proxies''"
| "json_of_request ReqServices = JStr ''Services''"
| "json_of_request (ReqStart name port) = JObj [(''Start'', JObj [(''service_name'', JStr name), (''local_port'', JNum (unat port))])]"
| "json_of_request (ReqStop name) = JObj [(''Stop'', JObj [(''service_name'', JStr name)])]"
| "json_of_request ReqQuit = JStr ''Quit''"

text \<open>A response is written field by field, in the order of its declaration.\<close>

definition json_of_response :: "json response \<Rightarrow> json" where
  "json_of_response r = JObj [(''code'', JNum (unat (rsp_code r))), (''message'', json_of_opt JStr (rsp_message r)),
     (''request'', json_of_request (rsp_request r)), (''data'', json_of_opt id (rsp_data r))]"

text \<open>Reading: unknown members are passed over, and a missing or null member is the \<open>None\<close> of an option.\<close>

fun json_member :: "string \<Rightarrow> json \<Rightarrow> json option" where
  "json_member k (JObj kvs) = map_of kvs k"
| "json_member k v = None"

fun json_str :: "json \<Rightarrow> string option" where
  "json_str (JStr s) = Some s"
| "json_str v = None"

fun json_uint :: "nat \<Rightarrow> json \<Rightarrow> nat option" where
  "json_uint w (JNum n) = (if n < 2 ^ w then Some n else None)"
| "json_uint w v = None"

definition json_u64 :: "json \<Rightarrow> u64 option" where "json_u64 v = map_option of_nat (json_uint 64 v)"
definition json_u16 :: "json \<Rightarrow> u16 option" where "json_u16 v = map_option of_nat (json_uint 16 v)"

fun json_opt :: "(json \<Rightarrow> 'a option) \<Rightarrow> json option \<Rightarrow> 'a option option" where
  "json_opt f None = Some None"
| "json_opt f (Some JNull) = Some None"
| "json_opt f (Some v) = map_option Some (f v)"

fun json_list :: "(json \<Rightarrow> 'a option) \<Rightarrow> json \<Rightarrow> 'a list option" where
  "json_list f (JArr vs) = those (map f vs)"
| "json_list f v = None"

definition json_transport :: "json \<Rightarrow> transport option" where
  "json_transport v = (if v = JStr ''TCP'' then Some TCP else if v = JStr ''UDP'' then Some UDP else None)"

definition service_of_json :: "json \<Rightarrow> resp_service option" where
  "service_of_json v =
     Option.bind (Option.bind (json_member ''id'' v) json_u64) (\<lambda>i.
     Option.bind (Option.bind (json_member ''name'' v) json_str) (\<lambda>n.
     Option.bind (Option.bind (json_member ''transport'' v) json_transport) (\<lambda>t.
     Option.bind (json_opt json_str (json_member ''address'' v)) (\<lambda>a. Some (new_resp_service i n t a)))))"

definition proxy_of_json :: "json \<Rightarrow> resp_proxy option" where
  "proxy_of_json v =
     Option.bind (Option.bind (json_member ''service'' v) service_of_json) (\<lambda>s.
     Option.bind (json_opt json_str (json_member ''gateway_host'' v)) (\<lambda>h.
     Option.bind (Option.bind (json_member ''gateway_port'' v) json_u16) (\<lambda>p.
     Option.bind (json_opt json_u16 (json_member ''client_port'' v)) (\<lambda>c. Some (new_resp_proxy s h p c)))))"

definition connection_of_json :: "json \<Rightarrow> resp_connection option" where
  "connection_of_json v =
     Option.bind (Option.bind (json_member ''service_name'' v) json_str) (\<lambda>n.
     Option.bind (Option.bind (json_member ''binds'' v) (json_list (json_list json_str))) (\<lambda>b. Some (new_resp_connection n b)))"

definition unit_requests :: "request list" where
  "unit_requests = [ReqNone, ReqAbout, ReqConnections, ReqPing, ReqProxies, ReqServices, ReqQuit]"

definition request_of_json :: "json \<Rightarrow> request option" where
  "request_of_json v =
     (case json_member ''Start'' v of
        Some f \<Rightarrow> Option.bind (Option.bind (json_member ''service_name'' f) json_str) (\<lambda>n.
                   Option.bind (Option.bind (json_member ''local_port'' f) json_u16) (\<lambda>p. Some (ReqStart n p)))
      | None \<Rightarrow>
          (case json_member ''Stop'' v of
             Some f \<Rightarrow> Option.bind (Option.bind (json_member ''service_name'' f) json_str) (\<lambda>n. Some (ReqStop n))
           | None \<Rightarrow> find (\<lambda>q. json_of_request q = v) unit_requests))"

definition response_of_json :: "json \<Rightarrow> json response option" where
  "response_of_json v =
     Option.bind (Option.bind (json_member ''code'' v) json_u16) (\<lambda>c.
     Option.bind (json_opt json_str (json_member ''message'' v)) (\<lambda>m.
     Option.bind (Option.bind (json_member ''request'' v) request_of_json) (\<lambda>q.
     Option.bind (json_opt Some (json_member ''data'' v)) (\<lambda>d. Some (new_response c m q d)))))"

definition json_error :: dyn_error where
  "json_error = \<lparr>display_of = ''invalid JSON'', debug_of = ''Error(\"invalid JSON\")''\<rparr>"

definition or_error :: "'a option \<Rightarrow> dyn_error + 'a" where
  "or_error x = (case x of Some y \<Rightarrow> Inr y | None \<Rightarrow> Inl json_error)"

definition json_serde :: "json serde" where
  "json_serde = \<lparr>
     to_value_user = Inr \<circ> json_of_user,
     to_value_about = Inr \<circ> json_of_about,
     to_value_proxy = Inr \<circ> json_of_proxy,
     to_value_proxies = (\<lambda>ps. Inr (JArr (map json_of_proxy ps))),
     to_value_service = Inr \<circ> json_of_service,
     to_value_connection = Inr \<circ> json_of_connection,
     from_value_proxy = or_error \<circ> proxy_of_json,
     from_value_service = or_error \<circ> service_of_json,
     from_value_connection = or_error \<circ> connection_of_json,
     array_value = JArr,
     as_array = (\<lambda>v. case v of JArr vs \<Rightarrow> Some vs | _ \<Rightarrow> None),
     string_value = JStr,
     response_to_string = (\<lambda>r. Inr (print_json (json_of_response r))),
     response_to_string_pretty = (\<lambda>r. Inr (pretty_json 0 (json_of_response r))),
     response_from_str = (\<lambda>t. or_error (Option.bind (parse_json t) response_of_json))\<rparr>"

lemma json_serde_simps [simp]:
  "to_value_user json_serde u = Inr (json_of_user u)" "to_value_about json_serde a = Inr (json_of_about a)"
  "to_value_proxy json_serde p = Inr (json_of_proxy p)" "to_value_proxies json_serde ps = Inr (JArr (map json_of_proxy ps))"
  "to_value_service json_serde s = Inr (json_of_service s)" "to_value_connection json_serde c = Inr (json_of_connection c)"
  "from_value_proxy json_serde v = or_error (proxy_of_json v)" "from_value_service json_serde v = or_error (service_of_json v)"
  "from_value_connection json_serde v = or_error (connection_of_json v)" "array_value json_serde vs = JArr vs" "string_value json_serde t = JStr t"
  "as_array json_serde v = (case v of JArr vs \<Rightarrow> Some vs | _ \<Rightarrow> None)"
  "response_to_string json_serde r = Inr (print_json (json_of_response r))"
  "response_to_string_pretty json_serde r = Inr (pretty_json 0 (json_of_response r))"
  "response_from_str json_serde t = or_error (Option.bind (parse_json t) response_of_json)"
  by (simp_all add: json_serde_def)

section \<open>What is sent is received\<close>

lemma json_uint_unat [simp]: "json_u64 (JNum (unat x)) = Some x" "json_u16 (JNum (unat y)) = Some y"
  using unsigned_less[of x, where 'a = nat] unsigned_less[of y, where 'a = nat] by (simp_all add: json_u64_def json_u16_def)

lemma json_opt_str [simp]: "json_opt json_str (Some (json_of_opt JStr x)) = Some x"
  by (simp add: json_of_opt_def split: option.splits)

lemma json_opt_u16 [simp]: "json_opt json_u16 (Some (json_of_opt (\<lambda>q. JNum (unat q)) x)) = Some x"
  by (simp add: json_of_opt_def split: option.splits)

lemma service_of_json_of [simp]: "service_of_json (json_of_service s) = Some s"
  by (cases "rs_transport s") (simp_all add: service_of_json_def json_of_service_def json_transport_def new_resp_service_def)

lemma proxy_of_json_of [simp]: "proxy_of_json (json_of_proxy p) = Some p"
  by (simp add: proxy_of_json_def json_of_proxy_def new_resp_proxy_def)

lemma those_map_Some: "those (map (\<lambda>x. Some (f x)) xs) = Some (map f xs)"
  by (induction xs) simp_all

lemma connection_of_json_of [simp]: "connection_of_json (json_of_connection c) = Some c"
  by (simp add: connection_of_json_def json_of_connection_def new_resp_connection_def comp_def those_map_Some those_map_Some[of id, simplified])

lemma request_of_json_of [simp]: "request_of_json (json_of_request q) = Some q"
  by (cases q) (simp_all add: request_of_json_def unit_requests_def)

lemma json_opt_data: "d \<noteq> Some JNull \<Longrightarrow> json_opt Some (Some (json_of_opt id d)) = Some d"
proof (cases d)
  case (Some v)
  then show "d \<noteq> Some JNull \<Longrightarrow> ?thesis" by (cases v) (simp_all add: json_of_opt_def)
qed (simp add: json_of_opt_def)

lemma response_of_json_of: "rsp_data r \<noteq> Some JNull \<Longrightarrow> response_of_json (json_of_response r) = Some r"
  by (simp add: response_of_json_def json_of_response_def json_opt_data new_response_def)

lemma map_json_proxies: "map (Inr \<circ> json_of_proxy) ps = map Inr vs \<Longrightarrow> vs = map json_of_proxy ps"
  by (induction ps arbitrary: vs) auto

lemma print_json_nonempty: "print_json v \<noteq> []"
  using print_json_opens[of v] by auto

text \<open>The instance has every property that the theorems ask of the library.\<close>

lemma json_serde_ok: "serde_ok json_serde"
proof -
  have "as_array json_serde (json_of_proxy p) = None" "as_array json_serde (json_of_service s) = None"
    "as_array json_serde (json_of_connection c) = None" for p s c
    by (simp_all add: json_of_proxy_def json_of_service_def json_of_connection_def)
  then show ?thesis
    unfolding serde_ok_def
    by (auto simp: json_serde_def or_error_def print_json_nonempty dest: map_json_proxies)
qed

section \<open>The wire\<close>

text \<open>
  The text of a response survives the wire: it is one line of UTF-8 that reads back as the response.
\<close>

definition wire_roundtrip :: "'v serde \<Rightarrow> 'v response \<Rightarrow> bool" where
  "wire_roundtrip S r \<longleftrightarrow>
     (\<exists>t. response_to_string S r = Inr t \<and> t \<noteq> [] \<and> response_from_str S t = Inr r \<and> CHR 0x0A \<notin> set t \<and> CHR 0x0D \<notin> set t \<and>
          from_utf8 (bytes_of_text (t @ [CHR 0x0A])) = Inr (t @ [CHR 0x0A]))"

text \<open>A JSON text has no control characters, and it is ASCII when the strings in it are.\<close>

definition ascii_text :: "string \<Rightarrow> bool" where
  "ascii_text s \<longleftrightarrow> list_all (\<lambda>c. (of_char c :: nat) < 128) s"

fun ascii_json :: "json \<Rightarrow> bool" where
  "ascii_json (JStr s) = ascii_text s"
| "ascii_json (JArr vs) = list_all ascii_json vs"
| "ascii_json (JObj kvs) = list_all (\<lambda>kv. ascii_text (fst kv) \<and> ascii_json (snd kv)) kvs"
| "ascii_json v = True"

definition graphic :: "char \<Rightarrow> bool" where
  "graphic c \<longleftrightarrow> 32 \<le> (of_char c :: nat) \<and> (of_char c :: nat) < 128"

lemma graphic_hex: "d < 16 \<Longrightarrow> graphic (hex_char d)"
  by (auto simp: hex_char_def graphic_def)

lemma graphic_escape: "(of_char c :: nat) < 128 \<Longrightarrow> list_all graphic (escape_json c)"
proof (cases "(of_char c :: nat) < 32")
  case True
  then have "graphic (hex_char (of_char c div 16))" "graphic (hex_char (of_char c mod 16))" by (simp_all add: graphic_hex)
  moreover have "list_all graphic [CHR 0x5C, CHR 0x22, CHR ''b'', CHR ''t'', CHR ''n'', CHR ''f'', CHR ''r'', CHR ''u'', CHR ''0'']"
    by (simp add: graphic_def)
  ultimately show ?thesis using True by (simp add: escape_json_def Let_def)
next
  case False
  assume "(of_char c :: nat) < 128"
  with False have "graphic c" by (simp add: graphic_def)
  moreover have "escape_json (CHR 0x22) = [CHR 0x5C, CHR 0x22]" "escape_json (CHR 0x5C) = [CHR 0x5C, CHR 0x5C]" "graphic (CHR 0x5C)" "graphic (CHR 0x22)"
    by (simp_all add: escape_json_def graphic_def)
  ultimately show ?thesis by (cases "c = CHR 0x22"; cases "c = CHR 0x5C") (simp_all add: escape_json_plain[OF False])
qed

lemma graphic_quote: "ascii_text s \<Longrightarrow> list_all graphic (quote_json s)"
  using graphic_escape by (auto simp: quote_json_def ascii_text_def list_all_iff graphic_def)

lemma graphic_show_nat: "list_all graphic (show_nat n)"
  using show_nat_digits[of n] by (rule list.pred_mono_strong) (auto simp: is_digit_def graphic_def)

lemma graphic_print:
  "ascii_json v \<Longrightarrow> list_all graphic (print_json v)"
  "list_all ascii_json vs \<Longrightarrow> list_all graphic (print_elems vs)"
  "list_all (\<lambda>kv. ascii_text (fst kv) \<and> ascii_json (snd kv)) kvs \<Longrightarrow> list_all graphic (print_members kvs)"
  by (induction v and vs and kvs rule: print_json_print_elems_print_members.induct)
    (simp_all add: graphic_quote graphic_show_nat, simp_all add: graphic_def)

lemma json_wire:
  assumes "ascii_json (json_of_response r)" and "rsp_data r \<noteq> Some JNull"
  shows "wire_roundtrip json_serde r"
proof -
  let ?t = "print_json (json_of_response r)"
  have g: "graphic c" if "c \<in> set ?t" for c using graphic_print(1)[OF assms(1)] that by (simp add: list_all_iff)
  then have "list_all (\<lambda>c. (of_char c :: nat) < 128) (?t @ [CHR 0x0A])" by (auto simp: list_all_iff graphic_def)
  then have "from_utf8 (bytes_of_text (?t @ [CHR 0x0A])) = Inr (?t @ [CHR 0x0A])"
    by (simp add: from_utf8_ascii ascii_bytes_of_text)
  moreover have "CHR 0x0A \<notin> set ?t" "CHR 0x0D \<notin> set ?t" using g[of "CHR 0x0A"] g[of "CHR 0x0D"] by (auto simp: graphic_def)
  ultimately show ?thesis
    by (simp add: wire_roundtrip_def parse_print response_of_json_of[OF assms(2)] or_error_def print_json_nonempty)
qed

end
