(* ===== verification/T0_Conformance_Control.thy ===== *)
theory T0_Conformance_Control
  imports T0_Conformance T0_Clap T0_Json
begin

text \<open>
  The unit tests of the two message formats of the control plane, command lines and JSON texts, with the instances
  \<open>clap_lib\<close> and \<open>json_serde\<close> of the libraries: \<open>request.rs\<close> and \<open>response.rs\<close>.
\<close>

text \<open>Numbers in texts.\<close>

lemma digit_chars: "digit_char 0 = CHR ''0''" "digit_char 1 = CHR ''1''" "digit_char 2 = CHR ''2''" "digit_char 3 = CHR ''3''" "digit_char 4 = CHR ''4''"
  "digit_char 5 = CHR ''5''" "digit_char 6 = CHR ''6''" "digit_char 7 = CHR ''7''" "digit_char 8 = CHR ''8''" "digit_char 9 = CHR ''9''" "digit_char (Suc 0) = CHR ''1''"
  by (simp_all add: digit_char_def char_of_def bit_0)

lemmas number_texts = show_u16_def show_nat.simps digit_chars

section \<open>Command lines\<close>

definition parse :: "string \<Rightarrow> request res" where
  "parse line = parse_request (clap_lib create_command) line"

definition PROTOCOL_REQUEST_HELP :: string where "PROTOCOL_REQUEST_HELP = ''help''"

fun error_is :: "(app_error \<Rightarrow> bool) \<Rightarrow> 'a res \<Rightarrow> bool" where
  "error_is P (Err e) = P e"
| "error_is P (Ok x) = False"
| "error_is P (Panic m) = False"

definition reqproc_parse_when_invalid_request :: bool where
  "reqproc_parse_when_invalid_request = error_is (\<lambda>err. get_code err = Some CODE_BAD_REQUEST) (parse ''INVALID'')"

definition expected_help :: string where
  "expected_help = join_strs [CHR 0x0A]
     [''Response: code=200, msg=COMMANDS:'',
      ''  about        Display context information for connected mTLS device user'',
      ''  connections  List current service proxy connections'',
      ''  ping         Simple gateway heartbeat request'',
      ''  proxies      List active service proxies, ready for new connections'',
      ''  services     List authorized services for connected mTLS device user'',
      ''  start        Startup proxy to authorized service via secure client-gateway proxy'',
      ''  stop         Shutdown active service proxy (previously started)'',
      ''  quit         Quit the control plane (and corresponding service connections)'',
      ''  help         Print this message or the help of the given subcommand(s)'',
      '''']"

definition reqproc_parse_when_help_request :: bool where
  "reqproc_parse_when_help_request =
     error_is (\<lambda>err. get_code err = Some CODE_OK \<and> err_to_string err = expected_help) (parse PROTOCOL_REQUEST_HELP)"

definition reqproc_parse_when_connections_request :: bool where
  "reqproc_parse_when_connections_request = passes (parse PROTOCOL_REQUEST_CONNECTIONS) (\<lambda>request. request = ReqConnections)"

definition reqproc_parse_when_ping_request :: bool where
  "reqproc_parse_when_ping_request = passes (parse PROTOCOL_REQUEST_PING) (\<lambda>request. request = ReqPing)"

definition reqproc_parse_when_proxies_request :: bool where
  "reqproc_parse_when_proxies_request = passes (parse PROTOCOL_REQUEST_PROXIES) (\<lambda>request. request = ReqProxies)"

definition reqproc_parse_when_services_request :: bool where
  "reqproc_parse_when_services_request = passes (parse PROTOCOL_REQUEST_SERVICES) (\<lambda>request. request = ReqServices)"

definition reqproc_parse_when_start_request :: bool where
  "reqproc_parse_when_start_request =
     passes (parse (PROTOCOL_REQUEST_START @ '' -s '' @ ''svc1'' @ '' -p '' @ show_u16 3000)) (\<lambda>request. request = ReqStart ''svc1'' 3000)"

definition reqproc_parse_when_stop_request :: bool where
  "reqproc_parse_when_stop_request = passes (parse (PROTOCOL_REQUEST_STOP @ '' -s '' @ ''svc1'')) (\<lambda>request. request = ReqStop ''svc1'')"

definition reqproc_parse_when_quit_request :: bool where
  "reqproc_parse_when_quit_request = passes (parse PROTOCOL_REQUEST_QUIT) (\<lambda>request. request = ReqQuit)"

lemmas request_tests = reqproc_parse_when_invalid_request_def reqproc_parse_when_help_request_def reqproc_parse_when_connections_request_def
  reqproc_parse_when_ping_request_def reqproc_parse_when_proxies_request_def reqproc_parse_when_services_request_def
  reqproc_parse_when_start_request_def reqproc_parse_when_stop_request_def reqproc_parse_when_quit_request_def

theorem request_tests_pass:
  "reqproc_parse_when_invalid_request" "reqproc_parse_when_help_request" "reqproc_parse_when_connections_request"
  "reqproc_parse_when_ping_request" "reqproc_parse_when_proxies_request" "reqproc_parse_when_services_request"
  "reqproc_parse_when_start_request" "reqproc_parse_when_stop_request" "reqproc_parse_when_quit_request"
  by (simp_all add: request_tests parse_def line_defs PROTOCOL_REQUEST_HELP_def expected_help_def help_text_def help_line_def response_codes
      number_texts)

section \<open>JSON values\<close>

text \<open>The macro \<open>json!\<close>: an object keeps its members sorted by name.\<close>

fun str_less :: "string \<Rightarrow> string \<Rightarrow> bool" where
  "str_less s [] = False"
| "str_less [] (d # t) = True"
| "str_less (c # s) (d # t) = ((of_char c :: nat) < of_char d \<or> (c = d \<and> str_less s t))"

fun put_member :: "string \<times> json \<Rightarrow> (string \<times> json) list \<Rightarrow> (string \<times> json) list" where
  "put_member m [] = [m]"
| "put_member m (n # ms) = (if str_less (fst m) (fst n) then m # n # ms else n # put_member m ms)"

definition json_object :: "(string \<times> json) list \<Rightarrow> json" where
  "json_object ms = JObj (foldr put_member ms [])"

definition user100_json :: json where
  "user100_json = json_object [(''user_id'', JNum 100), (''name'', JStr ''user100''), (''status'', JStr ''Active'')]"

definition svc1_json :: json where
  "svc1_json = json_object [(''id'', JNum 200), (''name'', JStr ''svc1''), (''transport'', JStr ''TCP''), (''address'', JStr ''host:9000'')]"

definition proxy1_json :: "string \<Rightarrow> json" where
  "proxy1_json svc_member = json_object [(svc_member, svc1_json), (''gateway_host'', JStr ''gwhost1''), (''gateway_port'', JNum 8400), (''client_port'', JNum 8501)]"

definition conn1_json :: "string \<Rightarrow> json" where
  "conn1_json name_member =
     json_object [(name_member, JStr ''svc1''), (''binds'', JArr [JArr [JStr ''b0'', JStr ''b1''], JArr [JStr ''b2'', JStr ''b3'']])]"

definition svc1 :: resp_service where "svc1 = new_resp_service 200 ''svc1'' TCP (Some ''host:9000'')"
definition proxy1 :: resp_proxy where "proxy1 = new_resp_proxy svc1 (Some ''gwhost1'') 8400 (Some 8501)"
definition conn1 :: resp_connection where "conn1 = new_resp_connection ''svc1'' [[''b0'', ''b1''], [''b2'', ''b3'']]"

lemmas json_fixtures = json_object_def user100_json_def svc1_json_def proxy1_json_def conn1_json_def svc1_def proxy1_def conn1_def
  new_resp_user_def new_about_def new_resp_service_def new_resp_proxy_def new_resp_connection_def

definition response_parse_when_invalid :: bool where
  "response_parse_when_invalid =
     (\<not> passes (parse_response json_serde (join_strs [CHR 0x0A]
        [''{'',
         ''            \"code\": 200,'',
         ''            \"message\": \"msg1\",'',
         ''            \"request\": \"InvalidRequest\",'',
         ''            \"data\": \"{'' @ [CHR 0x5C] @ ''\"user_id'' @ [CHR 0x5C] @ ''\": 100, '' @ [CHR 0x5C] @ ''\"name'' @ [CHR 0x5C] @
           ''\": '' @ [CHR 0x5C] @ ''\"name1'' @ [CHR 0x5C] @ ''\", '' @ [CHR 0x5C] @ ''\"status'' @ [CHR 0x5C] @ ''\": '' @ [CHR 0x5C] @
           ''\"Active'' @ [CHR 0x5C] @ ''\"}\"'',
         ''        }''])) (\<lambda>_. True))"

definition response_parse_when_valid :: bool where
  "response_parse_when_valid =
     passes (parse_response json_serde (join_strs [CHR 0x0A]
        [''{'',
         ''            \"code\": 200,'',
         ''            \"message\": \"msg1\",'',
         ''            \"request\": { \"Start\": {\"service_name\": \"svc1\", \"local_port\": 3000} },'',
         ''            \"data\": [ 1, 2 ]'',
         ''        }'']))
       (\<lambda>response. rsp_code response = 200 \<and> rsp_message response = Some ''msg1'' \<and> rsp_request response = ReqStart ''svc1'' 3000 \<and>
          rsp_data response = Some (JArr [JNum 1, JNum 2]))"

definition user_try_into_test :: bool where
  "user_try_into_test = passes (user_try_into json_serde (new_resp_user 100 ''user100'' ''Active'')) (\<lambda>value. value = user100_json)"

definition about_try_into_test :: bool where
  "about_try_into_test =
     passes (about_try_into json_serde (new_about (Some ''csubj1'') (Some ''casubj1'') (Some ''cctxt1'') (Some (new_resp_user 100 ''user100'' ''Active''))))
       (\<lambda>value. value = json_object [(''cert_subject'', JStr ''csubj1''), (''cert_alt_subj'', JStr ''casubj1''), (''cert_context'', JStr ''cctxt1''),
          (''user'', user100_json)])"

definition proxy_from_serde_value_when_invalid :: bool where
  "proxy_from_serde_value_when_invalid = (\<not> passes (proxies_from_value json_serde (proxy1_json ''service_INVALID'')) (\<lambda>_. True))"

definition proxy_from_serde_value_when_valid :: bool where
  "proxy_from_serde_value_when_valid = passes (proxies_from_value json_serde (proxy1_json ''service'')) (\<lambda>proxies. proxies = [proxy1])"

definition proxy_try_into_test :: bool where
  "proxy_try_into_test = passes (proxy_try_into json_serde proxy1) (\<lambda>value. value = proxy1_json ''service'')"

definition service_from_serde_value_when_invalid :: bool where
  "service_from_serde_value_when_invalid =
     (\<not> passes (services_from_value json_serde (json_object [(''id_INVALID'', JNum 200), (''name'', JStr ''svc1''), (''transport'', JStr ''TCP''),
        (''address'', JStr ''host:9000'')])) (\<lambda>_. True))"

definition service_from_serde_value_when_valid :: bool where
  "service_from_serde_value_when_valid = passes (services_from_value json_serde svc1_json) (\<lambda>services. services = [svc1])"

definition service_try_into_test :: bool where
  "service_try_into_test = passes (service_try_into json_serde svc1) (\<lambda>value. value = svc1_json)"

definition connection_from_serde_value_when_invalid :: bool where
  "connection_from_serde_value_when_invalid = (\<not> passes (connections_from_value json_serde (conn1_json ''service_name_INVALID'')) (\<lambda>_. True))"

definition connection_from_serde_value_when_valid :: bool where
  "connection_from_serde_value_when_valid = passes (connections_from_value json_serde (conn1_json ''service_name'')) (\<lambda>conns. conns = [conn1])"

definition connection_try_into_test :: bool where
  "connection_try_into_test = passes (connection_try_into json_serde conn1) (\<lambda>value. value = conn1_json ''service_name'')"

lemmas conversion_tests = user_try_into_test_def about_try_into_test_def proxy_from_serde_value_when_invalid_def proxy_from_serde_value_when_valid_def
  proxy_try_into_test_def service_from_serde_value_when_invalid_def service_from_serde_value_when_valid_def service_try_into_test_def
  connection_from_serde_value_when_invalid_def connection_from_serde_value_when_valid_def connection_try_into_test_def

lemmas conversion_defs = user_try_into_def about_try_into_def proxy_try_into_def service_try_into_def connection_try_into_def
  proxies_from_value_def services_from_value_def connections_from_value_def or_error_def map_err_def
  json_of_user_def json_of_about_def json_of_service_def json_of_proxy_def json_of_connection_def json_of_opt_def
  service_of_json_def proxy_of_json_def connection_of_json_def json_transport_def json_u64_def json_u16_def

theorem conversion_tests_pass:
  "user_try_into_test" "about_try_into_test" "proxy_from_serde_value_when_invalid" "proxy_from_serde_value_when_valid" "proxy_try_into_test"
  "service_from_serde_value_when_invalid" "service_from_serde_value_when_valid" "service_try_into_test"
  "connection_from_serde_value_when_invalid" "connection_from_serde_value_when_valid" "connection_try_into_test"
  by (simp_all add: conversion_tests conversion_defs json_fixtures)

lemmas reader_defs = parse_json_def skip_white_def is_json_white_def read_key_def read_number_def read_word_def unescape_def digits_val_def digit_val_def is_digit_def

text \<open>Longer texts, with their indentation.\<close>

definition blanks :: "nat \<Rightarrow> string" where
  "blanks n = replicate n (CHR '' '')"

lemma skip_blanks: "skip_white [] = []" "skip_white (c # s) = (if is_json_white c then skip_white s else c # s)" "skip_white (blanks n @ s) = skip_white s"
  by (simp_all add: skip_white_def blanks_def dropWhile_append is_json_white_def)

lemmas reader_rules = skip_blanks is_json_white_def read_key_def read_number_def read_word_def unescape_def digits_val_def digit_val_def is_digit_def

theorem response_parse_tests_pass: "response_parse_when_invalid" "response_parse_when_valid"
  by (simp_all add: response_parse_when_invalid_def response_parse_when_valid_def parse_response_def conversion_defs reader_defs
      response_of_json_def request_of_json_def unit_requests_def new_response_def)

end
