(* ===== verification/T0_Conformance_Gateway.thy ===== *)
theory T0_Conformance_Gateway
  imports T0_Conformance_Control T0_Gw_Control
begin

text \<open>
  The unit tests of the gateway's control plane (\<open>client/controller.rs\<close>): every command line with the bytes of its answer; and the tests of
  \<open>client/device.rs\<close>.  The test of \<open>services\<close> is left out: its mock of the repository answers with the records of
  another user, which the repository does not.
\<close>

section \<open>Devices\<close>

text \<open>
  The two certificate files of the tests: their subjects, of which the country is a printable string and the rest are UTF-8 strings, and
  their alternative names.  The context in an alternative name is JSON; its fields have their camel case names.
\<close>

definition string_asn :: "(bool \<times> string) asn_lib" where
  "string_asn = \<lparr>tag_of = (\<lambda>v. if fst v then TagPrintableString else TagUtf8String), as_bool = (\<lambda>_. Inl send_error), as_enumerated = (\<lambda>_. Inl send_error),
     as_generalizedtime = (\<lambda>_. Inl send_error), as_generalstring = (\<lambda>_. Inl send_error), as_ia5string = (\<lambda>_. Inl send_error), as_integer = (\<lambda>_. Inl send_error),
     as_octetstring = (\<lambda>_. Inl send_error), oid_text = (\<lambda>_. Inl send_error), as_printablestring = (\<lambda>v. Inr (snd v)), as_utctime = (\<lambda>_. Inl send_error),
     as_utf8string = (\<lambda>v. Inr (snd v))\<rparr>"

definition subject_of :: "string list \<Rightarrow> (string \<times> bool \<times> string) list list" where
  "subject_of vs = map (\<lambda>(oid, v). [(oid, oid = ''2.5.4.6'', v)]) (zip [''2.5.4.6'', ''2.5.4.8'', ''2.5.4.7'', ''2.5.4.10'', ''2.5.4.11'', ''2.5.4.3''] vs)"

definition client_uid100_x509 :: "(bool \<times> string) x509" where
  "client_uid100_x509 = \<lparr>x_subject = subject_of [''US'', ''CA'', ''Nowhere1'', ''Example1'', ''IT1'', ''example-client.local''],
     x_subject_alternative_name = Inr (Some [URI ''{\"userId\":100,\"platform\":\"Linux\"}''])\<rparr>"

definition non_client_x509 :: "(bool \<times> string) x509" where
  "non_client_x509 = \<lparr>x_subject = subject_of [''US'', ''CA'', ''Nowhere'', ''ExampleCA'', ''IT'', ''example-ca.local''], x_subject_alternative_name = Inr None\<rparr>"

definition context_of_json :: "json \<Rightarrow> cert_access_context option" where
  "context_of_json v =
     Option.bind (Option.bind (json_member ''userId'' v) json_u64) (\<lambda>i.
     Option.bind (Option.bind (json_member ''platform'' v) json_str) (\<lambda>p. Some \<lparr>ctx_user_id = i, ctx_platform = p\<rparr>))"

definition test_cert_lib :: "(bytes \<Rightarrow> dyn_error + (bool \<times> string) x509) \<Rightarrow> (bool \<times> string) cert_lib" where
  "test_cert_lib parse_cert = \<lparr>asn_of = string_asn, parse_x509_certificate = parse_cert, group_pairs = demo_group,
     context_from_json = (\<lambda>t. or_error (Option.bind (parse_json t) context_of_json))\<rparr>"

definition device_new_fn_when_valid_client_cert :: "(bytes \<Rightarrow> dyn_error + (bool \<times> string) x509) \<Rightarrow> bytes list \<Rightarrow> bool" where
  "device_new_fn_when_valid_client_cert parse_cert certs =
     passes (device_new (test_cert_lib parse_cert) certs) (\<lambda>device.
       ctx_user_id (dv_cert_access_context device) = 100 \<and> ctx_platform (dv_cert_access_context device) = ''Linux'')"

definition device_new_fn_when_invalid_client_cert :: "(bytes \<Rightarrow> dyn_error + (bool \<times> string) x509) \<Rightarrow> bytes list \<Rightarrow> bool" where
  "device_new_fn_when_invalid_client_cert parse_cert certs =
     passes (device_new (test_cert_lib parse_cert) certs) (\<lambda>device.
       ctx_user_id (dv_cert_access_context device) = ctx_user_id (dv_cert_access_context default_device) \<and>
       ctx_platform (dv_cert_access_context device) = ctx_platform (dv_cert_access_context default_device))"

definition device_new_fn_when_no_certificates :: "(bytes \<Rightarrow> dyn_error + (bool \<times> string) x509) \<Rightarrow> bool" where
  "device_new_fn_when_no_certificates parse_cert = fails (device_new (test_cert_lib parse_cert) [])"

text \<open>What \<open>Device::new\<close> makes of the client's certificate.\<close>

definition create_device :: device where
  "create_device =
     \<lparr>dv_cert_subj = [(''2.5.4.6'', [''US'']), (''2.5.4.8'', [''CA'']), (''2.5.4.7'', [''Nowhere1'']), (''2.5.4.10'', [''Example1'']), (''2.5.4.11'', [''IT1'']),
        (''2.5.4.3'', [''example-client.local''])],
      dv_cert_alt_subj = [(''URI'', [''{\"userId\":100,\"platform\":\"Linux\"}''])],
      dv_cert_access_context = \<lparr>ctx_user_id = 100, ctx_platform = ''Linux''\<rparr>\<rparr>"

lemmas device_defs = device_new_def device_cert_def test_cert_lib_def string_asn_def client_uid100_x509_def non_client_x509_def subject_of_def
  cert_subj_attrs_def stringify_asn_value_def cert_context_def demo_group_def hm_get_def map_filter_simps map_err_def

lemma test_context: "context_from_json (test_cert_lib parse_cert) ''{\"userId\":100,\"platform\":\"Linux\"}'' = Inr \<lparr>ctx_user_id = 100, ctx_platform = ''Linux''\<rparr>"
  by (simp add: test_cert_lib_def reader_defs context_of_json_def json_u64_def or_error_def)

lemma create_device:
  assumes "parse_cert cert = Inr client_uid100_x509"
  shows "device_new (test_cert_lib parse_cert) (cert # chain) = Ok create_device"
  using assms test_context[of parse_cert] by (simp add: device_defs create_device_def)

theorem device_tests_pass:
  assumes "parse_cert client_uid100 = Inr client_uid100_x509" and "parse_cert non_client = Inr non_client_x509"
  shows "device_new_fn_when_valid_client_cert parse_cert [client_uid100]" "device_new_fn_when_invalid_client_cert parse_cert [non_client]"
    "device_new_fn_when_no_certificates parse_cert"
proof -
  have "device_new (test_cert_lib parse_cert) [client_uid100] = Ok create_device" using assms(1) by (rule create_device)
  then show "device_new_fn_when_valid_client_cert parse_cert [client_uid100]"
    by (simp add: device_new_fn_when_valid_client_cert_def create_device_def)
  show "device_new_fn_when_invalid_client_cert parse_cert [non_client]" "device_new_fn_when_no_certificates parse_cert"
    using assms(2) by (simp_all add: device_new_fn_when_invalid_client_cert_def device_new_fn_when_no_certificates_def device_defs default_device_def default_context_def)
qed

section \<open>The control plane\<close>

definition create_user :: user where
  "create_user = new_user 100 ''user100'' Active"

text \<open>\<open>create_repos\<close>: a repository that is not expected to be called fails.\<close>

definition create_repos :: "bool \<Rightarrow> bool \<Rightarrow> bool \<Rightarrow> user_repo \<times> service_repo \<times> access_repo" where
  "create_repos expect_user_get expect_access_get_all_for_user expect_access_get =
     (if expect_user_get then filled [(100, create_user)] else uncallable,
      filled (map (\<lambda>s. (sv_service_id s, s)) db_service),
      if expect_access_get_all_for_user \<or> expect_access_get then filled (map (\<lambda>a. ((ac_user_id a, ac_service_id a), a)) db_access) else uncallable)"

text \<open>\<open>create_service_mgr\<close>: a service manager that gives the answers of the mock.\<close>

definition create_service_mgr :: "bool \<Rightarrow> bool \<Rightarrow> bool \<Rightarrow> bool \<Rightarrow> app_config \<Rightarrow> gw_mgr" where
  "create_service_mgr expect_connection_details expect_proxy_details expect_startup_proxy expect_shutdown_proxy cfg =
     (let mgr = gw_mgr_new cfg new_chan;
          vis = (svc_visitor_new (service_200 TCP) (Some ''proxyhost1'') 6000)\<lparr>sp_users_by_proxy_addrs := [((''addr1'', ''addr2''), 100)]\<rparr> in
      if expect_connection_details \<or> expect_proxy_details \<or> expect_shutdown_proxy then mgr\<lparr>gm_service_proxy_visitors := [(200, vis)]\<rparr> else mgr)"

text \<open>The configuration of the tests, with the host and the port that the mock answers at a start.\<close>

definition test_config :: "user_repo \<times> service_repo \<times> access_repo \<Rightarrow> app_config" where
  "test_config repos =
     (case repos of (users, services, accesses) \<Rightarrow>
      (create_app_config_with_repos users services accesses)\<lparr>cfg_gateway_service_host := Some ''proxyhost1'', cfg_gateway_service_ports := Some (6000, 6001)\<rparr>)"

definition test_request ::
  "user_repo \<times> service_repo \<times> access_repo \<Rightarrow> (app_config \<Rightarrow> gw_mgr) \<Rightarrow> string \<Rightarrow> request \<Rightarrow> (conn_event list \<Rightarrow> bool) \<Rightarrow> bool" where
  "test_request repos mgr line request expected =
     (let cfg = test_config repos in
      passes (control_plane_new cfg create_device create_user) (\<lambda>cp.
        case process_request True json_serde (clap_lib create_command) cfg cp line (new_chan, mgr cfg) of
          (r, ch, mgr') \<Rightarrow> passes r (\<lambda>processed. processed = request) \<and> expected (queue ch)))"

fun written :: "(string \<Rightarrow> bool) \<Rightarrow> conn_event list \<Rightarrow> bool" where
  "written P (Write b # evs) = (case from_utf8 b of Inr t \<Rightarrow> P t | Inl e \<Rightarrow> False)"
| "written P evs = False"

fun starts_with :: "string \<Rightarrow> string \<Rightarrow> bool" where
  "starts_with [] t = True"
| "starts_with (c # p) [] = False"
| "starts_with (c # p) (d # t) = (c = d \<and> starts_with p t)"

fun contains_text :: "string \<Rightarrow> string \<Rightarrow> bool" where
  "contains_text p [] = (p = [])"
| "contains_text p (c # t) = (if starts_with p (c # t) then True else contains_text p t)"

abbreviation "escaped_quote \<equiv> [CHR 0x5C, CHR 0x22]"
abbreviation "twice_escaped_quote \<equiv> [CHR 0x5C, CHR 0x5C, CHR 0x5C, CHR 0x22]"

definition about_alt_subj :: string where
  "about_alt_subj = ''{\"code\":200,\"message\":null,\"request\":\"About\",\"data\":{\"cert_alt_subj\":\"{'' @ escaped_quote @ ''URI'' @
     escaped_quote @ '': ['' @ escaped_quote @ ''{'' @ twice_escaped_quote @ ''userId'' @ twice_escaped_quote @ '':100,'' @ twice_escaped_quote @
     ''platform'' @ twice_escaped_quote @ '':'' @ twice_escaped_quote @ ''Linux'' @ twice_escaped_quote @ ''}'' @ escaped_quote @ '']}''"

definition about_user :: string where
  "about_user = ''user\":{\"name\":\"user100\",\"status\":\"Active\",\"user_id\":100}''"

definition ctlplane_process_request_when_valid_about :: bool where
  "ctlplane_process_request_when_valid_about =
     test_request (create_repos True False False) (create_service_mgr False False False False) PROTOCOL_REQUEST_ABOUT ReqAbout
       (written (\<lambda>t. contains_text about_alt_subj t \<and> contains_text about_user t))"

definition ctlplane_process_request_when_valid_connections :: bool where
  "ctlplane_process_request_when_valid_connections =
     test_request (create_repos False False False) (create_service_mgr True False False False) PROTOCOL_REQUEST_CONNECTIONS ReqConnections
       (written (\<lambda>t. t = ''{\"code\":200,\"message\":null,\"request\":\"Connections\",\"data\":[{\"binds\":[[\"addr1\",\"addr2\"]],\"service_name\":\"Service200\"}]}'' @ [CHR 0x0A]))"

definition ctlplane_process_request_when_valid_ping :: bool where
  "ctlplane_process_request_when_valid_ping =
     test_request (create_repos False False False) (create_service_mgr False False False False) PROTOCOL_REQUEST_PING ReqPing
       (written (\<lambda>t. t = ''{\"code\":200,\"message\":\"pong\",\"request\":\"Ping\",\"data\":null}'' @ [CHR 0x0A]))"

definition ctlplane_process_request_when_valid_proxies :: bool where
  "ctlplane_process_request_when_valid_proxies =
     test_request (create_repos False True False) (create_service_mgr False True False False) PROTOCOL_REQUEST_PROXIES ReqProxies
       (written (\<lambda>t. t = ''{\"code\":200,\"message\":null,\"request\":\"Proxies\",\"data\":[{\"client_port\":null,\"gateway_host\":\"proxyhost1\",\"gateway_port\":6000,'' @
          ''\"service\":{\"address\":\"localhost:8200\",\"id\":200,\"name\":\"Service200\",\"transport\":\"TCP\"}}]}'' @ [CHR 0x0A]))"

definition ctlplane_process_request_when_valid_quit :: bool where
  "ctlplane_process_request_when_valid_quit =
     test_request (create_repos False False False) (create_service_mgr False False False False) PROTOCOL_REQUEST_QUIT ReqQuit
       (\<lambda>evs. take 1 evs = [Closing] \<and>
          written (\<lambda>t. t = ''{\"code\":200,\"message\":null,\"request\":\"Quit\",\"data\":\"bye\"}'' @ [CHR 0x0A]) (drop 1 evs))"

definition ctlplane_process_request_when_valid_start :: bool where
  "ctlplane_process_request_when_valid_start =
     test_request (create_repos False False True) (create_service_mgr False False True False)
       (PROTOCOL_REQUEST_START @ '' -s '' @ ''Service200'' @ '' -p '' @ show_u16 3000) (ReqStart ''Service200'' 3000)
       (written (\<lambda>t. t = ''{\"code\":200,\"message\":null,\"request\":{\"Start\":{\"service_name\":\"Service200\",\"local_port\":3000}},\"data\":{\"client_port\":3000,'' @
          ''\"gateway_host\":\"proxyhost1\",\"gateway_port\":6000,\"service\":{\"address\":\"localhost:8200\",\"id\":200,\"name\":\"Service200\",\"transport\":\"TCP\"}}}'' @ [CHR 0x0A]))"

definition ctlplane_process_request_when_invalid_start :: bool where
  "ctlplane_process_request_when_invalid_start =
     test_request (create_repos False False True) (create_service_mgr False False False False)
       (PROTOCOL_REQUEST_START @ '' -s '' @ ''INVALID_SERVICE'' @ '' -p '' @ show_u16 3000) (ReqStart ''INVALID_SERVICE'' 3000)
       (written (\<lambda>t. t = ''{\"code\":404,\"message\":\"Response: code=404, msg=Unknown service: svc_name=INVALID_SERVICE\",'' @
          ''\"request\":{\"Start\":{\"service_name\":\"INVALID_SERVICE\",\"local_port\":3000}},\"data\":null}'' @ [CHR 0x0A]))"

definition ctlplane_process_request_when_valid_stop :: bool where
  "ctlplane_process_request_when_valid_stop =
     test_request (create_repos False False True) (create_service_mgr False False False True) (PROTOCOL_REQUEST_STOP @ '' -s '' @ ''Service200'') (ReqStop ''Service200'')
       (written (\<lambda>t. t = ''{\"code\":200,\"message\":null,\"request\":{\"Stop\":{\"service_name\":\"Service200\"}},\"data\":null}'' @ [CHR 0x0A]))"

definition ctlplane_process_request_when_invalid_stop :: bool where
  "ctlplane_process_request_when_invalid_stop =
     test_request (create_repos False False True) (create_service_mgr False False False False) (PROTOCOL_REQUEST_STOP @ '' -s '' @ ''INVALID_SERVICE'')
       (ReqStop ''INVALID_SERVICE'')
       (written (\<lambda>t. t = ''{\"code\":404,\"message\":\"Response: code=404, msg=Unknown service: svc_name=INVALID_SERVICE\",'' @
          ''\"request\":{\"Stop\":{\"service_name\":\"INVALID_SERVICE\"}},\"data\":null}'' @ [CHR 0x0A]))"

lemma from_utf8_text: "ascii_text s \<Longrightarrow> from_utf8 (bytes_of_text s) = Inr s"
  by (simp add: ascii_text_def ascii_bytes_of_text from_utf8_ascii)

lemma written_text: "ascii_text s \<Longrightarrow> written P (Write (bytes_of_text s) # evs) = P s"
  by (simp add: from_utf8_text)

lemmas control_tests = ctlplane_process_request_when_valid_about_def ctlplane_process_request_when_valid_connections_def
  ctlplane_process_request_when_valid_ping_def ctlplane_process_request_when_valid_proxies_def ctlplane_process_request_when_valid_quit_def
  ctlplane_process_request_when_valid_start_def ctlplane_process_request_when_invalid_start_def ctlplane_process_request_when_valid_stop_def
  ctlplane_process_request_when_invalid_stop_def

text \<open>The commands of the tests.\<close>

lemma test_lines:
  "parse_request (clap_lib create_command) PROTOCOL_REQUEST_ABOUT = Ok ReqAbout"
  "parse_request (clap_lib create_command) PROTOCOL_REQUEST_CONNECTIONS = Ok ReqConnections"
  "parse_request (clap_lib create_command) PROTOCOL_REQUEST_PING = Ok ReqPing"
  "parse_request (clap_lib create_command) PROTOCOL_REQUEST_PROXIES = Ok ReqProxies"
  "parse_request (clap_lib create_command) PROTOCOL_REQUEST_QUIT = Ok ReqQuit"
  "parse_request (clap_lib create_command) (PROTOCOL_REQUEST_START @ '' -s '' @ ''Service200'' @ '' -p '' @ show_u16 3000) = Ok (ReqStart ''Service200'' 3000)"
  "parse_request (clap_lib create_command) (PROTOCOL_REQUEST_START @ '' -s '' @ ''INVALID_SERVICE'' @ '' -p '' @ show_u16 3000) = Ok (ReqStart ''INVALID_SERVICE'' 3000)"
  "parse_request (clap_lib create_command) (PROTOCOL_REQUEST_STOP @ '' -s '' @ ''Service200'') = Ok (ReqStop ''Service200'')"
  "parse_request (clap_lib create_command) (PROTOCOL_REQUEST_STOP @ '' -s '' @ ''INVALID_SERVICE'') = Ok (ReqStop ''INVALID_SERVICE'')"
  by (simp_all add: line_defs number_texts)

text \<open>The control plane of the tests, with the services it knows.\<close>

definition test_control_plane :: control_plane where
  "test_control_plane = \<lparr>cp_device = create_device, cp_user = create_user, cp_services_by_id = map (\<lambda>s. (sv_service_id s, s)) db_service,
     cp_services_by_name = map (\<lambda>s. (sv_name s, s)) db_service\<rparr>"

lemma test_request_run:
  "test_request (create_repos a b c) mgr line request expected \<longleftrightarrow>
     (case process_request True json_serde (clap_lib create_command) (test_config (create_repos a b c)) test_control_plane line
        (new_chan, mgr (test_config (create_repos a b c))) of
      (r, ch, mgr') \<Rightarrow> passes r (\<lambda>processed. processed = request) \<and> expected (queue ch))"
proof -
  have "control_plane_new (test_config (create_repos a b c)) create_device create_user = Ok test_control_plane"
    by (simp add: test_config_def create_repos_def create_app_config_with_repos_def db_service_def control_plane_new_def setup_services_maps_def
        hm_collect_def new_service_def test_defs test_control_plane_def)
  then show ?thesis by (simp add: test_request_def Let_def)
qed

lemmas writer_defs = json_of_response_def json_of_opt_def json_of_about_def json_of_user_def json_of_service_def json_of_proxy_def json_of_connection_def
  new_response_def new_about_def new_resp_user_def new_resp_service_def new_resp_proxy_def new_resp_connection_def
  about_try_into_def proxy_try_into_def service_try_into_def connection_try_into_def map_err_def quote_json_def escape_json_def

lemmas command_defs = run_request_def send_response_def chan_send_def new_chan_def
  prepare_response_def response_codes create_service_mgr_def gw_mgr_new_def get_service_proxies_def hm_values_def

lemmas fixture_defs = test_control_plane_def test_config_def create_repos_def create_app_config_with_repos_def create_device_def create_user_def db_service_def db_access_def
  service_200_def new_user_def new_service_def new_access_def svc_visitor_new_def test_defs

theorem control_plane_tests_pass:
  "ctlplane_process_request_when_valid_ping" "ctlplane_process_request_when_valid_quit" "ctlplane_process_request_when_valid_connections"
  "ctlplane_process_request_when_valid_proxies" "ctlplane_process_request_when_valid_start" "ctlplane_process_request_when_invalid_start"
  "ctlplane_process_request_when_valid_stop" "ctlplane_process_request_when_invalid_stop"
  unfolding control_tests test_request_run process_request_def test_lines
  by (simp_all add: command_defs writer_defs number_texts fixture_defs Let_def process_cmd_quit_def process_cmd_connections_def connection_of_def
      get_proxy_addrs_for_user_def process_cmd_proxies_def user_proxies_def service_to_response_def process_cmd_start_def start_service_def
      mgr_startup_def allocate_port_def prepare_response_service_def process_cmd_stop_def has_proxy_for_user_and_service_def mgr_shutdown_connections_def
      svc_shutdown_connections_def error_response_def written_text ascii_text_def del: written.simps)

text \<open>The answer to \<open>about\<close>: both texts are part of it.\<close>

lemma starts_with_append: "starts_with p (p @ t)"
  by (induction p) simp_all

lemma contains_text_append: "contains_text p (s @ p @ t)"
proof (induction s)
  case Nil
  then show ?case using starts_with_append[of p t] by (cases "p @ t") auto
qed simp

lemma device_texts:
  "attrs_debug (dv_cert_alt_subj create_device) = ''{\"URI\": [\"{'' @ escaped_quote @ ''userId'' @ escaped_quote @ '':100,'' @ escaped_quote @ ''platform'' @
     escaped_quote @ '':'' @ escaped_quote @ ''Linux'' @ escaped_quote @ ''}\"]}''"
  "context_debug (dv_cert_access_context create_device) = ''CertAccessContext { user_id: 100, platform: \"Linux\" }''"
  by (simp_all add: create_device_def attrs_debug_def context_debug_def debug_str_def escape_char_def show_u64_def number_texts Let_def)

lemma subject_text: "ascii_text (quote_json (attrs_debug (dv_cert_subj create_device)))"
  by (simp add: create_device_def attrs_debug_def debug_str_def escape_char_def quote_json_def escape_json_def ascii_text_def Let_def)

lemma about_answer:
  obtains rest where "process_cmd_about json_serde (test_config (create_repos True False False)) test_control_plane = Ok (about_alt_subj @ rest @ about_user @ ''}}'')"
    and "ascii_text rest"
proof -
  let ?subj = "quote_json (attrs_debug (dv_cert_subj create_device))"
  have u: "user_get (cfg_user_repo (test_config (create_repos True False False))) 100 = Ok (Some create_user)" "ctx_user_id (dv_cert_access_context create_device) = 100"
    by (simp_all add: fixture_defs)
  have "process_cmd_about json_serde (test_config (create_repos True False False)) test_control_plane =
      Ok (about_alt_subj @ (''\",\"cert_context\":'' @ quote_json ''CertAccessContext { user_id: 100, platform: \"Linux\" }'' @ '',\"cert_subject\":'' @ ?subj @ '',\"'')
        @ about_user @ ''}}'')"
    using u by (simp add: process_cmd_about_def test_control_plane_def device_texts prepare_response_def response_codes writer_defs create_user_def new_user_def
        number_texts about_alt_subj_def about_user_def Let_def)
  moreover have "ascii_text (''\",\"cert_context\":'' @ quote_json ''CertAccessContext { user_id: 100, platform: \"Linux\" }'' @ '',\"cert_subject\":'' @ ?subj @ '',\"'')"
    using subject_text by (simp add: ascii_text_def quote_json_def escape_json_def)
  ultimately show ?thesis by (rule that)
qed

theorem control_plane_about_test_passes: "ctlplane_process_request_when_valid_about"
proof -
  obtain rest where a: "process_cmd_about json_serde (test_config (create_repos True False False)) test_control_plane = Ok (about_alt_subj @ rest @ about_user @ ''}}'')"
    and r: "ascii_text rest" by (rule about_answer)
  have "ascii_text about_alt_subj" "ascii_text about_user" by (simp_all add: about_alt_subj_def about_user_def ascii_text_def)
  with r have t: "ascii_text (about_alt_subj @ rest @ about_user @ ''}}'' @ [CHR 0x0A])" by (simp add: ascii_text_def)
  have c: "contains_text about_alt_subj (about_alt_subj @ rest @ about_user @ ''}}'' @ [CHR 0x0A])"
    "contains_text about_user (about_alt_subj @ rest @ about_user @ ''}}'' @ [CHR 0x0A])"
    using contains_text_append[of about_alt_subj "[]"] contains_text_append[of about_user "about_alt_subj @ rest"] by simp_all
  have n: "about_alt_subj \<noteq> []" by (simp add: about_alt_subj_def)
  from t c n show ?thesis
    unfolding control_tests test_request_run process_request_def test_lines
    by (simp add: run_request_def a send_response_def chan_send_def new_chan_def written_text del: written.simps)
qed

end
