(* ===== verification/T0_Conformance_Client.thy ===== *)
theory T0_Conformance_Client
  imports T0_Conformance_Control T0_Cli_Control
begin

text \<open>
  The unit tests of the client: the shell (\<open>console.rs\<close>), the answers of the gateway (\<open>gateway/controller.rs\<close>), a polling cycle
  (\<open>gateway/connection.rs\<close>) and the service manager (\<open>service/manager.rs\<close>).  The other tests of \<open>gateway/connection.rs\<close> are left out:
  their mocks of the command parser answer what the parser does not.
\<close>

section \<open>The shell\<close>

abbreviation "no_output \<equiv> \<lparr>sw_out = [], sw_answers = []\<rparr>"

definition shellout_write_shell_prompt_with_welcome :: bool where
  "shellout_write_shell_prompt_with_welcome =
     (case write_shell_prompt True no_output of (r, out) \<Rightarrow>
      passes r (\<lambda>_. sw_out out = SHELL_MSG_APP_TITLE @ '' v'' @ SHELL_MSG_APP_VERSION @ '' '' @ SHELL_MSG_APP_HELP @ [CHR 0x0A] @ SHELL_PROMPT))"

definition shellout_write_shell_prompt_without_welcome :: bool where
  "shellout_write_shell_prompt_without_welcome = (case write_shell_prompt False no_output of (r, out) \<Rightarrow> passes r (\<lambda>_. sw_out out = SHELL_PROMPT))"

text \<open>The lines of a reader over a text.\<close>

definition reader_lines :: "string \<Rightarrow> (dyn_error + string) list" where
  "reader_lines txt = map Inr (lines_of txt)"

definition shellinp_lines_connector_processor_when_no_lines :: bool where
  "shellinp_lines_connector_processor_when_no_lines = (queue (lines_connector_processor (reader_lines []) new_chan) = [])"

definition shellinp_lines_connector_processor_when_2_lines :: bool where
  "shellinp_lines_connector_processor_when_2_lines =
     (queue (lines_connector_processor (reader_lines (''line1'' @ [CHR 0x0A] @ ''line2'' @ [CHR 0x0A])) new_chan) = [Inr ''line1'', Inr ''line2''])"

text \<open>The loops of the tests take lines until there is none, three at most.\<close>

fun take_lines :: "nat \<Rightarrow> shell_input \<Rightarrow> string list option" where
  "take_lines 0 inp = None"
| "take_lines (Suc n) inp =
     (case next_line inp of
        (Ok (Some line), inp') \<Rightarrow> map_option ((#) line) (take_lines n inp')
      | (Ok None, inp') \<Rightarrow> Some []
      | _ \<Rightarrow> None)"

definition shellinp_next_line_when_no_lines :: bool where
  "shellinp_next_line_when_no_lines = (take_lines 1 shell_input_new = Some [])"

definition shellinp_next_line_when_2_lines :: bool where
  "shellinp_next_line_when_2_lines =
     (case take_lines 3 (shell_input_new\<lparr>si_channel := (si_channel shell_input_new)\<lparr>queue := [Inr ''line1'', Inr ''line2'']\<rparr>\<rparr>) of
        Some recvd_lines \<Rightarrow> length recvd_lines = 2 | None \<Rightarrow> False)"

lemmas console_tests = shellout_write_shell_prompt_with_welcome_def shellout_write_shell_prompt_without_welcome_def
  shellinp_lines_connector_processor_when_no_lines_def shellinp_lines_connector_processor_when_2_lines_def
  shellinp_next_line_when_no_lines_def shellinp_next_line_when_2_lines_def

theorem console_tests_pass:
  "shellout_write_shell_prompt_with_welcome" "shellout_write_shell_prompt_without_welcome"
  "shellinp_lines_connector_processor_when_no_lines" "shellinp_lines_connector_processor_when_2_lines"
  "shellinp_next_line_when_no_lines" "shellinp_next_line_when_2_lines"
  by (simp_all add: console_tests write_shell_prompt_def sop_bind_def sw_try_def sw_write_all_def sw_flush_def map_err_def reader_lines_def lines_of_def
      strip_cr_def chan_send_def new_chan_def next_line_def shell_input_new_def numeral_eq_Suc)

definition srvconnvis_on_polling_cycle_when_no_pending_line :: bool where
  "srvconnvis_on_polling_cycle_when_no_pending_line =
     passes (fst (srv_on_polling_cycle (clap_lib create_command)
       (srv_visitor_new\<lparr>sx_stdin_connector := Some shell_input_new, sx_event_channel_sender := True\<rparr>, new_chan, no_output, cli_mgr_new new_chan))) (\<lambda>_. True)"

theorem polling_cycle_test_passes: "srvconnvis_on_polling_cycle_when_no_pending_line"
  by (simp add: srvconnvis_on_polling_cycle_when_no_pending_line_def srv_on_polling_cycle_def srv_visitor_new_def shell_input_new_def next_line_def
      new_chan_def Let_def)

section \<open>The answers of the gateway\<close>

definition ctlplane_validate_request_when_invalid_request :: bool where
  "ctlplane_validate_request_when_invalid_request = error_is (\<lambda>err. get_code err = Some 400) (validate_request (clap_lib create_command) ''INVALID'')"

definition ctlplane_validate_request_when_valid_ping_request :: bool where
  "ctlplane_validate_request_when_valid_ping_request = passes (validate_request (clap_lib create_command) ''ping'') (\<lambda>request. request = ReqPing)"

theorem validate_request_tests_pass:
  "ctlplane_validate_request_when_invalid_request" "ctlplane_validate_request_when_valid_ping_request"
  by (simp_all add: ctlplane_validate_request_when_invalid_request_def ctlplane_validate_request_when_valid_ping_request_def validate_request_def
      line_defs response_codes)

text \<open>An answer, the assertions on what is returned for it, and what the shell shows.\<close>

definition test_response :: "cli_mgr \<Rightarrow> string \<Rightarrow> (json response \<Rightarrow> bool) \<Rightarrow> string \<Rightarrow> bool" where
  "test_response mgr response_str assertions expected_data =
     (case process_response json_serde response_str (no_output, mgr) of
        (r, out, mgr') \<Rightarrow> passes r assertions \<and> sw_out out = expected_data)"

definition ctlplane_process_response_when_invalid_json_response :: bool where
  "ctlplane_process_response_when_invalid_json_response =
     (case process_response json_serde ''INVALID'' (no_output, cli_mgr_new new_chan) of
        (r, out, mgr') \<Rightarrow> \<not> passes r (\<lambda>_. True) \<and> sw_out out = [])"

definition ctlplane_process_response_when_valid_proxies_response_for_no_proxies :: bool where
  "ctlplane_process_response_when_valid_proxies_response_for_no_proxies =
     test_response (cli_mgr_new new_chan)
       (''{\"code\":200,\"message\":null,\"request\":\"Proxies\",\"data\":[]}'')
       (\<lambda>response. rsp_code response = 200 \<and> rsp_message response = None \<and> rsp_request response = ReqProxies \<and> rsp_data response = Some (JArr []))
       (join_strs [CHR 0x0A]
        [''{'',
         ''  \"code\": 200,'',
         ''  \"message\": null,'',
         ''  \"request\": \"Proxies\",'',
         ''  \"data\": []'',
         ''}'',
         ''''])"

text \<open>A manager that has started the services 203 and 204.\<close>

definition addrs_203_204 :: cli_mgr where
  "addrs_203_204 = (cli_mgr_new new_chan)\<lparr>xm_service_addrs := [(203, 8501, ''gwhost1'', 8400), (204, 8601, ''gwhost1'', 8400)]\<rparr>"

definition response_data_str :: string where
  "response_data_str = join_strs [CHR 0x0A]
     [''['',
      blanks 16 @ ''{'',
      blanks 18 @ ''\"client_port\": 8601,'',
      blanks 18 @ ''\"gateway_host\": \"gwhost1\",'',
      blanks 18 @ ''\"gateway_port\": 8400,'',
      blanks 18 @ ''\"service\": {'',
      blanks 20 @ ''\"address\": \"echohost1:8600\",'',
      blanks 20 @ ''\"id\": 204,'',
      blanks 20 @ ''\"name\": \"echo-udp\",'',
      blanks 20 @ ''\"transport\": \"UDP\"'',
      blanks 18 @ ''}'',
      blanks 16 @ ''},'',
      blanks 16 @ ''{'',
      blanks 18 @ ''\"client_port\": 8501,'',
      blanks 18 @ ''\"gateway_host\": \"gwhost1\",'',
      blanks 18 @ ''\"gateway_port\": 8400,'',
      blanks 18 @ ''\"service\": {'',
      blanks 20 @ ''\"address\": \"chathost1:8500\",'',
      blanks 20 @ ''\"id\": 203,'',
      blanks 20 @ ''\"name\": \"chat-tcp\",'',
      blanks 20 @ ''\"transport\": \"TCP\"'',
      blanks 18 @ ''}'',
      blanks 16 @ ''}]'']"

definition ctlplane_process_response_when_valid_proxies_response_for_2_proxies :: bool where
  "ctlplane_process_response_when_valid_proxies_response_for_2_proxies =
     test_response addrs_203_204
       (''{\"code\":200,\"message\":null,\"request\":\"Proxies\",\"data\":'' @ response_data_str @ ''}'')
       (\<lambda>response. rsp_code response = 200 \<and> rsp_message response = None \<and> rsp_request response = ReqProxies \<and> rsp_data response = parse_json response_data_str)
       (join_strs [CHR 0x0A]
        [''{'',
         ''  \"code\": 200,'',
         ''  \"message\": null,'',
         ''  \"request\": \"Proxies\",'',
         ''  \"data\": ['',
         ''    {'',
         ''      \"client_port\": 8601,'',
         ''      \"gateway_host\": \"gwhost1\",'',
         ''      \"gateway_port\": 8400,'',
         ''      \"service\": {'',
         ''        \"address\": \"echohost1:8600\",'',
         ''        \"id\": 204,'',
         ''        \"name\": \"echo-udp\",'',
         ''        \"transport\": \"UDP\"'',
         ''      }'',
         ''    },'',
         ''    {'',
         ''      \"client_port\": 8501,'',
         ''      \"gateway_host\": \"gwhost1\",'',
         ''      \"gateway_port\": 8400,'',
         ''      \"service\": {'',
         ''        \"address\": \"chathost1:8500\",'',
         ''        \"id\": 203,'',
         ''        \"name\": \"chat-tcp\",'',
         ''        \"transport\": \"TCP\"'',
         ''      }'',
         ''    }'',
         ''  ]'',
         ''}'',
         ''''])"

text \<open>The manager that has to be asked to start the service finds it started with the expected addresses.\<close>

definition start_response_str :: string where
  "start_response_str = join_strs [CHR 0x0A]
     [''{'',
      blanks 14 @ ''\"code\": 200,'',
      blanks 14 @ ''\"message\": null,'',
      blanks 14 @ ''\"request\": {'',
      blanks 16 @ ''\"Start\": {'',
      blanks 18 @ ''\"service_name\": \"chat-tcp\",'',
      blanks 18 @ ''\"local_port\": 8501'',
      blanks 16 @ ''}'',
      blanks 14 @ ''},'',
      blanks 14 @ ''\"data\": {'',
      blanks 16 @ ''\"client_port\": 8501,'',
      blanks 16 @ ''\"gateway_host\": \"gwhost1\",'',
      blanks 16 @ ''\"gateway_port\": 8400,'',
      blanks 16 @ ''\"service\": {'',
      blanks 18 @ ''\"address\": \"chathost1:8500\",'',
      blanks 18 @ ''\"id\": 203,'',
      blanks 18 @ ''\"name\": \"chat-tcp\",'',
      blanks 18 @ ''\"transport\": \"TCP\"'',
      blanks 16 @ ''}'',
      blanks 14 @ ''}'',
      blanks 12 @ ''}'']"

definition ctlplane_process_response_when_valid_start_response :: bool where
  "ctlplane_process_response_when_valid_start_response =
     (case process_response json_serde start_response_str (no_output, cli_mgr_new new_chan) of
        (r, out, mgr') \<Rightarrow>
          passes r (\<lambda>response. rsp_code response = 200 \<and> rsp_message response = None \<and> rsp_request response = ReqStart ''chat-tcp'' 8501) \<and>
          map_option xv_service (get_proxy_visitor_for_service mgr' 203) = Some (new_service 203 ''chat-tcp'' TCP ''chathost1'' 8500) \<and>
          get_proxy_addrs_for_service mgr' 203 = Some (8501, ''gwhost1'', 8400) \<and>
          sw_out out = join_strs [CHR 0x0A]
            [''{'',
             ''  \"code\": 200,'',
             ''  \"message\": null,'',
             ''  \"request\": {'',
             ''    \"Start\": {'',
             ''      \"service_name\": \"chat-tcp\",'',
             ''      \"local_port\": 8501'',
             ''    }'',
             ''  },'',
             ''  \"data\": {'',
             ''    \"client_port\": 8501,'',
             ''    \"gateway_host\": \"gwhost1\",'',
             ''    \"gateway_port\": 8400,'',
             ''    \"service\": {'',
             ''      \"address\": \"chathost1:8500\",'',
             ''      \"id\": 203,'',
             ''      \"name\": \"chat-tcp\",'',
             ''      \"transport\": \"TCP\"'',
             ''    }'',
             ''  }'',
             ''}'',
             ''''])"

definition ctlplane_process_response_when_valid_quit_response :: bool where
  "ctlplane_process_response_when_valid_quit_response =
     test_response (cli_mgr_new new_chan)
       (''{\"code\":200,\"message\":null,\"request\":\"Quit\",\"data\":null}'')
       (\<lambda>response. rsp_code response = 200 \<and> rsp_message response = None \<and> rsp_request response = ReqQuit)
       (join_strs [CHR 0x0A]
        [''{'',
         ''  \"code\": 200,'',
         ''  \"message\": null,'',
         ''  \"request\": \"Quit\",'',
         ''  \"data\": null'',
         ''}'',
         ''''])"

definition ctlplane_process_response_when_valid_non200_response :: bool where
  "ctlplane_process_response_when_valid_non200_response =
     test_response (cli_mgr_new new_chan)
       (''{\"code\":500,\"message\":\"System error encountered\",\"request\":\"Ping\",\"data\":null}'')
       (\<lambda>response. rsp_code response = 500 \<and> rsp_message response = Some ''System error encountered'' \<and> rsp_request response = ReqPing)
       (join_strs [CHR 0x0A]
        [''{'',
         ''  \"code\": 500,'',
         ''  \"message\": \"System error encountered\",'',
         ''  \"request\": \"Ping\",'',
         ''  \"data\": null'',
         ''}'',
         ''''])"

lemmas response_tests = test_response_def ctlplane_process_response_when_invalid_json_response_def ctlplane_process_response_when_valid_proxies_response_for_no_proxies_def ctlplane_process_response_when_valid_proxies_response_for_2_proxies_def ctlplane_process_response_when_valid_start_response_def ctlplane_process_response_when_valid_quit_response_def ctlplane_process_response_when_valid_non200_response_def

lemmas answer_defs = process_response_def parse_response_def conversion_defs reader_defs response_of_json_def request_of_json_def unit_requests_def
  new_response_def new_resp_service_def new_resp_proxy_def apply_response_def response_codes sw_try_def sw_write_all_def json_of_response_def

lemma new_lines:
  "new_line 0 = [CHR 0x0A]" "new_line (Suc 0) = CHR 0x0A # ''  ''" "new_line (Suc (Suc 0)) = CHR 0x0A # ''    ''"
  "new_line (Suc (Suc (Suc 0))) = CHR 0x0A # ''      ''" "new_line (Suc (Suc (Suc (Suc 0)))) = CHR 0x0A # ''        ''"
  by (simp_all add: new_line_def numeral_eq_Suc)

lemmas pretty_defs = new_lines quote_json_def escape_json_def number_texts

theorem answer_tests_pass:
  "ctlplane_process_response_when_invalid_json_response" "ctlplane_process_response_when_valid_proxies_response_for_no_proxies"
  "ctlplane_process_response_when_valid_quit_response" "ctlplane_process_response_when_valid_non200_response"
  by (simp_all add: response_tests answer_defs pretty_defs process_response_proxies_def unwrap_opt_def sop_bind_def sop_lift_def process_response_quit_def
      cli_shutdown_def cli_mgr_new_def Let_def)

text \<open>The two longer answers, read first.\<close>

definition chat_json :: json where
  "chat_json = json_of_service (new_resp_service 203 ''chat-tcp'' TCP (Some ''chathost1:8500''))"

definition echo_json :: json where
  "echo_json = json_of_service (new_resp_service 204 ''echo-udp'' UDP (Some ''echohost1:8600''))"

definition chat_proxy :: resp_proxy where
  "chat_proxy = new_resp_proxy (new_resp_service 203 ''chat-tcp'' TCP (Some ''chathost1:8500'')) (Some ''gwhost1'') 8400 (Some 8501)"

definition echo_proxy :: resp_proxy where
  "echo_proxy = new_resp_proxy (new_resp_service 204 ''echo-udp'' UDP (Some ''echohost1:8600'')) (Some ''gwhost1'') 8400 (Some 8601)"

lemmas proxy_defs = chat_proxy_def echo_proxy_def json_of_proxy_def json_of_service_def json_of_opt_def new_resp_proxy_def new_resp_service_def

text \<open>Sixteen levels are enough for them.\<close>

lemmas parse_shallow = parse_with[where u = "[]" and n = "Suc (Suc (Suc (Suc (Suc (Suc (Suc (Suc (Suc (Suc (Suc (Suc (Suc (Suc (Suc (Suc 0)))))))))))))))"]

lemma read_response_data:
  "read_json (Suc (Suc (Suc (Suc (Suc (Suc (Suc (Suc (Suc (Suc (Suc (Suc 0)))))))))))) (response_data_str @ u) =
     Some (JArr [json_of_proxy echo_proxy, json_of_proxy chat_proxy], u)"
  by (simp add: response_data_str_def reader_rules proxy_defs)

lemma parse_response_data: "parse_json response_data_str = Some (JArr [json_of_proxy echo_proxy, json_of_proxy chat_proxy])"
  by (rule parse_with[OF read_response_data[of "[]", unfolded append_Nil2]]) (simp_all add: response_data_str_def skip_white_def)

lemma parse_proxies_around:
  assumes "read_json k (d @ ''}'') = Some (v, ''}'')" and "read_members k ''}'' = Some ([], [])" and "k \<le> length d"
  shows "parse_json (''{\"code\":200,\"message\":null,\"request\":\"Proxies\",\"data\":'' @ d @ ''}'') = Some (json_of_response (new_response 200 None ReqProxies (Some v)))"
proof (rule parse_with)
  show "read_json (Suc (Suc (Suc (Suc k)))) (''{\"code\":200,\"message\":null,\"request\":\"Proxies\",\"data\":'' @ d @ ''}'') =
      Some (json_of_response (new_response 200 None ReqProxies (Some v)), [])"
    using assms(1,2) by (simp add: reader_defs json_of_response_def json_of_opt_def new_response_def)
qed (use assms(3) in \<open>simp_all add: skip_white_def\<close>)

lemma parse_proxies_response:
  "parse_json (''{\"code\":200,\"message\":null,\"request\":\"Proxies\",\"data\":'' @ response_data_str @ ''}'') =
     Some (json_of_response (new_response 200 None ReqProxies (Some (JArr [json_of_proxy echo_proxy, json_of_proxy chat_proxy]))))"
  by (rule parse_proxies_around[OF read_response_data]) (simp_all add: skip_white_def is_json_white_def response_data_str_def)

lemma parse_start_response:
  "parse_json start_response_str = Some (json_of_response (new_response 200 None (ReqStart ''chat-tcp'' 8501) (Some (json_of_proxy chat_proxy))))"
  by (rule parse_shallow, simp add: start_response_str_def reader_rules proxy_defs json_of_response_def new_response_def) (simp_all add: start_response_str_def skip_white_def)

lemma read_response:
  assumes "parse_json t = Some (json_of_response r)" and "rsp_data r \<noteq> Some JNull"
  shows "parse_response json_serde t = Ok r"
  using assms by (simp add: parse_response_def or_error_def map_err_def response_of_json_of)

lemma proxies_not_null: "json_of_proxy p \<noteq> JNull"
  by (simp add: json_of_proxy_def)

lemma read_proxies: "proxies_from_value json_serde (JArr (map json_of_proxy ps)) = Ok ps" "proxies_from_value json_serde (json_of_proxy p) = Ok [p]"
proof -
  have "collect_res (map (\<lambda>v. map_err g (or_error (proxy_of_json v))) (map json_of_proxy ps)) = Ok ps" for g
    by (induction ps) (simp_all add: or_error_def map_err_def)
  then show "proxies_from_value json_serde (JArr (map json_of_proxy ps)) = Ok ps" by (simp add: proxies_from_value_def)
  have "as_array json_serde (json_of_proxy p) = None" by (simp add: json_of_proxy_def)
  then show "proxies_from_value json_serde (json_of_proxy p) = Ok [p]" by (simp add: proxies_from_value_def or_error_def map_err_def)
qed

theorem proxies_answer_test_passes: "ctlplane_process_response_when_valid_proxies_response_for_2_proxies"
proof -
  let ?resp = "new_response 200 None ReqProxies (Some (JArr (map json_of_proxy [echo_proxy, chat_proxy])))"
  have p: "parse_response json_serde (''{\"code\":200,\"message\":null,\"request\":\"Proxies\",\"data\":'' @ response_data_str @ ''}'') = Ok ?resp"
    using parse_proxies_response by (intro read_response) (simp only: list.map, simp add: new_response_def)
  have "map (with_client_port addrs_203_204) [echo_proxy, chat_proxy] = [echo_proxy, chat_proxy]"
    by (simp add: with_client_port_def addrs_203_204_def get_proxy_addrs_for_service_def hm_get_def proxy_defs)
  then have "process_response_proxies json_serde addrs_203_204 ?resp = Ok ?resp"
    using read_proxies(1)[of "[echo_proxy, chat_proxy]"]
    by (simp add: process_response_proxies_def unwrap_opt_def new_response_def map_err_def)
  then have a: "apply_response json_serde ?resp addrs_203_204 = (Ok ?resp, addrs_203_204)"
    by (simp add: apply_response_def new_response_def response_codes)
  show ?thesis
    unfolding response_tests process_response_def prod.case p res.case a
    by (simp add: map_err_def sw_try_def sw_write_all_def parse_response_data new_response_def json_of_response_def proxy_defs pretty_defs)
qed

theorem start_answer_test_passes: "ctlplane_process_response_when_valid_start_response"
proof -
  let ?resp = "new_response 200 None (ReqStart ''chat-tcp'' 8501) (Some (json_of_proxy chat_proxy))"
  have p: "parse_response json_serde start_response_str = Ok ?resp"
    by (rule read_response) (simp_all add: parse_start_response new_response_def proxies_not_null)
  let ?svc = "new_service 203 ''chat-tcp'' TCP ''chathost1'' 8500"
  have s: "service_from_response (rp_service chat_proxy) = ?svc"
    by (simp add: service_from_response_def proxy_defs parse_u16_def parse_uint_def digits_val_def digit_val_def is_digit_def)
  obtain mgr' where m: "cli_startup ?svc (8501, ''gwhost1'', 8400) (cli_mgr_new new_chan) = (Ok (8501, ''gwhost1'', 8400), mgr')"
    "get_proxy_visitor_for_service mgr' 203 = Some (cli_visitor_new ?svc 8501 ''gwhost1'' 8400)" "get_proxy_addrs_for_service mgr' 203 = Some (8501, ''gwhost1'', 8400)"
    by (simp add: cli_startup_def cli_defs cli_mgr_new_def hm_get_def hm_insert_def new_service_def)
  have "process_response_start json_serde ?resp (cli_mgr_new new_chan) = (Ok (), mgr')"
    using s m(1) by (simp add: process_response_start_def unwrap_opt_def new_response_def read_proxies chat_proxy_def new_resp_proxy_def)
  then have a: "apply_response json_serde ?resp (cli_mgr_new new_chan) = (Ok ?resp, mgr')"
    by (simp add: apply_response_def new_response_def response_codes sop_bind_def sop_lift_def)
  show ?thesis
    unfolding response_tests process_response_def prod.case p res.case a
    by (simp add: map_err_def sw_try_def sw_write_all_def m cli_visitor_new_def new_response_def json_of_response_def proxy_defs pretty_defs)
qed

section \<open>The service manager\<close>

definition mgr_with_proxy :: cli_mgr where
  "mgr_with_proxy =
     (let svc = new_service 123 ''svc123'' TCP ''localhost'' 8200; mgr = cli_mgr_new new_chan in
      mgr\<lparr>xm_service_proxy_visitors := [(123, (cli_visitor_new svc 3000 ''gwhost1'' 8000)\<lparr>xv_proxy_keys := [''proxykey1'']\<rparr>)],
          xm_shared := (xm_shared mgr)\<lparr>xs_services_by_proxy_key := [(''proxykey1'', 123)]\<rparr>\<rparr>)"

definition clisvcmgr_process_next_proxy_event_when_ignorable_evt :: bool where
  "clisvcmgr_process_next_proxy_event_when_ignorable_evt =
     (case process_next_proxy_event (Some (ProxyMessage ''proxykey1'' ''127.0.0.1:3000'' (bytes_of_text ''data''))) mgr_with_proxy of
        (r, mgr') \<Rightarrow> passes r (\<lambda>processed. processed = False) \<and> mgr' = mgr_with_proxy)"

definition clisvcmgr_process_next_proxy_event_when_closed_evt :: bool where
  "clisvcmgr_process_next_proxy_event_when_closed_evt =
     (case process_next_proxy_event (Some (ProxyClosed ''proxykey1'')) mgr_with_proxy of
        (r, mgr') \<Rightarrow> passes r (\<lambda>processed. processed = True) \<and>
          map_option xv_proxy_keys (get_proxy_visitor_for_service mgr' 123) = Some [])"

definition cli_sizes :: "cli_mgr \<Rightarrow> nat list" where
  "cli_sizes mgr = [length (xm_service_addrs mgr), length (xm_service_proxies mgr), length (xm_service_proxy_visitors mgr)]"

definition clisvcmgr_startup_when_already_started :: bool where
  "clisvcmgr_startup_when_already_started =
     (let mgr = (cli_mgr_new new_chan)\<lparr>xm_service_addrs := [(200, 3000, ''gwhost1'', 8000)]\<rparr> in
      case cli_startup (service_200 TCP) (3000, ''gwhost1'', 8000) mgr of
        (r, mgr') \<Rightarrow> passes r (\<lambda>addrs. addrs = (3000, ''gwhost1'', 8000)) \<and> cli_sizes mgr' = cli_sizes mgr)"

definition clisvcmgr_start_when_tcp_service :: bool where
  "clisvcmgr_start_when_tcp_service =
     (let mgr = cli_mgr_new new_chan in
      case cli_startup (service_200 TCP) (3000, ''gwhost1'', 8000) mgr of
        (r, mgr') \<Rightarrow> passes r (\<lambda>addrs. addrs = (3000, ''gwhost1'', 8000)) \<and> cli_sizes mgr' = map Suc (cli_sizes mgr))"

definition clisvcmgr_start_when_udp_service :: bool where
  "clisvcmgr_start_when_udp_service =
     (let mgr = cli_mgr_new new_chan in
      case cli_startup (service_200 UDP) (3000, ''gwhost1'', 8000) mgr of
        (r, mgr') \<Rightarrow> passes r (\<lambda>addrs. addrs = (3000, ''gwhost1'', 8000)) \<and> cli_sizes mgr' = map Suc (cli_sizes mgr))"

definition clisvcmgr_shutdown_when_2_service_proxies :: bool where
  "clisvcmgr_shutdown_when_2_service_proxies =
     (let vis = \<lambda>sid. cli_visitor_new (new_service sid ''svc'' TCP ''localhost'' 8200) 3000 ''gwhost1'' 8000;
          mgr = (cli_mgr_new new_chan)\<lparr>xm_service_proxy_visitors := [(200, vis 200), (201, vis 201)]\<rparr> in
      case cli_shutdown mgr of
        (r, mgr') \<Rightarrow> passes r (\<lambda>_. list_all (\<lambda>v. xv_shutdown_requested (snd v)) (xm_service_proxy_visitors mgr')))"

lemmas cli_manager_tests = clisvcmgr_process_next_proxy_event_when_ignorable_evt_def clisvcmgr_process_next_proxy_event_when_closed_evt_def
  clisvcmgr_startup_when_already_started_def clisvcmgr_start_when_tcp_service_def clisvcmgr_start_when_udp_service_def
  clisvcmgr_shutdown_when_2_service_proxies_def

theorem cli_manager_tests_pass:
  "clisvcmgr_process_next_proxy_event_when_ignorable_evt" "clisvcmgr_process_next_proxy_event_when_closed_evt"
  "clisvcmgr_startup_when_already_started" "clisvcmgr_start_when_tcp_service" "clisvcmgr_start_when_udp_service"
  "clisvcmgr_shutdown_when_2_service_proxies"
  by (simp_all add: cli_manager_tests process_next_proxy_event_def mgr_with_proxy_def cli_mgr_new_def cli_defs hm_get_def hm_insert_def csp_remove_eq
      cli_visitor_new_def cli_startup_def cli_sizes_def service_200_def new_service_def udp_server_new_def cli_shutdown_def csp_shutdown_connections_def cli_tcp_shutdown_connections_def cli_shutdown_connections_def
      cli_set_shutdown_requested_def Let_def)

end
