(* ===== verification/T0_Conformance_Common.thy ===== *)
theory T0_Conformance_Common
  imports T0_Conformance T0_Conn T0_Crypto
begin

text \<open>
  The unit tests of a TCP connection (\<open>net/tcp_server/conn_std.rs\<close>), of the files of certificates, keys and revocation lists (\<open>crypto/file.rs\<close>,
  \<open>file.rs\<close>), of the names of TLS versions and cipher suites (\<open>crypto/tls.rs\<close>), of the data sources (\<open>config.rs\<close>), and the remaining
  ones of the gateway's service manager (\<open>service/manager.rs\<close>).
\<close>

section \<open>Connections\<close>

text \<open>A visitor that records what it is given to read, and a connection over a script of one call.\<close>

definition recording :: "(unit, bytes list) conn_visitor" where
  "recording = \<lparr>set_event_channel_sender = default_handler, on_connected = default_handler,
     on_connection_read = (\<lambda>data (v, ch, w). (Ok (), v, ch, w @ [data])), on_polling_cycle = default_handler, on_shutdown = default_handler,
     send_error_response = (\<lambda>_. default_handler)\<rparr>"

definition io_fail :: "io_kind \<Rightarrow> string \<Rightarrow> io_error" where
  "io_fail kind msg = \<lparr>io_kind_of = kind, io_err_of = box_err (General msg)\<rparr>"

definition test_conn :: "(io_error + bytes) list \<Rightarrow> (io_error \<times> nat) option list \<Rightarrow> (unit, net_stream) conn" where
  "test_conn reads writes =
     \<lparr>cn_visitor = (), cn_stream = \<lparr>st_peer_addr = None, st_local_addr = None, st_reads = reads, st_writes = writes, st_sent = [], st_shutdowns = [],
        st_clone_err = None, st_debug = []\<rparr>, cn_events = new_chan, cn_alpn = None, cn_closed = False\<rparr>"

abbreviation "hello \<equiv> bytes_of_text ''hello''"

definition conn_read_when_no_data_to_read :: bool where
  "conn_read_when_no_data_to_read =
     (case tcp_server_read recording (test_conn [Inl (io_fail KWouldBlock ''not readable'')] [], []) of
        (r, c, given) \<Rightarrow> passes r (\<lambda>bytes. bytes = []) \<and> queue (cn_events c) = [] \<and> given = [])"

definition conn_read_when_data_to_read :: bool where
  "conn_read_when_data_to_read =
     (case tcp_server_read recording (test_conn [Inr hello] [], []) of
        (r, c, given) \<Rightarrow> passes r (\<lambda>bytes. bytes = hello) \<and> queue (cn_events c) = [] \<and> given = [hello])"

definition conn_read_when_peer_connection_closed :: bool where
  "conn_read_when_peer_connection_closed =
     (case tcp_server_read recording (test_conn [Inl (io_fail UnexpectedEof ''connection closed'')] [], []) of
        (r, c, given) \<Rightarrow> passes r (\<lambda>bytes. length bytes = 0) \<and> take 1 (queue (cn_events c)) = [Closing] \<and> given = [])"

definition conn_read_when_error_while_reading :: bool where
  "conn_read_when_error_while_reading =
     (case tcp_server_read recording (test_conn [Inl (io_fail KOther ''error1'')] [], []) of
        (r, c, given) \<Rightarrow> fails r \<and> take 1 (queue (cn_events c)) = [Closing] \<and> given = [])"

definition test_write :: "(io_error \<times> nat) option \<Rightarrow> unit res \<times> conn_event list" where
  "test_write answer = (case tcp_server_write hello (test_conn [] [answer], ()) of (r, c, _) \<Rightarrow> (r, queue (cn_events c)))"

definition conn_write_when_stream_not_writable :: bool where
  "conn_write_when_stream_not_writable =
     (case test_write (Some (io_fail KWouldBlock ''not writable'', 0)) of (r, events) \<Rightarrow>
        passes r (\<lambda>_. True) \<and> (case events of Write _ # _ \<Rightarrow> True | _ \<Rightarrow> False))"

definition conn_write_when_successfully_written :: bool where
  "conn_write_when_successfully_written = (case test_write None of (r, events) \<Rightarrow> passes r (\<lambda>_. True) \<and> events = [])"

definition conn_write_when_peer_connection_closed :: bool where
  "conn_write_when_peer_connection_closed =
     (case test_write (Some (io_fail UnexpectedEof ''connection closed'', 0)) of (r, events) \<Rightarrow> passes r (\<lambda>_. True) \<and> take 1 events = [Closing])"

definition conn_write_when_error_while_reading :: bool where
  "conn_write_when_error_while_reading =
     (case test_write (Some (io_fail KOther ''error1'', 0)) of (r, events) \<Rightarrow> fails r \<and> take 1 events = [Closing])"

lemmas connection_tests = conn_read_when_no_data_to_read_def conn_read_when_data_to_read_def conn_read_when_peer_connection_closed_def
  conn_read_when_error_while_reading_def conn_write_when_stream_not_writable_def conn_write_when_successfully_written_def
  conn_write_when_peer_connection_closed_def conn_write_when_error_while_reading_def

theorem connection_tests_pass:
  "conn_read_when_no_data_to_read" "conn_read_when_data_to_read" "conn_read_when_peer_connection_closed" "conn_read_when_error_while_reading"
  "conn_write_when_stream_not_writable" "conn_write_when_successfully_written" "conn_write_when_peer_connection_closed"
  "conn_write_when_error_while_reading"
  by (simp_all add: connection_tests test_write_def tcp_server_read_def tcp_server_write_def conn_read_def conn_write_def read_conn_loop.simps
      write_conn_stream_def sock_read_def sock_write_all_def READ_BLOCK_SIZE_def test_conn_def io_fail_def recording_def fail_conn_def send_event_def
      chan_send_def new_chan_def bytes_of_text_def default_handler_def)

section \<open>Files\<close>

text \<open>
  The files of the tests: one of a certificate, one of a key, two revocation lists and a file of neither kind; any other path is
  missing.  The certificate, the key and the time of the files are arguments; a file's contents are its name.
\<close>

record test_files =
  tf_cert :: bytes
  tf_key :: bytes
  tf_mtime :: nat

definition test_paths :: "string list" where
  "test_paths = [''client0.local.crt.pem'', ''client0.local.key.pem'', ''revoked-crts-0.crl.pem'', ''revoked-crts-0-1.crl.pem'', ''invalid.crl.pem'', ''Makefile'']"

definition test_env :: "test_files \<Rightarrow> file_env" where
  "test_env T = \<lparr>fe_open = (\<lambda>path. if path \<in> set test_paths then Inr (Inr (bytes_of_text path)) else Inl no_such_file),
     fe_mtime = (\<lambda>path. if path \<in> set test_paths then Inr (Inr (tf_mtime T)) else Inl no_such_file),
     fe_pem_certs = (\<lambda>data. if data = bytes_of_text ''client0.local.crt.pem'' then [Inr (tf_cert T)] else []),
     fe_pem_pkcs8_keys = (\<lambda>data. if data = bytes_of_text ''client0.local.key.pem'' then [Inr (tf_key T)] else [])\<rparr>"

definition file_load_certificates_when_valid_certfile :: "test_files \<Rightarrow> bool" where
  "file_load_certificates_when_valid_certfile T =
     passes (load_certificates (test_env T) ''client0.local.crt.pem'') (\<lambda>certs. length certs = 1 \<and> certs ! 0 = tf_cert T)"

definition file_load_certificates_when_invalid_certfile :: "test_files \<Rightarrow> bool" where
  "file_load_certificates_when_invalid_certfile T = passes (load_certificates (test_env T) ''Makefile'') (\<lambda>certs. length certs = 0)"

definition file_load_certificates_when_invalid_filepath :: "test_files \<Rightarrow> bool" where
  "file_load_certificates_when_invalid_filepath T = fails (load_certificates (test_env T) ''MISSING'')"

definition file_verify_certificates_when_valid_certfile :: "test_files \<Rightarrow> bool" where
  "file_verify_certificates_when_valid_certfile T =
     passes (verify_certificates (test_env T) ''client0.local.crt.pem'') (\<lambda>path. path = ''client0.local.crt.pem'')"

definition file_verify_certificates_when_invalid_certfile :: "test_files \<Rightarrow> bool" where
  "file_verify_certificates_when_invalid_certfile T = passes (verify_certificates (test_env T) ''Makefile'') (\<lambda>path. path = ''Makefile'')"

definition file_verify_certificates_when_invalid_filepath :: "test_files \<Rightarrow> bool" where
  "file_verify_certificates_when_invalid_filepath T = fails (verify_certificates (test_env T) ''MISSING'')"

definition file_load_private_keys_when_valid_keyfile :: "test_files \<Rightarrow> bool" where
  "file_load_private_keys_when_valid_keyfile T = passes (load_private_key (test_env T) ''client0.local.key.pem'') (\<lambda>key. key = tf_key T)"

definition file_load_private_keys_when_invalid_keyfile :: "test_files \<Rightarrow> bool" where
  "file_load_private_keys_when_invalid_keyfile T = fails (load_private_key (test_env T) ''Makefile'')"

definition file_load_private_keys_when_invalid_filepath :: "test_files \<Rightarrow> bool" where
  "file_load_private_keys_when_invalid_filepath T = fails (load_private_key (test_env T) ''MISSING'')"

definition file_verify_private_keys_when_valid_keyfile :: "test_files \<Rightarrow> bool" where
  "file_verify_private_keys_when_valid_keyfile T =
     passes (verify_private_key_file (test_env T) ''client0.local.key.pem'') (\<lambda>path. path = ''client0.local.key.pem'')"

definition file_verify_private_keys_when_invalid_keyfile :: "test_files \<Rightarrow> bool" where
  "file_verify_private_keys_when_invalid_keyfile T = fails (verify_private_key_file (test_env T) ''Makefile'')"

definition file_verify_private_keys_when_invalid_filepath :: "test_files \<Rightarrow> bool" where
  "file_verify_private_keys_when_invalid_filepath T = fails (verify_private_key_file (test_env T) ''MISSING'')"

definition file_mtime_when_invalid_filepath :: "test_files \<Rightarrow> bool" where
  "file_mtime_when_invalid_filepath T = (\<not> passes (file_mtime (test_env T) ''NON-EXISTENT.txt'') (\<lambda>_. True))"

definition file_mtime_when_valid_filepath :: "test_files \<Rightarrow> bool" where
  "file_mtime_when_valid_filepath T = passes (file_mtime (test_env T) ''client0.local.crt.pem'') (\<lambda>_. True)"

lemmas file_tests = file_load_certificates_when_valid_certfile_def file_load_certificates_when_invalid_certfile_def
  file_load_certificates_when_invalid_filepath_def file_verify_certificates_when_valid_certfile_def file_verify_certificates_when_invalid_certfile_def
  file_verify_certificates_when_invalid_filepath_def file_load_private_keys_when_valid_keyfile_def file_load_private_keys_when_invalid_keyfile_def
  file_load_private_keys_when_invalid_filepath_def file_verify_private_keys_when_valid_keyfile_def file_verify_private_keys_when_invalid_keyfile_def
  file_verify_private_keys_when_invalid_filepath_def file_mtime_when_invalid_filepath_def file_mtime_when_valid_filepath_def

lemma bytes_of_text_eq [simp]: "bytes_of_text s = bytes_of_text t \<longleftrightarrow> s = t"
  by (metis bytes_text)

theorem file_tests_pass:
  "file_load_certificates_when_valid_certfile T" "file_load_certificates_when_invalid_certfile T" "file_load_certificates_when_invalid_filepath T"
  "file_verify_certificates_when_valid_certfile T" "file_verify_certificates_when_invalid_certfile T" "file_verify_certificates_when_invalid_filepath T"
  "file_load_private_keys_when_valid_keyfile T" "file_load_private_keys_when_invalid_keyfile T" "file_load_private_keys_when_invalid_filepath T"
  "file_verify_private_keys_when_valid_keyfile T" "file_verify_private_keys_when_invalid_keyfile T" "file_verify_private_keys_when_invalid_filepath T"
  "file_mtime_when_invalid_filepath T" "file_mtime_when_valid_filepath T"
  by (simp_all add: file_tests load_certificates_def verify_certificates_def load_private_key_def verify_private_key_file_def file_mtime_def test_env_def
      test_paths_def map_err_def pem_items_def)

section \<open>Revocation lists\<close>

definition file_verify_crl_list_when_invalid_filepath :: "test_files \<Rightarrow> bool" where
  "file_verify_crl_list_when_invalid_filepath T = fails (verify_crl_list (test_env T) ''NON-EXISTENT.txt'')"

definition file_verify_crl_list_when_valid_1_entry_crlfile :: "test_files \<Rightarrow> bool" where
  "file_verify_crl_list_when_valid_1_entry_crlfile T =
     passes (verify_crl_list (test_env T) ''revoked-crts-0.crl.pem'') (\<lambda>path. path = ''revoked-crts-0.crl.pem'')"

definition file_verify_crl_list_when_valid_2_entry_crlfile :: "test_files \<Rightarrow> bool" where
  "file_verify_crl_list_when_valid_2_entry_crlfile T =
     passes (verify_crl_list (test_env T) ''revoked-crts-0-1.crl.pem'') (\<lambda>path. path = ''revoked-crts-0-1.crl.pem'')"

definition crlfile_new :: bool where
  "crlfile_new =
     (case crl_file_new ''revoked-crts-0.crl.pem'' [] of (crl_file, cells) \<Rightarrow>
      cf_path crl_file = ''revoked-crts-0.crl.pem'' \<and> cell_get cells (cf_cell crl_file) = None \<and> cf_reloading crl_file = False)"

text \<open>The answer of a new file object, and whether it then holds a list.\<close>

definition new_crl_list :: "test_files \<Rightarrow> string \<Rightarrow> bytes res \<times> bool" where
  "new_crl_list T path =
     (case crl_list (test_env T) (crl_file_new path []) of (r, crl_file, cells) \<Rightarrow> (r, cell_get cells (cf_cell crl_file) \<noteq> None))"

definition crlfile_crl_list_when_invalid_filepath :: "test_files \<Rightarrow> bool" where
  "crlfile_crl_list_when_invalid_filepath T = (case new_crl_list T ''NON-EXISTENT.txt'' of (r, loaded) \<Rightarrow> fails r \<and> \<not> loaded)"

definition crlfile_crl_list_when_valid_1_entry_crlfile :: "test_files \<Rightarrow> bool" where
  "crlfile_crl_list_when_valid_1_entry_crlfile T = (case new_crl_list T ''revoked-crts-0.crl.pem'' of (r, loaded) \<Rightarrow> passes r (\<lambda>_. loaded))"

definition crlfile_crl_list_when_valid_2_entry_crlfile :: "test_files \<Rightarrow> bool" where
  "crlfile_crl_list_when_valid_2_entry_crlfile T = (case new_crl_list T ''revoked-crts-0-1.crl.pem'' of (r, loaded) \<Rightarrow> passes r (\<lambda>_. loaded))"

text \<open>
  One round of the reloading thread with an empty cell: the answer, the remembered time and whether a list was stored.  That the error
  handler was invoked shows in the outcome with a handler that panics.
\<close>

definition reload :: "test_files \<Rightarrow> nat \<Rightarrow> string \<Rightarrow> bool res \<times> nat \<times> bool" where
  "reload T last_mtime path =
     (case process_list_reload (test_env T) (Some (\<lambda>_. None)) path 0 (last_mtime, [None]) of (r, mtime, cells) \<Rightarrow> (r, mtime, cell_get cells 0 \<noteq> None))"

definition invoked_error_fn :: "test_files \<Rightarrow> nat \<Rightarrow> string \<Rightarrow> bool" where
  "invoked_error_fn T last_mtime path = (fst (process_list_reload (test_env T) (Some (\<lambda>_. Some ''invoked'')) path 0 (last_mtime, [None])) = Panic ''invoked'')"

definition crlfile_process_list_reload_when_file_unchanged :: "test_files \<Rightarrow> bool" where
  "crlfile_process_list_reload_when_file_unchanged T =
     ((case reload T (tf_mtime T) ''revoked-crts-0.crl.pem'' of (r, last_mtime, stored) \<Rightarrow>
        passes r (\<lambda>was_reloaded. was_reloaded = False) \<and> last_mtime = tf_mtime T \<and> \<not> stored) \<and>
      \<not> invoked_error_fn T (tf_mtime T) ''revoked-crts-0.crl.pem'')"

definition crlfile_process_list_reload_when_file_changed :: "test_files \<Rightarrow> nat \<Rightarrow> bool" where
  "crlfile_process_list_reload_when_file_changed T now =
     ((case reload T now ''revoked-crts-0.crl.pem'' of (r, last_mtime, stored) \<Rightarrow>
        passes r (\<lambda>was_reloaded. was_reloaded = True) \<and> last_mtime \<noteq> now \<and> stored) \<and>
      \<not> invoked_error_fn T now ''revoked-crts-0.crl.pem'')"

definition crlfile_process_list_reload_when_invalid_filepath :: "test_files \<Rightarrow> nat \<Rightarrow> bool" where
  "crlfile_process_list_reload_when_invalid_filepath T now =
     ((case reload T now ''NON-EXISTENT.txt'' of (r, last_mtime, stored) \<Rightarrow> fails r \<and> \<not> stored) \<and> invoked_error_fn T now ''NON-EXISTENT.txt'')"

text \<open>The three tests that are marked \<open>#[ignore]\<close>: a file that is not a revocation list is to be refused.\<close>

definition file_verify_crl_list_when_invalid_crlfile :: "test_files \<Rightarrow> bool" where
  "file_verify_crl_list_when_invalid_crlfile T = (\<not> passes (verify_crl_list (test_env T) ''invalid.crl.pem'') (\<lambda>_. True))"

definition crlfile_crl_list_when_invalid_crlfile :: "test_files \<Rightarrow> bool" where
  "crlfile_crl_list_when_invalid_crlfile T = (case new_crl_list T ''invalid.crl.pem'' of (r, loaded) \<Rightarrow> \<not> passes r (\<lambda>_. True) \<and> loaded)"

definition crlfile_process_list_reload_when_invalid_crlfile :: "test_files \<Rightarrow> nat \<Rightarrow> bool" where
  "crlfile_process_list_reload_when_invalid_crlfile T now =
     ((case reload T now ''invalid.crl.pem'' of (r, last_mtime, stored) \<Rightarrow> \<not> passes r (\<lambda>_. True) \<and> \<not> stored) \<and> \<not> invoked_error_fn T now ''invalid.crl.pem'')"

lemmas crl_tests = file_verify_crl_list_when_invalid_filepath_def file_verify_crl_list_when_valid_1_entry_crlfile_def
  file_verify_crl_list_when_valid_2_entry_crlfile_def crlfile_new_def crlfile_crl_list_when_invalid_filepath_def
  crlfile_crl_list_when_valid_1_entry_crlfile_def crlfile_crl_list_when_valid_2_entry_crlfile_def crlfile_process_list_reload_when_file_unchanged_def
  crlfile_process_list_reload_when_file_changed_def crlfile_process_list_reload_when_invalid_filepath_def
  file_verify_crl_list_when_invalid_crlfile_def crlfile_crl_list_when_invalid_crlfile_def crlfile_process_list_reload_when_invalid_crlfile_def

lemmas crl_defs = new_crl_list_def reload_def invoked_error_fn_def verify_crl_list_def load_crl_list_def crl_file_new_def crl_list_def
  process_list_reload_def file_mtime_def cell_get_def test_env_def test_paths_def map_err_def

theorem crl_tests_pass:
  "file_verify_crl_list_when_invalid_filepath T" "file_verify_crl_list_when_valid_1_entry_crlfile T" "file_verify_crl_list_when_valid_2_entry_crlfile T"
  "crlfile_new" "crlfile_crl_list_when_invalid_filepath T" "crlfile_crl_list_when_valid_1_entry_crlfile T" "crlfile_crl_list_when_valid_2_entry_crlfile T"
  "crlfile_process_list_reload_when_file_unchanged T" "tf_mtime T \<noteq> now \<Longrightarrow> crlfile_process_list_reload_when_file_changed T now"
  "crlfile_process_list_reload_when_invalid_filepath T now"
  by (simp_all add: crl_tests crl_defs)

text \<open>The ignored tests fail, for every file they could be given: the code takes the bytes of any file for a revocation list.\<close>

theorem ignored_crl_tests_fail:
  "\<not> file_verify_crl_list_when_invalid_crlfile T" "\<not> crlfile_crl_list_when_invalid_crlfile T"
  "tf_mtime T \<noteq> now \<Longrightarrow> \<not> crlfile_process_list_reload_when_invalid_crlfile T now"
  by (simp_all add: crl_tests crl_defs)

section \<open>Names of versions and suites\<close>

definition tls_lookup_suites_when_no_match :: "(string \<Rightarrow> string) \<Rightarrow> (string \<times> 's) list \<Rightarrow> bool" where
  "tls_lookup_suites_when_no_match lower all_suites = fails (lookup_suites lower all_suites [''INVALID1'', ''INVALID2''])"

definition tls_lookup_suites_when_all_match :: "(string \<Rightarrow> string) \<Rightarrow> (string \<times> 's) list \<Rightarrow> bool" where
  "tls_lookup_suites_when_all_match lower all_suites =
     (let query_suites = take 2 all_suites in
      passes (lookup_suites lower all_suites (map (lower \<circ> fst) query_suites)) (\<lambda>suites.
        length suites = 2 \<and> list_all (\<lambda>s. snd s \<in> set suites) query_suites))"

definition tls_lookup_versions_when_no_match :: bool where
  "tls_lookup_versions_when_no_match = fails (lookup_versions [''INVALID1'', ''INVALID2''])"

definition tls_lookup_versions_when_all_match :: bool where
  "tls_lookup_versions_when_all_match =
     passes (lookup_versions [''1.2'', ''1.3'']) (\<lambda>versions. length versions = 2 \<and> TLS12 \<in> set versions \<and> TLS13 \<in> set versions)"

text \<open>
  What the tests need of \<open>rustls\<close>: at least two suites, with different names that no test name is equal to, also in lower case.
\<close>

theorem suite_tests_pass:
  assumes "\<And>s. lower (lower s) = lower s" and "2 \<le> length all_suites" and "distinct (map (lower \<circ> fst) all_suites)"
    and "\<And>n. n \<in> set [''INVALID1'', ''INVALID2''] \<Longrightarrow> lower n \<notin> set (map (lower \<circ> fst) all_suites)"
  shows "tls_lookup_suites_when_no_match lower all_suites" "tls_lookup_suites_when_all_match lower all_suites"
    "tls_lookup_versions_when_no_match" "tls_lookup_versions_when_all_match"
proof -
  obtain a b as bs rest where all: "all_suites = (a, as) # (b, bs) # rest"
    using assms(2) by (cases all_suites rule: remdups_adj.cases) auto
  have ab: "lower a \<noteq> lower b" using assms(3) by (simp add: all)
  have "find (\<lambda>(sname, _). lower sname = lower ''INVALID1'') all_suites = None"
    using assms(4)[of "''INVALID1''"] by (force simp: find_None_iff)
  then have "lookup_suite lower all_suites ''INVALID1'' = Err (General (''Invalid cipher suite: suite='' @ ''INVALID1''))"
    unfolding lookup_suite_def by (simp only: option.case)
  then show "tls_lookup_suites_when_no_match lower all_suites"
    by (simp add: tls_lookup_suites_when_no_match_def lookup_suites_def)
  show "tls_lookup_suites_when_all_match lower all_suites"
    using ab assms(1) by (simp add: tls_lookup_suites_when_all_match_def lookup_suites_def lookup_suite_def all)
  show "tls_lookup_versions_when_no_match" "tls_lookup_versions_when_all_match"
    by (simp_all add: tls_lookup_versions_when_no_match_def tls_lookup_versions_when_all_match_def lookup_versions_def lookup_version_def)
qed

section \<open>Data sources\<close>

text \<open>Three files that can be read, each with the records of its table; and no file at all.\<close>

definition appconfig_create_datasource_repositories_when_inmemdb_ds :: "db_env \<Rightarrow> bool" where
  "appconfig_create_datasource_repositories_when_inmemdb_ds E =
     passes (create_datasource_repositories E (InMemoryDb ''adf'' ''sdf'' ''udf'') repository_factories) (\<lambda>_. True)"

definition appconfig_create_datasource_repositories_when_nodb_ds :: "db_env \<Rightarrow> bool" where
  "appconfig_create_datasource_repositories_when_nodb_ds E = passes (create_datasource_repositories E NoDB repository_factories) (\<lambda>_. True)"

theorem data_source_tests_pass:
  assumes "read_db_file E ''adf'' = Inr a" "accesses_from_json E a = Inr as" "read_db_file E ''sdf'' = Inr s" "services_from_json E s = Inr ss"
    "read_db_file E ''udf'' = Inr u" "users_from_json E u = Inr us"
  shows "appconfig_create_datasource_repositories_when_inmemdb_ds E" "appconfig_create_datasource_repositories_when_nodb_ds F"
proof -
  have "rw_avail new_access_repo" "rw_avail new_service_repo" "rw_avail new_user_repo"
    by (simp_all add: rw_avail_def new_access_repo_def new_service_repo_def new_user_repo_def)
  then have "fst (access_connect (read_db_file E) (accesses_from_json E) ''adf'' new_access_repo) = Ok ()"
    "fst (service_connect (read_db_file E) (services_from_json E) ''sdf'' new_service_repo) = Ok ()"
    "fst (user_connect (read_db_file E) (users_from_json E) ''udf'' new_user_repo) = Ok ()"
    using access_rep.load_get[where read_file = "read_db_file E" and from_json = "accesses_from_json E", OF _ assms(1,2)]
      service_rep.load_get[where read_file = "read_db_file E" and from_json = "services_from_json E", OF _ assms(3,4)]
      user_rep.load_get[where read_file = "read_db_file E" and from_json = "users_from_json E", OF _ assms(5,6)]
    by (simp_all add: access_connect_def service_connect_def user_connect_def)
  then show "appconfig_create_datasource_repositories_when_inmemdb_ds E" "appconfig_create_datasource_repositories_when_nodb_ds F"
    by (auto simp: appconfig_create_datasource_repositories_when_inmemdb_ds_def appconfig_create_datasource_repositories_when_nodb_ds_def
        create_datasource_repositories_def repository_factories_def split: prod.splits)
qed

section \<open>Closing proxies\<close>

text \<open>A manager with visitors of the services 200 and 201, each with one connection of user 100, whose tasks are seen.\<close>

definition busy_visitor :: "u64 \<Rightarrow> string \<Rightarrow> svc_visitor" where
  "busy_visitor sid key = (svc_visitor_new (new_service sid ''svc'' TCP ''localhost'' 8200) None 4000)\<lparr>sp_users_by_proxy_addrs := [((''addr1'', key), 100)],
     sp_proxy_addrs_by_proxy_key := [(key, (''addr1'', key))], sp_proxy_keys_by_user := [(100, [key])]\<rparr>"

definition two_visitors :: gw_mgr where
  "two_visitors =
     (let mgr = snd (create_gw_service_mgr True) in
      mgr\<lparr>gm_service_proxy_visitors := [(200, busy_visitor 200 ''key200''), (201, busy_visitor 201 ''key201'')],
          gm_shared := \<lparr>gs_services_by_proxy_key = [(''key200'', 200), (''key201'', 201)], gs_proxy_tasks = new_chan\<rparr>\<rparr>)"

definition closes :: "u64 option \<Rightarrow> u64 option \<Rightarrow> string list \<Rightarrow> bool" where
  "closes user_id service_id keys =
     (case mgr_shutdown_connections user_id service_id two_visitors of (r, mgr) \<Rightarrow>
        passes r (\<lambda>_. queue (gs_proxy_tasks (gm_shared mgr)) = map CloseProxy keys))"

definition gwsvcmgr_shutdown_connections_when_no_service_or_user_given :: bool where
  "gwsvcmgr_shutdown_connections_when_no_service_or_user_given = closes None None [''key200'', ''key201'']"

definition gwsvcmgr_shutdown_connections_when_no_service_given :: bool where
  "gwsvcmgr_shutdown_connections_when_no_service_given = closes (Some 100) None [''key200'', ''key201'']"

definition gwsvcmgr_shutdown_connections_when_no_user_given :: bool where
  "gwsvcmgr_shutdown_connections_when_no_user_given = closes None (Some 200) [''key200'']"

definition gwsvcmgr_on_closed_proxy_when_valid_proxy_key :: bool where
  "gwsvcmgr_on_closed_proxy_when_valid_proxy_key =
     (case on_closed_proxy ''key200'' two_visitors of (r, mgr) \<Rightarrow>
        passes r (\<lambda>_. \<not> has_proxy_for_user_and_service mgr 100 200 \<and> has_proxy_for_user_and_service mgr 100 201))"

lemmas closing_tests = gwsvcmgr_shutdown_connections_when_no_service_or_user_given_def gwsvcmgr_shutdown_connections_when_no_service_given_def
  gwsvcmgr_shutdown_connections_when_no_user_given_def gwsvcmgr_on_closed_proxy_when_valid_proxy_key_def

theorem closing_tests_pass:
  "gwsvcmgr_shutdown_connections_when_no_service_or_user_given" "gwsvcmgr_shutdown_connections_when_no_service_given"
  "gwsvcmgr_shutdown_connections_when_no_user_given" "gwsvcmgr_on_closed_proxy_when_valid_proxy_key"
  by (simp_all add: closing_tests closes_def two_visitors_def busy_visitor_def svc_visitor_new_def new_service_def create_gw_service_mgr_def gw_mgr_new_def
      create_app_config_with_repos_def mgr_shutdown_connections_def svc_shutdown_connections_def chan_send_def new_chan_def on_closed_proxy_def
      get_service_id_by_proxy_key_def get_service_proxy_def gsp_remove_proxy_for_key_def remove_proxy_for_key_def tcp_remove_proxy_for_key_def
      has_proxy_for_user_and_service_def get_proxy_addrs_for_user_def hm_get_def hm_insert_def hm_remove_def Let_def)

end
