(* ===== verification/Spec2Isabelle.thy ===== *)
theory Spec2Isabelle
  imports T0_Process T0_Tunnel T0_System T0_Cli_System T0_Conformance_Gateway T0_Conformance_Client T0_Conformance_Common
begin

text \<open>
  \<^bold>\<open>Trust0\<close>: a verification library for the zero-trust access framework under \<open>src/crates\<close>.

  \<^bold>\<open>The program.\<close>  Trust0 consists of a gateway, a client and a library they share (crates \<open>gateway\<close>,
  \<open>client\<close>, \<open>common\<close>).  Users run the client, which holds a TLS connection with a client certificate to the
  gateway's control plane.  On it they list services, users and proxies and ask for a service to be
  started.  The gateway checks the user's device certificate, that the user is known and active, and that an
  access record for the service exists; it then opens a port for the service and answers with its address.
  The client opens a local port, and for each local connection (for UDP: each peer address) makes its own TLS
  connection to the gateway, naming the service in the ALPN protocol name.  The gateway authorizes that
  connection again, connects to the service and hands both streams to an executor, whose proxy threads
  copy bytes until one side ends or the service manager closes the proxy.

  \<^bold>\<open>How the code is modelled.\<close>  A struct is a record, an enum a datatype, \<open>u16\<close> and \<open>u64\<close> are words, a \<open>HashMap\<close>
  is an association list without duplicate keys (\<open>hm_get\<close>, \<open>hm_insert\<close>, \<open>hm_remove\<close>), a \<open>Vec<u8>\<close> a list of bytes, a
  \<open>String\<close> its UTF-8 bytes as characters.  \<open>Result\<close> is \<open>'a res\<close> with a third outcome, \<open>Panic\<close>, for \<open>unwrap\<close>, \<open>expect\<close>
  and failed overflow checks; a method with \<open>&mut self\<close> is a state function \<open>('s, 'a) sop\<close>.  A channel is a queue with a flag
  that tells whether its receiver is alive.  A socket is a script: the answers of the reads and writes to come,
  and what has been sent.  Locks of one thread at a time are left out, except a poisoned one in the
  repositories.  Code outside the repository (\<open>clap\<close>, \<open>serde_json\<close>, \<open>rustls\<close>, \<open>x509_parser\<close>, \<open>regex\<close>, the file system, the
  resolver) is a record of functions that the definitions take as an argument; what a theorem needs of it is a
  named hypothesis (\<open>serde_ok\<close>, \<open>clap_ok\<close>, \<open>regex_digits\<close>, \<open>regex_digit_run\<close>, \<open>wire_roundtrip\<close>,
  \<open>honest_levels\<close>, \<open>alpn_agreed\<close>), with an instance that satisfies it.  For the two formats of the control plane the instances are
  complete: \<open>T0_Json\<close> writes and reads JSON texts, with the round trip, and \<open>T0_Clap\<close> matches command lines against a command
  description; both serve the witnesses and the unit tests, and no property speaks of them.

  \<^bold>\<open>Shared part (crate \<open>common\<close>).\<close>
  \<^item> \<open>T0_Prelude\<close>: result values, state functions, maps, channels, texts of numbers; the collection \<open>t0_inv\<close>.
  \<^item> \<open>T0_Error\<close> (\<open>error.rs\<close>), \<open>T0_Model\<close> (\<open>model\<close>), \<open>T0_Text\<close> (the standard library's UTF-8 and line functions).
  \<^item> \<open>T0_Alpn\<close> (\<open>crypto/alpn.rs\<close>): protocol names, their round trip, and when parsing panics.
  \<^item> \<open>T0_Request\<close>, \<open>T0_Response\<close> (\<open>control\<close>): the command parser, responses and their JSON round trips.
  \<^item> \<open>T0_Crypto\<close> (\<open>crypto/file.rs\<close>, \<open>crypto/tls.rs\<close>, \<open>file.rs\<close>): certificates, keys and revocation lists; the list of a \<open>CRLFile\<close>
    is a cell in a store, because the accessor and the reloading thread may come to hold different ones.
  \<^item> \<open>T0_Stream\<close> (\<open>net/stream_utils.rs\<close>), \<open>T0_Conn\<close> (the three \<open>conn_std.rs\<close>), \<open>T0_Server\<close> (the three \<open>server_std.rs\<close>), \<open>T0_Tls_Client\<close>
    (\<open>client_std.rs\<close>): reading and writing, the event loop of a connection, listeners, the TLS client.
  \<^item> \<open>T0_Proxy_Base\<close>, \<open>T0_Proxy_Stream\<close>, \<open>T0_Executor\<close> (\<open>proxy\<close>): proxy keys, the copying threads, the executor.  The locale
    \<open>relay\<close> states what a handler of the copying loop has to keep; the three proxies interpret it.
  \<^item> \<open>T0_Tunnel\<close>: the client's proxy and the gateway's one after the other.  The locale \<open>hop\<close> says that a stage passes on a prefix of what it
    is given, \<open>tunnel\<close> composes two of them; interpretations for TCP and for UDP, in both directions.
  \<^item> \<open>T0_Process\<close> (\<open>logging.rs\<close> and the two \<open>main.rs\<close>): the logger, the start and the end of both processes, the signal handlers.

  \<^bold>\<open>Gateway.\<close>
  \<^item> \<open>T0_Repository\<close>, \<open>T0_Config\<close>, \<open>T0_Device\<close> (\<open>repository\<close>, \<open>config.rs\<close>, \<open>client/device.rs\<close>): the tables, behind the locale \<open>repository\<close>; the
    configuration; the identity in a certificate.  \<open>T0_Tls_Config\<close> adds the TLS part of both processes' configurations, with the
    server configuration the gateway builds for every handshake and the verifier of the client; \<open>crl_run\<close> follows the revocation list through any sequence of
    handshakes and reloads, and \<open>list_in_force\<close> says which list a handshake checks.
  \<^item> \<open>T0_Auth\<close> (\<open>client/connection.rs\<close>): authorization of a connection, sound and complete.
  \<^item> \<open>T0_Gw_Proxy\<close>, \<open>T0_Gw_Manager\<close> (\<open>service\<close>): the maps of one service's proxies (\<open>svc_inv\<close>), of all of them (\<open>mgr_inv\<close>), ports.
  \<^item> \<open>T0_Gw_Control\<close> (\<open>client/controller.rs\<close>): every command; each input line gets one answer.
  \<^item> \<open>T0_Gateway\<close> (\<open>gateway.rs\<close>, \<open>lib.rs\<close>): the whole gateway as the step relation \<open>gw_step\<close> and its invariant \<open>gw_inv\<close>.  The argument \<open>B\<close> of its
    visitors is what the TLS configuration builder does at each handshake to the revocation list in the gateway's state (\<open>gws_crl\<close>); \<open>T0_Process\<close> sets it
    to \<open>tls_build\<close>.
  \<^item> \<open>T0_Listeners\<close> (\<open>service/proxy\<close> of both crates): the threads that listen for one service, and how they stop; the thread that takes a UDP service's
    answers to the local programs does not, and keeps its clone of the socket (\<open>client_bound_message_processor\<close>).

  \<^bold>\<open>Client.\<close>
  \<^item> \<open>T0_Cli_Proxy\<close>, \<open>T0_Cli_Manager\<close> (\<open>service\<close>): the local ends of the proxies and their manager (\<open>cli_mgr_inv\<close>).
  \<^item> \<open>T0_Cli_Control\<close>, \<open>T0_Client\<close> (\<open>gateway\<close>, \<open>console.rs\<close>, \<open>client.rs\<close>, \<open>lib.rs\<close>): the shell, the gateway's answers, the process.

  \<^bold>\<open>Across components.\<close>  \<open>T0_Sessions\<close> specifies the set of open sessions as an abstract transition system and shows that both
  service managers implement it (locale \<open>simulation\<close>, interpreted for \<open>gw_step\<close> and for \<open>cli_step\<close>).  \<open>T0_Availability\<close>
  shows that an entitled user gets a session, and that the sessions of a user end with the control connection.  \<open>T0_Arrival\<close> takes an arrival apart into its phases and shows what other
  handlers keep of a connection between them.  \<open>T0_Account\<close> specifies what a
  service manager and the executor owe each other: an account of the keys of the open sessions, the tasks in the
  executor's queue, its streams and the events they have reported, with the invariant that every live stream belongs to an open session or is about to be
  closed.  \<open>T0_System\<close> and \<open>T0_Cli_System\<close> compose the managers with the executor and its threads (\<open>system_step\<close>, \<open>cli_system_step\<close>), show with
  the same locale that they keep that account, and so that data only flow for entitled users and that nothing flows on after the client has shut down.
  This theory follows one request through all parts: a revoked user's proxies down to the threads of the executor, a start command from
  the gateway's control plane to the local port at the client, and a local connection from the client to the service.

  \<^bold>\<open>Unit tests.\<close>  \<open>T0_Conformance\<close> and the four theories \<open>T0_Conformance_Control\<close>, \<open>_Gateway\<close>, \<open>_Client\<close>, \<open>_Common\<close> state 153 of the 158 unit tests of
  the repository about the model, each under the name of its function; the theorems \<open>.._tests_pass\<close> show that they hold, and \<open>ignored_crl_tests_fail\<close> that the
  three tests the repository ignores do not.

  \<^bold>\<open>Loops, fuel and interleaving.\<close>  Loops over data are structural recursions.  A loop that waits for the outside world
  (servers, connections, proxy threads, the reloader) runs over the list of what it will be told, one element per iteration, and
  returns \<open>None\<close> when the list ends first; no theorem depends on a bound, they hold for every list.  Loops that may spin
  without new input (the client hello, the events of a connection, where a refused write is queued again) take fuel, and
  the theorems about them either hold for every amount or say which amount is enough.  The threads interleave at the granularity of one handler in
  \<open>gw_step\<close>, \<open>cli_step\<close> and the composed client, which allow every order of handlers, of the executor's tasks, and of the ends and the reports of proxy threads.  The
  mutex of the service manager enforces that granularity for requests, shutdowns and events.  A connection for a service is handled under the
  lock of its visitor only, taken anew for its creation and for its acceptance, and in the acceptance the task is sent before the proxy is registered; the composed
  gateway \<open>system_step\<close> therefore makes the three phases steps of their own, with every other step in between (the lock of the visitor, which excludes some of
  these orders, is left out).  \<open>early_report_is_lost\<close> shows what that order of the phases leads to.  The composed client accepts a local connection in one step.

  \<^bold>\<open>Assumptions on the environment.\<close>  \<open>fresh_arrival\<close> and \<open>fresh_task\<close>: the address pair of a new connection is not that of
  a proxy that is still registered, and the key of its proxy is not in use; \<open>fresh_addrs\<close>, the rule \<open>opened\<close> of \<open>system_step\<close> and \<open>cli_fresh_key\<close> say the same of the composed systems, where a
  key is also taken as long as a task or a report about it is under way.  At the client the key is the address pair of a local connection.  At the gateway the condition on the key of a TCP proxy is one on the
  clients: the key leaves out the gateway's port, so that a client that reaches one service by two ports of the gateway from one source port breaks it (\<open>same_source_port_same_key\<close>), and the
  executor then keeps the second of the two streams only (\<open>second_stream_replaces_first\<close>).  \<open>alpn_agreed\<close>: the gateway's end of a TLS connection has a protocol name that the client has offered.  \<open>receiver_alive\<close>: the executor's thread has not ended.  \<open>delivered\<close>: what one end of a TLS
  connection reads is a prefix of what the other has sent, and \<open>fresh_stream\<close>: nothing has been sent on it yet and no write will fail.

  \<^bold>\<open>Not modelled.\<close>  What \<open>rustls\<close> does with a configuration (the configurations themselves are records of what it is given),
  parsing of the processes' command lines by \<open>clap\<close> attributes, the repository traits (the locale \<open>repository\<close> takes their place), threads that
  only join others and log, \<open>exit_on_usage_error\<close>, which nothing calls, and five unit tests whose mocks answer what the code behind the mocked
  interface never answers.  Apart from the signal handlers, the
  messages the code logs are left out of its operations.  The disconnection of a proxy, for which the executor starts a thread, happens at once.
\<close>

section \<open>From a revoked user to the streams of the proxies\<close>

text \<open>
  C10: closing a user's connections reaches the streams: after the gateway's service manager has shut
  the user down and the executor has worked off its tasks, every stream it still holds for a proxy
  the user had at a selected service carries the closing request that ends its thread.
\<close>

theorem user_shutdown_reaches_streams:
  assumes "mgr_inv mgr" and "receiver_alive (gs_proxy_tasks (gm_shared mgr))"
    and "mgr_shutdown_connections (Some uid) sid mgr = (r, mgr')"
    and "map fst tasks = queue (gs_proxy_tasks (gm_shared mgr'))"
    and "get_service_proxy mgr i = Some vis" and "sid = None \<or> i = the sid" and "key \<in> set (keys_of vis uid)"
  shows "\<exists>ex'. poll_new_tasks tasks ex = (Ok (), ex') \<and> (\<forall>s. hm_get (ex_streams ex') key = Some s \<longrightarrow> stream_closing s)"
proof -
  from mgr_shutdown_closes[OF assms(1,2), of "Some uid" sid] assms(3)
  have q: "queue (gs_proxy_tasks (gm_shared mgr')) =
      queue (gs_proxy_tasks (gm_shared mgr)) @ close_tasks (Some uid) sid (gm_service_proxy_visitors mgr)" by auto
  obtain keys where keys: "close_tasks (Some uid) sid (gm_service_proxy_visitors mgr) = map CloseProxy keys"
    "\<And>i v k. (i, v) \<in> set (gm_service_proxy_visitors mgr) \<Longrightarrow> sid = None \<or> i = the sid \<Longrightarrow> k \<in> set (keys_of v uid) \<Longrightarrow> k \<in> set keys"
    using close_tasks_keys[of "Some uid" sid "gm_service_proxy_visitors mgr"] unfolding keys_for_Some by blast
  have "(i, vis) \<in> set (gm_service_proxy_visitors mgr)"
    using assms(5) by (simp add: get_service_proxy_def hm_get_set)
  then have key: "key \<in> set keys" using keys(2) assms(6,7) by blast
  define n where "n = length (queue (gs_proxy_tasks (gm_shared mgr)))"
  have split: "tasks = take n tasks @ drop n tasks" by simp
  have closes: "map fst (drop n tasks) = map CloseProxy keys"
    using assms(4) q keys(1) by (simp add: n_def drop_map[symmetric])
  obtain ex1 where ex1: "poll_new_tasks (take n tasks) ex = (Ok (), ex1)" using poll_new_tasks_ok by blast
  obtain ex' where ex': "poll_new_tasks (drop n tasks) ex1 = (Ok (), ex')" using poll_new_tasks_ok by blast
  have "poll_new_tasks tasks ex = (Ok (), ex')"
    using poll_new_tasks_append[of "take n tasks" "drop n tasks" ex] ex1 ex' by simp
  with close_run[OF closes ex'] key show ?thesis by blast
qed

theorem user_shutdown_reaches_streams_witness:
  "\<exists>r mgr' ex'. mgr_shutdown_connections (Some 100) None demo_busy_mgr = (r, mgr') \<and>
     poll_new_tasks (map (\<lambda>t. (t, demo_proxy_env)) (queue (gs_proxy_tasks (gm_shared mgr'))))
       \<lparr>ex_streams = [(''k1'', TcpAndTcpStream demo_tt)], ex_events = new_chan\<rparr> = (Ok (), ex') \<and>
     (\<forall>s. hm_get (ex_streams ex') ''k1'' = Some s \<longrightarrow> stream_closing s)"
proof -
  obtain r mgr' where m: "mgr_shutdown_connections (Some 100) None demo_busy_mgr = (r, mgr')"
    by (cases "mgr_shutdown_connections (Some 100) None demo_busy_mgr")
  have a: "receiver_alive (gs_proxy_tasks (gm_shared demo_busy_mgr))"
    by (simp add: demo_busy_mgr_def demo_shared_def new_chan_def)
  have g: "get_service_proxy demo_busy_mgr 203 = Some demo_svc_visitor" "''k1'' \<in> set (keys_of demo_svc_visitor 100)"
    by (simp_all add: get_service_proxy_def demo_busy_mgr_def hm_get_def keys_of_def demo_svc_visitor_def)
  have t: "map fst (map (\<lambda>t. (t, demo_proxy_env)) ts) = ts" for ts by (simp add: comp_def)
  from user_shutdown_reaches_streams[OF demo_busy_mgr_inv a m t g(1) disjI1[OF refl] g(2)] m show ?thesis by blast
qed

section \<open>From a start command to the local end of the proxy\<close>

abbreviation granted_proxy :: "app_config \<Rightarrow> service \<Rightarrow> string option \<Rightarrow> u16 \<Rightarrow> u16 \<Rightarrow> resp_proxy" where
  "granted_proxy cfg svc host port local_port \<equiv>
     new_resp_proxy (prepare_response_service svc (cfg_mask_addresses cfg)) host port (Some local_port)"

lemma gateway_start_answer:
  assumes "parse_request C line = Ok (ReqStart name port)" and "start_service cfg cp name = Ok svc"
    and "mgr_startup chk cfg svc mgr = (Ok (host, gw_port), mgr')"
    and "proxy_try_into S (granted_proxy cfg svc host gw_port port) = Ok data"
    and "response_to_string S (new_response CODE_OK None (ReqStart name port) (Some data)) = Inr txt"
    and "txt \<noteq> []" and "receiver_alive ch"
  shows "process_request chk S C cfg cp line (ch, mgr) =
    (Ok (ReqStart name port), ch\<lparr>queue := queue ch @ [Write (bytes_of_text (txt @ [CHR 0x0A]))]\<rparr>, mgr')"
  using assms
  by (simp add: process_request_def run_request_def process_cmd_start_def prepare_response_def send_response_def chan_send_def)

lemma response_service_id [simp]:
  "sv_service_id (service_from_response (prepare_response_service svc hidden)) = sv_service_id svc"
  "sv_transport (service_from_response (prepare_response_service svc hidden)) = sv_transport svc"
  by (simp_all add: service_from_response_def prepare_response_service_def service_to_response_def new_resp_service_def
      new_service_def Let_def split: prod.splits)

lemma client_start_applied:
  assumes "serde_ok S" and "proxy_try_into S (granted_proxy cfg svc host gw_port port) = Ok data"
  shows "apply_response S (new_response CODE_OK None (ReqStart name port) (Some data)) cm =
    (case host of
       None \<Rightarrow> (Panic ''called `Option::unwrap()` on a `None` value'', cm)
     | Some h \<Rightarrow>
         (case cli_startup (service_from_response (prepare_response_service svc (cfg_mask_addresses cfg))) (port, h, gw_port) cm of
            (Ok _, cm') \<Rightarrow> (Ok (new_response CODE_OK None (ReqStart name port) (Some data)), cm')
          | (Err e, cm') \<Rightarrow> (Err e, cm')
          | (Panic m, cm') \<Rightarrow> (Panic m, cm')))"
  using proxies_from_single[OF assms]
  by (auto simp: apply_response_def new_response_def process_response_start_def unwrap_opt_def new_resp_proxy_def sop_bind_def sop_lift_def
      split: option.splits prod.splits res.splits)

text \<open>
  C8: a granted \<open>start\<close> command takes effect at the client: the bytes the gateway queues for it, read by
  the client's control connection, leave the client's service manager with a proxy for the very service
  that was granted, on the local port that was asked for, towards the host and port at which the gateway
  has opened that service, and the shell prompt is shown again.  This holds for a service that the client has
  not started yet (for one that it has, the old proxy and its port stay) and a gateway that is configured with a
  service host (without one the client panics on the answer), when the response survives its way as JSON text
  and the gateway's channel to the client and the client's terminal work.
\<close>

theorem start_reaches_client:
  assumes "serde_ok S" and "parse_request C line = Ok (ReqStart name port)" and "start_service cfg cp name = Ok svc"
    and "mgr_startup chk cfg svc mgr = (Ok (Some host, gw_port), mgr')" and "receiver_alive ch"
    and "proxy_try_into S (granted_proxy cfg svc (Some host) gw_port port) = Ok data"
    and "wire_roundtrip S (new_response CODE_OK None (ReqStart name port) (Some data))"
    and "get_proxy_addrs_for_service cm (sv_service_id svc) = None" and "sw_answers out = []"
  shows "\<exists>answer shown cm' vis.
    process_request chk S C cfg cp line (ch, mgr) =
      (Ok (ReqStart name port), ch\<lparr>queue := queue ch @ [Write answer]\<rparr>, mgr') \<and>
    srv_on_connection_read S answer (v, cch, out, cm) =
      (Ok (), v, cch, out\<lparr>sw_out := sw_out out @ shown @ [CHR 0x0A] @ SHELL_PROMPT\<rparr>, cm') \<and>
    get_proxy_addrs_for_service cm' (sv_service_id svc) = Some (port, host, gw_port) \<and>
    get_proxy_visitor_for_service cm' (sv_service_id svc) = Some vis \<and>
    sv_service_id (xv_service vis) = sv_service_id svc \<and> sv_transport (xv_service vis) = sv_transport svc"
proof -
  let ?resp = "new_response CODE_OK None (ReqStart name port) (Some data)"
  let ?svc = "service_from_response (prepare_response_service svc (cfg_mask_addresses cfg))"
  from assms(7) obtain t where t: "response_to_string S ?resp = Inr t" "t \<noteq> []" "response_from_str S t = Inr ?resp"
    "CHR 0x0A \<notin> set t" "CHR 0x0D \<notin> set t" "from_utf8 (bytes_of_text (t @ [CHR 0x0A])) = Inr (t @ [CHR 0x0A])"
    unfolding wire_roundtrip_def by blast
  obtain shown where shown: "response_to_string_pretty S ?resp = Inr shown" using assms(1) unfolding serde_ok_def by blast
  from assms(8) have "get_proxy_addrs_for_service cm (sv_service_id ?svc) = None" by simp
  from cli_startup_new[OF this, of port host gw_port] obtain cm' where
    cm: "cli_startup ?svc (port, host, gw_port) cm = (Ok (port, host, gw_port), cm')"
      "xm_service_proxy_visitors cm' = hm_insert (sv_service_id svc) (cli_visitor_new ?svc port host gw_port) (xm_service_proxy_visitors cm)"
      "xm_service_addrs cm' = hm_insert (sv_service_id svc) (port, host, gw_port) (xm_service_addrs cm)" by auto
  have "apply_response S ?resp cm = (Ok ?resp, cm')" using client_start_applied[OF assms(1,6)] cm(1) by simp
  from srv_read_line[OF t(6,4,5) process_response_ok[OF t(3) this shown assms(9)]] assms(9)
  have read: "srv_on_connection_read S (bytes_of_text (t @ [CHR 0x0A])) (v, cch, out, cm) =
      (Ok (), v, cch, out\<lparr>sw_out := sw_out out @ shown @ [CHR 0x0A] @ SHELL_PROMPT\<rparr>, cm')" by simp
  have "get_proxy_addrs_for_service cm' (sv_service_id svc) = Some (port, host, gw_port)"
    "get_proxy_visitor_for_service cm' (sv_service_id svc) = Some (cli_visitor_new ?svc port host gw_port)"
    by (simp_all add: cli_defs cm(2,3))
  moreover have "xv_service (cli_visitor_new ?svc port host gw_port) = ?svc" by (simp add: cli_visitor_new_def)
  ultimately show ?thesis
    by (intro exI[of _ "bytes_of_text (t @ [CHR 0x0A])"] exI[of _ shown] exI[of _ cm'] exI[of _ "cli_visitor_new ?svc port host gw_port"])
      (simp add: gateway_start_answer[OF assms(2,3,4,6) t(1,2) assms(5)] read)
qed

text \<open>The same, from the text of the command to the text of the answer.\<close>

lemma start_line: "parse_request (clap_lib create_command) ''start -s echo -p 8501'' = Ok (ReqStart ''echo'' 8501)"
  by (simp add: line_defs)

abbreviation "start_response \<equiv>
  new_response CODE_OK None (ReqStart ''echo'' 8501) (Some (json_of_proxy (granted_proxy demo_config demo_service (Some ''gw'') 8500 8501)))"

lemma start_response_wire: "wire_roundtrip json_serde start_response"
proof (rule json_wire)
  show "ascii_json (json_of_response start_response)"
    by (simp add: json_of_response_def new_response_def ascii_text_def json_of_proxy_def new_resp_proxy_def json_of_opt_def json_of_service_def
        prepare_response_service_def service_to_response_def new_resp_service_def demo_service_def new_service_def demo_config_def)
  show "rsp_data start_response \<noteq> Some JNull" by (simp add: new_response_def json_of_proxy_def)
qed

theorem start_reaches_client_witness:
  "\<exists>answer shown cm'.
     process_request True json_serde (clap_lib create_command) demo_config demo_control_plane ''start -s echo -p 8501'' (new_chan, demo_mgr) =
       (Ok (ReqStart ''echo'' 8501), new_chan\<lparr>queue := [Write answer]\<rparr>, demo_started_mgr) \<and>
     srv_on_connection_read json_serde answer (srv_visitor_new, new_chan, \<lparr>sw_out = [], sw_answers = []\<rparr>, cli_mgr_new new_chan) =
       (Ok (), srv_visitor_new, new_chan, \<lparr>sw_out = shown @ [CHR 0x0A] @ SHELL_PROMPT, sw_answers = []\<rparr>, cm') \<and>
     get_proxy_addrs_for_service cm' (sv_service_id demo_service) = Some (8501, ''gw'', 8500)"
proof -
  have p: "proxy_try_into json_serde (granted_proxy demo_config demo_service (Some ''gw'') 8500 8501) =
      Ok (json_of_proxy (granted_proxy demo_config demo_service (Some ''gw'') 8500 8501))"
    by (simp add: proxy_try_into_def map_err_def)
  have n: "get_proxy_addrs_for_service (cli_mgr_new new_chan) (sv_service_id demo_service) = None"
    by (simp add: get_proxy_addrs_for_service_def cli_mgr_new_def hm_get_def)
  have a: "receiver_alive (new_chan :: conn_event chan)" and q: "queue (new_chan :: conn_event chan) = []" by (simp_all add: new_chan_def)
  have o1: "sw_answers \<lparr>sw_out = [], sw_answers = []\<rparr> = []" by simp
  from start_reaches_client[OF json_serde_ok start_line demo_start_service demo_startup a p start_response_wire n o1, of srv_visitor_new new_chan]
  show ?thesis by (simp add: q) blast
qed

section \<open>From a local connection to the service\<close>

text \<open>
  What the two ends of a TLS connection agree on: the gateway's end has one of the protocol names the
  client has offered.  The function \<open>peer\<close> gives the gateway's end of a connection the client has made.
\<close>

definition alpn_agreed :: "connect_env \<Rightarrow> (tls_stream \<Rightarrow> tls_stream) \<Rightarrow> bool" where
  "alpn_agreed E peer \<longleftrightarrow> (\<forall>offered addr t. ce_complete_io E offered addr = Inr t \<longrightarrow> (\<exists>p \<in> set offered. tls_alpn_protocol (peer t) = Some p))"

lemma service_name_agreed:
  assumes "alpn_agreed E peer" and "connect_gateway E vis = Ok t"
  shows "tls_alpn_protocol (peer t) = Some (bytes_of_text (create_service_protocol (sv_service_id (xv_service vis))))"
proof -
  obtain addr where "ce_complete_io E [bytes_of_text (create_service_protocol (sv_service_id (xv_service vis)))] addr = Inr t"
    using connect_gateway_Ok[OF assms(2)] by metis
  with assms(1) show ?thesis unfolding alpn_agreed_def by fastforce
qed

lemma local_accept:
  assumes "connect_gateway E vis = Ok t" and "st_clone_err (cn_stream c) = None" and "receiver_alive (xs_proxy_tasks sh)"
  shows "\<exists>vis' sh' key. cli_tcp_on_conn_accepted E c (vis, sh) = (Ok (), vis', sh') \<and>
    hm_get (xs_services_by_proxy_key sh') key = Some (sv_service_id (xv_service vis)) \<and>
    queue (xs_proxy_tasks sh') = queue (xs_proxy_tasks sh) @ [OpenTcpAndTcpProxy key (cn_stream c) (net_stream.truncate t)]"
  using assms
  by (simp add: cli_tcp_on_conn_accepted_def sop_bind_def sop_lift_def cli_send_task_def cli_register_def chan_send_def Let_def)

text \<open>
  C6: a program that connects to the client's local port of a service reaches that service: the client
  connects to the gateway with the protocol name of the service and files its end of the tunnel under it,
  and the gateway, when the certificate of that connection belongs to an entitled user, takes the very same
  service from the name, opens a session of the user for it, and hands its executor the other half of the
  tunnel.
\<close>

theorem local_connection_reaches_service:
  assumes "connect_gateway E xvis = Ok t" and "alpn_agreed E peer" and "sv_service_id (xv_service xvis) = sid"
    and "st_clone_err (cn_stream c) = None" and "receiver_alive (xs_proxy_tasks sh)"
    and "gw_inv cfg st" and "user_inv (cfg_user_repo cfg)" and "rw_avail (cfg_service_repo cfg)" and "regex_digits (gl_digits L)"
    and "authorize_device L (peer t) = Ok dev" and "uid = ctx_user_id (dv_cert_access_context dev)" and "uid \<noteq> 0" and "entitled cfg uid sid"
    and "get_service_proxy (gws_mgr st) sid = Some vis" and "opening_task N cfg (peer t) (sp_service vis) = Some task"
  shows "(\<exists>xvis' sh' key. cli_tcp_on_conn_accepted E c (xvis, sh) = (Ok (), xvis', sh') \<and>
      hm_get (xs_services_by_proxy_key sh') key = Some sid \<and>
      queue (xs_proxy_tasks sh') = queue (xs_proxy_tasks sh) @ [OpenTcpAndTcpProxy key (cn_stream c) (net_stream.truncate t)]) \<and>
    (\<exists>st'. hand_over (gateway_visitor B L N cfg) (peer t) st = (Ok (), st') \<and>
      (sid, uid, task_key task) \<in> sessions (gws_mgr st') \<and> gw_tasks st' = gw_tasks st @ [task])"
proof -
  have "parse_alpn_protocol (gl_digits L) (tls_alpn_protocol (peer t)) = Ok (Service sid)"
    using service_name_agreed[OF assms(2,1)] parse_alpn_service[OF assms(9)] assms(3) by simp
  from entitled_user_session[OF assms(6-8,10-13) this assms(14,15), of B] local_accept[OF assms(1,4,5)] assms(3)
  show ?thesis by auto
qed

text \<open>A client and a gateway that speak about the service 203 with each other.\<close>

definition demo_link :: connect_env where
  "demo_link = demo_connect\<lparr>ce_complete_io := (\<lambda>offered _. if offered = [bytes_of_text (create_service_protocol 203)] then Inr demo_cli_tls else Inl send_error)\<rparr>"

lemma demo_link_agreed: "alpn_agreed demo_link (\<lambda>_. demo_tls 100)"
  by (auto simp: alpn_agreed_def demo_link_def demo_tls_def create_service_protocol_def PROTOCOL_SERVICE_def show_u64_203 split: if_splits)

lemma demo_link_connects: "connect_gateway demo_link (cli_visitor_new demo_service 8501 ''gw'' 8400) = Ok demo_cli_tls"
  by (simp add: connect_gateway_def Let_def tls_client_connect_def tls_handshake_def tls_client_new_def demo_link_def demo_connect_def
      proxy_client_visitor_def unwrap_opt_def demo_cli_tls_def ok_or_def cli_visitor_new_def demo_service_def new_service_def)

theorem local_connection_reaches_service_witness:
  "\<exists>st xvis' sh' key st'. cli_tcp_on_conn_accepted demo_link demo_local_conn
       (cli_visitor_new demo_service 8501 ''gw'' 8400, xm_shared demo_started_cli) = (Ok (), xvis', sh') \<and>
     hm_get (xs_services_by_proxy_key sh') key = Some 203 \<and>
     hand_over (gateway_visitor (\<lambda>_. sop_lift (Ok ())) demo_gw_lib demo_reachable_net demo_config) (demo_tls 100) st = (Ok (), st') \<and>
     (203, 100, demo_session_key) \<in> sessions (gws_mgr st')"
proof -
  obtain ch where r: "gw_reachable True demo_gw_lib demo_reachable_net demo_json demo_cli demo_config
      \<lparr>gws_mgr = demo_started_mgr, gws_shutdown_requested = False, gws_crl = (None, []), gws_conns = [demo_control_conn\<lparr>cn_events := ch\<rparr>]\<rparr>" (is "gw_reachable _ _ _ _ _ _ ?st")
    by (rule demo_started_reachable)
  note i = reachable_inv[OF r demo_user_inv]
  have c: "sv_service_id (xv_service (cli_visitor_new demo_service 8501 ''gw'' 8400)) = 203" "st_clone_err (cn_stream demo_local_conn) = None"
    "receiver_alive (xs_proxy_tasks (xm_shared demo_started_cli))"
    by (simp_all add: cli_visitor_new_def demo_service_def new_service_def demo_local_conn_def demo_local_stream_def demo_cli_tls_def net_stream.defs
        demo_started_cli_defs new_chan_def)
  have a: "rw_avail (cfg_service_repo demo_config)" "regex_digits (gl_digits demo_gw_lib)"
    by (simp_all add: rw_avail_def demo_config_def demo_gw_lib_def ascii_nd_ok)
  have u: "100 = ctx_user_id (dv_cert_access_context (demo_device 100))" "(100 :: u64) \<noteq> 0" by (simp_all add: demo_device_def)
  have v: "get_service_proxy (gws_mgr ?st) 203 = Some (svc_visitor_new demo_service (Some ''gw'') 8500)" by (simp add: demo_started_visitor)
  obtain s1 s2 where t: "opening_task demo_reachable_net demo_config (demo_tls 100) (sp_service (svc_visitor_new demo_service (Some ''gw'') 8500)) =
      Some (OpenTcpAndTcpProxy demo_session_key s1 s2)"
    using demo_opening_task by (auto simp: svc_visitor_new_def)
  from local_connection_reaches_service[where B = "\<lambda>_. sop_lift (Ok ())", OF demo_link_connects demo_link_agreed c i demo_user_inv a demo_authorize_device(1) u demo_entitled v t]
  show ?thesis by (metis task_key.simps(2))
qed

end
